(* ===== verification/Flyc_Prelude.thy ===== *)
theory Flyc_Prelude
  imports Complex_Main "HOL-Library.AList" "HOL-Library.Char_ord" "HOL-Library.List_Lexorder"
    "HOL-Library.Product_Lexorder" "HOL-Library.Signed_Division" "HOL-Library.Multiset"
    "HOL-Library.Sublist" "HOL-Library.Code_Target_Nat"
begin

text \<open>
  What every component of the development shares: the error and result types, the 64-bit
  integers and IEEE doubles of Go as far as the program uses them, the functions of Go's
  standard library on strings that the program calls (\<open>strings.Cut\<close>, \<open>strings.Split\<close>,
  \<open>strings.Join\<close>, \<open>strings.ReplaceAll\<close>, \<open>strconv.FormatInt\<close>, \<open>strconv.ParseInt\<close>,
  \<open>hex.EncodeToString\<close>, \<open>url.PathEscape\<close>, \<open>url.QueryEscape\<close>), a type of JSON values and HTTP responses, and one locale for
  step systems with an invariant. A Go string is its list of bytes (Isabelle's \<open>char\<close> is a
  byte). Functions of the standard library that depend on the Unicode tables are arguments.
\<close>

section \<open>Errors and results\<close>

text \<open>
  An operation that can fail returns \<open>Inl\<close> of an error. \<open>EStore\<close> is an error of the Redis
  client, \<open>EDb\<close> one of Postgres, \<open>EApi n\<close> an HTTP error of a remote API with status \<open>n\<close>,
  \<open>ENet\<close> a transport error, \<open>EPanic\<close> a Go panic, \<open>EFuel\<close> a loop cut off by the model.
\<close>

datatype err =
    EStore
  | EDb
  | EApi int
  | ENet
  | EInvalid string
  | EPanic string
  | EFuel

type_synonym 'a res = "err + 'a"

text \<open>Sequencing of state-passing operations that may fail: the first error wins.\<close>

definition bindR :: "('s \<Rightarrow> 'a res \<times> 's) \<Rightarrow> ('a \<Rightarrow> 's \<Rightarrow> 'b res \<times> 's) \<Rightarrow> 's \<Rightarrow> 'b res \<times> 's" where
  "bindR m f s = (case m s of (Inl e, s') \<Rightarrow> (Inl e, s') | (Inr x, s') \<Rightarrow> f x s')"

lemma bindR_Inr [simp]: "m s = (Inr x, s') \<Longrightarrow> bindR m f s = f x s'"
  by (simp add: bindR_def)

lemma bindR_Inl [simp]: "m s = (Inl e, s') \<Longrightarrow> bindR m f s = (Inl e, s')"
  by (simp add: bindR_def)

lemma bindR_eq_Inr:
  "bindR m f s = (Inr y, t) \<longleftrightarrow> (\<exists>x s'. m s = (Inr x, s') \<and> f x s' = (Inr y, t))"
  by (auto simp: bindR_def split: prod.splits sum.splits)

section \<open>Machine numbers\<close>

text \<open>
  Go's \<open>int64\<close> is an \<open>int\<close> with the wrap-around written out. A double that holds an integer
  is that integer; \<open>f64_of_int\<close> is Go's conversion \<open>float64(n)\<close>: exact up to \<open>2^53\<close>, then
  rounded to 53 significant bits, ties to even.
\<close>

definition wrap64 :: "int \<Rightarrow> int" where
  "wrap64 x = (x + 2 ^ 63) mod 2 ^ 64 - 2 ^ 63"

lemma wrap64_id: "- (2 ^ 63) \<le> x \<Longrightarrow> x < 2 ^ 63 \<Longrightarrow> wrap64 x = x"
  by (simp add: wrap64_def)

lemma wrap64_range: "- (2 ^ 63) \<le> wrap64 x \<and> wrap64 x < 2 ^ 63"
  by (simp add: wrap64_def)

fun bit_len :: "nat \<Rightarrow> nat" where
  "bit_len n = (if n = 0 then 0 else Suc (bit_len (n div 2)))"

declare bit_len.simps [simp del]

definition f64_of_nat :: "nat \<Rightarrow> nat" where
  "f64_of_nat n =
     (if n \<le> 2 ^ 53 then n
      else (let e = bit_len n - 53; q = n div 2 ^ e; r = n mod 2 ^ e; h = 2 ^ (e - 1)
            in (if h < r \<or> (r = h \<and> odd q) then Suc q else q) * 2 ^ e))"

definition f64_of_int :: "int \<Rightarrow> int" where
  "f64_of_int x = (if x < 0 then - int (f64_of_nat (nat (- x))) else int (f64_of_nat (nat x)))"

lemma f64_of_int_exact: "0 \<le> x \<Longrightarrow> x \<le> 2 ^ 53 \<Longrightarrow> f64_of_int x = x"
  by (simp add: f64_of_int_def f64_of_nat_def nat_le_iff)

section \<open>Strings\<close>

subsection \<open>Decimal integers: strconv.FormatInt and strconv.ParseInt\<close>

definition is_digit :: "char \<Rightarrow> bool" where
  "is_digit c \<longleftrightarrow> 48 \<le> (of_char c :: nat) \<and> (of_char c :: nat) \<le> 57"

definition digit :: "nat \<Rightarrow> char" where
  "digit d = char_of (48 + d)"

definition digit_val :: "char \<Rightarrow> nat" where
  "digit_val c = of_char c - 48"

lemma digit_props: "d < 10 \<Longrightarrow> is_digit (digit d) \<and> digit_val (digit d) = d"
  by (simp add: is_digit_def digit_def digit_val_def)

fun show_nat :: "nat \<Rightarrow> string" where
  "show_nat n = (if n < 10 then [digit n] else show_nat (n div 10) @ [digit (n mod 10)])"

declare show_nat.simps [simp del]

definition show_int :: "int \<Rightarrow> string" where
  "show_int i = (if i < 0 then CHR ''-'' # show_nat (nat (- i)) else show_nat (nat i))"

datatype num_err = Syntax | Range

text \<open>\<open>strconv.ParseUint\<close> in base 10: the first bad byte or the first overflow decides.\<close>

fun parse_u64 :: "nat \<Rightarrow> string \<Rightarrow> num_err + nat" where
  "parse_u64 acc [] = Inr acc"
| "parse_u64 acc (c # cs) =
     (if \<not> is_digit c then Inl Syntax
      else if 2 ^ 64 \<le> acc * 10 + digit_val c then Inl Range
      else parse_u64 (acc * 10 + digit_val c) cs)"

text \<open>
  \<open>strconv.ParseInt(s, 10, 64)\<close>: the pair of the value and of the error, as in Go, where the
  value is 0 on a syntax error and the nearest bound on a range error.
\<close>

definition parse_int_mag :: "bool \<Rightarrow> string \<Rightarrow> int \<times> num_err option" where
  "parse_int_mag neg s =
     (if s = [] then (0, Some Syntax)
      else case parse_u64 0 s of
        Inl Syntax \<Rightarrow> (0, Some Syntax)
      | Inl Range \<Rightarrow> (if neg then - (2 ^ 63) else 2 ^ 63 - 1, Some Range)
      | Inr n \<Rightarrow> (if neg then (if 2 ^ 63 < n then (- (2 ^ 63), Some Range) else (- int n, None))
                 else (if 2 ^ 63 \<le> n then (2 ^ 63 - 1, Some Range) else (int n, None))))"

definition ParseInt :: "string \<Rightarrow> int \<times> num_err option" where
  "ParseInt s = (case s of
       [] \<Rightarrow> (0, Some Syntax)
     | c # cs \<Rightarrow> (if c = CHR ''-'' then parse_int_mag True cs
                 else if c = CHR ''+'' then parse_int_mag False cs
                 else parse_int_mag False s))"

lemma show_nat_digits: "c \<in> set (show_nat n) \<Longrightarrow> is_digit c"
proof (induction n rule: show_nat.induct)
  case (1 n)
  then show ?case
    by (cases "n < 10") (auto simp: show_nat.simps [of n] digit_props)
qed

lemma show_nat_nonempty [simp]: "show_nat n \<noteq> []"
  by (subst show_nat.simps) simp

lemma parse_u64_append:
  "parse_u64 acc (xs @ ys) = (case parse_u64 acc xs of Inl e \<Rightarrow> Inl e | Inr n \<Rightarrow> parse_u64 n ys)"
  by (induction xs arbitrary: acc) auto

lemma parse_u64_show_nat: "n < 2 ^ 64 \<Longrightarrow> parse_u64 0 (show_nat n) = Inr n"
proof (induction n rule: show_nat.induct)
  case (1 n)
  show ?case
  proof (cases "n < 10")
    case True
    then show ?thesis by (simp add: show_nat.simps [of n] digit_props)
  next
    case False
    moreover have "n div 10 < 2 ^ 64" using "1.prems" by simp
    ultimately have "parse_u64 0 (show_nat (n div 10)) = Inr (n div 10)" using "1.IH" by blast
    with False "1.prems" show ?thesis
      by (simp add: show_nat.simps [of n] parse_u64_append digit_props)
  qed
qed

lemma show_nat_hd:
  obtains c cs where "show_nat n = c # cs" and "is_digit c"
  by (metis list.exhaust list.set_intros(1) show_nat_digits show_nat_nonempty)

text \<open>The round trip every decimal field of the Redis hashes relies on.\<close>

lemma ParseInt_show_int:
  assumes "- (2 ^ 63) \<le> i" and "i < 2 ^ 63"
  shows "ParseInt (show_int i) = (i, None)"
proof (cases "i < 0")
  case True
  let ?n = "nat (- i)"
  have lt: "?n < 2 ^ 64" and le: "\<not> 2 ^ 63 < ?n" and v: "- int ?n = i" using assms True by auto
  have "parse_u64 0 (show_nat ?n) = Inr ?n" by (rule parse_u64_show_nat [OF lt])
  then have "parse_int_mag True (show_nat ?n) = (- int ?n, None)"
    unfolding parse_int_mag_def using le by (simp only: show_nat_nonempty if_False if_True sum.case)
  with True v show ?thesis by (simp add: ParseInt_def show_int_def)
next
  case False
  let ?n = "nat i"
  have lt: "?n < 2 ^ 64" and le: "\<not> 2 ^ 63 \<le> ?n" and v: "int ?n = i" using assms False by auto
  have "parse_u64 0 (show_nat ?n) = Inr ?n" by (rule parse_u64_show_nat [OF lt])
  then have "parse_int_mag False (show_nat ?n) = (int ?n, None)"
    unfolding parse_int_mag_def using le by (simp only: show_nat_nonempty if_False sum.case)
  moreover obtain c cs where s: "show_nat ?n = c # cs" and "is_digit c" by (rule show_nat_hd)
  moreover from \<open>is_digit c\<close> have "c \<noteq> CHR ''-''" and "c \<noteq> CHR ''+''" by (auto simp: is_digit_def)
  moreover have "show_int i = show_nat ?n" using False by (simp add: show_int_def)
  ultimately show ?thesis using v by (simp add: ParseInt_def)
qed

lemma show_int_inj:
  "- (2 ^ 63) \<le> i \<Longrightarrow> i < 2 ^ 63 \<Longrightarrow> - (2 ^ 63) \<le> j \<Longrightarrow> j < 2 ^ 63 \<Longrightarrow>
   show_int i = show_int j \<longleftrightarrow> i = j"
  by (metis ParseInt_show_int prod.inject)

lemma show_int_chars: "c \<in> set (show_int i) \<Longrightarrow> is_digit c \<or> c = CHR ''-''"
  using show_nat_digits by (auto simp: show_int_def split: if_splits)

subsection \<open>Cutting, splitting and joining\<close>

text \<open>\<open>strings.Cut\<close> and \<open>strings.Split\<close> for a separator of one byte.\<close>

definition cut :: "char \<Rightarrow> string \<Rightarrow> (string \<times> string) option" where
  "cut c s = (case dropWhile (\<lambda>x. x \<noteq> c) s of
       [] \<Rightarrow> None
     | _ # r \<Rightarrow> Some (takeWhile (\<lambda>x. x \<noteq> c) s, r))"

fun split_on :: "char \<Rightarrow> string \<Rightarrow> string list" where
  "split_on c [] = [[]]"
| "split_on c (x # xs) =
     (if x = c then [] # split_on c xs
      else case split_on c xs of [] \<Rightarrow> [[x]] | y # ys \<Rightarrow> (x # y) # ys)"

fun join :: "string \<Rightarrow> string list \<Rightarrow> string" where
  "join sep [] = []"
| "join sep [x] = x"
| "join sep (x # y # ys) = x @ sep @ join sep (y # ys)"

definition replace_char :: "char \<Rightarrow> char \<Rightarrow> string \<Rightarrow> string" where
  "replace_char a b s = map (\<lambda>x. if x = a then b else x) s"

lemma cut_Some: "cut c s = Some (a, b) \<longleftrightarrow> s = a @ c # b \<and> c \<notin> set a"
proof
  assume "cut c s = Some (a, b)"
  then obtain d where d: "dropWhile (\<lambda>x. x \<noteq> c) s = d # b" and a: "a = takeWhile (\<lambda>x. x \<noteq> c) s"
    by (auto simp: cut_def split: list.splits)
  from d have "d = c" using hd_dropWhile [of "\<lambda>x. x \<noteq> c" s] by (auto simp: d)
  with d a show "s = a @ c # b \<and> c \<notin> set a"
    using takeWhile_dropWhile_id [of "\<lambda>x. x \<noteq> c" s] by (auto dest: set_takeWhileD)
next
  assume "s = a @ c # b \<and> c \<notin> set a"
  then show "cut c s = Some (a, b)"
    by (auto simp: cut_def dropWhile_append takeWhile_append)
qed

lemma cut_None: "cut c s = None \<longleftrightarrow> c \<notin> set s"
proof -
  have "cut c s = None \<longleftrightarrow> dropWhile (\<lambda>x. x \<noteq> c) s = []"
    by (auto simp: cut_def simp del: dropWhile_eq_Nil_conv split: list.splits)
  also have "\<dots> \<longleftrightarrow> (\<forall>x \<in> set s. x \<noteq> c)" by (simp only: dropWhile_eq_Nil_conv)
  finally show ?thesis by blast
qed

lemma split_on_nonempty [simp]: "split_on c s \<noteq> []"
  by (induction s) (auto split: list.splits)

lemma split_on_append:
  "c \<notin> set a \<Longrightarrow> split_on c (a @ c # b) = a # split_on c b"
  by (induction a) auto

lemma split_on_fresh: "c \<notin> set a \<Longrightarrow> split_on c a = [a]"
  by (induction a) auto

lemma split_on_join:
  "xs \<noteq> [] \<Longrightarrow> (\<forall>x \<in> set xs. c \<notin> set x) \<Longrightarrow> split_on c (join [c] xs) = xs"
proof (induction xs)
  case Nil
  then show ?case by simp
next
  case (Cons x xs)
  then show ?case by (cases xs) (simp_all add: split_on_append split_on_fresh)
qed

lemma join_split_on: "join [c] (split_on c s) = s"
proof (induction s)
  case Nil
  then show ?case by simp
next
  case (Cons x s)
  obtain y ys where s: "split_on c s = y # ys" using split_on_nonempty [of c s] by (cases "split_on c s") auto
  with Cons show ?case by (cases ys) auto
qed

lemma split_on_no_sep: "x \<in> set (split_on c s) \<Longrightarrow> c \<notin> set x"
proof (induction s arbitrary: x)
  case Nil
  then show ?case by simp
next
  case (Cons a s)
  then show ?case
    by (cases "split_on c s") (auto split: if_splits)
qed

lemma split_join_length3:
  "split_on c s = [x, y, z] \<Longrightarrow> s = x @ c # y @ c # z"
  using join_split_on [of c s] by simp

subsection \<open>Case folding and trimming\<close>

text \<open>
  \<open>strings.ToLower\<close> and \<open>strings.TrimSpace\<close> work byte by byte on an ASCII string and by the
  Unicode tables otherwise. The tables are not the program's: the functions take the Unicode
  case as an argument \<open>u\<close>.
\<close>

definition ascii :: "string \<Rightarrow> bool" where
  "ascii s \<longleftrightarrow> list_all (\<lambda>c. (of_char c :: nat) < 128) s"

definition lower_char :: "char \<Rightarrow> char" where
  "lower_char c = (let n = (of_char c :: nat) in if 65 \<le> n \<and> n \<le> 90 then char_of (n + 32) else c)"

definition to_lower :: "(string \<Rightarrow> string) \<Rightarrow> string \<Rightarrow> string" where
  "to_lower u s = (if ascii s then map lower_char s else u s)"

definition is_space :: "char \<Rightarrow> bool" where
  "is_space c \<longleftrightarrow> (of_char c :: nat) \<in> {9, 10, 11, 12, 13, 32}"

definition trim_space :: "(string \<Rightarrow> string) \<Rightarrow> string \<Rightarrow> string" where
  "trim_space u s =
     (if ascii s then rev (dropWhile is_space (rev (dropWhile is_space s))) else u s)"

lemma lower_char_idem [simp]: "lower_char (lower_char c) = lower_char c"
  by (auto simp: lower_char_def Let_def)

lemma lower_char_ascii: "(of_char c :: nat) < 128 \<Longrightarrow> (of_char (lower_char c) :: nat) < 128"
  by (auto simp: lower_char_def Let_def)

lemma to_lower_idem_ascii: "ascii s \<Longrightarrow> to_lower u (to_lower u s) = to_lower u s"
  by (auto simp: to_lower_def ascii_def list_all_iff lower_char_ascii)

subsection \<open>Hexadecimal\<close>

definition hex_digit :: "nat \<Rightarrow> char" where
  "hex_digit n = (if n < 10 then char_of (48 + n) else char_of (87 + n))"

definition hex :: "string \<Rightarrow> string" where
  "hex bs = concat (map (\<lambda>b. [hex_digit (of_char b div 16), hex_digit (of_char b mod 16)]) bs)"

lemma of_char_hex_digit:
  "n < 16 \<Longrightarrow> (of_char (hex_digit n) :: nat) = (if n < 10 then 48 + n else 87 + n)"
  by (simp add: hex_digit_def)

lemma hex_digit_ne: "n < 16 \<Longrightarrow> hex_digit n \<noteq> CHR ''.'' \<and> hex_digit n \<noteq> CHR '':''"
  using of_char_hex_digit [of n] by (auto split: if_splits)

lemma hex_no_dot: "CHR ''.'' \<notin> set (hex bs)"
proof -
  have "(of_char b :: nat) < 16 * 16" for b :: char
    using nat_of_char_less_256 [of b] by simp
  then have "(of_char b :: nat) div 16 < 16" for b :: char
    by (rule less_mult_imp_div_less)
  then have "hex_digit (of_char b div 16) \<noteq> CHR ''.''" and "hex_digit (of_char b mod 16) \<noteq> CHR ''.''" for b :: char
    using hex_digit_ne by simp_all
  then show ?thesis unfolding hex_def by (induction bs) (auto dest!: sym [of "CHR ''.''"])
qed

lemma hex_length: "length (hex bs) = 2 * length bs"
  by (induction bs) (auto simp: hex_def)

subsection \<open>Escaping: net/url\<close>

definition unreserved :: "char \<Rightarrow> bool" where
  "unreserved c \<longleftrightarrow> (let n = (of_char c :: nat) in (65 \<le> n \<and> n \<le> 90) \<or> (97 \<le> n \<and> n \<le> 122) \<or> (48 \<le> n \<and> n \<le> 57))
     \<or> c \<in> {CHR ''-'', CHR ''_'', CHR ''.'', CHR ''~''}"

definition upper_hex :: "nat \<Rightarrow> char" where
  "upper_hex n = (if n < 10 then char_of (48 + n) else char_of (55 + n))"

text \<open>The bytes of \<open>keep\<close> stay, a space is a pl where \<open>pl\<close> holds, the others are a percent sign and two digits.\<close>

definition url_escape :: "(char \<Rightarrow> bool) \<Rightarrow> bool \<Rightarrow> string \<Rightarrow> string" where
  "url_escape keep pl s = concat (map (\<lambda>c. if keep c then [c] else if pl \<and> c = CHR '' '' then ''+''
     else [CHR ''%'', upper_hex (of_char c div 16), upper_hex (of_char c mod 16)]) s)"

definition path_char :: "char \<Rightarrow> bool" where
  "path_char c \<longleftrightarrow> unreserved c \<or> c \<in> set ''$&+:=@''"

definition QueryEscape :: "string \<Rightarrow> string" where
  "QueryEscape s = url_escape unreserved True s"

definition PathEscape :: "string \<Rightarrow> string" where
  "PathEscape s = url_escape path_char False s"

definition upper_val :: "char \<Rightarrow> nat" where
  "upper_val c = (let n = of_char c in if n < 58 then n - 48 else n - 55)"

fun url_unescape :: "bool \<Rightarrow> string \<Rightarrow> string" where
  "url_unescape pl [] = []"
| "url_unescape pl (c # s) =
     (if c = CHR ''%'' then (case s of a # b # r \<Rightarrow> char_of (16 * upper_val a + upper_val b) # url_unescape pl r | _ \<Rightarrow> [])
      else (if pl \<and> c = CHR ''+'' then CHR '' '' else c) # url_unescape pl s)"

lemma upper_hex_code: "n < 16 \<Longrightarrow> (of_char (upper_hex n) :: nat) = (if n < 10 then 48 + n else 55 + n)"
  by (simp add: upper_hex_def)

lemma upper_val_hex: "n < 16 \<Longrightarrow> upper_val (upper_hex n) = n"
  by (simp add: upper_val_def upper_hex_code)

lemma nibbles: "(of_char (c :: char) :: nat) div 16 < 16" "(of_char (c :: char) :: nat) mod 16 < 16"
proof -
  have "(of_char c :: nat) < 16 * 16" using nat_of_char_less_256 [of c] by simp
  then show "(of_char c :: nat) div 16 < 16" by (rule less_mult_imp_div_less)
qed simp

lemma url_unescape_escape:
  assumes "\<not> keep (CHR ''%'')" and "pl \<Longrightarrow> \<not> keep (CHR ''+'')"
  shows "url_unescape pl (url_escape keep pl s) = s"
proof (induction s)
  case Nil
  then show ?case by (simp add: url_escape_def)
next
  case (Cons c s)
  have "char_of (16 * upper_val (upper_hex (of_char c div 16)) + upper_val (upper_hex (of_char c mod 16))) = c"
    by (simp add: upper_val_hex nibbles)
  then show ?case using assms Cons by (auto simp: url_escape_def)
qed

lemma upper_hex_unreserved: "n < 16 \<Longrightarrow> unreserved (upper_hex n)"
  using upper_hex_code [of n] by (simp add: unreserved_def split: if_splits)

lemma url_escape_chars: "x \<in> set (url_escape keep pl s) \<Longrightarrow> keep x \<or> x = CHR ''%'' \<or> x = CHR ''+'' \<or> unreserved x"
proof (induction s)
  case (Cons c s)
  have "unreserved (upper_hex (of_char c div 16))" "unreserved (upper_hex (of_char c mod 16))"
    using upper_hex_unreserved nibbles by blast+
  with Cons show ?case by (simp add: url_escape_def split: if_splits) blast+
qed (simp add: url_escape_def)

lemma PathEscape_eq [simp]: "PathEscape a = PathEscape b \<longleftrightarrow> a = b"
proof -
  have "\<not> path_char (CHR ''%'')" by (simp add: path_char_def unreserved_def)
  then have "url_unescape False (PathEscape x) = x" for x unfolding PathEscape_def by (simp add: url_unescape_escape)
  then show ?thesis by metis
qed

lemma QueryEscape_eq [simp]: "QueryEscape a = QueryEscape b \<longleftrightarrow> a = b"
proof -
  have "\<not> unreserved (CHR ''%'')" "\<not> unreserved (CHR ''+'')" by (simp_all add: unreserved_def)
  then have "url_unescape True (QueryEscape x) = x" for x unfolding QueryEscape_def by (simp add: url_unescape_escape)
  then show ?thesis by metis
qed

lemma PathEscape_free: "CHR ''/'' \<notin> set (PathEscape s)" "CHR ''?'' \<notin> set (PathEscape s)"
proof -
  have "\<not> path_char (CHR ''/'')" "\<not> path_char (CHR ''?'')" "\<not> unreserved (CHR ''/'')" "\<not> unreserved (CHR ''?'')"
    by (simp_all add: path_char_def unreserved_def)
  then show "CHR ''/'' \<notin> set (PathEscape s)" "CHR ''?'' \<notin> set (PathEscape s)"
    using url_escape_chars [of _ path_char False s] unfolding PathEscape_def by blast+
qed

lemma QueryEscape_free: "CHR ''&'' \<notin> set (QueryEscape s)" "CHR ''='' \<notin> set (QueryEscape s)"
proof -
  have "\<not> unreserved (CHR ''&'')" "\<not> unreserved (CHR ''='')" by (simp_all add: unreserved_def)
  then show "CHR ''&'' \<notin> set (QueryEscape s)" "CHR ''='' \<notin> set (QueryEscape s)"
    using url_escape_chars [of _ unreserved True s] unfolding QueryEscape_def by blast+
qed

section \<open>JSON values and HTTP responses\<close>

datatype jv =
    JNull
  | JBool bool
  | JInt int
  | JNum rat
  | JStr string
  | JArr "jv list"
  | JObj "(string \<times> jv) list"

text \<open>
  A response: status, the cookies and the other headers set, and the body. \<open>Body\<close> is a JSON
  document, \<open>Location\<close> a redirection, \<open>Events\<close> the events of a stream, in order.
\<close>

datatype body = Body jv | Location string | Events "(string \<times> jv) list" | Raw string | NoBody

record resp =
  code :: int
  cookies :: "(string \<times> string) list"
  headers :: "(string \<times> string) list"
  body :: body

definition JSON :: "int \<Rightarrow> jv \<Rightarrow> resp" where
  "JSON c v = \<lparr>code = c, cookies = [], headers = [], body = Body v\<rparr>"

definition Error :: "int \<Rightarrow> string \<Rightarrow> string \<Rightarrow> resp" where
  "Error status c msg = JSON status (JObj [(''error'', JStr c), (''message'', JStr msg)])"

definition Redirect :: "string \<Rightarrow> int \<Rightarrow> resp" where
  "Redirect url c = \<lparr>code = c, cookies = [], headers = [], body = Location url\<rparr>"

lemma Error_code [simp]: "code (Error s c m) = s"
  by (simp add: Error_def JSON_def)

lemma JSON_code [simp]: "code (JSON s v) = s"
  by (simp add: JSON_def)

definition trim_right_slash :: "string \<Rightarrow> string" where
  "trim_right_slash s = rev (dropWhile (\<lambda>c. c = CHR ''/'') (rev s))"

section \<open>Association lists\<close>

lemma map_of_AList_update [simp]:
  "map_of (AList.update k v al) = (map_of al)(k \<mapsto> v)"
  by (rule update_conv')

lemma map_of_AList_delete [simp]:
  "map_of (AList.delete k al) = (map_of al)(k := None)"
  by (rule delete_conv')

section \<open>Step systems\<close>

text \<open>
  Several components are a state with operations and a property every operation keeps. The
  locale has the operations as one step function on an event type and proves that the property
  holds after any sequence of events; each component interprets it on its own step.
\<close>

locale step_system =
  fixes step :: "'s \<Rightarrow> 'e \<Rightarrow> 's" and inv :: "'s \<Rightarrow> bool"
  assumes step_inv: "inv s \<Longrightarrow> inv (step s e)"
begin

lemma run_inv: "inv s \<Longrightarrow> inv (foldl step s es)"
  by (induction es arbitrary: s) (auto intro: step_inv)

lemma run_prefix_inv: "inv s \<Longrightarrow> prefix es' es \<Longrightarrow> inv (foldl step s es')"
  by (rule run_inv)

end

end
