(* ===== verification/Redis_Model.thy ===== *)
theory Redis_Model
  imports Flyc_Prelude
begin

text \<open>
  The Redis server that flyc-queue talks to is not part of the repository, so it is an
  argument of every definition that uses it: a function \<open>call\<close> from the server's state and a
  pipeline of commands to the replies (or \<open>None\<close>, a lost connection) and the next state. The
  locale \<open>redis_server\<close> holds what the Redis documentation promises and the code relies on:
  through a view of the data the server holds, a pipeline that returns has run its commands in
  order, and one that fails has run some of them, in order (Redis has no roll-back, and the
  cluster client splits a pipeline by node). Which
  elements SPOP takes and in which order SMEMBERS and SCAN list is left open, as the
  documentation leaves it. At the end an in-memory server, with a schedule of connection
  faults, interprets the locale and is what the witnesses run on.
\<close>

type_synonym key = string

text \<open>The events published on the channel of a room (store.Event).\<close>

record event =
  EType :: string
  EAdmitted :: "string list"
  EPending :: int
  EHead :: rat
  ERate :: rat

text \<open>The commands the program sends. Durations are in nanoseconds.\<close>

datatype cmd =
    HGETALL key
  | HSET key "(string \<times> string) list"
  | HINCRBY key string int
  | GET key
  | SET key string
  | SETNX key string int
  | EXPIRE key int
  | SADD key string
  | SMEMBERS key
  | SCARD key
  | SPOPN key nat
  | ZADD key "(rat \<times> string) list"
  | ZCARD key
  | ZRANK key string
  | ZPOPMIN key nat
  | ZREMRANGEBYSCORE key rat
  | ZRANGE key nat nat
  | DEL key
  | PUBLISH key event
  | SCAN string
  | EVALDELIF key string

datatype reply =
    ROk
  | RNil
  | RErr
  | RInt int
  | RBool bool
  | RStr string
  | RList "string list"
  | RHash "(string \<times> string) list"
  | RZ "(rat \<times> string) list"

fun as_int :: "reply \<Rightarrow> int" where
  "as_int (RInt i) = i" | "as_int _ = 0"

fun as_list :: "reply \<Rightarrow> string list" where
  "as_list (RList xs) = xs" | "as_list _ = []"

fun as_hash :: "reply \<Rightarrow> (string \<times> string) list" where
  "as_hash (RHash h) = h" | "as_hash _ = []"

fun as_z :: "reply \<Rightarrow> (rat \<times> string) list" where
  "as_z (RZ z) = z" | "as_z _ = []"

fun as_bool :: "reply \<Rightarrow> bool" where
  "as_bool (RBool b) = b" | "as_bool _ = False"

section \<open>What the server holds\<close>

text \<open>
  Hashes, sets, sorted sets (in increasing order of score, then of member), strings, the
  expiry delays set and the messages published, newest last. A key with no element is absent.
\<close>

record rdb =
  hashes :: "(key \<times> (string \<times> string) list) list"
  sets :: "(key \<times> string list) list"
  zsets :: "(key \<times> (rat \<times> string) list) list"
  strs :: "(key \<times> string) list"
  ttls :: "(key \<times> int) list"
  chan :: "(key \<times> event) list"

definition empty_rdb :: rdb where
  "empty_rdb = \<lparr>hashes = [], sets = [], zsets = [], strs = [], ttls = [], chan = []\<rparr>"

definition lget :: "(key \<times> 'a list) list \<Rightarrow> key \<Rightarrow> 'a list" where
  "lget al k = (case map_of al k of None \<Rightarrow> [] | Some x \<Rightarrow> x)"

definition lput :: "key \<Rightarrow> 'a list \<Rightarrow> (key \<times> 'a list) list \<Rightarrow> (key \<times> 'a list) list" where
  "lput k x al = (if x = [] then AList.delete k al else AList.update k x al)"

lemma lget_lput [simp]: "lget (lput k x al) k' = (if k' = k then x else lget al k')"
  by (auto simp: lget_def lput_def)

lemma lget_delete [simp]: "lget (AList.delete k al) k' = (if k' = k then [] else lget al k')"
  by (simp add: lget_def)

lemma lget_Nil [simp]: "lget [] k = []"
  by (simp add: lget_def)

abbreviation hget :: "rdb \<Rightarrow> key \<Rightarrow> (string \<times> string) list" where "hget db \<equiv> lget (hashes db)"
abbreviation sget :: "rdb \<Rightarrow> key \<Rightarrow> string list" where "sget db \<equiv> lget (sets db)"
abbreviation zget :: "rdb \<Rightarrow> key \<Rightarrow> (rat \<times> string) list" where "zget db \<equiv> lget (zsets db)"

definition hput :: "key \<Rightarrow> (string \<times> string) list \<Rightarrow> rdb \<Rightarrow> rdb" where
  "hput k h db = db\<lparr>hashes := lput k h (hashes db)\<rparr>"

definition sput :: "key \<Rightarrow> string list \<Rightarrow> rdb \<Rightarrow> rdb" where
  "sput k x db = db\<lparr>sets := lput k x (sets db)\<rparr>"

definition zput :: "key \<Rightarrow> (rat \<times> string) list \<Rightarrow> rdb \<Rightarrow> rdb" where
  "zput k z db = db\<lparr>zsets := lput k z (zsets db)\<rparr>"

definition strput :: "key \<Rightarrow> string \<Rightarrow> rdb \<Rightarrow> rdb" where
  "strput k v db = db\<lparr>strs := AList.update k v (strs db), ttls := AList.delete k (ttls db)\<rparr>"

definition expire :: "key \<Rightarrow> int \<Rightarrow> rdb \<Rightarrow> rdb" where
  "expire k d db = db\<lparr>ttls := AList.update k d (ttls db)\<rparr>"

definition del_key :: "key \<Rightarrow> rdb \<Rightarrow> rdb" where
  "del_key k db = db\<lparr>hashes := AList.delete k (hashes db), sets := AList.delete k (sets db),
     zsets := AList.delete k (zsets db), strs := AList.delete k (strs db),
     ttls := AList.delete k (ttls db)\<rparr>"

definition publish :: "key \<Rightarrow> event \<Rightarrow> rdb \<Rightarrow> rdb" where
  "publish k e db = db\<lparr>chan := chan db @ [(k, e)]\<rparr>"

definition all_keys :: "rdb \<Rightarrow> key list" where
  "all_keys db = map fst (hashes db) @ map fst (sets db) @ map fst (zsets db) @ map fst (strs db)"

fun hset :: "(string \<times> string) list \<Rightarrow> (string \<times> string) list \<Rightarrow> (string \<times> string) list" where
  "hset [] h = h"
| "hset ((f, v) # fs) h = hset fs (AList.update f v h)"

definition zadd1 :: "rat \<times> string \<Rightarrow> (rat \<times> string) list \<Rightarrow> (rat \<times> string) list" where
  "zadd1 e z = insort e (filter (\<lambda>p. snd p \<noteq> snd e) z)"

fun zrank :: "string \<Rightarrow> (rat \<times> string) list \<Rightarrow> nat option" where
  "zrank m [] = None"
| "zrank m (p # z) = (if snd p = m then Some 0 else map_option Suc (zrank m z))"

lemmas put_defs = hput_def sput_def zput_def strput_def expire_def del_key_def publish_def

section \<open>The documented effect of the commands\<close>

definition hincr :: "key \<Rightarrow> string \<Rightarrow> int \<Rightarrow> rdb \<Rightarrow> reply \<times> rdb" where
  "hincr k f n db =
     (case (case map_of (hget db k) f of None \<Rightarrow> (0, None) | Some v \<Rightarrow> ParseInt v) of
        (old, Some _) \<Rightarrow> (RErr, db)
      | (old, None) \<Rightarrow>
          (if - (2 ^ 63) \<le> old + n \<and> old + n < 2 ^ 63
           then (RInt (old + n), hput k (AList.update f (show_int (old + n)) (hget db k)) db)
           else (RErr, db)))"

fun doc :: "cmd \<Rightarrow> rdb \<Rightarrow> reply \<Rightarrow> rdb \<Rightarrow> bool" where
  "doc (HGETALL k) db r db' \<longleftrightarrow> r = RHash (hget db k) \<and> db' = db"
| "doc (HSET k fs) db r db' \<longleftrightarrow> r = ROk \<and> db' = hput k (hset fs (hget db k)) db"
| "doc (HINCRBY k f n) db r db' \<longleftrightarrow> (r, db') = hincr k f n db"
| "doc (GET k) db r db' \<longleftrightarrow>
     r = (case map_of (strs db) k of None \<Rightarrow> RNil | Some v \<Rightarrow> RStr v) \<and> db' = db"
| "doc (SET k v) db r db' \<longleftrightarrow> r = ROk \<and> db' = strput k v db"
| "doc (SETNX k v d) db r db' \<longleftrightarrow>
     (if map_of (strs db) k = None then r = RBool True \<and> db' = expire k d (strput k v db)
      else r = RBool False \<and> db' = db)"
| "doc (EXPIRE k d) db r db' \<longleftrightarrow>
     (if k \<in> set (all_keys db) then r = RBool True \<and> db' = expire k d db
      else r = RBool False \<and> db' = db)"
| "doc (SADD k m) db r db' \<longleftrightarrow>
     (if m \<in> set (sget db k) then r = RInt 0 \<and> db' = db
      else r = RInt 1 \<and> db' = sput k (sget db k @ [m]) db)"
| "doc (SMEMBERS k) db r db' \<longleftrightarrow>
     (\<exists>xs. r = RList xs \<and> mset xs = mset (sget db k)) \<and> db' = db"
| "doc (SCARD k) db r db' \<longleftrightarrow> r = RInt (int (length (sget db k))) \<and> db' = db"
| "doc (SPOPN k n) db r db' \<longleftrightarrow>
     (\<exists>out rest. r = RList out \<and> mset out + mset rest = mset (sget db k) \<and>
        length out = min n (length (sget db k)) \<and> db' = sput k rest db)"
| "doc (ZADD k es) db r db' \<longleftrightarrow>
     r = ROk \<and> db' = zput k (foldl (\<lambda>z e. zadd1 e z) (zget db k) es) db"
| "doc (ZCARD k) db r db' \<longleftrightarrow> r = RInt (int (length (zget db k))) \<and> db' = db"
| "doc (ZRANK k m) db r db' \<longleftrightarrow>
     r = (case zrank m (zget db k) of None \<Rightarrow> RNil | Some i \<Rightarrow> RInt (int i)) \<and> db' = db"
| "doc (ZPOPMIN k n) db r db' \<longleftrightarrow>
     r = RZ (take n (zget db k)) \<and> db' = zput k (drop n (zget db k)) db"
| "doc (ZREMRANGEBYSCORE k mx) db r db' \<longleftrightarrow>
     r = RInt (int (length (filter (\<lambda>p. fst p \<le> mx) (zget db k)))) \<and>
     db' = zput k (filter (\<lambda>p. mx < fst p) (zget db k)) db"
| "doc (ZRANGE k i j) db r db' \<longleftrightarrow> r = RZ (take (Suc j - i) (drop i (zget db k))) \<and> db' = db"
| "doc (DEL k) db r db' \<longleftrightarrow> r = ROk \<and> db' = del_key k db"
| "doc (PUBLISH k e) db r db' \<longleftrightarrow> r = ROk \<and> db' = publish k e db"
| "doc (SCAN p) db r db' \<longleftrightarrow>
     (\<exists>ks. r = RList ks \<and> set ks = {k \<in> set (all_keys db). prefix p k}) \<and> db' = db"
| "doc (EVALDELIF k v) db r db' \<longleftrightarrow>
     (if map_of (strs db) k = Some v then r = RInt 1 \<and> db' = del_key k db
      else r = RInt 0 \<and> db' = db)"

fun docs :: "cmd list \<Rightarrow> rdb \<Rightarrow> reply list \<Rightarrow> rdb \<Rightarrow> bool" where
  "docs [] db rs db' \<longleftrightarrow> rs = [] \<and> db' = db"
| "docs (c # cs) db rs db' \<longleftrightarrow> (\<exists>r rs' db1. rs = r # rs' \<and> doc c db r db1 \<and> docs cs db1 rs' db')"

lemma docs_length: "docs cs db rs db' \<Longrightarrow> length rs = length cs"
  by (induction cs arbitrary: db rs) auto

lemma docs_append:
  "docs (as @ bs) db rs db' \<longleftrightarrow>
   (\<exists>r1 r2 db1. rs = r1 @ r2 \<and> docs as db r1 db1 \<and> docs bs db1 r2 db')"
proof (induction as arbitrary: db rs)
  case Nil
  then show ?case by auto
next
  case (Cons a as)
  show ?case
  proof
    assume "docs ((a # as) @ bs) db rs db'"
    then obtain r rs' db2 where h: "rs = r # rs'" "doc a db r db2" "docs (as @ bs) db2 rs' db'"
      by auto
    from h(3) Cons.IH obtain r1 r2 db1
      where "rs' = r1 @ r2" "docs as db2 r1 db1" "docs bs db1 r2 db'" by blast
    with h(1,2) have "rs = (r # r1) @ r2 \<and> docs (a # as) db (r # r1) db1 \<and> docs bs db1 r2 db'" by auto
    then show "\<exists>r1 r2 db1. rs = r1 @ r2 \<and> docs (a # as) db r1 db1 \<and> docs bs db1 r2 db'" by blast
  next
    assume "\<exists>r1 r2 db1. rs = r1 @ r2 \<and> docs (a # as) db r1 db1 \<and> docs bs db1 r2 db'"
    then obtain r1 r2 db1 where h: "rs = r1 @ r2" "docs (a # as) db r1 db1" "docs bs db1 r2 db'"
      by blast
    from h(2) obtain r r1' db2 where g: "r1 = r # r1'" "doc a db r db2" "docs as db2 r1' db1"
      unfolding docs.simps by blast
    from g(3) h(3) Cons.IH have "docs (as @ bs) db2 (r1' @ r2) db'" by blast
    moreover have "rs = r # (r1' @ r2)" using g(1) h(1) by simp
    ultimately show "docs ((a # as) @ bs) db rs db'"
      unfolding append_Cons docs.simps using g(2) by blast
  qed
qed

section \<open>The client side\<close>

type_synonym 's server = "'s \<Rightarrow> cmd list \<Rightarrow> reply list option \<times> 's"

text \<open>
  A pipeline of the Go client: an error when the connection fails or when a command of it
  returned one, the replies otherwise. \<open>do1\<close> is a single command.
\<close>

definition pipe :: "'s server \<Rightarrow> cmd list \<Rightarrow> 's \<Rightarrow> reply list res \<times> 's" where
  "pipe call cs s = (case call s cs of
       (None, s') \<Rightarrow> (Inl EStore, s')
     | (Some rs, s') \<Rightarrow> (if RErr \<in> set rs then (Inl EStore, s') else (Inr rs, s')))"

definition do1 :: "'s server \<Rightarrow> cmd \<Rightarrow> 's \<Rightarrow> reply res \<times> 's" where
  "do1 call c s = (case pipe call [c] s of
       (Inl e, s') \<Rightarrow> (Inl e, s')
     | (Inr rs, s') \<Rightarrow> (case rs of [] \<Rightarrow> (Inl EStore, s') | r # _ \<Rightarrow> (Inr r, s')))"

locale redis_server =
  fixes call :: "'s server" and view :: "'s \<Rightarrow> rdb"
  assumes call_done: "call s cs = (Some rs, s') \<Longrightarrow> docs cs (view s) rs (view s')"
    and call_lost: "call s cs = (None, s') \<Longrightarrow>
          \<exists>ds rs. subseq ds cs \<and> docs ds (view s) rs (view s')"
begin

lemma pipe_ok: "pipe call cs s = (Inr rs, s') \<Longrightarrow> docs cs (view s) rs (view s') \<and> RErr \<notin> set rs"
  by (auto simp: pipe_def split: prod.splits option.splits if_splits dest: call_done)

lemma pipe_err:
  assumes "pipe call cs s = (Inl e, s')"
  shows "e = EStore \<and> (\<exists>ds rs. subseq ds cs \<and> docs ds (view s) rs (view s'))"
proof (cases "call s cs")
  case (Pair o1 t)
  show ?thesis
  proof (cases o1)
    case None
    then show ?thesis using assms Pair call_lost [of s cs t] by (simp add: pipe_def)
  next
    case (Some rs)
    then have "e = EStore \<and> t = s'" using assms Pair by (simp add: pipe_def split: if_splits)
    then show ?thesis using Some Pair call_done [of s cs rs t] by blast
  qed
qed

lemma do1_ok: "do1 call c s = (Inr r, s') \<Longrightarrow> doc c (view s) r (view s')"
  by (auto simp: do1_def split: prod.splits sum.splits list.splits dest!: pipe_ok)

lemma do1_err:
  assumes "do1 call c s = (Inl e, s')"
  shows "e = EStore \<and> (view s' = view s \<or> (\<exists>r. doc c (view s) r (view s')))"
proof (cases "pipe call [c] s")
  case (Pair a t)
  show ?thesis
  proof (cases a)
    case (Inl e')
    with Pair assms have eq: "e' = e" "t = s'" by (auto simp: do1_def)
    from pipe_err [of "[c]" s e s'] Pair Inl eq obtain ds rs
      where e: "e = EStore" and ds: "subseq ds [c]" and k: "docs ds (view s) rs (view s')" by blast
    from ds have "ds = [] \<or> ds = [c]" by (cases ds) (auto split: if_splits)
    then show ?thesis using e k by auto
  next
    case (Inr rs)
    then show ?thesis using Pair assms pipe_ok [of "[c]" s rs t]
      by (auto simp: do1_def split: list.splits)
  qed
qed

end

section \<open>Well-formed data\<close>

text \<open>
  Sets hold no element twice; a sorted set is strictly increasing and holds no member twice.
  Every command keeps this.
\<close>

definition zwf :: "(rat \<times> string) list \<Rightarrow> bool" where
  "zwf z \<longleftrightarrow> sorted z \<and> distinct (map snd z)"

definition wf :: "rdb \<Rightarrow> bool" where
  "wf db \<longleftrightarrow> (\<forall>k. distinct (sget db k)) \<and> (\<forall>k. zwf (zget db k))"

lemma zwf_filter: "zwf z \<Longrightarrow> zwf (filter P z)"
  by (auto simp: zwf_def sorted_filter [where f = id, simplified] distinct_map_filter)

lemma zwf_take: "zwf z \<Longrightarrow> zwf (take n z)"
  by (simp add: zwf_def sorted_wrt_take flip: take_map)

lemma zwf_drop: "zwf z \<Longrightarrow> zwf (drop n z)"
  by (simp add: zwf_def sorted_wrt_drop flip: drop_map)

lemma distinct_map_snd_insort:
  "distinct (map snd (insort e z)) \<longleftrightarrow> snd e \<notin> snd ` set z \<and> distinct (map snd z)"
  for z :: "(rat \<times> string) list"
  by (induction z) (auto simp: set_insort_key)

lemma zwf_zadd1: "zwf z \<Longrightarrow> zwf (zadd1 e z)"
  using zwf_filter [of z "\<lambda>p. snd p \<noteq> snd e"]
  by (auto simp: zadd1_def zwf_def sorted_insort distinct_map_snd_insort)

lemma zwf_foldl: "zwf z \<Longrightarrow> zwf (foldl (\<lambda>z e. zadd1 e z) z es)"
  by (induction es arbitrary: z) (auto intro: zwf_zadd1)

lemma set_zadd1: "set (zadd1 e z) = insert e {p \<in> set z. snd p \<noteq> snd e}"
  by (auto simp: zadd1_def set_insort_key)

lemma zwf_Nil [simp]: "zwf []"
  by (simp add: zwf_def)

lemma doc_wf: "doc c db r db' \<Longrightarrow> wf db \<Longrightarrow> wf db'"
proof (cases c)
  case (SPOPN k n)
  assume d: "doc c db r db'" and w: "wf db"
  from d SPOPN obtain out rest where m: "mset out + mset rest = mset (sget db k)"
    and db': "db' = sput k rest db" by auto
  from w have "distinct (sget db k)" by (simp add: wf_def)
  then have "distinct rest" by (metis m distinct_append mset_append mset_eq_imp_distinct_iff)
  with w db' show ?thesis by (simp add: wf_def sput_def)
qed (auto simp: wf_def put_defs hincr_def intro: zwf_filter zwf_drop zwf_foldl
      split: if_splits prod.splits option.splits)

lemma docs_wf: "docs cs db rs db' \<Longrightarrow> wf db \<Longrightarrow> wf db'"
  by (induction cs arbitrary: db rs) (auto dest: doc_wf)

section \<open>An in-memory server\<close>

text \<open>
  One server that keeps the promises: the data and a schedule of faults, one entry per round
  trip: \<open>None\<close> for a good one, \<open>Some k\<close> for a connection lost after \<open>k\<close> commands took effect.
  It is the instance the witnesses evaluate.
\<close>

fun mem_exec :: "cmd \<Rightarrow> rdb \<Rightarrow> reply \<times> rdb" where
  "mem_exec (HGETALL k) db = (RHash (hget db k), db)"
| "mem_exec (HSET k fs) db = (ROk, hput k (hset fs (hget db k)) db)"
| "mem_exec (HINCRBY k f n) db = hincr k f n db"
| "mem_exec (GET k) db = ((case map_of (strs db) k of None \<Rightarrow> RNil | Some v \<Rightarrow> RStr v), db)"
| "mem_exec (SET k v) db = (ROk, strput k v db)"
| "mem_exec (SETNX k v d) db =
     (if map_of (strs db) k = None then (RBool True, expire k d (strput k v db)) else (RBool False, db))"
| "mem_exec (EXPIRE k d) db =
     (if k \<in> set (all_keys db) then (RBool True, expire k d db) else (RBool False, db))"
| "mem_exec (SADD k m) db =
     (if m \<in> set (sget db k) then (RInt 0, db) else (RInt 1, sput k (sget db k @ [m]) db))"
| "mem_exec (SMEMBERS k) db = (RList (sget db k), db)"
| "mem_exec (SCARD k) db = (RInt (int (length (sget db k))), db)"
| "mem_exec (SPOPN k n) db = (RList (take n (sget db k)), sput k (drop n (sget db k)) db)"
| "mem_exec (ZADD k es) db = (ROk, zput k (foldl (\<lambda>z e. zadd1 e z) (zget db k) es) db)"
| "mem_exec (ZCARD k) db = (RInt (int (length (zget db k))), db)"
| "mem_exec (ZRANK k m) db =
     ((case zrank m (zget db k) of None \<Rightarrow> RNil | Some i \<Rightarrow> RInt (int i)), db)"
| "mem_exec (ZPOPMIN k n) db = (RZ (take n (zget db k)), zput k (drop n (zget db k)) db)"
| "mem_exec (ZREMRANGEBYSCORE k mx) db =
     (RInt (int (length (filter (\<lambda>p. fst p \<le> mx) (zget db k)))),
      zput k (filter (\<lambda>p. mx < fst p) (zget db k)) db)"
| "mem_exec (ZRANGE k i j) db = (RZ (take (Suc j - i) (drop i (zget db k))), db)"
| "mem_exec (DEL k) db = (ROk, del_key k db)"
| "mem_exec (PUBLISH k e) db = (ROk, publish k e db)"
| "mem_exec (SCAN p) db = (RList (filter (prefix p) (all_keys db)), db)"
| "mem_exec (EVALDELIF k v) db =
     (if map_of (strs db) k = Some v then (RInt 1, del_key k db) else (RInt 0, db))"

fun mem_run :: "cmd list \<Rightarrow> rdb \<Rightarrow> reply list \<times> rdb" where
  "mem_run [] db = ([], db)"
| "mem_run (c # cs) db =
     (let (r, db1) = mem_exec c db; (rs, db2) = mem_run cs db1 in (r # rs, db2))"

type_synonym mem = "rdb \<times> nat option list"

fun mem_call :: "mem \<Rightarrow> cmd list \<Rightarrow> reply list option \<times> mem" where
  "mem_call (db, []) cs = (let (rs, db') = mem_run cs db in (Some rs, (db', [])))"
| "mem_call (db, None # fs) cs = (let (rs, db') = mem_run cs db in (Some rs, (db', fs)))"
| "mem_call (db, Some k # fs) cs = (let (rs, db') = mem_run (take k cs) db in (None, (db', fs)))"

lemma mem_exec_doc: "mem_exec c db = (r, db') \<Longrightarrow> doc c db r db'"
proof (cases c)
  case (SPOPN k n)
  assume e: "mem_exec c db = (r, db')"
  show ?thesis
    unfolding SPOPN doc.simps
    by (intro exI [where x = "take n (sget db k)"] exI [where x = "drop n (sget db k)"])
      (use e SPOPN in \<open>simp add: min.commute flip: mset_append\<close>)
qed (auto split: if_splits)

lemma mem_run_docs: "mem_run cs db = (rs, db') \<Longrightarrow> docs cs db rs db'"
  by (induction cs arbitrary: db rs) (fastforce simp: Let_def split: prod.splits dest: mem_exec_doc)+

interpretation mem: redis_server mem_call fst
proof unfold_locales
  fix s :: mem and cs rs and s' :: mem
  assume "mem_call s cs = (Some rs, s')"
  then show "docs cs (fst s) rs (fst s')"
    by (cases "(s, cs)" rule: mem_call.cases) (auto simp: Let_def split: prod.splits dest: mem_run_docs)
next
  fix s :: mem and cs and s' :: mem
  assume call: "mem_call s cs = (None, s')"
  then obtain db k fs where s: "s = (db, Some k # fs)"
    by (cases "(s, cs)" rule: mem_call.cases) (auto simp: Let_def split: prod.splits)
  obtain rs db' where r: "mem_run (take k cs) db = (rs, db')" by fastforce
  with call s have "fst s' = db'" by (auto simp: Let_def)
  with mem_run_docs [OF r] s have "docs (take k cs) (fst s) rs (fst s')" by simp
  moreover have "subseq (take k cs) cs" by (simp add: prefix_imp_subseq take_is_prefix)
  ultimately show "\<exists>ds rs. subseq ds cs \<and> docs ds (fst s) rs (fst s')" by blast
qed

end
