(* ===== verification/Room_Config.thy ===== *)
theory Room_Config
  imports Flyc_Prelude
begin

text \<open>
  queue/internal/room/room.go: the identifier of a room and the Redis keys made from it, the
  configuration of a room with its bounds and its form as a Redis hash, the arrival waves and
  the scores of the tickets of a wave. The functions of Go's standard library that depend on
  the Unicode tables, on the printing of doubles and on JSON are the fields of the record
  \<open>lib\<close>; what the code needs of them is a hypothesis of the theorem that needs it.
\<close>

record lib =
  ulower :: "string \<Rightarrow> string"
  utrim :: "string \<Rightarrow> string"
  FormatFloat :: "rat \<Rightarrow> string"
  ParseFloat :: "string \<Rightarrow> rat option"
  Marshal :: "(string \<times> string) list \<Rightarrow> string"
  Unmarshal :: "string \<Rightarrow> (string \<times> string) list \<Rightarrow> (string \<times> string) list"

section \<open>Identifiers\<close>

record ID =
  Tenant :: string
  Room :: string

definition slug_char :: "char \<Rightarrow> bool" where
  "slug_char c \<longleftrightarrow> (97 \<le> (of_char c :: nat) \<and> (of_char c :: nat) \<le> 122) \<or> is_digit c"

text \<open>The regular expression \<open>^[a-z0-9][a-z0-9-]{0,62}$\<close>.\<close>

definition slugRe :: "string \<Rightarrow> bool" where
  "slugRe s = (case s of [] \<Rightarrow> False
     | c # cs \<Rightarrow> slug_char c \<and> list_all (\<lambda>x. slug_char x \<or> x = CHR ''-'') cs \<and> length cs \<le> 62)"

definition Parse :: "string \<Rightarrow> ID option" where
  "Parse s = (case cut (CHR ''.'') s of
       None \<Rightarrow> None
     | Some (t, r) \<Rightarrow> if \<not> slugRe t \<or> \<not> slugRe r then None else Some \<lparr>Tenant = t, Room = r\<rparr>)"

definition String :: "ID \<Rightarrow> string" where
  "String i = Tenant i @ ''.'' @ Room i"

definition Key :: "ID \<Rightarrow> string \<Rightarrow> string" where
  "Key i sfx = ''{r:'' @ Tenant i @ '':'' @ Room i @ ''}:'' @ sfx"

definition valid_id :: "ID \<Rightarrow> bool" where
  "valid_id i \<longleftrightarrow> slugRe (Tenant i) \<and> slugRe (Room i)"

section \<open>Configuration\<close>

definition Open :: string where "Open = ''open''"
definition Queue :: string where "Queue = ''queue''"
definition Closed :: string where "Closed = ''closed''"

text \<open>\<open>PassTTL\<close> is a \<open>time.Duration\<close>, in nanoseconds; the rate is a finite double.\<close>

record Config =
  State :: string
  Rate :: rat
  MaxActive :: int
  WaveSec :: int
  PassTTL :: int
  Domains :: "string list"
  OpensAt :: int
  Title :: string
  Theme :: "(string \<times> string) list"

definition Second :: int where "Second = 1000000000"
definition Minute :: int where "Minute = 60 * Second"
definition Hour :: int where "Hour = 60 * Minute"

lemmas durations = Second_def Minute_def Hour_def

definition Defaults :: Config where
  "Defaults = \<lparr>State = Queue, Rate = 10, MaxActive = 0, WaveSec = 30, PassTTL = 20 * Minute,
     Domains = [], OpensAt = 0, Title = '''', Theme = []\<rparr>"

text \<open>
  The method changes its receiver, also on the paths that return an error: the result is the
  error, if any, and the receiver afterwards.
\<close>

definition Validate :: "lib \<Rightarrow> Config \<Rightarrow> string option \<times> Config" where
  "Validate L c0 =
     (if State c0 \<notin> {Open, Queue, Closed, ''''} then (Some ''state doit etre open, queue ou closed'', c0)
      else let c1 = (if State c0 = '''' then c0\<lparr>State := Queue\<rparr> else c0);
               c2 = (if Rate c1 \<le> 0 then c1\<lparr>Rate := 10\<rparr> else c1)
        in if 100000 < Rate c2 then (Some ''rate trop eleve'', c2)
      else let c3 = (if WaveSec c2 < 1 then c2\<lparr>WaveSec := 30\<rparr> else c2)
        in if 600 < WaveSec c3 then (Some ''wave_s au maximum 600'', c3)
      else let c4 = (if PassTTL c3 < Minute then c3\<lparr>PassTTL := 20 * Minute\<rparr> else c3)
        in if 24 * Hour < PassTTL c4 then (Some ''pass_ttl au maximum 24h'', c4)
      else (None, c4\<lparr>Domains := map (\<lambda>d. to_lower (ulower L) (trim_space (utrim L) d)) (Domains c4)\<rparr>))"

definition AllowsDomain :: "lib \<Rightarrow> Config \<Rightarrow> string \<Rightarrow> bool" where
  "AllowsDomain L c h = list_ex (\<lambda>d. d = to_lower (ulower L) h) (Domains c)"

definition themeJSON :: "lib \<Rightarrow> (string \<times> string) list \<Rightarrow> string" where
  "themeJSON L t = (if t = [] then ''{}'' else Marshal L t)"

text \<open>
  \<open>int64(c.PassTTL.Seconds())\<close> is the number of whole seconds: the double is exact enough up to
  24 hours, the bound of \<open>Validate\<close>, which \<open>SetConfig\<close> calls first.
\<close>

definition ToHash :: "lib \<Rightarrow> Config \<Rightarrow> (string \<times> string) list" where
  "ToHash L c =
    [(''state'', State c), (''rate'', FormatFloat L (Rate c)),
     (''max_active'', show_int (MaxActive c)), (''wave_s'', show_int (WaveSec c)),
     (''pass_ttl'', show_int (PassTTL c sdiv Second)), (''domains'', join '','' (Domains c)),
     (''opens_at'', show_int (OpensAt c)), (''title'', Title c), (''theme'', themeJSON L (Theme c))]"

text \<open>Reading a Go map of strings: the empty string where the key is absent.\<close>

definition hv :: "(string \<times> string) list \<Rightarrow> string \<Rightarrow> string" where
  "hv h k = (case map_of h k of None \<Rightarrow> '''' | Some v \<Rightarrow> v)"

definition int_field :: "(string \<times> string) list \<Rightarrow> string \<Rightarrow> int \<Rightarrow> int" where
  "int_field h k dflt = (case ParseInt (hv h k) of (v, None) \<Rightarrow> v | (_, Some _) \<Rightarrow> dflt)"

definition FromHash :: "lib \<Rightarrow> (string \<times> string) list \<Rightarrow> Config \<times> bool" where
  "FromHash L h =
     (if h = [] then (Defaults, False)
      else let d = Defaults;
               c = \<lparr>State = hv h ''state'',
                    Rate = (case ParseFloat L (hv h ''rate'') of Some v \<Rightarrow> v | None \<Rightarrow> Rate d),
                    MaxActive = int_field h ''max_active'' (MaxActive d),
                    WaveSec = int_field h ''wave_s'' (WaveSec d),
                    PassTTL = (case ParseInt (hv h ''pass_ttl'') of
                                 (v, None) \<Rightarrow> wrap64 (v * Second) | (_, Some _) \<Rightarrow> PassTTL d),
                    Domains = (if hv h ''domains'' \<noteq> '''' then split_on (CHR '','') (hv h ''domains'')
                               else Domains d),
                    OpensAt = int_field h ''opens_at'' (OpensAt d),
                    Title = hv h ''title'',
                    Theme = (if hv h ''theme'' \<noteq> '''' then Unmarshal L (hv h ''theme'') (Theme d)
                             else Theme d)\<rparr>
        in (snd (Validate L c), True))"

section \<open>Waves\<close>

text \<open>\<open>now.Unix()\<close> for a time in nanoseconds; the division panics on 0.\<close>

definition Unix :: "int \<Rightarrow> int" where
  "Unix now = now div Second"

definition Wave :: "int \<Rightarrow> int \<Rightarrow> int option" where
  "Wave now waveSec = (if waveSec = 0 then None else Some (wrap64 (Unix now sdiv waveSec)))"

definition WaveScore :: "int \<Rightarrow> int \<Rightarrow> int" where
  "WaveScore wave rank = f64_of_int (wrap64 (wrap64 (wave * 10000000) + rank))"

section \<open>Lemmas on identifiers and keys\<close>

lemma slug_char_ne: "slug_char c \<Longrightarrow> c \<noteq> CHR ''.'' \<and> c \<noteq> CHR '':'' \<and> c \<noteq> CHR ''}'' \<and> c \<noteq> CHR '',''"
  by (auto simp: slug_char_def is_digit_def)

lemma slugRe_chars: "slugRe s \<Longrightarrow> c \<in> set s \<Longrightarrow> slug_char c \<or> c = CHR ''-''"
  by (auto simp: slugRe_def list_all_iff split: list.splits)

lemma slugRe_fresh:
  assumes "slugRe s"
  shows "CHR ''.'' \<notin> set s" "CHR '':'' \<notin> set s" "CHR ''}'' \<notin> set s" "CHR '','' \<notin> set s" "s \<noteq> []"
  using slugRe_chars [OF assms] slug_char_ne assms by (fastforce simp: slugRe_def)+

lemma fresh_append_eq:
  "c \<notin> set a \<Longrightarrow> c \<notin> set a' \<Longrightarrow> a @ c # b = a' @ c # b' \<longleftrightarrow> a = a' \<and> b = b'"
proof (induction a arbitrary: a')
  case Nil
  then show ?case by (cases a') auto
next
  case (Cons x a)
  then show ?case by (cases a') auto
qed

lemma ID_eqI: "Tenant i = Tenant j \<Longrightarrow> Room i = Room j \<Longrightarrow> i = j" for i j :: ID
  by simp

lemma Key_inj_aux:
  assumes "valid_id i" and "valid_id j" and "Key i s = Key j t"
  shows "i = j \<and> s = t"
proof -
  from assms(3) have "Tenant i @ CHR '':'' # Room i @ CHR ''}'' # CHR '':'' # s =
      Tenant j @ CHR '':'' # Room j @ CHR ''}'' # CHR '':'' # t"
    by (simp add: Key_def)
  then have t: "Tenant i = Tenant j"
    and r: "Room i @ CHR ''}'' # CHR '':'' # s = Room j @ CHR ''}'' # CHR '':'' # t"
    using assms(1,2) slugRe_fresh(2) by (simp_all add: fresh_append_eq valid_id_def)
  from r have "Room i = Room j" and "s = t"
    using assms(1,2) slugRe_fresh(3) by (simp_all add: fresh_append_eq valid_id_def)
  with t show ?thesis by (simp add: ID_eqI)
qed

lemma Key_eq_iff [simp]: "Key i s = Key i t \<longleftrightarrow> s = t"
  by (simp add: Key_def)

lemma Key_not_rooms [simp]: "Key i s \<noteq> ''rooms''" "''rooms'' \<noteq> Key i s"
  by (simp_all add: Key_def)

lemma Parse_Some: "Parse s = Some i \<longleftrightarrow> s = String i \<and> valid_id i"
proof
  assume "Parse s = Some i"
  then show "s = String i \<and> valid_id i"
    by (auto simp: Parse_def String_def valid_id_def cut_Some split: option.splits if_splits)
next
  assume h: "s = String i \<and> valid_id i"
  then have "cut (CHR ''.'') s = Some (Tenant i, Room i)"
    using slugRe_fresh(1) [of "Tenant i"] by (auto simp: cut_Some String_def valid_id_def)
  with h show "Parse s = Some i" by (simp add: Parse_def valid_id_def)
qed

section \<open>Lemmas on the configuration\<close>

text \<open>What \<open>Validate\<close> promises.\<close>

definition config_ok :: "Config \<Rightarrow> bool" where
  "config_ok c \<longleftrightarrow> State c \<in> {Open, Queue, Closed} \<and> 0 < Rate c \<and> Rate c \<le> 100000 \<and>
     1 \<le> WaveSec c \<and> WaveSec c \<le> 600 \<and> Minute \<le> PassTTL c \<and> PassTTL c \<le> 24 * Hour"


lemma Validate_fix:
  assumes "config_ok c" and "\<forall>d \<in> set (Domains c). to_lower (ulower L) (trim_space (utrim L) d) = d"
  shows "Validate L c = (None, c)"
proof -
  have "map (\<lambda>d. to_lower (ulower L) (trim_space (utrim L) d)) (Domains c) = Domains c"
    using assms(2) by (simp add: map_idI)
  moreover have "State c \<noteq> ''''" using assms(1) by (auto simp: config_ok_def Open_def Queue_def Closed_def)
  ultimately show ?thesis using assms(1) by (auto simp: Validate_def config_ok_def Let_def)
qed


lemma int_field_show:
  "map_of h k = Some (show_int i) \<Longrightarrow> - (2 ^ 63) \<le> i \<Longrightarrow> i < 2 ^ 63 \<Longrightarrow> int_field h k d = i"
  by (simp add: int_field_def hv_def ParseInt_show_int)

lemma Defaults_ok: "config_ok Defaults"
  by (simp add: config_ok_def Defaults_def durations)

section \<open>Normal forms of domains\<close>





lemma is_space_lower [simp]: "is_space (lower_char c) = is_space c"
  by (auto simp: is_space_def lower_char_def Let_def)




section \<open>Properties\<close>

text \<open>the identifier of a room is exactly what is parsed back from its printed form: \<open>Parse\<close>
  accepts a string when and only when it is the form \<open>tenant.room\<close> of two slugs, and returns them.\<close>

theorem Parse_String_roundtrip: "Parse s = Some i \<longleftrightarrow> s = String i \<and> valid_id i"
  by (rule Parse_Some)

text \<open>the Redis keys of two rooms never meet: a key determines the tenant, the room and the
  suffix it was made of, so no operation on one room touches the data of another.\<close>

theorem Key_injective:
  assumes "valid_id i" and "valid_id j" and "Key i s = Key j t"
  shows "i = j \<and> s = t"
  using assms by (rule Key_inj_aux)

theorem Key_injective_witness:
  "\<lparr>Tenant = ''acme'', Room = ''sale''\<rparr> = \<lparr>Tenant = ''acme'', Room = ''sale''\<rparr> \<and> ''cfg'' = ''cfg''"
  by (rule Key_injective [where i = "\<lparr>Tenant = ''acme'', Room = ''sale''\<rparr>" and s = "''cfg''"])
    (simp_all add: valid_id_def slugRe_def slug_char_def is_digit_def)


definition demo_lib :: lib where
  "demo_lib = \<lparr>ulower = id, utrim = id, FormatFloat = (\<lambda>_. ''10''), ParseFloat = (\<lambda>_. Some 10),
     Marshal = (\<lambda>_. ''{}''), Unmarshal = (\<lambda>_ t. t)\<rparr>"


lemma comma_splits_a_domain:
  "fst (Validate demo_lib (Defaults\<lparr>Domains := [''a,b'']\<rparr>)) = None \<and>
   Domains (fst (FromHash demo_lib (ToHash demo_lib (snd (Validate demo_lib (Defaults\<lparr>Domains := [''a,b'']\<rparr>)))))) = [''a'', ''b'']"
  by code_simp

text \<open>C40: What is written to the hash of a room is what is read back, for a configuration within the bounds of
  \<open>Validate\<close> whose domains are normal (trimmed, in lower case), not empty and without a comma, whose duration of the
  pass is a whole number of seconds, whose integers fit in 64 bits, and whose rate and theme survive their own printing
  and reading. (\<open>Validate\<close> ensures neither the form of the domains nor the whole seconds: the lemma
  \<open>comma_splits_a_domain\<close> is a configuration that it accepts and that is read back as another one.)\<close>

theorem FromHash_ToHash:
  assumes ok: "config_ok c"
    and dom: "\<forall>d \<in> set (Domains c). d \<noteq> '''' \<and> CHR '','' \<notin> set d \<and>
                to_lower (ulower L) (trim_space (utrim L) d) = d"
    and secs: "PassTTL c mod Second = 0"
    and i64: "\<forall>x \<in> {MaxActive c, OpensAt c}. - (2 ^ 63) \<le> x \<and> x < 2 ^ 63"
    and float: "ParseFloat L (FormatFloat L (Rate c)) = Some (Rate c)"
    and theme: "Unmarshal L (themeJSON L (Theme c)) [] = Theme c" "themeJSON L (Theme c) \<noteq> ''''"
  shows "FromHash L (ToHash L c) = (c, True)"
proof -
  let ?h = "ToHash L c" and ?s = "PassTTL c sdiv Second"
  have s: "?s = PassTTL c div Second" and b: "60 \<le> ?s" "?s \<le> 86400"
    using ok by (auto simp: config_ok_def durations signed_divide_int_def sgn_if)
  have ttl: "ParseInt (show_int ?s) = (?s, None)" using b by (intro ParseInt_show_int) auto
  have w: "wrap64 (?s * Second) = PassTTL c"
  proof -
    have "?s * Second = PassTTL c" using secs unfolding s by (metis add.right_neutral div_mult_mod_eq)
    then show ?thesis using ok by (simp add: wrap64_id config_ok_def durations)
  qed
  have wv: "int_field ?h ''wave_s'' n = WaveSec c" for n
    using ok by (intro int_field_show) (auto simp: ToHash_def config_ok_def)
  have mx: "int_field ?h ''max_active'' n = MaxActive c" and oa: "int_field ?h ''opens_at'' n = OpensAt c" for n
    using i64 by (auto intro!: int_field_show simp: ToHash_def)
  have d: "(if hv ?h ''domains'' \<noteq> '''' then split_on (CHR '','') (hv ?h ''domains'') else []) = Domains c"
  proof (cases "Domains c")
    case Nil
    then show ?thesis by (simp add: ToHash_def hv_def)
  next
    case (Cons d ds)
    then have "join '','' (Domains c) \<noteq> ''''" using dom by (cases ds) auto
    then show ?thesis using Cons dom split_on_join [of "Domains c" "CHR '',''"] by (simp add: ToHash_def hv_def)
  qed
  have hs: "hv ?h ''state'' = State c" "hv ?h ''rate'' = FormatFloat L (Rate c)" "hv ?h ''title'' = Title c"
    "hv ?h ''pass_ttl'' = show_int ?s" "hv ?h ''theme'' = themeJSON L (Theme c)" "?h \<noteq> []"
    by (simp_all add: ToHash_def hv_def)
  have "FromHash L ?h = (snd (Validate L \<lparr>State = State c, Rate = Rate c, MaxActive = MaxActive c,
      WaveSec = WaveSec c, PassTTL = PassTTL c, Domains = Domains c, OpensAt = OpensAt c,
      Title = Title c, Theme = Theme c\<rparr>), True)"
    unfolding d [symmetric] using theme
    by (simp add: FromHash_def hs wv mx oa float ttl w Defaults_def)
  also have "\<lparr>State = State c, Rate = Rate c, MaxActive = MaxActive c, WaveSec = WaveSec c,
      PassTTL = PassTTL c, Domains = Domains c, OpensAt = OpensAt c, Title = Title c,
      Theme = Theme c\<rparr> = c" by simp
  also have "Validate L c = (None, c)" using Validate_fix [OF ok, of L] dom by blast
  finally show ?thesis by simp
qed

theorem FromHash_ToHash_witness:
  "FromHash demo_lib (ToHash demo_lib (Defaults\<lparr>Domains := [''a.fr'', ''b.fr'']\<rparr>)) =
     (Defaults\<lparr>Domains := [''a.fr'', ''b.fr'']\<rparr>, True)"
  by (rule FromHash_ToHash)
    (simp_all add: config_ok_def Defaults_def durations demo_lib_def themeJSON_def to_lower_def
      trim_space_def ascii_def lower_char_def is_space_def)

text \<open>the score of a ticket orders arrivals by wave first: below \<open>2^53\<close> every ticket of a
  wave comes before every ticket of a later one, and within a wave scores follow ranks.\<close>

theorem WaveScore_order:
  assumes "0 \<le> w" and "0 \<le> r" and "r < 10000000" and "0 \<le> r'" and "r' < 10000000"
    and "0 \<le> w'" and "(w + 1) * 10000000 \<le> 2 ^ 53" and "(w' + 1) * 10000000 \<le> 2 ^ 53"
  shows "WaveScore w r < WaveScore w' r' \<longleftrightarrow> w < w' \<or> (w = w' \<and> r < r')"
proof -
  have "WaveScore v q = v * 10000000 + q"
    if "0 \<le> v" "0 \<le> q" "q < 10000000" "(v + 1) * 10000000 \<le> 2 ^ 53" for v q :: int
    unfolding WaveScore_def using that by (simp add: wrap64_id f64_of_int_exact)
  from this [of w r] this [of w' r'] show ?thesis using assms by auto
qed

theorem WaveScore_order_witness: "WaveScore 58666666 9999999 < WaveScore 58666667 0"
  using WaveScore_order [of 58666666 9999999 0 58666667] by simp

end
