(* ===== verification/Ticket_Store.thy ===== *)
theory Ticket_Store
  imports Redis_Model Room_Config "HOL-Library.Word"
begin

text \<open>
  queue/internal/store/store.go: the operations of the waiting queue on Redis, each as the
  pipelines it sends through the server argument \<open>call\<close>, with its result and the next state of
  the server. Random draws (the identifier of a ticket, the shuffle of a wave) are arguments.
  The lemmas of the second half, proved in the context of the locale \<open>redis_server\<close>, say what
  each operation does to the data of the room when it returns without an error.
\<close>

section \<open>Tickets\<close>

definition StatusWaiting :: string where "StatusWaiting = ''waiting''"
definition StatusAdmitted :: string where "StatusAdmitted = ''admitted''"
definition ticketTTL :: int where "ticketTTL = 24 * Hour"
definition RoomsKey :: string where "RoomsKey = ''rooms''"

record Ticket =
  TID :: string
  Created :: int
  TWave :: int
  Status :: string
  Score :: rat
  Dom :: string
  Ret :: string
  Pass :: string
  Exp :: int
  Admitted :: int

definition newID :: "string \<Rightarrow> string" where
  "newID b = ''t_'' @ hex b"

definition tkey :: "ID \<Rightarrow> string \<Rightarrow> key" where
  "tkey i tid = Key i (''t:'' @ tid)"

definition wkey :: "ID \<Rightarrow> int \<Rightarrow> key" where
  "wkey i n = Key i (''wave:'' @ show_int n)"

section \<open>Configuration and rooms\<close>

definition Publish :: "'s server \<Rightarrow> ID \<Rightarrow> event \<Rightarrow> 's \<Rightarrow> unit res \<times> 's" where
  "Publish call i ev s = (case do1 call (PUBLISH (Key i ''ev'') ev) s of
       (Inl e, s') \<Rightarrow> (Inl e, s') | (Inr _, s') \<Rightarrow> (Inr (), s'))"

definition Config_of :: "lib \<Rightarrow> 's server \<Rightarrow> ID \<Rightarrow> 's \<Rightarrow> (Config \<times> bool) res \<times> 's" where
  "Config_of L call i s = (case do1 call (HGETALL (Key i ''cfg'')) s of
       (Inl e, s') \<Rightarrow> (Inl e, s')
     | (Inr r, s') \<Rightarrow> (Inr (FromHash L (as_hash r)), s'))"

definition no_event :: event where
  "no_event = \<lparr>EType = '''', EAdmitted = [], EPending = 0, EHead = 0, ERate = 0\<rparr>"

definition SetConfig :: "lib \<Rightarrow> 's server \<Rightarrow> ID \<Rightarrow> Config \<Rightarrow> 's \<Rightarrow> unit res \<times> 's" where
  "SetConfig L call i c0 s = (case Validate L c0 of
       (Some m, _) \<Rightarrow> (Inl (EInvalid m), s)
     | (None, c) \<Rightarrow>
        (case pipe call [HSET (Key i ''cfg'') (ToHash L c), SADD RoomsKey (String i)] s of
           (Inl e, s') \<Rightarrow> (Inl e, s')
         | (Inr _, s') \<Rightarrow> Publish call i (no_event\<lparr>EType := ''config'', ERate := Rate c\<rparr>) s'))"

definition Rooms :: "'s server \<Rightarrow> 's \<Rightarrow> string list res \<times> 's" where
  "Rooms call s = (case do1 call (SMEMBERS RoomsKey) s of
       (Inl e, s') \<Rightarrow> (Inl e, s') | (Inr r, s') \<Rightarrow> (Inr (as_list r), s'))"

section \<open>Creating and reading tickets\<close>

definition create_cmds :: "ID \<Rightarrow> Ticket \<Rightarrow> cmd list" where
  "create_cmds i t =
    [HSET (tkey i (TID t)) [(''created'', show_int (Created t)), (''wave'', show_int (TWave t)),
       (''status'', Status t), (''dom'', Dom t), (''ret'', Ret t)],
     EXPIRE (tkey i (TID t)) ticketTTL,
     SADD (wkey i (TWave t)) (TID t),
     EXPIRE (wkey i (TWave t)) (2 * Hour),
     HINCRBY (Key i ''stats'') ''tickets_total'' 1,
     SADD RoomsKey (String i)]"

definition CreateTicket ::
  "'s server \<Rightarrow> ID \<Rightarrow> Config \<Rightarrow> string \<Rightarrow> string \<Rightarrow> int \<Rightarrow> string \<Rightarrow> 's \<Rightarrow> Ticket res \<times> 's" where
  "CreateTicket call i cfg dm ret now rb s = (case Wave now (WaveSec cfg) of
       None \<Rightarrow> (Inl (EPanic ''integer divide by zero''), s)
     | Some w \<Rightarrow>
        (let t = \<lparr>TID = newID rb, Created = Unix now, TWave = w, Status = StatusWaiting, Score = 0,
                  Dom = dm, Ret = ret, Pass = '''', Exp = 0, Admitted = 0\<rparr>
         in case pipe call (create_cmds i t) s of
              (Inl e, s') \<Rightarrow> (Inl e, s') | (Inr _, s') \<Rightarrow> (Inr t, s')))"

definition direct_cmds :: "ID \<Rightarrow> Ticket \<Rightarrow> cmd list" where
  "direct_cmds i t =
    [HSET (tkey i (TID t)) [(''created'', show_int (Created t)), (''status'', Status t),
       (''dom'', Dom t), (''ret'', Ret t), (''pass'', Pass t), (''exp'', show_int (Exp t)),
       (''admitted'', show_int (Admitted t))],
     EXPIRE (tkey i (TID t)) ticketTTL,
     HINCRBY (Key i ''stats'') ''tickets_total'' 1,
     HINCRBY (Key i ''stats'') ''admitted_total'' 1]"

definition AdmitDirect ::
  "'s server \<Rightarrow> ID \<Rightarrow> string \<Rightarrow> string \<Rightarrow> string \<Rightarrow> int \<Rightarrow> int \<Rightarrow> string \<Rightarrow> 's \<Rightarrow> Ticket res \<times> 's" where
  "AdmitDirect call i dm ret pss ex now rb s =
    (let t = \<lparr>TID = newID rb, Created = Unix now, TWave = 0, Status = StatusAdmitted, Score = 0,
              Dom = dm, Ret = ret, Pass = pss, Exp = ex, Admitted = Unix now\<rparr>
     in case pipe call (direct_cmds i t) s of
          (Inl e, s') \<Rightarrow> (Inl e, s') | (Inr _, s') \<Rightarrow> (Inr t, s'))"

definition GetTicket :: "lib \<Rightarrow> 's server \<Rightarrow> ID \<Rightarrow> string \<Rightarrow> 's \<Rightarrow> Ticket option res \<times> 's" where
  "GetTicket L call i tid s = (case do1 call (HGETALL (tkey i tid)) s of
       (Inl e, s') \<Rightarrow> (Inl e, s')
     | (Inr r, s') \<Rightarrow> let h = as_hash r in
        if h = [] then (Inr None, s')
        else (Inr (Some
          \<lparr>TID = tid, Created = fst (ParseInt (hv h ''created'')), TWave = fst (ParseInt (hv h ''wave'')),
           Status = hv h ''status'',
           Score = (case ParseFloat L (hv h ''score'') of Some v \<Rightarrow> v | None \<Rightarrow> 0),
           Dom = hv h ''dom'', Ret = hv h ''ret'', Pass = hv h ''pass'',
           Exp = fst (ParseInt (hv h ''exp'')), Admitted = fst (ParseInt (hv h ''admitted''))\<rparr>), s'))"

definition LastWave :: "'s server \<Rightarrow> ID \<Rightarrow> 's \<Rightarrow> int res \<times> 's" where
  "LastWave call i s = (case do1 call (GET (Key i ''lastwave'')) s of
       (Inl e, s') \<Rightarrow> (Inl e, s')
     | (Inr (RStr v), s') \<Rightarrow> ((case ParseInt v of (n, None) \<Rightarrow> Inr n
                                | (n, Some _) \<Rightarrow> Inl (EInvalid ''strconv.ParseInt'')), s')
     | (Inr _, s') \<Rightarrow> (Inr (- 1), s'))"

definition SetLastWave :: "'s server \<Rightarrow> ID \<Rightarrow> int \<Rightarrow> 's \<Rightarrow> unit res \<times> 's" where
  "SetLastWave call i n s = (case do1 call (SET (Key i ''lastwave'') (show_int n)) s of
       (Inl e, s') \<Rightarrow> (Inl e, s') | (Inr _, s') \<Rightarrow> (Inr (), s'))"

section \<open>Closing a wave\<close>

text \<open>
  \<open>Shuffle\<close> is Fisher-Yates; \<open>rnd i\<close> is the word \<open>randUint64\<close> draws when it places position \<open>i\<close>.
\<close>

definition swap :: "'a list \<Rightarrow> nat \<Rightarrow> nat \<Rightarrow> 'a list" where
  "swap xs i j = xs[i := xs ! j, j := xs ! i]"

fun shuffle_from :: "nat \<Rightarrow> (nat \<Rightarrow> 64 word) \<Rightarrow> 'a list \<Rightarrow> 'a list" where
  "shuffle_from 0 rnd xs = xs"
| "shuffle_from (Suc i) rnd xs =
     shuffle_from i rnd (swap xs (Suc i) (unat (rnd (Suc i)) mod (Suc i + 1)))"

definition Shuffle :: "(nat \<Rightarrow> 64 word) \<Rightarrow> 'a list \<Rightarrow> 'a list" where
  "Shuffle rnd ids = shuffle_from (length ids - 1) rnd ids"

text \<open>The loop on SPOP, with fuel: \<open>EFuel\<close> when it runs out.\<close>

fun spop_all :: "'s server \<Rightarrow> key \<Rightarrow> nat \<Rightarrow> string list \<Rightarrow> 's \<Rightarrow> string list res \<times> 's" where
  "spop_all call k 0 ids s = (Inl EFuel, s)"
| "spop_all call k (Suc f) ids s = (case do1 call (SPOPN k 1000) s of
       (Inl e, s') \<Rightarrow> (Inl e, s')
     | (Inr r, s') \<Rightarrow> if as_list r = [] then (Inr ids, s')
                     else spop_all call k f (ids @ as_list r) s')"

definition rank_cmds :: "ID \<Rightarrow> int \<Rightarrow> nat \<Rightarrow> string list \<Rightarrow> cmd list" where
  "rank_cmds i n base chunk =
     map (\<lambda>(j, t). HSET (tkey i t) [(''score'', show_int (WaveScore n (int j)))]) (enumerate base chunk)
     @ [ZADD (Key i ''pending'') (map (\<lambda>(j, t). (of_int (WaveScore n (int j)), t)) (enumerate base chunk))]"

function rank_from :: "'s server \<Rightarrow> ID \<Rightarrow> int \<Rightarrow> nat \<Rightarrow> string list \<Rightarrow> 's \<Rightarrow> unit res \<times> 's" where
  "rank_from call i n base ids s =
     (if ids = [] then (Inr (), s)
      else case pipe call (rank_cmds i n base (take 1000 ids)) s of
        (Inl e, s') \<Rightarrow> (Inl e, s')
      | (Inr _, s') \<Rightarrow> rank_from call i n (base + 1000) (drop 1000 ids) s')"
  by pat_completeness auto
termination by (relation "measure (\<lambda>(_, _, _, _, ids, _). length ids)") auto

declare rank_from.simps [simp del]

definition CloseWave ::
  "'s server \<Rightarrow> ID \<Rightarrow> int \<Rightarrow> nat \<Rightarrow> (nat \<Rightarrow> 64 word) \<Rightarrow> 's \<Rightarrow> int res \<times> 's" where
  "CloseWave call i n fuel rnd s = (case spop_all call (wkey i n) fuel [] s of
       (Inl e, s1) \<Rightarrow> (Inl e, s1)
     | (Inr ids, s1) \<Rightarrow>
        if ids = [] then (Inr 0, s1)
        else (case rank_from call i n 0 (Shuffle rnd ids) s1 of
            (Inl e, s2) \<Rightarrow> (Inl e, s2)
          | (Inr _, s2) \<Rightarrow> (Inr (int (length ids)), snd (do1 call (DEL (wkey i n)) s2))))"

text \<open>The part of a key after its last colon.\<close>

definition after_colon :: "string \<Rightarrow> string" where
  "after_colon k = last (split_on (CHR '':'') k)"

definition StrayWaves :: "'s server \<Rightarrow> ID \<Rightarrow> int \<Rightarrow> 's \<Rightarrow> int list res \<times> 's" where
  "StrayWaves call i cur s = (case do1 call (SCAN (Key i ''wave:'')) s of
       (Inl e, s') \<Rightarrow> (Inl e, s')
     | (Inr r, s') \<Rightarrow> (Inr (List.map_filter (\<lambda>k. case ParseInt (after_colon k) of
            (n, None) \<Rightarrow> if n = cur \<or> n = cur - 1 then None else Some n
          | (_, Some _) \<Rightarrow> None) (as_list r)), s'))"

section \<open>Pending and active tickets\<close>

text \<open>The number of tickets waiting, of passes in force after the purge, the first score.\<close>

definition Counts :: "'s server \<Rightarrow> ID \<Rightarrow> int \<Rightarrow> 's \<Rightarrow> (int \<times> int \<times> rat) res \<times> 's" where
  "Counts call i now s =
    (case pipe call [ZREMRANGEBYSCORE (Key i ''active'') (of_int (Unix now)),
           ZCARD (Key i ''pending''), ZCARD (Key i ''active''), ZRANGE (Key i ''pending'') 0 0] s of
       (Inl e, s') \<Rightarrow> (Inl e, s')
     | (Inr rs, s') \<Rightarrow> (Inr (as_int (rs ! 1), as_int (rs ! 2),
          (case as_z (rs ! 3) of [] \<Rightarrow> 0 | z # _ \<Rightarrow> fst z)), s'))"

definition PopPending :: "'s server \<Rightarrow> ID \<Rightarrow> int \<Rightarrow> 's \<Rightarrow> string list res \<times> 's" where
  "PopPending call i k s =
     (if k \<le> 0 then (Inr [], s)
      else case do1 call (ZPOPMIN (Key i ''pending'') (nat k)) s of
        (Inl e, s') \<Rightarrow> (Inl e, s') | (Inr r, s') \<Rightarrow> (Inr (map snd (as_z r)), s'))"

definition mark_cmds :: "ID \<Rightarrow> string \<Rightarrow> string \<Rightarrow> int \<Rightarrow> int \<Rightarrow> cmd list" where
  "mark_cmds i tid pss ex now =
    [HSET (tkey i tid) [(''status'', StatusAdmitted), (''pass'', pss), (''exp'', show_int ex),
       (''admitted'', show_int now)],
     ZADD (Key i ''active'') [(of_int (f64_of_int ex), tid)],
     HINCRBY (Key i ''stats'') ''admitted_total'' 1]"

definition MarkAdmitted ::
  "'s server \<Rightarrow> ID \<Rightarrow> string \<Rightarrow> string \<Rightarrow> int \<Rightarrow> int \<Rightarrow> 's \<Rightarrow> unit res \<times> 's" where
  "MarkAdmitted call i tid pss ex now s = (case pipe call (mark_cmds i tid pss ex now) s of
       (Inl e, s') \<Rightarrow> (Inl e, s') | (Inr _, s') \<Rightarrow> (Inr (), s'))"

definition Requeue :: "'s server \<Rightarrow> ID \<Rightarrow> Ticket \<Rightarrow> 's \<Rightarrow> unit res \<times> 's" where
  "Requeue call i t s =
     (if Score t = 0 then (Inr (), s)
      else case do1 call (ZADD (Key i ''pending'') [(Score t, TID t)]) s of
        (Inl e, s') \<Rightarrow> (Inl e, s') | (Inr _, s') \<Rightarrow> (Inr (), s'))"

definition rank_of :: "reply \<Rightarrow> int" where
  "rank_of r = (case r of RInt v \<Rightarrow> v | _ \<Rightarrow> - 1)"

definition Rank :: "'s server \<Rightarrow> ID \<Rightarrow> string \<Rightarrow> 's \<Rightarrow> int res \<times> 's" where
  "Rank call i tid s = (case do1 call (ZRANK (Key i ''pending'') tid) s of
       (Inl e, s') \<Rightarrow> (Inl e, s') | (Inr r, s') \<Rightarrow> (Inr (rank_of r), s'))"

text \<open>The error of a pipeline is that of its first command to fail, and \<open>redis.Nil\<close> is let through.\<close>

definition Ranks :: "'s server \<Rightarrow> ID \<Rightarrow> string list \<Rightarrow> 's \<Rightarrow> int list res \<times> 's" where
  "Ranks call i tids s =
     (if tids = [] then (Inr [], s)
      else case call s (map (ZRANK (Key i ''pending'')) tids) of
        (None, s') \<Rightarrow> (Inl EStore, s')
      | (Some rs, s') \<Rightarrow> (case filter (\<lambda>r. r = RErr \<or> r = RNil) rs of
            RErr # _ \<Rightarrow> (Inl EStore, s')
          | _ \<Rightarrow> (Inr (map rank_of rs), s')))"

definition WaveSize :: "'s server \<Rightarrow> ID \<Rightarrow> int \<Rightarrow> 's \<Rightarrow> int res \<times> 's" where
  "WaveSize call i n s = (case do1 call (SCARD (wkey i n)) s of
       (Inl e, s') \<Rightarrow> (Inl e, s') | (Inr r, s') \<Rightarrow> (Inr (as_int r), s'))"

section \<open>The lease of the admitter\<close>

text \<open>GET of a key that has just expired returns the error \<open>redis.Nil\<close>, which is not excepted here.\<close>

definition Acquire :: "'s server \<Rightarrow> ID \<Rightarrow> string \<Rightarrow> int \<Rightarrow> 's \<Rightarrow> bool res \<times> 's" where
  "Acquire call i owner ttl s = (case do1 call (SETNX (Key i ''lock'') owner ttl) s of
       (Inl e, s1) \<Rightarrow> (Inl e, s1)
     | (Inr r, s1) \<Rightarrow>
        if as_bool r then (Inr True, s1)
        else (case do1 call (GET (Key i ''lock'')) s1 of
            (Inl e, s2) \<Rightarrow> (Inl e, s2)
          | (Inr (RStr cur), s2) \<Rightarrow>
              if cur = owner
              then (case do1 call (EXPIRE (Key i ''lock'') ttl) s2 of
                      (Inl e, s3) \<Rightarrow> (Inl e, s3) | (Inr _, s3) \<Rightarrow> (Inr True, s3))
              else (Inr False, s2)
          | (Inr _, s2) \<Rightarrow> (Inl EStore, s2)))"

definition Release :: "'s server \<Rightarrow> ID \<Rightarrow> string \<Rightarrow> 's \<Rightarrow> 's" where
  "Release call i owner s = snd (do1 call (EVALDELIF (Key i ''lock'') owner) s)"

definition Stats :: "'s server \<Rightarrow> ID \<Rightarrow> 's \<Rightarrow> (string \<times> string) list res \<times> 's" where
  "Stats call i s = (case do1 call (HGETALL (Key i ''stats'')) s of
       (Inl e, s') \<Rightarrow> (Inl e, s') | (Inr r, s') \<Rightarrow> (Inr (as_hash r), s'))"

definition flush_cmds :: "ID \<Rightarrow> int \<Rightarrow> cmd list" where
  "flush_cmds i cur = DEL (Key i ''pending'') # map (\<lambda>n. DEL (wkey i n)) [cur - 200..cur + 1]
     @ [SET (Key i ''lastwave'') (show_int (cur - 1))]"

definition Flush :: "'s server \<Rightarrow> ID \<Rightarrow> int \<Rightarrow> int \<Rightarrow> 's \<Rightarrow> unit res \<times> 's" where
  "Flush call i now waveSec s = (case Wave now waveSec of
       None \<Rightarrow> (Inl (EPanic ''integer divide by zero''), s)
     | Some cur \<Rightarrow> (case pipe call (flush_cmds i cur) s of
           (Inl e, s') \<Rightarrow> (Inl e, s')
         | (Inr _, s') \<Rightarrow> Publish call i (no_event\<lparr>EType := ''flush''\<rparr>) s'))"

end
