(* ===== verification/Store_Laws.thy ===== *)
theory Store_Laws
  imports Ticket_Store
begin

text \<open>
  What the operations of the store do to the data of a room, proved for every server that keeps
  the laws of \<open>redis_server\<close>, and the properties of the store: a ticket created is the ticket
  read, closing a wave moves all of it into the queue, in its band of scores, and returns; the
  shuffle is a permutation and every order is reachable; heads of the queue are popped in
  order; a lease has one holder.
\<close>

section \<open>Reading after writing\<close>

lemma put_sel [simp]:
  "hashes (hput k h db) = lput k h (hashes db)" "sets (hput k h db) = sets db"
  "zsets (hput k h db) = zsets db" "strs (hput k h db) = strs db" "chan (hput k h db) = chan db"
  "hashes (sput k xs db) = hashes db" "sets (sput k xs db) = lput k xs (sets db)"
  "zsets (sput k xs db) = zsets db" "strs (sput k xs db) = strs db" "chan (sput k xs db) = chan db"
  "hashes (zput k z db) = hashes db" "sets (zput k z db) = sets db"
  "zsets (zput k z db) = lput k z (zsets db)" "strs (zput k z db) = strs db" "chan (zput k z db) = chan db"
  "hashes (strput k v db) = hashes db" "sets (strput k v db) = sets db"
  "chan (strput k v db) = chan db" "chan (del_key k db) = chan db" "zsets (strput k v db) = zsets db" "strs (strput k v db) = AList.update k v (strs db)"
  "hashes (expire k d db) = hashes db" "sets (expire k d db) = sets db"
  "zsets (expire k d db) = zsets db" "strs (expire k d db) = strs db" "chan (expire k d db) = chan db"
  "hashes (publish k e db) = hashes db" "sets (publish k e db) = sets db"
  "zsets (publish k e db) = zsets db" "strs (publish k e db) = strs db"
  "chan (publish k e db) = chan db @ [(k, e)]"
  "hashes (del_key k db) = AList.delete k (hashes db)" "sets (del_key k db) = AList.delete k (sets db)"
  "zsets (del_key k db) = AList.delete k (zsets db)" "strs (del_key k db) = AList.delete k (strs db)"
  by (simp_all add: put_defs)

lemma key_simps [simp]:
  "tkey i a = tkey i b \<longleftrightarrow> a = b" "tkey i a \<noteq> Key i ''stats''" "tkey i a \<noteq> Key i ''pending''"
  "tkey i a \<noteq> Key i ''active''" "tkey i a \<noteq> Key i ''cfg''" "tkey i a \<noteq> wkey i n"
  "wkey i n \<noteq> Key i ''pending''" "wkey i n \<noteq> Key i ''active''" "wkey i n \<noteq> RoomsKey" "RoomsKey \<noteq> wkey i n"
  "Key i ''pending'' \<noteq> wkey i n" "Key i ''active'' \<noteq> wkey i n" "Key i ''stats'' \<noteq> tkey i a" "wkey i n \<noteq> tkey i a" "Key i ''cfg'' \<noteq> tkey i a"
  by (simp_all add: tkey_def wkey_def RoomsKey_def)

text \<open>HINCRBY changes one hash only.\<close>

lemma hincr_frame:
  "(r, db') = hincr k f n db \<Longrightarrow>
   (\<forall>k'. k' \<noteq> k \<longrightarrow> hget db' k' = hget db k') \<and> sets db' = sets db \<and> zsets db' = zsets db \<and> strs db' = strs db"
  by (auto simp: hincr_def split: prod.splits option.splits if_splits)

lemma doc_no_err: "doc c db r db' \<Longrightarrow> (\<And>k f n. c \<noteq> HINCRBY k f n) \<Longrightarrow> r \<noteq> RErr"
  by (cases c) (auto split: if_splits option.splits)

lemma docs_no_err:
  "docs cs db rs db' \<Longrightarrow> (\<And>k f n. HINCRBY k f n \<notin> set cs) \<Longrightarrow> RErr \<notin> set rs"
proof (induction cs arbitrary: db rs)
  case Nil
  then show ?case by simp
next
  case (Cons c cs)
  then obtain r rs' db1 where h: "rs = r # rs'" "doc c db r db1" "docs cs db1 rs' db'" by auto
  have "r \<noteq> RErr" using doc_no_err [OF h(2)] Cons.prems(2) by (metis list.set_intros(1))
  moreover have "RErr \<notin> set rs'" using Cons.IH [OF h(3)] Cons.prems(2) by (meson list.set_intros(2))
  ultimately show ?case using h(1) by simp
qed

lemma docs_Cons: "docs (c # cs) db rs db' \<longleftrightarrow> (\<exists>r rs' db1. rs = r # rs' \<and> doc c db r db1 \<and> docs cs db1 rs' db')"
  by simp

lemma docs_HSETs:
  "docs (map (\<lambda>x. HSET (kf x) (ff x)) xs) db rs db' \<Longrightarrow>
   db' = foldl (\<lambda>d x. hput (kf x) (hset (ff x) (hget d (kf x))) d) db xs"
  by (induction xs arbitrary: db rs) auto

lemma foldl_hput_frame:
  "(\<forall>k. k \<notin> kf ` set xs \<longrightarrow>
      hget (foldl (\<lambda>d x. hput (kf x) (hset (ff x) (hget d (kf x))) d) db xs) k = hget db k) \<and>
   sets (foldl (\<lambda>d x. hput (kf x) (hset (ff x) (hget d (kf x))) d) db xs) = sets db \<and>
   zsets (foldl (\<lambda>d x. hput (kf x) (hset (ff x) (hget d (kf x))) d) db xs) = zsets db \<and>
   strs (foldl (\<lambda>d x. hput (kf x) (hset (ff x) (hget d (kf x))) d) db xs) = strs db"
  by (induction xs arbitrary: db) auto

lemma foldl_hput_get:
  "distinct (map kf xs) \<Longrightarrow> x \<in> set xs \<Longrightarrow>
   hget (foldl (\<lambda>d x. hput (kf x) (hset (ff x) (hget d (kf x))) d) db xs) (kf x) =
     hset (ff x) (hget db (kf x))"
proof (induction xs arbitrary: db)
  case Nil
  then show ?case by simp
next
  case (Cons y ys)
  show ?case
  proof (cases "x = y")
    case True
    then have "kf x \<notin> kf ` set ys" using Cons.prems by auto
    then show ?thesis using True foldl_hput_frame [of kf ys ff] by simp
  next
    case False
    then have x: "x \<in> set ys" using Cons.prems by simp
    then have "kf x \<noteq> kf y" using Cons.prems by (metis distinct.simps(2) imageI image_set list.simps(9))
    then show ?thesis using Cons x by simp
  qed
qed

text \<open>A batch of ZADD with distinct members.\<close>

lemma set_foldl_zadd1:
  "distinct (map snd es) \<Longrightarrow>
   set (foldl (\<lambda>z e. zadd1 e z) z es) = set es \<union> {p \<in> set z. snd p \<notin> snd ` set es}"
proof (induction es arbitrary: z)
  case Nil
  then show ?case by simp
next
  case (Cons e es)
  then have "snd e \<notin> snd ` set es" by auto
  with Cons show ?case by (auto simp: set_zadd1)
qed

section \<open>The shuffle\<close>

lemma swap_mset: "i < length xs \<Longrightarrow> j < length xs \<Longrightarrow> mset (swap xs i j) = mset xs"
  by (simp add: swap_def mset_swap)

lemma length_swap [simp]: "length (swap xs i j) = length xs"
  by (simp add: swap_def)

lemma shuffle_from_mset: "i < length xs \<Longrightarrow> mset (shuffle_from i rnd xs) = mset xs"
proof (induction i arbitrary: xs)
  case 0
  then show ?case by simp
next
  case (Suc i)
  let ?j = "unat (rnd (Suc i)) mod (Suc i + 1)"
  have "?j < Suc i + 1" by simp
  then have j: "?j < length xs" using Suc.prems by linarith
  have "mset (shuffle_from i rnd (swap xs (Suc i) ?j)) = mset (swap xs (Suc i) ?j)"
    using Suc by (intro Suc.IH) simp
  then show ?case using j Suc.prems by (simp add: swap_mset)
qed

lemma mset_Shuffle: "mset (Shuffle rnd xs) = mset xs"
  by (cases "xs = []") (simp_all add: Shuffle_def shuffle_from_mset)

text \<open>Placing the elements from the last position down, every order is reachable.\<close>

lemma shuffle_from_tail: "shuffle_from i rnd (xs @ ys) = shuffle_from i rnd xs @ ys" if "i < length xs"
  using that
proof (induction i arbitrary: xs)
  case 0
  then show ?case by simp
next
  case (Suc i)
  let ?j = "unat (rnd (Suc i)) mod (Suc i + 1)"
  have "?j < Suc i + 1" by simp
  then have "?j < length xs" using Suc.prems by linarith
  then have "swap (xs @ ys) (Suc i) ?j = swap xs (Suc i) ?j @ ys"
    using Suc.prems by (simp add: swap_def list_update_append nth_append)
  then show ?case using Suc by simp
qed

lemma shuffle_from_cong:
  "(\<And>k. k \<le> i \<Longrightarrow> r k = r' k) \<Longrightarrow> shuffle_from i r xs = shuffle_from i r' xs"
  by (induction i arbitrary: xs) auto

lemma shuffle_reach:
  "length xs = Suc i \<Longrightarrow> Suc i < 2 ^ 64 \<Longrightarrow> mset ys = mset xs \<Longrightarrow> \<exists>rnd. shuffle_from i rnd xs = ys"
proof (induction i arbitrary: xs ys)
  case 0
  then have "length ys = Suc 0" by (metis size_mset)
  with 0 obtain x y where "xs = [x]" "ys = [y]" by (metis length_0_conv length_Suc_conv)
  with 0 show ?case by simp
next
  case (Suc i)
  have ne: "ys \<noteq> []" using Suc.prems by auto
  then obtain j where j: "j < length xs" "xs ! j = last ys"
    using Suc.prems(3) by (metis in_set_conv_nth last_in_set mset_eq_setD)
  let ?s = "swap xs (Suc i) j"
  have lt: "Suc i < length xs" using Suc.prems by simp
  have len: "length ?s = Suc (Suc i)" using Suc.prems(1) by simp
  have "?s ! Suc i = last ys" using j lt Suc.prems(1) by (auto simp: swap_def nth_list_update)
  moreover have "last ?s = ?s ! (length ?s - 1)" using len by (intro last_conv_nth) (metis length_0_conv nat.distinct(1))
  ultimately have "last ?s = last ys" using len by simp
  have "?s \<noteq> []" using len by (cases ?s) simp_all
  then have "butlast ?s @ [last ?s] = ?s" by (rule append_butlast_last_id)
  with \<open>last ?s = last ys\<close> have s: "?s = butlast ?s @ [last ys]" by argo
  have "mset (butlast ?s) = mset (butlast ys)"
  proof -
    have "mset ?s = mset xs" by (rule swap_mset [OF lt j(1)])
    moreover have "mset ?s = mset (butlast ?s @ [last ys])" using s by argo
    moreover have "mset ys = mset (butlast ys @ [last ys])" using ne by simp
    ultimately have "mset (butlast ?s @ [last ys]) = mset (butlast ys @ [last ys])"
      using Suc.prems(3) by simp
    then show ?thesis by simp
  qed
  moreover have "length (butlast ?s) = Suc i" using len by simp
  ultimately obtain r where r: "shuffle_from i r (butlast ?s) = butlast ys"
    using Suc.IH Suc.prems(2) by (metis Suc_lessD)
  let ?r = "r (Suc i := word_of_nat j)"
  have "unat (word_of_nat j :: 64 word) = j"
    using j(1) Suc.prems(1,2) by (simp add: unat_of_nat take_bit_nat_eq_self)
  then have "shuffle_from (Suc i) ?r xs = shuffle_from i ?r ?s"
    using j(1) Suc.prems(1) by simp
  also have "\<dots> = shuffle_from i r ?s" by (rule shuffle_from_cong) simp
  also have "\<dots> = shuffle_from i r (butlast ?s @ [last ys])" using s by argo
  also have "\<dots> = shuffle_from i r (butlast ?s) @ [last ys]"
    using len by (intro shuffle_from_tail) simp
  also have "\<dots> = ys" using r ne by simp
  finally show ?case by blast
qed

section \<open>The operations on a lawful server\<close>

text \<open>The part of the data an operation on the waves and on the queue leaves alone.\<close>

definition entries :: "int \<Rightarrow> nat \<Rightarrow> string list \<Rightarrow> (rat \<times> string) list" where
  "entries n base ids = map (\<lambda>(j, t). (of_int (WaveScore n (int j)), t)) (enumerate base ids)"

lemma entries_snd [simp]: "map snd (entries n base ids) = ids"
  by (rule nth_equalityI) (simp_all add: entries_def nth_enumerate_eq)

lemma entries_nth: "j < length ids \<Longrightarrow> entries n base ids ! j = (of_int (WaveScore n (int (base + j))), ids ! j)"
  by (simp add: entries_def nth_enumerate_eq)

lemma length_entries [simp]: "length (entries n base ids) = length ids"
  by (simp add: entries_def)

lemma entries_append: "entries n base (xs @ ys) = entries n base xs @ entries n (base + length xs) ys"
  by (simp add: entries_def enumerate_append_eq)

definition scored :: "ID \<Rightarrow> rdb \<Rightarrow> rat \<times> string \<Rightarrow> bool" where
  "scored i db e \<longleftrightarrow> (\<exists>n. fst e = of_int n \<and> map_of (hget db (tkey i (snd e))) ''score'' = Some (show_int n))"

lemma rank_docs:
  assumes d: "docs (rank_cmds i n base ids) db rs db'" and dist: "distinct ids"
  shows "zget db' (Key i ''pending'') = foldl (\<lambda>z e. zadd1 e z) (zget db (Key i ''pending'')) (entries n base ids)
    \<and> sets db' = sets db \<and> (\<forall>k. k \<noteq> Key i ''pending'' \<longrightarrow> zget db' k = zget db k)
    \<and> (\<forall>k. k \<notin> tkey i ` set ids \<longrightarrow> hget db' k = hget db k)
    \<and> (\<forall>e \<in> set (entries n base ids). scored i db' e)"
proof -
  let ?kf = "\<lambda>(j :: nat, t). tkey i t"
    and ?ff = "\<lambda>(j, t :: string). [(''score'', show_int (WaveScore n (int j)))]"
    and ?es = "enumerate base ids"
  have split: "rank_cmds i n base ids =
      map (\<lambda>x. HSET (?kf x) (?ff x)) ?es @ [ZADD (Key i ''pending'') (entries n base ids)]"
    by (simp add: rank_cmds_def entries_def case_prod_beta')
  from d obtain r1 r2 db1 where a: "docs (map (\<lambda>x. HSET (?kf x) (?ff x)) ?es) db r1 db1"
    and b: "docs [ZADD (Key i ''pending'') (entries n base ids)] db1 r2 db'"
    unfolding split docs_append by blast
  let ?d1 = "foldl (\<lambda>d x. hput (?kf x) (hset (?ff x) (hget d (?kf x))) d) db ?es"
  have db1: "db1 = ?d1" by (rule docs_HSETs [OF a])
  have kfs: "?kf ` set ?es = tkey i ` set ids"
  proof -
    have "?kf ` set ?es = tkey i ` set (map snd ?es)"      by (simp only: set_map image_image case_prod_beta')
    then show ?thesis by simp
  qed
  have kd: "distinct (map ?kf ?es)"
  proof -
    have "map ?kf ?es = map (tkey i) (map snd ?es)" by (simp only: map_map comp_def case_prod_beta')
    then show ?thesis using dist by (simp add: distinct_map inj_on_def)
  qed
  note fr = foldl_hput_frame [of ?kf ?es ?ff db, folded db1, unfolded kfs]
  have db': "db' = zput (Key i ''pending'') (foldl (\<lambda>z e. zadd1 e z) (zget db1 (Key i ''pending'')) (entries n base ids)) db1"
    using b by simp
  have "scored i db' e" if "e \<in> set (entries n base ids)" for e
  proof -
    from that obtain j t where x: "(j, t) \<in> set ?es" and e: "e = (of_int (WaveScore n (int j)), t)"
      by (auto simp: entries_def)
    have "hget db1 (?kf (j, t)) = hset (?ff (j, t)) (hget db (?kf (j, t)))"
      unfolding db1 by (rule foldl_hput_get [OF kd x])
    then show ?thesis using e db' by (auto simp: scored_def)
  qed
  then show ?thesis using fr by (simp add: db')
qed

context redis_server
begin

lemma do1_total:
  assumes "\<And>s cs. fst (call s cs) \<noteq> None" and "\<And>k f n. c \<noteq> HINCRBY k f n"
  shows "\<exists>r s'. do1 call c s = (Inr r, s')"
proof -
  obtain o1 t where c: "call s [c] = (o1, t)" by fastforce
  with assms(1) [of s "[c]"] obtain rs where o: "o1 = Some rs" by auto
  then have d: "docs [c] (view s) rs (view t)" using c call_done by blast
  then have "RErr \<notin> set rs" using docs_no_err [OF d] assms(2) by fastforce
  with c o d show ?thesis by (auto simp: do1_def pipe_def)
qed

lemma pipe_total:
  assumes "\<And>s cs. fst (call s cs) \<noteq> None" and "\<And>k f n. HINCRBY k f n \<notin> set cs"
  shows "\<exists>rs s'. pipe call cs s = (Inr rs, s')"
proof -
  obtain o1 t where c: "call s cs = (o1, t)" by fastforce
  with assms(1) [of s cs] obtain rs where o: "o1 = Some rs" by auto
  then have d: "docs cs (view s) rs (view t)" using c call_done by blast
  then have "RErr \<notin> set rs" using docs_no_err [OF d] assms(2) by blast
  with c o show ?thesis by (auto simp: pipe_def)
qed

lemma do1_wf: "do1 call c s = (Inr r, s') \<Longrightarrow> wf (view s) \<Longrightarrow> wf (view s')"
  by (meson do1_ok doc_wf)

subsection \<open>Closing a wave\<close>

lemma spop_all_ok:
  "spop_all call k f ids s = (Inr out, s') \<Longrightarrow>
   (\<exists>got. out = ids @ got \<and> mset got = mset (sget (view s) k)) \<and> sget (view s') k = [] \<and>
   (\<forall>k'. k' \<noteq> k \<longrightarrow> sget (view s') k' = sget (view s) k') \<and>
   hashes (view s') = hashes (view s) \<and> zsets (view s') = zsets (view s)"
proof (induction f arbitrary: ids s)
  case 0
  then show ?case by simp
next
  case (Suc f)
  obtain e t where p: "do1 call (SPOPN k 1000) s = (e, t)" by fastforce
  with Suc.prems obtain r where e: "e = Inr r" by (cases e) auto
  from do1_ok [OF p [unfolded e]] obtain o1 rest
    where r: "r = RList o1" "mset o1 + mset rest = mset (sget (view s) k)"
      "length o1 = min 1000 (length (sget (view s) k))" and v: "view t = sput k rest (view s)" by auto
  show ?case
  proof (cases "o1 = []")
    case True
    then have "sget (view s) k = []" using r(3) by (auto simp: min_def split: if_splits)
    then show ?thesis using True Suc.prems p e r v by auto
  next
    case False
    then have "spop_all call k f (ids @ o1) t = (Inr out, s')" using Suc.prems p e r by simp
    from Suc.IH [OF this] obtain got where "out = (ids @ o1) @ got" "mset got = mset rest"
      and rest: "sget (view s') k = []" "\<forall>k'. k' \<noteq> k \<longrightarrow> sget (view s') k' = sget (view t) k'"
        "hashes (view s') = hashes (view t)" "zsets (view s') = zsets (view t)"
      using v by auto
    then have "out = ids @ (o1 @ got)" "mset (o1 @ got) = mset (sget (view s) k)" using r(2) by auto
    then show ?thesis using rest v by auto
  qed
qed

lemma spop_all_fuel:
  assumes "\<And>s cs. fst (call s cs) \<noteq> None"
  shows "length (sget (view s) k) \<le> 1000 * f \<Longrightarrow> \<exists>out s'. spop_all call k (Suc f) ids s = (Inr out, s')"
proof (induction f arbitrary: ids s)
  case 0
  obtain r t where p: "do1 call (SPOPN k 1000) s = (Inr r, t)"
    using do1_total [OF assms, where c = "SPOPN k 1000"] by blast
  from do1_ok [OF p] have "as_list r = []" using 0 by auto
  with p show ?case by simp
next
  case (Suc f)
  obtain r t where p: "do1 call (SPOPN k 1000) s = (Inr r, t)"
    using do1_total [OF assms, where c = "SPOPN k 1000"] by blast
  from do1_ok [OF p] obtain o1 rest
    where r: "r = RList o1" "mset o1 + mset rest = mset (sget (view s) k)"
      "length o1 = min 1000 (length (sget (view s) k))" and v: "view t = sput k rest (view s)" by auto
  from r(2) have "length o1 + length rest = length (sget (view s) k)" by (metis size_mset size_union)
  then have "length (sget (view t) k) \<le> 1000 * f" using r(3) Suc.prems v by (auto simp: min_def split: if_splits)
  from Suc.IH [OF this, of "ids @ o1"] obtain out s' where
    "spop_all call k (Suc f) (ids @ o1) t = (Inr out, s')" by blast
  then show ?case using p r(1) by (cases "o1 = []") auto
qed

end

context redis_server
begin

lemma rank_from_ok:
  "rank_from call i n base ids s = (Inr u, s') \<Longrightarrow> distinct ids \<Longrightarrow>
   zget (view s') (Key i ''pending'') =
      foldl (\<lambda>z e. zadd1 e z) (zget (view s) (Key i ''pending'')) (entries n base ids)
   \<and> sets (view s') = sets (view s)
   \<and> (\<forall>k. k \<noteq> Key i ''pending'' \<longrightarrow> zget (view s') k = zget (view s) k)
   \<and> (\<forall>k. k \<notin> tkey i ` set ids \<longrightarrow> hget (view s') k = hget (view s) k)
   \<and> (\<forall>e \<in> set (entries n base ids). scored i (view s') e)"
proof (induction "length ids" arbitrary: base ids s rule: less_induct)
  case less
  show ?case
  proof (cases "ids = []")
    case True
    then show ?thesis using less.prems by (simp add: rank_from.simps entries_def)
  next
    case False
    let ?c = "take 1000 ids" and ?r = "drop 1000 ids"
    obtain e t where p: "pipe call (rank_cmds i n base ?c) s = (e, t)" by fastforce
    then obtain rs where e: "e = Inr rs" using less.prems(1) False
      by (cases e) (auto simp: rank_from.simps [of call i n base ids s])
    then have rec: "rank_from call i n (base + 1000) ?r t = (Inr u, s')"
      using less.prems(1) False p by (simp add: rank_from.simps [of call i n base ids s])
    have d: "docs (rank_cmds i n base ?c) (view s) rs (view t)" using pipe_ok p e by blast
    have dc: "distinct ?c" "distinct ?r" "set ?c \<inter> set ?r = {}"
      using less.prems(2) by (simp_all add: set_take_disj_set_drop_if_distinct)
    note A = rank_docs [OF d dc(1)]
    have "length ?r < length ids" using False by (cases ids) auto
    note B = less.hyps [OF this rec dc(2)]
    have ent: "entries n base ids = entries n base ?c @ entries n (base + 1000) ?r"
    proof (cases "length ids \<le> 1000")
      case True
      then show ?thesis by (simp add: entries_def)
    next
      case False
      then show ?thesis using entries_append [of n base ?c ?r] by (simp add: min_def)
    qed
    have "scored i (view s') x" if "x \<in> set (entries n base ?c)" for x
    proof -
      have "snd x \<in> set ?c" using that entries_snd [of n base ?c] by (metis image_eqI set_map)
      then have "tkey i (snd x) \<notin> tkey i ` set ?r" using dc(3) by auto
      then show ?thesis using A B that by (simp add: scored_def)
    qed
    moreover have "hget (view s') k = hget (view s) k" if "k \<notin> tkey i ` set ids" for k
    proof -
      have "k \<notin> tkey i ` set ?c" "k \<notin> tkey i ` set ?r" using that by (auto dest: in_set_takeD in_set_dropD)
      then show ?thesis using A B by simp
    qed
    ultimately show ?thesis using A B by (simp add: ent ball_Un)
  qed
qed

lemma rank_from_total:
  assumes "\<And>s cs. fst (call s cs) \<noteq> None"
  shows "\<exists>s'. rank_from call i n base ids s = (Inr (), s')"
proof (induction "length ids" arbitrary: base ids s rule: less_induct)
  case less
  show ?case
  proof (cases "ids = []")
    case True
    then show ?thesis by (simp add: rank_from.simps)
  next
    case False
    have "HINCRBY k f m \<notin> set (rank_cmds i n base (take 1000 ids))" for k f m
      by (auto simp: rank_cmds_def)
    then obtain rs t where "pipe call (rank_cmds i n base (take 1000 ids)) s = (Inr rs, t)"
      using pipe_total [OF assms] by blast
    moreover have "length (drop 1000 ids) < length ids" using False by (cases ids) auto
    ultimately show ?thesis using less False by (simp add: rank_from.simps [of call i n base ids s])
  qed
qed

lemma CloseWave_ok:
  assumes c: "CloseWave call i n f rnd s = (Inr k, s')" and w: "wf (view s)"
  shows "\<exists>ids. mset ids = mset (sget (view s) (wkey i n)) \<and> k = int (length ids) \<and>
     sget (view s') (wkey i n) = [] \<and>
     set (zget (view s') (Key i ''pending'')) =
       set (entries n 0 ids) \<union> {p \<in> set (zget (view s) (Key i ''pending'')). snd p \<notin> set ids} \<and>
     (\<forall>e \<in> set (entries n 0 ids). scored i (view s') e)"
proof -
  obtain e s1 where p: "spop_all call (wkey i n) f [] s = (e, s1)" by fastforce
  with c obtain ids where e: "e = Inr ids" by (cases e) (auto simp: CloseWave_def)
  note S = spop_all_ok [OF p [unfolded e]]
  then have m: "mset ids = mset (sget (view s) (wkey i n))" by auto
  have dist: "distinct ids" using w m by (metis mset_eq_imp_distinct_iff wf_def)
  show ?thesis
  proof (cases "ids = []")
    case True
    then show ?thesis using c p e S m by (auto simp: CloseWave_def entries_def)
  next
    case False
    let ?sh = "Shuffle rnd ids"
    obtain e2 s2 where r: "rank_from call i n 0 ?sh s1 = (e2, s2)" by fastforce
    with c p e False obtain u where e2: "e2 = Inr u" by (cases e2) (auto simp: CloseWave_def)
    have k: "k = int (length ids)" and s': "s' = snd (do1 call (DEL (wkey i n)) s2)"
      using c p e False r e2 by (auto simp: CloseWave_def)
    have ms: "mset ?sh = mset ids" by (rule mset_Shuffle)
    then have ds: "distinct ?sh" using dist by (metis mset_eq_imp_distinct_iff)
    note R = rank_from_ok [OF r [unfolded e2] ds]
    obtain e3 t where d: "do1 call (DEL (wkey i n)) s2 = (e3, t)" by fastforce
    have "view t = view s2 \<or> view t = del_key (wkey i n) (view s2)"
      using do1_ok do1_err d by (cases e3) fastforce+
    then have V: "zget (view s') (Key i ''pending'') = zget (view s2) (Key i ''pending'')"
      "sget (view s') (wkey i n) = []" "\<forall>x. hget (view s') (tkey i x) = hget (view s2) (tkey i x)"
      using s' d S R by auto
    have "set (zget (view s2) (Key i ''pending'')) = set (entries n 0 ?sh) \<union>
        {p \<in> set (zget (view s) (Key i ''pending'')). snd p \<notin> snd ` set (entries n 0 ?sh)}"
      using R S set_foldl_zadd1 [of "entries n 0 ?sh"] ds by simp
    moreover have "snd ` set (entries n 0 ?sh) = set ?sh" by (metis entries_snd set_map)
    moreover have "\<forall>e \<in> set (entries n 0 ?sh). scored i (view s') e" using R V by (simp add: scored_def)
    moreover have "length ?sh = length ids" using ms by (metis size_mset)
    ultimately show ?thesis using m ms k V by (intro exI [of _ ?sh]) simp
  qed
qed

lemma CloseWave_total:
  assumes "\<And>s cs. fst (call s cs) \<noteq> None" and "length (sget (view s) (wkey i n)) \<le> 1000 * f"
  shows "\<exists>k s'. CloseWave call i n (Suc f) rnd s = (Inr k, s')"
proof -
  obtain ids s1 where "spop_all call (wkey i n) (Suc f) [] s = (Inr ids, s1)"
    using spop_all_fuel [OF assms] by blast
  moreover obtain s2 where "rank_from call i n 0 (Shuffle rnd ids) s1 = (Inr (), s2)"
    using rank_from_total [OF assms(1)] by blast
  ultimately show ?thesis by (cases "ids = []") (simp_all add: CloseWave_def)
qed

end

subsection \<open>Tickets, counts and heads\<close>

lemma hincr_sel:
  assumes "(r, db') = hincr k f n db"
  shows "k' \<noteq> k \<Longrightarrow> hget db' k' = hget db k'" "sets db' = sets db" "zsets db' = zsets db" "strs db' = strs db"
  using hincr_frame [OF assms] by auto

lemma create_docs:
  assumes "docs (create_cmds i t) db rs db'"
  shows "hget db' (tkey i (TID t)) =
        hset [(''created'', show_int (Created t)), (''wave'', show_int (TWave t)),
          (''status'', Status t), (''dom'', Dom t), (''ret'', Ret t)] (hget db (tkey i (TID t)))
    \<and> TID t \<in> set (sget db' (wkey i (TWave t))) \<and> String i \<in> set (sget db' RoomsKey)
    \<and> zsets db' = zsets db"
proof -
  let ?fs = "[(''created'', show_int (Created t)), (''wave'', show_int (TWave t)),
          (''status'', Status t), (''dom'', Dom t), (''ret'', Ret t)]"
  from assms obtain r3 r5 r6 d1 d2 d3 d4 d5
    where 1: "d1 = hput (tkey i (TID t)) (hset ?fs (hget db (tkey i (TID t)))) db"
      and 2: "d2 = d1 \<or> d2 = expire (tkey i (TID t)) ticketTTL d1"
      and 3: "doc (SADD (wkey i (TWave t)) (TID t)) d2 r3 d3"
      and 4: "d4 = d3 \<or> d4 = expire (wkey i (TWave t)) (2 * Hour) d3"
      and 5: "(r5, d5) = hincr (Key i ''stats'') ''tickets_total'' 1 d4"
      and 6: "doc (SADD RoomsKey (String i)) d5 r6 db'"
    unfolding create_cmds_def docs.simps doc.simps(1-7) by (metis (full_types, lifting))
  have h1: "hget d1 (tkey i (TID t)) = hset ?fs (hget db (tkey i (TID t)))" "zsets d1 = zsets db"
    by (simp_all only: 1 put_sel lget_lput simp_thms if_True)
  have h2: "hashes d2 = hashes d1" "zsets d2 = zsets d1" using 2 by auto
  have h3: "hashes d3 = hashes d2" "zsets d3 = zsets d2" "TID t \<in> set (sget d3 (wkey i (TWave t)))"
    using 3 by (auto split: if_splits)
  have h4: "hashes d4 = hashes d3" "zsets d4 = zsets d3" "sets d4 = sets d3" using 4 by auto
  have h5: "hget d5 (tkey i (TID t)) = hget d4 (tkey i (TID t))" "zsets d5 = zsets d4" "sets d5 = sets d4"
    using hincr_sel [OF 5] by simp_all
  have h6: "hashes db' = hashes d5" "zsets db' = zsets d5" "String i \<in> set (sget db' RoomsKey)"
    "sget db' (wkey i (TWave t)) = sget d5 (wkey i (TWave t))"
    using 6 by (auto split: if_splits)
  show ?thesis using h1 h2 h3 h4 h5 h6 by simp
qed

context redis_server
begin

lemma CreateTicket_ok:
  assumes "CreateTicket call i cfg d ret now rb s = (Inr t, s')"
  shows "(\<exists>w. Wave now (WaveSec cfg) = Some w \<and> t = \<lparr>TID = newID rb, Created = Unix now, TWave = w,
       Status = StatusWaiting, Score = 0, Dom = d, Ret = ret, Pass = '''', Exp = 0, Admitted = 0\<rparr>)
    \<and> hget (view s') (tkey i (TID t)) =
        hset [(''created'', show_int (Created t)), (''wave'', show_int (TWave t)),
          (''status'', Status t), (''dom'', d), (''ret'', ret)] (hget (view s) (tkey i (TID t)))
    \<and> TID t \<in> set (sget (view s') (wkey i (TWave t))) \<and> String i \<in> set (sget (view s') RoomsKey)
    \<and> zsets (view s') = zsets (view s)"
proof -
  obtain w where w: "Wave now (WaveSec cfg) = Some w"
    using assms by (cases "Wave now (WaveSec cfg)") (auto simp: CreateTicket_def)
  obtain e s1 where p: "pipe call (create_cmds i \<lparr>TID = newID rb, Created = Unix now, TWave = w,
       Status = StatusWaiting, Score = 0, Dom = d, Ret = ret, Pass = '''', Exp = 0, Admitted = 0\<rparr>) s = (e, s1)"
    by fastforce
  with assms w obtain rs where e: "e = Inr rs" by (cases e) (auto simp: CreateTicket_def)
  have t: "t = \<lparr>TID = newID rb, Created = Unix now, TWave = w, Status = StatusWaiting, Score = 0,
      Dom = d, Ret = ret, Pass = '''', Exp = 0, Admitted = 0\<rparr>" and s1: "s1 = s'"
    using assms w p e by (auto simp: CreateTicket_def)
  have "docs (create_cmds i t) (view s) rs (view s')" using pipe_ok [OF p [unfolded e]] s1 t by simp
  from create_docs [OF this] show ?thesis using w t by simp
qed

lemma GetTicket_ok:
  "GetTicket L call i tid s = (Inr r, s') \<Longrightarrow> view s' = view s \<and>
   (r = None \<longleftrightarrow> hget (view s) (tkey i tid) = []) \<and>
   (\<forall>t. r = Some t \<longrightarrow> t = (let h = hget (view s) (tkey i tid) in
      \<lparr>TID = tid, Created = fst (ParseInt (hv h ''created'')), TWave = fst (ParseInt (hv h ''wave'')),
       Status = hv h ''status'', Score = (case ParseFloat L (hv h ''score'') of Some v \<Rightarrow> v | None \<Rightarrow> 0),
       Dom = hv h ''dom'', Ret = hv h ''ret'', Pass = hv h ''pass'',
       Exp = fst (ParseInt (hv h ''exp'')), Admitted = fst (ParseInt (hv h ''admitted''))\<rparr>))"
  by (auto simp: GetTicket_def Let_def split: prod.splits sum.splits if_splits dest!: do1_ok)

lemma Counts_ok:
  assumes "Counts call i now s = (Inr (p, a, h), s')"
  shows "let pend = zget (view s) (Key i ''pending''); act = zget (view s) (Key i ''active'')
    in p = int (length pend) \<and> a = int (length (filter (\<lambda>x. of_int (Unix now) < fst x) act)) \<and>
       h = (if pend = [] then 0 else fst (hd pend)) \<and>
       zget (view s') (Key i ''active'') = filter (\<lambda>x. of_int (Unix now) < fst x) act \<and>
       zget (view s') (Key i ''pending'') = pend \<and> hashes (view s') = hashes (view s) \<and>
       sets (view s') = sets (view s) \<and> strs (view s') = strs (view s)"
proof -
  let ?cs = "[ZREMRANGEBYSCORE (Key i ''active'') (of_int (Unix now)),
           ZCARD (Key i ''pending''), ZCARD (Key i ''active''), ZRANGE (Key i ''pending'') 0 0]"
  obtain e s1 where p: "pipe call ?cs s = (e, s1)" by fastforce
  with assms obtain rs where e: "e = Inr rs" by (cases e) (auto simp: Counts_def)
  have s1: "s1 = s'" using assms p e by (simp add: Counts_def)
  have docs: "docs ?cs (view s) rs (view s')" using pipe_ok [OF p [unfolded e]] s1 by (simp only:)
  have ne: "Key i ''active'' \<noteq> Key i ''pending''" by simp
  from docs obtain n0 where rs: "rs = [n0, RInt (int (length (zget (view s) (Key i ''pending'')))),
      RInt (int (length (filter (\<lambda>x. of_int (Unix now) < fst x) (zget (view s) (Key i ''active''))))),
      RZ (take 1 (zget (view s) (Key i ''pending'')))]"
    and v: "view s' = zput (Key i ''active'')
      (filter (\<lambda>x. of_int (Unix now) < fst x) (zget (view s) (Key i ''active''))) (view s)"
    using ne by (auto simp: docs_Cons)
  show ?thesis using assms p e rs v ne
    by (cases "zget (view s) (Key i ''pending'')") (auto simp: Counts_def Let_def)
qed

lemma PopPending_ok:
  assumes "PopPending call i k s = (Inr xs, s')"
  shows "xs = map snd (take (nat k) (zget (view s) (Key i ''pending''))) \<and>
    zget (view s') (Key i ''pending'') = drop (nat k) (zget (view s) (Key i ''pending'')) \<and>
    (\<forall>x. x \<noteq> Key i ''pending'' \<longrightarrow> zget (view s') x = zget (view s) x) \<and>
    hashes (view s') = hashes (view s) \<and> sets (view s') = sets (view s) \<and> strs (view s') = strs (view s)"
proof (cases "k \<le> 0")
  case True
  then show ?thesis using assms by (auto simp: PopPending_def)
next
  case False
  then show ?thesis using assms
    by (auto simp: PopPending_def split: prod.splits sum.splits dest!: do1_ok)
qed

lemma MarkAdmitted_ok:
  assumes "MarkAdmitted call i tid pss ex now s = (Inr u, s')"
  shows "hget (view s') (tkey i tid) = hset [(''status'', StatusAdmitted), (''pass'', pss),
      (''exp'', show_int ex), (''admitted'', show_int now)] (hget (view s) (tkey i tid)) \<and>
    (\<forall>k. k \<noteq> tkey i tid \<and> k \<noteq> Key i ''stats'' \<longrightarrow> hget (view s') k = hget (view s) k) \<and>
    zget (view s') (Key i ''active'') = zadd1 (of_int (f64_of_int ex), tid) (zget (view s) (Key i ''active'')) \<and>
    (\<forall>k. k \<noteq> Key i ''active'' \<longrightarrow> zget (view s') k = zget (view s) k) \<and>
    sets (view s') = sets (view s) \<and> strs (view s') = strs (view s)"
proof -
  obtain e s1 where p: "pipe call (mark_cmds i tid pss ex now) s = (e, s1)" by fastforce
  with assms obtain rs where e: "e = Inr rs" by (cases e) (auto simp: MarkAdmitted_def)
  have s1: "s1 = s'" using assms p e by (simp add: MarkAdmitted_def)
  have "docs (mark_cmds i tid pss ex now) (view s) rs (view s')"
    using pipe_ok [OF p [unfolded e]] s1 by (simp only:)
  then obtain r3 d3 where "d3 = zput (Key i ''active'') (zadd1 (of_int (f64_of_int ex), tid)
      (zget (view s) (Key i ''active''))) (hput (tkey i tid) (hset [(''status'', StatusAdmitted),
      (''pass'', pss), (''exp'', show_int ex), (''admitted'', show_int now)]
      (hget (view s) (tkey i tid))) (view s))"
    and h: "(r3, view s') = hincr (Key i ''stats'') ''admitted_total'' 1 d3"
    by (auto simp: mark_cmds_def)
  then show ?thesis using hincr_sel [OF h] by simp
qed

lemma Acquire_ok:
  assumes "Acquire call i o1 ttl s = (Inr b, s')"
  shows "(b \<longleftrightarrow> map_of (strs (view s)) (Key i ''lock'') \<in> {None, Some o1}) \<and>
    map_of (strs (view s')) (Key i ''lock'') =
      Some (case map_of (strs (view s)) (Key i ''lock'') of None \<Rightarrow> o1 | Some x \<Rightarrow> x) \<and>
    hashes (view s') = hashes (view s) \<and> sets (view s') = sets (view s) \<and> zsets (view s') = zsets (view s) \<and>
    chan (view s') = chan (view s) \<and>
    (\<forall>k. k \<noteq> Key i ''lock'' \<longrightarrow> map_of (strs (view s')) k = map_of (strs (view s)) k)"
  using assms
  by (auto simp: Acquire_def split: prod.splits sum.splits if_splits reply.splits option.splits
      dest!: do1_ok)

end

section \<open>Properties\<close>

text \<open>the ticket that \<open>CreateTicket\<close> returns is the ticket that \<open>GetTicket\<close> reads back from the
  server, field by field, it waits in the set of its wave, and its room is registered.\<close>

theorem CreateTicket_GetTicket:
  assumes srv: "redis_server call view"
    and fresh: "hget (view s) (tkey i (newID rb)) = []"
    and noscore: "ParseFloat L '''' = None"
    and now: "- (2 ^ 63) \<le> Unix now" "Unix now < 2 ^ 63"
    and create: "CreateTicket call i cfg d ret now rb s = (Inr t, s1)"
    and get: "GetTicket L call i (TID t) s1 = (Inr r, s2)"
  shows "r = Some t \<and> TID t \<in> set (sget (view s1) (wkey i (TWave t))) \<and>
     String i \<in> set (sget (view s1) RoomsKey)"
proof -
  from redis_server.CreateTicket_ok [OF srv create] obtain w where w: "Wave now (WaveSec cfg) = Some w"
    and t: "t = \<lparr>TID = newID rb, Created = Unix now, TWave = w, Status = StatusWaiting, Score = 0,
       Dom = d, Ret = ret, Pass = '''', Exp = 0, Admitted = 0\<rparr>"
    and h: "hget (view s1) (tkey i (TID t)) = hset [(''created'', show_int (Created t)),
         (''wave'', show_int (TWave t)), (''status'', Status t), (''dom'', d), (''ret'', ret)] []"
    and r: "TID t \<in> set (sget (view s1) (wkey i (TWave t)))" "String i \<in> set (sget (view s1) RoomsKey)"
    using fresh by auto
  have "- (2 ^ 63) \<le> w \<and> w < 2 ^ 63" using w wrap64_range by (auto simp: Wave_def split: if_splits)
  then have "r = Some t" using redis_server.GetTicket_ok [OF srv get] h t now noscore
    by (cases r) (auto simp: hv_def Let_def ParseInt_show_int ParseInt_def [of "''''"])
  with r show ?thesis by simp
qed

definition demo_id :: ID where
  "demo_id = \<lparr>Tenant = ''acme'', Room = ''sale''\<rparr>"

definition demo_lib2 :: lib where
  "demo_lib2 = demo_lib\<lparr>ParseFloat := (\<lambda>s. if s = '''' then None else Some (of_int (fst (ParseInt s))))\<rparr>"

definition is_ok :: "'a res \<times> 's \<Rightarrow> bool" where
  "is_ok p = (case fst p of Inl _ \<Rightarrow> False | Inr _ \<Rightarrow> True)"

lemma is_ok_ex: "is_ok p \<Longrightarrow> \<exists>x s. p = (Inr x, s)"
  by (cases p) (auto simp: is_ok_def split: sum.splits)

lemma is_ok_bindR: "is_ok (bindR m f s) \<Longrightarrow> \<exists>x s1 y s2. m s = (Inr x, s1) \<and> f x s1 = (Inr y, s2)"
proof (cases "m s")
  case (Pair r t)
  moreover assume "is_ok (bindR m f s)"
  ultimately show ?thesis by (cases r) (auto simp: is_ok_def bindR_def dest: is_ok_ex [unfolded is_ok_def])
qed

theorem CreateTicket_GetTicket_witness:
  "\<exists>t s1 s2. CreateTicket mem_call demo_id Defaults ''a.fr'' ''/x'' 1760000000000000000 ''0'' (empty_rdb, [])
      = (Inr t, s1) \<and> GetTicket demo_lib2 mem_call demo_id (TID t) s1 = (Inr (Some t), s2)"
proof -
  have "is_ok (bindR (CreateTicket mem_call demo_id Defaults ''a.fr'' ''/x'' 1760000000000000000 ''0'')
      (\<lambda>t. GetTicket demo_lib2 mem_call demo_id (TID t)) (empty_rdb, []))" by code_simp
  from is_ok_bindR [OF this] obtain t s1 r s2
    where c: "CreateTicket mem_call demo_id Defaults ''a.fr'' ''/x'' 1760000000000000000 ''0'' (empty_rdb, []) = (Inr t, s1)"
      and g: "GetTicket demo_lib2 mem_call demo_id (TID t) s1 = (Inr r, s2)"
    by blast
  have "r = Some t"
    using CreateTicket_GetTicket [OF mem.redis_server_axioms _ _ _ _ c g]
    by (simp add: empty_rdb_def demo_lib2_def Unix_def Second_def)
  with c g show ?thesis by blast
qed

text \<open>the shuffle of a wave loses and invents no ticket, and every order of the tickets is
  the outcome of some draw of the random words, so no order is excluded.\<close>

theorem Shuffle_permutes:
  "mset (Shuffle rnd xs) = mset xs \<and>
   (length xs < 2 ^ 64 \<longrightarrow> mset ys = mset xs \<longrightarrow> (\<exists>r. Shuffle r xs = ys))"
proof (cases xs)
  case Nil
  then show ?thesis by (simp add: Shuffle_def)
next
  case (Cons x xs')
  then show ?thesis using mset_Shuffle [of rnd xs] shuffle_reach [of xs "length xs'" ys]
    by (auto simp: Shuffle_def)
qed

theorem Shuffle_permutes_witness: "\<exists>r. Shuffle r ''abc'' = ''cab''"
  using Shuffle_permutes [of undefined "''abc''" "''cab''"] by simp

text \<open>C30: closing a wave takes every ticket of it out of the wave set and puts each of them into
  the queue once, with a score of the band of the wave, all distinct ranks from 0, writes the
  same score in its hash, and leaves the other tickets of the queue where they were.\<close>

theorem CloseWave_moves_wave:
  assumes "redis_server call view" and "wf (view s)" and "CloseWave call i n f rnd s = (Inr k, s')"
  shows "\<exists>ids. mset ids = mset (sget (view s) (wkey i n)) \<and> k = int (length ids) \<and>
     sget (view s') (wkey i n) = [] \<and>
     set (zget (view s') (Key i ''pending'')) =
       set (entries n 0 ids) \<union> {p \<in> set (zget (view s) (Key i ''pending'')). snd p \<notin> set ids} \<and>
     (\<forall>e \<in> set (entries n 0 ids). scored i (view s') e)"
  using redis_server.CloseWave_ok [OF assms(1) assms(3) assms(2)] .

definition demo_wave :: "string list \<Rightarrow> rdb" where
  "demo_wave ts = empty_rdb\<lparr>sets := [(wkey demo_id 7, ts)]\<rparr>"

lemma demo_wave_wf: "distinct ts \<Longrightarrow> wf (demo_wave ts)"
  by (simp add: wf_def demo_wave_def empty_rdb_def lget_def)

theorem CloseWave_moves_wave_witness:
  "\<exists>k s'. CloseWave mem_call demo_id 7 2 (\<lambda>_. 0) (demo_wave [''a'', ''b''], []) = (Inr k, s') \<and> k = 2"
proof -
  have "is_ok (CloseWave mem_call demo_id 7 2 (\<lambda>_. 0) (demo_wave [''a'', ''b''], []))" by code_simp
  then obtain k s' where c: "CloseWave mem_call demo_id 7 2 (\<lambda>_. 0) (demo_wave [''a'', ''b''], []) = (Inr k, s')"
    using is_ok_ex by blast
  have "wf (fst (demo_wave [''a'', ''b''], [] :: nat option list))" by (simp add: demo_wave_wf)
  from CloseWave_moves_wave [OF mem.redis_server_axioms this c] obtain ids
    where "mset ids = mset [''a'', ''b'']" "k = int (length ids)"
    by (auto simp: demo_wave_def lget_def)
  then have "k = 2" by (metis One_nat_def Suc_1 length_Cons list.size(3) of_nat_numeral size_mset)
  with c show ?thesis by blast
qed

text \<open>C31: closing a wave terminates: on a server that answers, the loop on SPOP ends after one
  round per thousand tickets and one more, and the operation returns a count.\<close>

theorem CloseWave_terminates:
  assumes "redis_server call view" and "\<And>s cs. fst (call s cs) \<noteq> None"
    and "length (sget (view s) (wkey i n)) \<le> 1000 * f"
  shows "\<exists>k s'. CloseWave call i n (Suc f) rnd s = (Inr k, s')"
  using redis_server.CloseWave_total [OF assms] .

text \<open>The in-memory server without faults, which always answers.\<close>

definition sure_call :: "rdb \<Rightarrow> cmd list \<Rightarrow> reply list option \<times> rdb" where
  "sure_call db cs = (let (rs, db') = mem_run cs db in (Some rs, db'))"

lemma sure_call_Some: "fst (sure_call db cs) \<noteq> None"
  by (simp add: sure_call_def split: prod.splits)

interpretation sure: redis_server sure_call "\<lambda>db. db"
  by unfold_locales (auto simp: sure_call_def split: prod.splits dest: mem_run_docs)

theorem CloseWave_terminates_witness:
  "\<exists>k s'. CloseWave sure_call demo_id 7 (Suc 1) (\<lambda>_. 0) (demo_wave [''a'', ''b'']) = (Inr k, s')"
  by (rule CloseWave_terminates [OF sure.redis_server_axioms sure_call_Some]) (simp add: demo_wave_def lget_def)

text \<open>a connection lost after the tickets of a wave were popped loses them: the wave is empty
  and the ticket is not in the queue, so nothing will ever admit it.\<close>

theorem CloseWave_can_lose_tickets:
  "(case CloseWave mem_call demo_id 7 2 (\<lambda>_. 0) (demo_wave [''a''], [None, None, Some 0]) of
     (r, s') \<Rightarrow> r = Inl EStore \<and> sget (fst s') (wkey demo_id 7) = [] \<and>
       zget (fst s') (Key demo_id ''pending'') = [] \<and> hget (fst s') (tkey demo_id ''a'') = [])"
  by code_simp

lemma sorted_take_drop_fst:
  "sorted (z :: (rat \<times> string) list) \<Longrightarrow> p \<in> set (take k z) \<Longrightarrow> q \<in> set (drop k z) \<Longrightarrow> fst p \<le> fst q"
proof -
  assume "sorted z" and p: "p \<in> set (take k z)" and q: "q \<in> set (drop k z)"
  then have "sorted (take k z @ drop k z)" by simp
  then have "p \<le> q" using p q unfolding sorted_append by blast
  then show ?thesis by (auto simp: less_eq_prod_def)
qed

text \<open>C32: tickets leave the queue in the order of their scores: \<open>PopPending\<close> removes at most \<open>k\<close>
  tickets from the head, returns them in order, and none left behind has a lower score.\<close>

theorem PopPending_in_order:
  assumes "redis_server call view" and "wf (view s)" and "PopPending call i k s = (Inr xs, s')"
  shows "\<exists>out. zget (view s) (Key i ''pending'') = out @ zget (view s') (Key i ''pending'') \<and>
    xs = map snd out \<and> length out = min (nat k) (length (zget (view s) (Key i ''pending''))) \<and>
    (\<forall>p \<in> set out. \<forall>q \<in> set (zget (view s') (Key i ''pending'')). fst p \<le> fst q)"
proof -
  let ?z = "zget (view s) (Key i ''pending'')"
  have "sorted ?z" using assms(2) by (simp add: wf_def zwf_def)
  then have "\<forall>p \<in> set (take (nat k) ?z). \<forall>q \<in> set (drop (nat k) ?z). fst p \<le> fst q"
    using sorted_take_drop_fst by blast
  then show ?thesis using redis_server.PopPending_ok [OF assms(1,3)]
    by (intro exI [of _ "take (nat k) ?z"]) (auto simp: min.commute)
qed

definition demo_queue :: rdb where
  "demo_queue = empty_rdb\<lparr>zsets := [(Key demo_id ''pending'', [(70, ''a''), (71, ''b''), (80, ''c'')]),
     (Key demo_id ''active'', [(5, ''x''), (20, ''y'')])]\<rparr>"

lemma demo_queue_wf: "wf demo_queue"
  by (auto simp: wf_def zwf_def demo_queue_def empty_rdb_def lget_def less_eq_prod_def)

theorem PopPending_in_order_witness:
  "\<exists>xs s'. PopPending sure_call demo_id 2 demo_queue = (Inr xs, s') \<and> xs = [''a'', ''b'']"
proof -
  have "is_ok (PopPending sure_call demo_id 2 demo_queue)" by code_simp
  then obtain xs s' where p: "PopPending sure_call demo_id 2 demo_queue = (Inr xs, s')" using is_ok_ex by blast
  from PopPending_in_order [OF sure.redis_server_axioms demo_queue_wf p] obtain out
    where "[(70, ''a''), (71, ''b''), (80, ''c'')] = out @ zget s' (Key demo_id ''pending'')"
      and xs: "xs = map snd out" and "length out = 2" by (auto simp: demo_queue_def lget_def)
  then have "out = take 2 [(70, ''a''), (71, ''b''), (80, ''c'')]" by (metis append_eq_conv_conj)
  with p xs show ?thesis by simp
qed

text \<open>\<open>Counts\<close> first drops the passes that have expired, then counts: every pass counted as
  active is in force, and the number of waiting tickets and the head score are those of the queue.\<close>

theorem Counts_purges:
  assumes "redis_server call view" and "Counts call i now s = (Inr (p, a, h), s')"
  shows "a = int (length (zget (view s') (Key i ''active''))) \<and>
    set (zget (view s') (Key i ''active'')) =
      {x \<in> set (zget (view s) (Key i ''active'')). of_int (Unix now) < fst x} \<and>
    p = int (length (zget (view s) (Key i ''pending''))) \<and>
    zget (view s') (Key i ''pending'') = zget (view s) (Key i ''pending'') \<and>
    (p \<noteq> 0 \<longrightarrow> h = fst (hd (zget (view s) (Key i ''pending''))))"
  using redis_server.Counts_ok [OF assms] by (auto simp: Let_def)

theorem Counts_purges_witness:
  "\<exists>p a h s'. Counts sure_call demo_id (10 * Second) demo_queue = (Inr (p, a, h), s') \<and> p = 3"
proof -
  have "is_ok (Counts sure_call demo_id (10 * Second) demo_queue)" by code_simp
  then obtain x s' where "Counts sure_call demo_id (10 * Second) demo_queue = (Inr x, s')"
    using is_ok_ex by blast
  then obtain p a h where c: "Counts sure_call demo_id (10 * Second) demo_queue = (Inr (p, a, h), s')"
    by (cases x) auto
  from Counts_purges [OF sure.redis_server_axioms c] have "p = 3"
    by (simp add: demo_queue_def lget_def)
  with c show ?thesis by blast
qed

context redis_server
begin

lemma Release_lock:
  "map_of (strs (view s)) (Key i ''lock'') = Some o1 \<Longrightarrow> o2 \<noteq> o1 \<Longrightarrow>
   map_of (strs (view (Release call i o2 s))) (Key i ''lock'') = Some o1"
proof -
  assume h: "map_of (strs (view s)) (Key i ''lock'') = Some o1" and ne: "o2 \<noteq> o1"
  obtain e t where d: "do1 call (EVALDELIF (Key i ''lock'') o2) s = (e, t)" by fastforce
  have "view t = view s"
    using do1_ok [of "EVALDELIF (Key i ''lock'') o2" s _ t] do1_err [of "EVALDELIF (Key i ''lock'') o2" s _ t] d h ne
    by (cases e) auto
  then show ?thesis using h d by (simp add: Release_def)
qed

end

text \<open>while the lease of a room is held, an instance acquires it if and only if it is the
  holder, and the release of another instance does not free it.\<close>

theorem Acquire_exclusive:
  assumes "redis_server call view" and "Acquire call i o1 ttl s = (Inr True, s1)"
    and "Acquire call i o2 ttl' (Release call i o3 s1) = (Inr b, s2)" and "o3 \<noteq> o1"
  shows "b \<longleftrightarrow> o2 = o1"
proof -
  have "map_of (strs (view s1)) (Key i ''lock'') = Some o1"
    using redis_server.Acquire_ok [OF assms(1,2)] by (auto split: option.splits)
  then have "map_of (strs (view (Release call i o3 s1))) (Key i ''lock'') = Some o1"
    using redis_server.Release_lock [OF assms(1)] assms(4) by simp
  then show ?thesis using redis_server.Acquire_ok [OF assms(1,3)] by auto
qed

theorem Acquire_exclusive_witness:
  "\<exists>s1 b s2. Acquire sure_call demo_id ''p1'' 10 empty_rdb = (Inr True, s1) \<and>
     Acquire sure_call demo_id ''p2'' 10 (Release sure_call demo_id ''p2'' s1) = (Inr b, s2) \<and> \<not> b"
proof -
  have 1: "is_ok (bindR (Acquire sure_call demo_id ''p1'' 10)
      (\<lambda>_ s. Acquire sure_call demo_id ''p2'' 10 (Release sure_call demo_id ''p2'' s)) empty_rdb)"
    and 2: "fst (Acquire sure_call demo_id ''p1'' 10 empty_rdb) = Inr True" by code_simp+
  from is_ok_bindR [OF 1] 2 obtain s1 b s2 where a: "Acquire sure_call demo_id ''p1'' 10 empty_rdb = (Inr True, s1)"
    and b: "Acquire sure_call demo_id ''p2'' 10 (Release sure_call demo_id ''p2'' s1) = (Inr b, s2)" by auto
  from Acquire_exclusive [OF sure.redis_server_axioms a b] have "\<not> b" by simp
  with a b show ?thesis by blast
qed

end
