(* ===== verification/Store_Frame.thy ===== *)
theory Store_Frame
  imports Store_Laws
begin

text \<open>
  What the operations of the store can never do, whether they return or fail half-way. The
  locale \<open>store_frame\<close> takes a relation between the data before and after that is reflexive,
  transitive and kept by every single command on the keys of one room (ZADD on its active set
  apart), and proves it for every operation of the store, on every path; \<open>store_frame_all\<close> adds
  that ZADD. Two relations are used later: the data of the other rooms is unchanged, and the
  active set does not grow.
\<close>

fun cmd_key :: "cmd \<Rightarrow> key" where
  "cmd_key (HGETALL k) = k" | "cmd_key (HSET k _) = k" | "cmd_key (HINCRBY k _ _) = k"
| "cmd_key (GET k) = k" | "cmd_key (SET k _) = k" | "cmd_key (SETNX k _ _) = k"
| "cmd_key (EXPIRE k _) = k" | "cmd_key (SADD k _) = k" | "cmd_key (SMEMBERS k) = k"
| "cmd_key (SCARD k) = k" | "cmd_key (SPOPN k _) = k" | "cmd_key (ZADD k _) = k"
| "cmd_key (ZCARD k) = k" | "cmd_key (ZRANK k _) = k" | "cmd_key (ZPOPMIN k _) = k"
| "cmd_key (ZREMRANGEBYSCORE k _) = k" | "cmd_key (ZRANGE k _ _) = k" | "cmd_key (DEL k) = k"
| "cmd_key (PUBLISH k _) = k" | "cmd_key (SCAN k) = k" | "cmd_key (EVALDELIF k _) = k"

definition in_room :: "ID \<Rightarrow> key \<Rightarrow> bool" where
  "in_room i k \<longleftrightarrow> k = RoomsKey \<or> prefix (Key i '''') k"

definition quiet :: "ID \<Rightarrow> cmd \<Rightarrow> bool" where
  "quiet i c \<longleftrightarrow> in_room i (cmd_key c) \<and> (case c of ZADD k _ \<Rightarrow> k \<noteq> Key i ''active'' | _ \<Rightarrow> True)"

lemma in_room_simps [simp]:
  "in_room i (Key i x)" "in_room i (tkey i t)" "in_room i (wkey i n)" "in_room i RoomsKey"
  by (simp_all add: in_room_def tkey_def wkey_def Key_def)

lemma quiet_cmds:
  "\<forall>c \<in> set (create_cmds i t). quiet i c" "\<forall>c \<in> set (direct_cmds i t). quiet i c"
  "\<forall>c \<in> set (rank_cmds i n b ids). quiet i c" "\<forall>c \<in> set (flush_cmds i cur). quiet i c"
  by (auto simp: create_cmds_def direct_cmds_def rank_cmds_def flush_cmds_def quiet_def)

lemma subseq_set: "subseq ds cs \<Longrightarrow> set ds \<subseteq> set cs"
  by (induction rule: list_emb.induct) auto

locale store_frame = redis_server call view
  for call :: "'s server" and view :: "'s \<Rightarrow> rdb" +
  fixes i :: ID and R :: "rdb \<Rightarrow> rdb \<Rightarrow> bool"
  assumes R_refl: "R db db"
    and R_trans: "R d1 d2 \<Longrightarrow> R d2 d3 \<Longrightarrow> R d1 d3"
    and R_quiet: "quiet i c \<Longrightarrow> doc c db r db' \<Longrightarrow> R db db'"
begin

lemma docs_R:
  assumes "\<And>c db r db'. c \<in> set cs \<Longrightarrow> doc c db r db' \<Longrightarrow> R db db'"
  shows "docs cs db rs db' \<Longrightarrow> R db db'"
  using assms
proof (induction cs arbitrary: db rs)
  case Nil
  then show ?case by (simp add: R_refl)
next
  case (Cons a cs)
  then obtain r rs' db1 where a: "doc a db r db1" and d: "docs cs db1 rs' db'" by auto
  have "R db1 db'" using Cons.IH [OF d] Cons.prems(2) by (meson list.set_intros(2))
  moreover have "R db db1" using Cons.prems(2) [OF _ a] by simp
  ultimately show ?case by (rule R_trans [rotated])
qed

lemma call_R:
  assumes c: "\<And>c db r db'. c \<in> set cs \<Longrightarrow> doc c db r db' \<Longrightarrow> R db db'"
  shows "R (view s) (view (snd (call s cs)))"
proof -
  obtain o1 t where t: "call s cs = (o1, t)" by fastforce
  show ?thesis
  proof (cases o1)
    case None
    with t call_lost [of s cs t] obtain ds rs where "subseq ds cs" and d: "docs ds (view s) rs (view t)" by auto
    then have "set ds \<subseteq> set cs" by (blast dest: subseq_set)
    then have "R (view s) (view t)" using docs_R [OF _ d] c by (meson subsetD)
    then show ?thesis using t by simp
  next
    case (Some rs)
    then have d: "docs cs (view s) rs (view t)" using t call_done [of s cs rs t] by simp
    show ?thesis using docs_R [OF c d] t by simp
  qed
qed

lemma call_quiet: "\<forall>c \<in> set cs. quiet i c \<Longrightarrow> R (view s) (view (snd (call s cs)))"
  using R_quiet by (intro call_R) blast

lemma pipe_snd: "snd (pipe call cs s) = snd (call s cs)"
  by (simp add: pipe_def split: prod.splits option.splits)

lemma do1_snd: "snd (do1 call c s) = snd (call s [c])"
  by (simp add: do1_def split: prod.splits sum.splits list.splits flip: pipe_snd)

lemma pipe_quiet: "pipe call cs s = (x, t) \<Longrightarrow> \<forall>c \<in> set cs. quiet i c \<Longrightarrow> R (view s) (view t)"
  using call_quiet [of cs s] by (simp flip: pipe_snd)

lemma do1_quiet: "do1 call c s = (x, t) \<Longrightarrow> quiet i c \<Longrightarrow> R (view s) (view t)"
  using call_quiet [of "[c]" s] by (simp flip: do1_snd)

text \<open>The state in which an operation of one command ends.\<close>

lemma do1_case:
  "quiet i c \<Longrightarrow> R (view s) (view (snd (case do1 call c s of
      (Inl e, s') \<Rightarrow> (f e s', s') | (Inr x, s') \<Rightarrow> (g x s', s'))))"
  by (auto split: prod.splits sum.splits dest: do1_quiet)

lemmas frame_splits = prod.splits sum.splits option.splits if_splits reply.splits num_err.splits

end

context store_frame
begin

lemma quiet_simps:
  "quiet i (HGETALL (Key i x))" "quiet i (HGETALL (tkey i t))" "quiet i (HSET (Key i x) h)"
  "quiet i (GET (Key i x))" "quiet i (SET (Key i x) v)" "quiet i (SETNX (Key i x) v d)"
  "quiet i (EXPIRE (Key i x) d)" "quiet i (SADD RoomsKey v)" "quiet i (SMEMBERS RoomsKey)"
  "quiet i (SCARD (wkey i n))" "quiet i (SPOPN (wkey i n) m)" "quiet i (DEL (wkey i n))"
  "quiet i (DEL (Key i x))" "quiet i (PUBLISH (Key i x) ev)" "quiet i (SCAN (Key i x))"
  "quiet i (EVALDELIF (Key i x) v)" "quiet i (ZCARD (Key i x))" "quiet i (ZRANK (Key i x) t)"
  "quiet i (ZPOPMIN (Key i x) m)" "quiet i (ZREMRANGEBYSCORE (Key i x) q)"
  "quiet i (ZRANGE (Key i x) a b)" "quiet i (ZADD (Key i ''pending'') es)"
  by (simp_all add: quiet_def)

lemma Publish_frame: "R (view s) (view (snd (Publish call i ev s)))"
  unfolding Publish_def by (rule do1_case) (rule quiet_simps)

lemma Config_of_frame: "R (view s) (view (snd (Config_of L call i s)))"
  unfolding Config_of_def by (rule do1_case) (rule quiet_simps)

lemma Rooms_frame: "R (view s) (view (snd (Rooms call s)))"
  unfolding Rooms_def by (rule do1_case) (rule quiet_simps)

lemma SetLastWave_frame: "R (view s) (view (snd (SetLastWave call i n s)))"
  unfolding SetLastWave_def by (rule do1_case) (rule quiet_simps)

lemma StrayWaves_frame: "R (view s) (view (snd (StrayWaves call i cur s)))"
  unfolding StrayWaves_def by (rule do1_case) (rule quiet_simps)

lemma Rank_frame: "R (view s) (view (snd (Rank call i tid s)))"
  unfolding Rank_def by (rule do1_case) (rule quiet_simps)

lemma WaveSize_frame: "R (view s) (view (snd (WaveSize call i n s)))"
  unfolding WaveSize_def by (rule do1_case) (rule quiet_simps)

lemma Stats_frame: "R (view s) (view (snd (Stats call i s)))"
  unfolding Stats_def by (rule do1_case) (rule quiet_simps)

lemma Release_frame: "R (view s) (view (Release call i o1 s))"
  unfolding Release_def do1_snd by (rule call_quiet) (simp add: quiet_simps)

lemma GetTicket_frame: "R (view s) (view (snd (GetTicket L call i tid s)))"
  by (auto simp: GetTicket_def Let_def split: frame_splits dest: do1_quiet [OF _ quiet_simps(2)])

lemma LastWave_frame: "R (view s) (view (snd (LastWave call i s)))"
  by (auto simp: LastWave_def split: frame_splits dest: do1_quiet [OF _ quiet_simps(4)])

lemma PopPending_frame: "R (view s) (view (snd (PopPending call i k s)))"
  by (auto simp: PopPending_def R_refl split: frame_splits dest: do1_quiet [OF _ quiet_simps(19)])

lemma Requeue_frame: "R (view s) (view (snd (Requeue call i t s)))"
  by (auto simp: Requeue_def R_refl split: frame_splits dest: do1_quiet [OF _ quiet_simps(22)])

lemma Ranks_frame: "R (view s) (view (snd (Ranks call i tids s)))"
proof (cases "tids = []")
  case True
  then show ?thesis by (simp add: Ranks_def R_refl)
next
  case False
  have "snd (Ranks call i tids s) = snd (call s (map (ZRANK (Key i ''pending'')) tids))"
    using False by (auto simp: Ranks_def split: prod.splits option.splits list.splits reply.splits)
  then show ?thesis using call_quiet [of "map (ZRANK (Key i ''pending'')) tids" s] by (simp add: quiet_simps)
qed

lemma SetConfig_frame: "R (view s) (view (snd (SetConfig L call i c s)))"
proof -
  have q: "\<forall>x \<in> set [HSET (Key i ''cfg'') (ToHash L c'), SADD RoomsKey (String i)]. quiet i x" for c'
    by (simp add: quiet_simps)
  show ?thesis
    by (auto simp: SetConfig_def R_refl split: prod.splits option.splits sum.splits
        dest!: pipe_quiet [OF _ q] intro: R_trans [OF _ Publish_frame])
qed

lemma CreateTicket_frame: "R (view s) (view (snd (CreateTicket call i cfg d ret now rb s)))"
  by (auto simp: CreateTicket_def Let_def R_refl split: frame_splits dest: pipe_quiet [OF _ quiet_cmds(1)])

lemma AdmitDirect_frame: "R (view s) (view (snd (AdmitDirect call i d ret pss ex now rb s)))"
  by (auto simp: AdmitDirect_def Let_def split: frame_splits dest: pipe_quiet [OF _ quiet_cmds(2)])

lemma spop_all_frame: "R (view s) (view (snd (spop_all call (wkey i n) f ids s)))"
proof (induction f arbitrary: ids s)
  case 0
  then show ?case by (simp add: R_refl)
next
  case (Suc f)
  obtain x t where d: "do1 call (SPOPN (wkey i n) 1000) s = (x, t)" by fastforce
  have "R (view s) (view t)" by (rule do1_quiet [OF d]) (rule quiet_simps)
  then show ?case using d Suc.IH by (cases x) (auto intro: R_trans)
qed

lemma rank_from_frame: "R (view s) (view (snd (rank_from call i n base ids s)))"
proof (induction "length ids" arbitrary: base ids s rule: less_induct)
  case less
  show ?case
  proof (cases "ids = []")
    case True
    then show ?thesis by (simp add: rank_from.simps R_refl)
  next
    case False
    obtain x t where d: "pipe call (rank_cmds i n base (take 1000 ids)) s = (x, t)" by fastforce
    have "R (view s) (view t)" by (rule pipe_quiet [OF d]) (rule quiet_cmds)
    moreover have "length (drop 1000 ids) < length ids" using False by (cases ids) auto
    ultimately show ?thesis using less False d
      by (cases x) (auto simp: rank_from.simps [of call i n base ids s] intro: R_trans)
  qed
qed

lemma CloseWave_frame: "R (view s) (view (snd (CloseWave call i n f rnd s)))"
proof -
  obtain x s1 where 1: "spop_all call (wkey i n) f [] s = (x, s1)" by fastforce
  have r1: "R (view s) (view s1)" using spop_all_frame [of s n f "[]"] 1 by simp
  show ?thesis
  proof (cases x)
    case (Inl e)
    then show ?thesis using r1 1 by (simp add: CloseWave_def)
  next
    case (Inr ids)
    obtain y s2 where 2: "rank_from call i n 0 (Shuffle rnd ids) s1 = (y, s2)" by fastforce
    have r2: "R (view s) (view s2)" using rank_from_frame [of s1 n 0 "Shuffle rnd ids"] 2 r1 R_trans by simp
    have "R (view s2) (view (snd (do1 call (DEL (wkey i n)) s2)))"
      unfolding do1_snd by (rule call_quiet) (simp add: quiet_simps)
    then have r3: "R (view s) (view (snd (do1 call (DEL (wkey i n)) s2)))" by (rule R_trans [OF r2])
    have "snd (CloseWave call i n f rnd s) \<in> {s1, s2, snd (do1 call (DEL (wkey i n)) s2)}"
      by (simp add: CloseWave_def 1 2 Inr split: sum.split)
    then show ?thesis using r1 r2 r3 by (elim insertE) simp_all
  qed
qed

lemma Counts_frame: "R (view s) (view (snd (Counts call i now s)))"
  by (auto simp: Counts_def quiet_simps split: frame_splits dest!: pipe_quiet)

lemma Flush_frame: "R (view s) (view (snd (Flush call i now w s)))"
proof (cases "Wave now w")
  case None
  then show ?thesis by (simp add: Flush_def R_refl)
next
  case (Some cur)
  obtain x t where p: "pipe call (flush_cmds i cur) s = (x, t)" by fastforce
  have "R (view s) (view t)" by (rule pipe_quiet [OF p quiet_cmds(4)])
  then show ?thesis using R_trans [OF _ Publish_frame] by (simp add: Flush_def Some p split: sum.split)
qed

lemma Acquire_frame: "R (view s) (view (snd (Acquire call i o1 ttl s)))"
proof -
  obtain x s1 where 1: "do1 call (SETNX (Key i ''lock'') o1 ttl) s = (x, s1)" by fastforce
  obtain y s2 where 2: "do1 call (GET (Key i ''lock'')) s1 = (y, s2)" by fastforce
  obtain z s3 where 3: "do1 call (EXPIRE (Key i ''lock'') ttl) s2 = (z, s3)" by fastforce
  have r1: "R (view s) (view s1)" by (rule do1_quiet [OF 1]) (rule quiet_simps)
  have r2: "R (view s) (view s2)" by (rule R_trans [OF r1 do1_quiet [OF 2]]) (rule quiet_simps)
  have r3: "R (view s) (view s3)" by (rule R_trans [OF r2 do1_quiet [OF 3]]) (rule quiet_simps)
  have "snd (Acquire call i o1 ttl s) \<in> {s1, s2, s3}"
    by (simp add: Acquire_def 1 2 3 split: sum.split reply.split)
  then show ?thesis using r1 r2 r3 by auto
qed

end

locale store_frame_all = store_frame +
  assumes R_active: "doc (ZADD (Key i ''active'') es) db r db' \<Longrightarrow> R db db'"
begin

lemma MarkAdmitted_frame: "R (view s) (view (snd (MarkAdmitted call i tid pss ex now s)))"
proof -
  have q: "R db db'" if "c \<in> set (mark_cmds i tid pss ex now)" "doc c db r db'" for c db r db'
  proof -
    from that(1) have "quiet i c \<or> (\<exists>es. c = ZADD (Key i ''active'') es)"
      by (auto simp: mark_cmds_def quiet_def)
    then show ?thesis using R_quiet [OF _ that(2)] R_active that(2) by blast
  qed
  have "R (view s) (view (snd (pipe call (mark_cmds i tid pss ex now) s)))"
    unfolding pipe_snd by (rule call_R) (rule q)
  then show ?thesis by (auto simp: MarkAdmitted_def split: prod.splits sum.splits)
qed

end

section \<open>Isolation of the rooms\<close>

text \<open>The data and the messages of the keys outside a room are the same.\<close>

definition same_outside :: "ID \<Rightarrow> rdb \<Rightarrow> rdb \<Rightarrow> bool" where
  "same_outside i db db' \<longleftrightarrow> (\<forall>k. \<not> in_room i k \<longrightarrow> hget db' k = hget db k \<and> sget db' k = sget db k \<and>
     zget db' k = zget db k \<and> map_of (strs db') k = map_of (strs db) k) \<and>
   filter (\<lambda>m. \<not> in_room i (fst m)) (chan db') = filter (\<lambda>m. \<not> in_room i (fst m)) (chan db)"

lemma same_outside_hput: "in_room i k \<Longrightarrow> same_outside i db (hput k h db)"
  by (auto simp: same_outside_def)

lemma doc_same_outside: "in_room i (cmd_key c) \<Longrightarrow> doc c db r db' \<Longrightarrow> same_outside i db db'"
proof (cases c)
  case (HINCRBY k f n)
  assume "in_room i (cmd_key c)" "doc c db r db'"
  then have "in_room i k" "(r, db') = hincr k f n db" using HINCRBY by simp_all
  then show ?thesis
    by (auto simp: hincr_def same_outside_def split: prod.splits option.splits if_splits)
qed (auto simp: same_outside_def split: if_splits)

lemma same_outside_trans: "same_outside i a b \<Longrightarrow> same_outside i b c \<Longrightarrow> same_outside i a c"
  by (simp add: same_outside_def)

lemma same_outside_key:
  assumes S: "same_outside i a b" and out: "\<not> in_room i k"
  shows "hget b k = hget a k \<and> sget b k = sget a k \<and> zget b k = zget a k \<and> map_of (strs b) k = map_of (strs a) k \<and>
    filter (\<lambda>m. fst m = k) (chan b) = filter (\<lambda>m. fst m = k) (chan a)"
proof -
  have "filter (\<lambda>m. fst m = k) ms = filter (\<lambda>m. fst m = k) (filter (\<lambda>m. \<not> in_room i (fst m)) ms)"
    for ms :: "(key \<times> event) list" using out by (induction ms) auto
  then show ?thesis using S out unfolding same_outside_def by metis
qed

sublocale redis_server \<subseteq> iso: store_frame_all call view i "same_outside i" for i :: ID
proof unfold_locales
  show "same_outside i db db" for db by (simp add: same_outside_def)
  show "same_outside i a b \<Longrightarrow> same_outside i b c \<Longrightarrow> same_outside i a c" for a b c
    by (rule same_outside_trans)
  show "quiet i c \<Longrightarrow> doc c db r db' \<Longrightarrow> same_outside i db db'" for c db r db'
    by (rule doc_same_outside) (simp_all add: quiet_def)
  show "doc (ZADD (Key i ''active'') es) db r db' \<Longrightarrow> same_outside i db db'" for es db r db'
    using doc_same_outside [of i "ZADD (Key i ''active'') es" db r db'] by simp
qed

lemma other_room: "valid_id i \<Longrightarrow> valid_id j \<Longrightarrow> i \<noteq> j \<Longrightarrow> \<not> in_room i (Key j x)"
proof
  assume v: "valid_id i" "valid_id j" "i \<noteq> j" and "in_room i (Key j x)"
  then obtain y where "Key j x = Key i '''' @ y" by (auto simp: in_room_def RoomsKey_def prefix_def)
  then have "Key j x = Key i y" by (simp add: Key_def)
  then show False using Key_inj_aux v by blast
qed

section \<open>The active set\<close>

definition active_size :: "ID \<Rightarrow> rdb \<Rightarrow> nat" where
  "active_size i db = length (zget db (Key i ''active''))"

sublocale redis_server \<subseteq> act: store_frame call view i "\<lambda>db db'. active_size i db' \<le> active_size i db" for i :: ID
proof unfold_locales
  fix c db r db'
  assume q: "quiet i c" and d: "doc c db r db'"
  show "active_size i db' \<le> active_size i db"
  proof (cases c)
    case (HINCRBY k f n)
    then have "(r, db') = hincr k f n db" using d by simp
    then show ?thesis using hincr_frame by (simp add: active_size_def)
  qed (use q d in \<open>auto simp: active_size_def quiet_def split: if_splits\<close>)
qed simp_all

lemma length_zadd1: "length (zadd1 e z) \<le> Suc (length z)"
  by (simp add: zadd1_def)

context redis_server
begin

lemma doc_active:
  "doc c db r db' \<Longrightarrow> c \<in> set (mark_cmds i tid pss ex now) \<Longrightarrow>
   active_size i db' \<le> active_size i db + (case c of ZADD _ _ \<Rightarrow> 1 | _ \<Rightarrow> 0)"
  using length_zadd1 [of "(of_int (f64_of_int ex), tid)" "zget db (Key i ''active'')"]
  by (auto simp: mark_cmds_def active_size_def hincr_sel)

lemma docs_active:
  "docs ds db rs db' \<Longrightarrow> set ds \<subseteq> set (mark_cmds i tid pss ex now) \<Longrightarrow>
   active_size i db' \<le> active_size i db + length (filter (\<lambda>c. \<exists>k es. c = ZADD k es) ds)"
proof (induction ds arbitrary: db rs)
  case Nil
  then show ?case by simp
next
  case (Cons c ds)
  then obtain r rs' db1 where c: "doc c db r db1" and d: "docs ds db1 rs' db'" by auto
  have "active_size i db1 \<le> active_size i db + (case c of ZADD _ _ \<Rightarrow> 1 | _ \<Rightarrow> 0)"
    using Cons.prems(2) by (intro doc_active [OF c, of i tid pss ex now]) simp
  moreover have "active_size i db' \<le> active_size i db1 + length (filter (\<lambda>c. \<exists>k es. c = ZADD k es) ds)"
    using Cons.IH [OF d] Cons.prems(2) by simp
  ultimately show ?case by (cases c) auto
qed

lemma MarkAdmitted_active:
  "active_size i (view (snd (MarkAdmitted call i tid pss ex now s))) \<le> Suc (active_size i (view s))"
proof -
  let ?cs = "mark_cmds i tid pss ex now" and ?P = "\<lambda>c. \<exists>k es. c = ZADD k es"
  obtain o1 t where t: "call s ?cs = (o1, t)" by fastforce
  have "\<exists>ds rs. subseq ds ?cs \<and> docs ds (view s) rs (view t)"
    using t call_done [of s ?cs _ t] call_lost [of s ?cs t] by (cases o1) auto
  then obtain ds rs where sub: "subseq ds ?cs" and d: "docs ds (view s) rs (view t)" by blast
  have "length (filter ?P ds) \<le> length (filter ?P ?cs)"
    using sub by (intro list_emb_length [of "(=)"] subseq_filter)
  also have "\<dots> = 1" by (simp add: mark_cmds_def)
  finally have "active_size i (view t) \<le> Suc (active_size i (view s))"
    using docs_active [OF d subseq_set [OF sub]] by linarith
  then show ?thesis
    using t by (simp add: MarkAdmitted_def pipe_def split: prod.splits sum.splits option.splits)
qed

end

text \<open>Both contracts on the in-memory server.\<close>

interpretation demo_iso: store_frame_all sure_call "\<lambda>db. db" demo_id "same_outside demo_id"
  by unfold_locales

interpretation demo_act: store_frame sure_call "\<lambda>db. db" demo_id
  "\<lambda>db db'. active_size demo_id db' \<le> active_size demo_id db"
  by unfold_locales

end
