(* ===== verification/Pass_Token.thy ===== *)
theory Pass_Token
  imports Room_Config
begin

text \<open>
  internal/pass/pass.go: minting and verification of the passes (JWT, ES256), with Go's
  unpadded URL base64 written out. ECDSA, SHA-256, PEM and JSON are not the program's: they
  are the fields of the record \<open>crypto\<close>, and the laws the round trip needs of them (a signature
  made with a key verifies with the key published with it; JSON decodes what it encoded) are
  hypotheses of the theorem.
\<close>

section \<open>base64.RawURLEncoding\<close>

definition b64_char :: "nat \<Rightarrow> char" where
  "b64_char n = (if n < 26 then char_of (65 + n) else if n < 52 then char_of (71 + n)
     else if n < 62 then char_of (n - 4) else if n = 62 then CHR ''-'' else CHR ''_'')"

definition b64_val :: "char \<Rightarrow> nat option" where
  "b64_val c = (let n = (of_char c :: nat) in
     if 65 \<le> n \<and> n \<le> 90 then Some (n - 65) else if 97 \<le> n \<and> n \<le> 122 then Some (n - 71)
     else if 48 \<le> n \<and> n \<le> 57 then Some (n + 4) else if n = 45 then Some 62
     else if n = 95 then Some 63 else None)"

fun enc_bytes :: "nat list \<Rightarrow> nat list" where
  "enc_bytes [] = []"
| "enc_bytes [a] = [a div 4, a mod 4 * 16]"
| "enc_bytes [a, b] = [a div 4, a mod 4 * 16 + b div 16, b mod 16 * 4]"
| "enc_bytes (a # b # c # r) =
     [a div 4, a mod 4 * 16 + b div 16, b mod 16 * 4 + c div 64, c mod 64] @ enc_bytes r"

fun dec_bytes :: "nat list \<Rightarrow> nat list option" where
  "dec_bytes [] = Some []"
| "dec_bytes [i] = None"
| "dec_bytes [i, j] = Some [i * 4 + j div 16]"
| "dec_bytes [i, j, k] = Some [i * 4 + j div 16, j mod 16 * 16 + k div 4]"
| "dec_bytes (i # j # k # l # r) =
     map_option (\<lambda>bs. [i * 4 + j div 16, j mod 16 * 16 + k div 4, k mod 4 * 64 + l] @ bs) (dec_bytes r)"

definition b64 :: "string \<Rightarrow> string" where
  "b64 s = map b64_char (enc_bytes (map of_char s))"

text \<open>Decoding skips line ends; any other byte outside the alphabet is an error.\<close>

definition DecodeString :: "string \<Rightarrow> string option" where
  "DecodeString s =
    (case those (map b64_val (filter (\<lambda>c. c \<noteq> CHR 0x0A \<and> c \<noteq> CHR 0x0D) s)) of
       None \<Rightarrow> None
     | Some is \<Rightarrow> map_option (map char_of) (dec_bytes is))"

lemma b64_val_char: "n < 64 \<Longrightarrow> b64_val (b64_char n) = Some n"
  by (auto simp: b64_val_def b64_char_def Let_def)

lemma enc_bytes_lt: "\<forall>b \<in> set bs. b < 256 \<Longrightarrow> n \<in> set (enc_bytes bs) \<Longrightarrow> n < 64"
proof (induction bs rule: enc_bytes.induct)
  case (4 a b c r)
  have "a div 4 < 64" "b div 16 < 16" "c div 64 < 4" using "4.prems"(1) by (simp_all add: less_mult_imp_div_less)
  moreover have "a mod 4 < 4" "b mod 16 < 16" "c mod 64 < 64" by simp_all
  ultimately have "\<forall>m \<in> {a div 4, a mod 4 * 16 + b div 16, b mod 16 * 4 + c div 64, c mod 64}. m < 64" by auto
  then show ?case using 4 by auto
next
  case (2 a)
  have "a div 4 < 64" "a mod 4 < 4" using "2.prems"(1) by (simp_all add: less_mult_imp_div_less)
  then show ?case using 2 by auto
next
  case (3 a b)
  have "a div 4 < 64" "b div 16 < 16" using "3.prems"(1) by (simp_all add: less_mult_imp_div_less)
  moreover have "a mod 4 < 4" "b mod 16 < 16" by simp_all
  ultimately have "\<forall>m \<in> {a div 4, a mod 4 * 16 + b div 16, b mod 16 * 4}. m < 64" by auto
  then show ?case using 3 by auto
qed simp

lemma dec_enc_bytes: "\<forall>b \<in> set bs. b < 256 \<Longrightarrow> dec_bytes (enc_bytes bs) = Some bs"
proof (induction bs rule: enc_bytes.induct)
  case (4 a b c r)
  have d: "b div 16 < 16" "c div 64 < 4" using "4.prems" by (simp_all add: less_mult_imp_div_less)
  have "a div 4 * 4 + (a mod 4 * 16 + b div 16) div 16 = a" using d by simp
  moreover have "(a mod 4 * 16 + b div 16) mod 16 * 16 + (b mod 16 * 4 + c div 64) div 4 = b" using d by simp
  moreover have "(b mod 16 * 4 + c div 64) mod 4 * 64 + c mod 64 = c" using d by simp
  ultimately show ?case using 4 by simp
next
  case (2 a)
  then show ?case by simp
next
  case (3 a b)
  then have "b div 16 < 16" by (simp add: less_mult_imp_div_less)
  then show ?case using 3 by simp
qed simp

lemma those_map_Some: "(\<And>x. x \<in> set xs \<Longrightarrow> f x = Some (g x)) \<Longrightarrow> those (map f xs) = Some (map g xs)"
  by (induction xs) auto

lemma DecodeString_b64: "DecodeString (b64 s) = Some s"
proof -
  let ?bs = "map of_char s :: nat list"
  have bs: "\<forall>b \<in> set ?bs. b < 256" by auto
  have v: "b64_val (b64_char n) = Some n" if "n \<in> set (enc_bytes ?bs)" for n
    using enc_bytes_lt [OF bs that] by (rule b64_val_char)
  have "b64_val (CHR 0x0A) = None" "b64_val (CHR 0x0D) = None" by (simp_all add: b64_val_def)
  then have "b64_char n \<noteq> CHR 0x0A \<and> b64_char n \<noteq> CHR 0x0D" if "n \<in> set (enc_bytes ?bs)" for n
    using v [OF that] by (metis option.distinct(1))
  then have f: "filter (\<lambda>c. c \<noteq> CHR 0x0A \<and> c \<noteq> CHR 0x0D) (b64 s) = b64 s" by (simp add: b64_def)
  have "those (map b64_val (b64 s)) = Some (enc_bytes ?bs)"
    using those_map_Some [of "enc_bytes ?bs" "\<lambda>n. b64_val (b64_char n)" "\<lambda>n. n"] v by (simp add: b64_def comp_def)
  then show ?thesis using dec_enc_bytes [OF bs] by (simp add: DecodeString_def f comp_def)
qed

lemma b64_alphabet:
  assumes "c \<in> set (b64 s)"
  shows "b64_val c \<noteq> None"
proof -
  obtain n where n: "n \<in> set (enc_bytes (map of_char s))" "c = b64_char n" using assms by (auto simp: b64_def)
  then have "n < 64" using enc_bytes_lt [of "map of_char s" n] by auto
  then show ?thesis using n(2) b64_val_char by simp
qed

lemma b64_no_dot: "CHR ''.'' \<notin> set (b64 s)"
  using b64_alphabet [of "CHR ''.''" s] by (auto simp: b64_val_def)

lemma b64_no_newline: "CHR 0x0A \<notin> set (b64 s)"
  using b64_alphabet [of "CHR 0x0A" s] by (auto simp: b64_val_def)

section \<open>Claims, payloads and the cryptographic functions\<close>

record Claims =
  CSub :: string
  CTenant :: string
  CDom :: string
  CRoom :: string
  CTTL :: int

record Payload =
  Iss :: string
  Sub :: string
  Tid :: string
  PDom :: string
  Rm :: string
  Iat :: int
  PExp :: int
  Kid :: string

text \<open>\<open>Sign\<close> takes the randomness it draws as its last argument.\<close>

record crypto =
  ParsePrivate :: "string \<Rightarrow> string option"
  ParsePublic :: "string \<Rightarrow> string option"
  Sum256 :: "string \<Rightarrow> string"
  Sign :: "string \<Rightarrow> string \<Rightarrow> string \<Rightarrow> (nat \<times> nat) option"
  EcVerify :: "string \<Rightarrow> string \<Rightarrow> nat \<Rightarrow> nat \<Rightarrow> bool"
  MarshalHdr :: "string \<Rightarrow> string"
  MarshalPayload :: "Payload \<Rightarrow> string"
  UnmarshalPayload :: "string \<Rightarrow> Payload option"

text \<open>\<open>big.Int.FillBytes\<close> into 32 bytes, a panic when the number needs more, and \<open>SetBytes\<close>.\<close>

fun be_bytes :: "nat \<Rightarrow> nat \<Rightarrow> string" where
  "be_bytes 0 n = []"
| "be_bytes (Suc k) n = be_bytes k (n div 256) @ [char_of (n mod 256)]"

definition pad32 :: "nat \<Rightarrow> string option" where
  "pad32 n = (if 2 ^ 256 \<le> n then None else Some (be_bytes 32 n))"

definition SetBytes :: "string \<Rightarrow> nat" where
  "SetBytes s = foldl (\<lambda>n c. n * 256 + of_char c) 0 s"

definition claims_payload :: "lib \<Rightarrow> string \<Rightarrow> Claims \<Rightarrow> int \<Rightarrow> string \<Rightarrow> Payload" where
  "claims_payload L kid c now rb =
    (let sub = (if CSub c = '''' then ''t_'' @ hex rb else CSub c);
         ttl = (if CTTL c = 0 then 20 * Minute else CTTL c)
     in \<lparr>Iss = ''flyc'', Sub = sub, Tid = CTenant c, PDom = to_lower (ulower L) (CDom c), Rm = CRoom c,
         Iat = now, PExp = wrap64 (now + ttl sdiv Second), Kid = kid\<rparr>)"

text \<open>\<open>now\<close> is the Unix time of the call, \<open>rb\<close> the bytes drawn for a subject, \<open>rs\<close> for the signature.\<close>

definition Mint :: "lib \<Rightarrow> crypto \<Rightarrow> string \<Rightarrow> string \<Rightarrow> Claims \<Rightarrow> int \<Rightarrow> string \<Rightarrow> string \<Rightarrow> string res" where
  "Mint L C privatePEM kid c now rb rs = (case ParsePrivate C privatePEM of
       None \<Rightarrow> Inl (EInvalid ''cle privee : PEM invalide'')
     | Some priv \<Rightarrow>
        (let signing = b64 (MarshalHdr C kid) @ ''.'' @ b64 (MarshalPayload C (claims_payload L kid c now rb))
         in case Sign C priv (Sum256 C signing) rs of
              None \<Rightarrow> Inl (EInvalid ''ecdsa'')
            | Some (r, s) \<Rightarrow> (case (pad32 r, pad32 s) of
                 (Some rb', Some sb') \<Rightarrow> Inr (signing @ ''.'' @ b64 (rb' @ sb'))
               | _ \<Rightarrow> Inl (EPanic ''math/big: buffer too small to fit value''))))"

definition Verify :: "lib \<Rightarrow> crypto \<Rightarrow> string \<Rightarrow> string \<Rightarrow> string \<Rightarrow> int \<Rightarrow> Payload res" where
  "Verify L C publicPEM token d now = (case ParsePublic C publicPEM of
       None \<Rightarrow> Inl (EInvalid ''cle publique'')
     | Some pub \<Rightarrow> (case split_on (CHR ''.'') token of
         [p0, p1, p2] \<Rightarrow> (case DecodeString p2 of
             None \<Rightarrow> Inl (EInvalid ''signature invalide'')
           | Some sig \<Rightarrow>
              if length sig \<noteq> 64 then Inl (EInvalid ''signature invalide'')
              else if \<not> EcVerify C pub (Sum256 C (p0 @ ''.'' @ p1)) (SetBytes (take 32 sig)) (SetBytes (drop 32 sig))
              then Inl (EInvalid ''signature refusee'')
              else (case DecodeString p1 of
                  None \<Rightarrow> Inl (EInvalid ''base64'')
                | Some raw \<Rightarrow> (case UnmarshalPayload C raw of
                    None \<Rightarrow> Inl (EInvalid ''json'')
                  | Some p \<Rightarrow>
                     if PExp p \<le> now then Inl (EInvalid ''pass expire'')
                     else if d \<noteq> '''' \<and> PDom p \<noteq> to_lower (ulower L) d then Inl (EInvalid ''pass emis pour un autre domaine'')
                     else Inr p)))
       | _ \<Rightarrow> Inl (EInvalid ''format JWT invalide'')))"

lemma length_be_bytes [simp]: "length (be_bytes k n) = k"
  by (induction k arbitrary: n) auto

lemma SetBytes_be_bytes: "n < 256 ^ k \<Longrightarrow> SetBytes (be_bytes k n) = n"
proof (induction k arbitrary: n)
  case 0
  then show ?case by (simp add: SetBytes_def)
next
  case (Suc k)
  then have "n div 256 < 256 ^ k" by (simp add: less_mult_imp_div_less mult.commute)
  with Suc.IH show ?case by (simp add: SetBytes_def)
qed

lemma pad32_Some: "pad32 n = Some b \<Longrightarrow> length b = 32 \<and> SetBytes b = n"
proof -
  assume "pad32 n = Some b"
  then have "n < 256 ^ 32" and b: "b = be_bytes 32 n" by (auto simp: pad32_def split: if_splits)
  then show ?thesis using SetBytes_be_bytes by (simp only: b length_be_bytes)
qed

lemma token_parts: "split_on (CHR ''.'') ((b64 a @ ''.'' @ b64 b) @ ''.'' @ b64 c) = [b64 a, b64 b, b64 c]"
  using split_on_join [of "[b64 a, b64 b, b64 c]" "CHR ''.''"] b64_no_dot by simp

section \<open>Properties\<close>

text \<open>C33: a pass that was minted verifies: with the public key of the signing key, for the domain
  of the claims and before the expiry, \<open>Verify\<close> returns the claims that were signed, and after
  the expiry or for another domain it refuses the same token.\<close>

theorem Mint_Verify:
  assumes mint: "Mint L C pem kid c now rb rs = Inr tok"
    and priv: "ParsePrivate C pem = Some priv" and pub: "ParsePublic C pubpem = Some pub"
    and sig: "\<And>h r s. Sign C priv h rs = Some (r, s) \<Longrightarrow> EcVerify C pub h r s"
    and json: "UnmarshalPayload C (MarshalPayload C (claims_payload L kid c now rb)) =
                 Some (claims_payload L kid c now rb)"
  shows "Verify L C pubpem tok d now' =
    (let p = claims_payload L kid c now rb in
     if PExp p \<le> now' then Inl (EInvalid ''pass expire'')
     else if d \<noteq> '''' \<and> to_lower (ulower L) (CDom c) \<noteq> to_lower (ulower L) d
     then Inl (EInvalid ''pass emis pour un autre domaine'')
     else Inr p)"
proof -
  let ?p = "claims_payload L kid c now rb"
  let ?h = "b64 (MarshalHdr C kid)" and ?b = "b64 (MarshalPayload C ?p)"
  from mint priv obtain r s b1 b2 where s: "Sign C priv (Sum256 C (?h @ ''.'' @ ?b)) rs = Some (r, s)"
    and p: "pad32 r = Some b1" "pad32 s = Some b2"
    and tok: "tok = (?h @ ''.'' @ ?b) @ ''.'' @ b64 (b1 @ b2)"
    by (auto simp: Mint_def Let_def split: option.splits prod.splits)
  note b = pad32_Some [OF p(1)] pad32_Some [OF p(2)]
  have parts: "split_on (CHR ''.'') tok = [?h, ?b, b64 (b1 @ b2)]" unfolding tok by (rule token_parts)
  have "PDom ?p = to_lower (ulower L) (CDom c)" by (simp add: claims_payload_def Let_def)
  then show ?thesis
    unfolding Verify_def pub parts option.case list.case DecodeString_b64 using sig [OF s] b json
    by (simp add: Let_def)
qed

definition demo_claims :: Claims where
  "demo_claims = \<lparr>CSub = ''t_1'', CTenant = ''acme'', CDom = ''Shop.FR'', CRoom = ''acme.sale'', CTTL = 0\<rparr>"

definition demo_crypto :: crypto where
  "demo_crypto = \<lparr>ParsePrivate = Some, ParsePublic = Some, Sum256 = id, Sign = (\<lambda>k h rs. Some (1, 2)),
     EcVerify = (\<lambda>k h r s. r = 1 \<and> s = 2), MarshalHdr = id, MarshalPayload = (\<lambda>_. ''p''),
     UnmarshalPayload = (\<lambda>_. Some (claims_payload demo_lib ''k1'' demo_claims 1760000000 '''')) \<rparr>"

theorem Mint_Verify_witness:
  "\<exists>tok. Mint demo_lib demo_crypto ''pem'' ''k1'' demo_claims 1760000000 '''' '''' = Inr tok \<and>
     Verify demo_lib demo_crypto ''pub'' tok ''SHOP.fr'' 1760001199 =
       Inr (claims_payload demo_lib ''k1'' demo_claims 1760000000 '''') \<and>
     Verify demo_lib demo_crypto ''pub'' tok ''SHOP.fr'' 1760001200 = Inl (EInvalid ''pass expire'')"
proof -
  obtain tok where m: "Mint demo_lib demo_crypto ''pem'' ''k1'' demo_claims 1760000000 '''' '''' = Inr tok"
    by (auto simp: Mint_def demo_crypto_def pad32_def Let_def)
  have "Verify demo_lib demo_crypto ''pub'' tok ''SHOP.fr'' t =
    (let p = claims_payload demo_lib ''k1'' demo_claims 1760000000 '''' in
     if PExp p \<le> t then Inl (EInvalid ''pass expire'')
     else if ''SHOP.fr'' \<noteq> '''' \<and> to_lower (ulower demo_lib) (CDom demo_claims) \<noteq> to_lower (ulower demo_lib) ''SHOP.fr''
     then Inl (EInvalid ''pass emis pour un autre domaine'') else Inr p)" for t
    by (rule Mint_Verify [OF m]) (simp_all add: demo_crypto_def)
  moreover have "PExp (claims_payload demo_lib ''k1'' demo_claims 1760000000 '''') = 1760001200"
    and "to_lower (ulower demo_lib) (CDom demo_claims) = to_lower (ulower demo_lib) ''SHOP.fr''"
    by code_simp+
  ultimately show ?thesis using m by (simp add: Let_def)
qed

text \<open>C8: \<open>Verify\<close> accepts nothing that was not signed: the token has three parts, the signature in
  the third verifies over the first two, and the claims returned are those of the second, not
  expired and of the domain asked for.\<close>

theorem Verify_sound:
  assumes "Verify L C pubpem tok d now = Inr p"
  shows "\<exists>pub p0 p1 p2 sig raw. ParsePublic C pubpem = Some pub \<and> tok = p0 @ ''.'' @ p1 @ ''.'' @ p2 \<and>
    DecodeString p2 = Some sig \<and> length sig = 64 \<and>
    EcVerify C pub (Sum256 C (p0 @ ''.'' @ p1)) (SetBytes (take 32 sig)) (SetBytes (drop 32 sig)) \<and>
    DecodeString p1 = Some raw \<and> UnmarshalPayload C raw = Some p \<and> now < PExp p \<and>
    (d = '''' \<or> PDom p = to_lower (ulower L) d)"
proof -
  from assms obtain pub p0 p1 p2 sig raw where "ParsePublic C pubpem = Some pub"
    and s: "split_on (CHR ''.'') tok = [p0, p1, p2]" and "DecodeString p2 = Some sig" "length sig = 64"
    "EcVerify C pub (Sum256 C (p0 @ ''.'' @ p1)) (SetBytes (take 32 sig)) (SetBytes (drop 32 sig))"
    "DecodeString p1 = Some raw" "UnmarshalPayload C raw = Some p" "now < PExp p"
    "d = '''' \<or> PDom p = to_lower (ulower L) d"
    by (auto simp: Verify_def split: option.splits list.splits if_splits)
  moreover have "tok = p0 @ ''.'' @ p1 @ ''.'' @ p2" using split_join_length3 [OF s] by simp
  ultimately show ?thesis by blast
qed

theorem Verify_sound_witness:
  "\<exists>tok p. Verify demo_lib demo_crypto ''pub'' tok '''' 1760000000 = Inr p \<and> 1760000000 < PExp p"
proof -
  have "(case Mint demo_lib demo_crypto ''pem'' ''k1'' demo_claims 1760000000 '''' '''' of
      Inl _ \<Rightarrow> False | Inr tok \<Rightarrow> (case Verify demo_lib demo_crypto ''pub'' tok '''' 1760000000 of
        Inl _ \<Rightarrow> False | Inr _ \<Rightarrow> True))" by code_simp
  then obtain tok p where v: "Verify demo_lib demo_crypto ''pub'' tok '''' 1760000000 = Inr p"
    by (auto split: sum.splits)
  from Verify_sound [OF this] v show ?thesis by blast
qed

end
