(* ===== verification/Signing_Keys.thy ===== *)
theory Signing_Keys
  imports Flyc_Prelude
begin

text \<open>
  queue/internal/keys/keys.go: the client that keeps the signing key of the passes, loaded from
  flyc-control and refreshed every minute. The answer of flyc-control to each request is an
  argument; the loop \<open>Run\<close> is a run over a sequence of answers, with the delay it waits after
  each. The interpretation of \<open>step_system\<close> gives what holds after any number of refreshes.
\<close>

record Client =
  kid :: string
  privPEM :: string
  pubPEM :: string

definition New_client :: Client where
  "New_client = \<lparr>kid = '''', privPEM = '''', pubPEM = ''''\<rparr>"

definition Current :: "Client \<Rightarrow> string \<times> string" where
  "Current c = (kid c, privPEM c)"

definition Ready :: "Client \<Rightarrow> bool" where
  "Ready c \<longleftrightarrow> fst (Current c) \<noteq> ''''"

text \<open>
  What the request meets: a transport error, or a status with the body decoded as JSON
  (\<open>None\<close> when the decoder fails) into the fields kid, private_pem and public_pem.
\<close>

datatype answer = Lost | Answer int "(string \<times> string \<times> string) option"

definition fetch :: "answer \<Rightarrow> Client \<Rightarrow> err option \<times> Client" where
  "fetch a c = (case a of
       Lost \<Rightarrow> (Some ENet, c)
     | Answer status bdy \<Rightarrow>
        if status \<noteq> 200 then (Some (EApi status), c)
        else (case bdy of
            None \<Rightarrow> (Some (EInvalid ''json''), c)
          | Some (k, priv, pub) \<Rightarrow>
              if k = '''' \<or> priv = '''' then (Some (EInvalid ''reponse de flyc-control incomplete''), c)
              else (None, c\<lparr>kid := k, privPEM := priv, pubPEM := pub\<rparr>)))"

text \<open>The state of the loop: the key, the next back-off and the last wait, in seconds.\<close>

record loop =
  client :: Client
  backoff :: nat
  waited :: nat

definition run_start :: loop where
  "run_start = \<lparr>client = New_client, backoff = 2, waited = 0\<rparr>"

definition run_step :: "loop \<Rightarrow> answer \<Rightarrow> loop" where
  "run_step l a = (case fetch a (client l) of
       (Some _, c) \<Rightarrow> l\<lparr>client := c, waited := backoff l,
                         backoff := (if backoff l < 30 then backoff l * 2 else backoff l)\<rparr>
     | (None, c) \<Rightarrow> l\<lparr>client := c, waited := 60, backoff := 2\<rparr>)"

text \<open>Either no key at all, or both halves of one; the back-off is a power of two, at most 32 s.\<close>

definition keys_inv :: "loop \<Rightarrow> bool" where
  "keys_inv l \<longleftrightarrow> (Ready (client l) \<longleftrightarrow> privPEM (client l) \<noteq> '''') \<and>
     backoff l \<in> {2, 4, 8, 16, 32} \<and> waited l \<le> 60"

interpretation keys: step_system run_step keys_inv
proof unfold_locales
  fix l a
  assume "keys_inv l"
  then show "keys_inv (run_step l a)"
    by (auto simp: keys_inv_def run_step_def fetch_def Ready_def Current_def
        split: answer.splits option.splits)
qed

lemma fetch_Ready: "Ready c \<Longrightarrow> Ready (snd (fetch a c))"
  by (auto simp: fetch_def Ready_def Current_def split: answer.splits option.splits)

lemma run_Ready: "Ready (client l) \<Longrightarrow> Ready (client (foldl run_step l as))"
proof (induction as arbitrary: l)
  case Nil
  then show ?case by simp
next
  case (Cons a as)
  have "Ready (client (run_step l a))" using fetch_Ready [OF Cons.prems, of a]
    by (auto simp: run_step_def split: option.splits prod.splits)
  then show ?case using Cons.IH by simp
qed

lemma run_key: "foldl run_step run_start as = l \<Longrightarrow> Ready (client l) \<Longrightarrow>
   \<exists>pub. Answer 200 (Some (kid (client l), privPEM (client l), pub)) \<in> set as"
proof (induction as arbitrary: l rule: rev_induct)
  case Nil
  then show ?case by (auto simp: run_start_def New_client_def Ready_def Current_def)
next
  case (snoc a as)
  let ?m = "foldl run_step run_start as"
  have l: "l = run_step ?m a" using snoc.prems(1) by simp
  show ?case
  proof (cases "client l = client ?m")
    case True
    then show ?thesis using snoc.IH [of ?m] snoc.prems by auto
  next
    case False
    then obtain k p q where "a = Answer 200 (Some (k, p, q))" "kid (client l) = k" "privPEM (client l) = p"
      unfolding l by (auto simp: run_step_def fetch_def split: answer.splits option.splits if_splits)
    then show ?thesis by auto
  qed
qed

text \<open>after any sequence of refreshes the client holds either no key or the two halves of a
  key that flyc-control served in one answer, a key once loaded is never lost to an error, and
  the loop waits at most 60 seconds before it tries again.\<close>

theorem signing_key_available:
  "let l = foldl run_step run_start as; l' = foldl run_step l bs in
   (Ready (client l) \<longleftrightarrow> privPEM (client l) \<noteq> '''') \<and> backoff l \<le> 32 \<and> waited l \<le> 60 \<and>
   (Ready (client l) \<longrightarrow> Ready (client l') \<and>
      (\<exists>pub. Answer 200 (Some (kid (client l), privPEM (client l), pub)) \<in> set as))"
proof -
  have "keys_inv (foldl run_step run_start as)"
    by (rule keys.run_inv)
      (simp add: keys_inv_def run_start_def New_client_def Ready_def Current_def)
  then show ?thesis using run_Ready run_key by (auto simp: keys_inv_def Let_def)
qed

theorem signing_key_available_witness:
  "\<exists>pub. Answer 200 (Some (''k1'', ''pem'', pub)) \<in> set [Lost, Answer 200 (Some (''k1'', ''pem'', ''p''))]"
  using signing_key_available [of "[Lost, Answer 200 (Some (''k1'', ''pem'', ''p''))]" "[Lost]"]
  by (simp add: Let_def run_step_def fetch_def run_start_def New_client_def Ready_def Current_def)

end
