(* ===== verification/Admitter.thy ===== *)
theory Admitter
  imports Store_Frame Pass_Token Signing_Keys
begin

text \<open>
  queue/internal/admitter/admitter.go: the loop that admits the tickets of one room. One
  definition per phase of \<open>tickOnce\<close> (closing the elapsed waves, the stray waves, the quota of
  the token bucket, the admission of the tickets popped) and their composition, then the loop
  with its lease. Doubles are rationals rounded by an argument \<open>fl\<close>; the draws, the clock
  readings inside \<open>Mint\<close> and the fuel of \<open>CloseWave\<close> are fields of \<open>env\<close>. Metrics and logs are
  left out.
\<close>

definition lockTTL :: int where "lockTTL = 5 * Second"
definition waveGrace :: int where "waveGrace = Second"

record env =
  lb :: lib
  cr :: crypto
  fl :: "rat \<Rightarrow> rat"
  fuel :: nat
  draw :: "int \<Rightarrow> nat \<Rightarrow> 64 word"
  clk :: "string \<Rightarrow> int"
  seed :: "string \<Rightarrow> string"

text \<open>\<open>time.Duration.Seconds\<close>.\<close>

definition Seconds :: "(rat \<Rightarrow> rat) \<Rightarrow> int \<Rightarrow> rat" where
  "Seconds rnd d = rnd (of_int (d sdiv Second) + rnd (of_int (d smod Second) / 1000000000))"

section \<open>The phases of a tick\<close>

fun close_waves :: "env \<Rightarrow> 's server \<Rightarrow> ID \<Rightarrow> int \<Rightarrow> int \<Rightarrow> int list \<Rightarrow> 's \<Rightarrow> unit res \<times> 's" where
  "close_waves E call i waveSec now [] s = (Inr (), s)"
| "close_waves E call i waveSec now (n # ns) s =
     (if now < (n + 1) * waveSec * Second + waveGrace then (Inr (), s)
      else case CloseWave call i n (fuel E) (draw E n) s of
        (Inl e, s1) \<Rightarrow> (Inl e, s1)
      | (Inr _, s1) \<Rightarrow> (case SetLastWave call i n s1 of
           (Inl e, s2) \<Rightarrow> (Inl e, s2)
         | (Inr _, s2) \<Rightarrow> close_waves E call i waveSec now ns s2))"

text \<open>The counter of waves is taken up again from here when it is absent, too old or ahead.\<close>

definition first_wave :: "int \<Rightarrow> int \<Rightarrow> int" where
  "first_wave lastWave cur =
     (if lastWave < 0 \<or> lastWave < cur - 200 \<or> cur \<le> lastWave then cur - 2 else lastWave) + 1"

fun close_strays :: "env \<Rightarrow> 's server \<Rightarrow> ID \<Rightarrow> int list \<Rightarrow> 's \<Rightarrow> unit res \<times> 's" where
  "close_strays E call i [] s = (Inr (), s)"
| "close_strays E call i (n # ns) s = (case CloseWave call i n (fuel E) (draw E n) s of
     (Inl e, s1) \<Rightarrow> (Inl e, s1) | (Inr _, s1) \<Rightarrow> close_strays E call i ns s1)"

text \<open>Every 30 seconds; an error of the scan is only logged.\<close>

definition stray_phase :: "env \<Rightarrow> 's server \<Rightarrow> ID \<Rightarrow> int \<Rightarrow> int \<Rightarrow> 's \<Rightarrow> unit res \<times> 's" where
  "stray_phase E call i now cur s =
     (if Unix now smod 30 = 0
      then (case StrayWaves call i cur s of
          (Inl _, s1) \<Rightarrow> (Inr (), s1)
        | (Inr ns, s1) \<Rightarrow> close_strays E call i ns s1)
      else (Inr (), s))"

definition refill :: "(rat \<Rightarrow> rat) \<Rightarrow> rat \<Rightarrow> rat \<Rightarrow> rat \<Rightarrow> rat" where
  "refill rnd rate tokens dt = min (rnd (tokens + rnd (rate * dt))) (rnd (rate * 5))"

definition quota :: "Config \<Rightarrow> rat \<Rightarrow> int \<Rightarrow> int \<Rightarrow> int" where
  "quota cfg tokens active pending =
     (let k = \<lfloor>tokens\<rfloor>;
          k1 = (if 0 < MaxActive cfg \<and> MaxActive cfg - active < k then MaxActive cfg - active else k)
      in if pending < k1 then pending else k1)"

text \<open>The tickets popped, one by one: the error that stops the phase, if any, and those admitted.\<close>

fun admit_all :: "env \<Rightarrow> 's server \<Rightarrow> ID \<Rightarrow> Config \<Rightarrow> string \<times> string \<Rightarrow> int \<Rightarrow> string list \<Rightarrow> string list \<Rightarrow>
    's \<Rightarrow> (err option \<times> string list) \<times> 's" where
  "admit_all E call i cfg key now [] adm s = ((None, adm), s)"
| "admit_all E call i cfg key now (tid # tids) adm s = (case GetTicket (lb E) call i tid s of
     (Inr (Some t), s1) \<Rightarrow>
       (case Mint (lb E) (cr E) (snd key) (fst key)
            \<lparr>CSub = tid, CTenant = Tenant i, CDom = Dom t, CRoom = String i, CTTL = PassTTL cfg\<rparr>
            (clk E tid) (seed E tid) (seed E tid) of
          Inl (EPanic m) \<Rightarrow> ((Some (EPanic m), adm), s1)
        | Inl _ \<Rightarrow> admit_all E call i cfg key now tids adm (snd (Requeue call i t s1))
        | Inr tok \<Rightarrow>
            (case MarkAdmitted call i tid tok (Unix (now + PassTTL cfg)) (Unix now) s1 of
               (Inl e, s2) \<Rightarrow> ((Some e, adm), snd (Requeue call i t s2))
             | (Inr _, s2) \<Rightarrow> admit_all E call i cfg key now tids (adm @ [tid]) s2))
   | (_, s1) \<Rightarrow> admit_all E call i cfg key now tids adm s1)"

section \<open>A tick\<close>

text \<open>The third phase: from the counts to the publication. Returns the tokens left.\<close>

definition admit_phase :: "env \<Rightarrow> 's server \<Rightarrow> ID \<Rightarrow> Config \<Rightarrow> Client \<Rightarrow> int \<Rightarrow> rat \<Rightarrow>
    int \<times> int \<times> rat \<Rightarrow> 's \<Rightarrow> (unit res \<times> rat) \<times> 's" where
  "admit_phase E call i cfg keyc now tokens counts s =
    (let (pending, active, hd_score) = counts; k = quota cfg tokens active pending
     in if k \<le> 0 then ((Inr (), tokens), s)
        else if fst (Current keyc) = '''' then ((Inr (), tokens), s)
        else (case PopPending call i k s of
            (Inl e, s1) \<Rightarrow> ((Inl e, tokens), s1)
          | (Inr ids, s1) \<Rightarrow>
             (case admit_all E call i cfg (Current keyc) now ids [] s1 of
                ((Some e, _), s2) \<Rightarrow> ((Inl e, tokens), s2)
              | ((None, adm), s2) \<Rightarrow>
                 (let left = fl E (tokens - of_nat (length adm))
                  in if adm = [] then ((Inr (), left), s2)
                     else (case Publish call i \<lparr>EType = ''admitted'', EAdmitted = adm,
                               EPending = pending - int (length adm), EHead = hd_score, ERate = Rate cfg\<rparr> s2 of
                         (r, s3) \<Rightarrow> ((r, left), s3))))))"

text \<open>\<open>dt\<close> is the time since the last tick, in seconds; the key client is read at the third phase.\<close>

definition tickOnce :: "env \<Rightarrow> 's server \<Rightarrow> ID \<Rightarrow> Client \<Rightarrow> int \<Rightarrow> rat \<Rightarrow> rat \<Rightarrow> 's \<Rightarrow> (unit res \<times> rat) \<times> 's" where
  "tickOnce E call i keyc now dt tokens s = (case Config_of (lb E) call i s of
     (Inl e, s1) \<Rightarrow> ((Inl e, tokens), s1)
   | (Inr (cfg, _), s1) \<Rightarrow> (case Wave now (WaveSec cfg) of
       None \<Rightarrow> ((Inl (EPanic ''integer divide by zero''), tokens), s1)
     | Some cur \<Rightarrow> (case LastWave call i s1 of
         (Inl e, s2) \<Rightarrow> ((Inl e, tokens), s2)
       | (Inr lastWave, s2) \<Rightarrow>
          (case close_waves E call i (WaveSec cfg) now [first_wave lastWave cur..cur - 1] s2 of
             (Inl e, s3) \<Rightarrow> ((Inl e, tokens), s3)
           | (Inr _, s3) \<Rightarrow> (case stray_phase E call i now cur s3 of
               (Inl e, s4) \<Rightarrow> ((Inl e, tokens), s4)
             | (Inr _, s4) \<Rightarrow> (case Counts call i now s4 of
                 (Inl e, s5) \<Rightarrow> ((Inl e, tokens), s5)
               | (Inr counts, s5) \<Rightarrow>
                  (let t1 = refill (fl E) (Rate cfg) tokens dt
                   in if State cfg \<noteq> Queue \<or> fst counts = 0 then ((Inr (), t1), s5)
                      else admit_phase E call i cfg keyc now t1 counts s5)))))))"

section \<open>The loop and its lease\<close>

record loop_state =
  Tokens :: rat
  Last :: int
  Leader :: bool

text \<open>One turn: \<open>t0\<close> and \<open>t1\<close> are the two clock readings of the turn.\<close>

definition loop_step :: "env \<Rightarrow> 's server \<Rightarrow> ID \<Rightarrow> string \<Rightarrow> Client \<Rightarrow> int \<Rightarrow> int \<Rightarrow>
    loop_state \<times> 's \<Rightarrow> loop_state \<times> 's" where
  "loop_step E call i owner keyc t0 t1 ls = (let (l, s) = ls in
     case Acquire call i owner lockTTL s of
       (Inl _, s1) \<Rightarrow> (l, s1)
     | (Inr False, s1) \<Rightarrow> (\<lparr>Tokens = 0, Last = t0, Leader = False\<rparr>, s1)
     | (Inr True, s1) \<Rightarrow>
        (let l1 = (if Leader l then l else l\<lparr>Leader := True, Last := t0\<rparr>);
             (r, s2) = tickOnce E call i keyc t1 (Seconds (fl E) (t1 - Last l1)) (Tokens l1) s1
         in (l1\<lparr>Last := t1, Tokens := snd r\<rparr>, s2)))"

definition loop_end :: "'s server \<Rightarrow> ID \<Rightarrow> string \<Rightarrow> loop_state \<times> 's \<Rightarrow> 's" where
  "loop_end call i owner ls = (if Leader (fst ls) then Release call i owner (snd ls) else snd ls)"

text \<open>\<open>Run\<close>: the loops started for the rooms known, one per room that parses.\<close>

fun start_loops :: "string list \<Rightarrow> (string \<times> ID) list \<Rightarrow> (string \<times> ID) list" where
  "start_loops [] loops = loops"
| "start_loops (r # rs) loops =
     (if map_of loops r \<noteq> None then start_loops rs loops
      else case Parse r of None \<Rightarrow> start_loops rs loops | Some i \<Rightarrow> start_loops rs ((r, i) # loops))"

definition Run_step :: "'s server \<Rightarrow> (string \<times> ID) list \<times> 's \<Rightarrow> (string \<times> ID) list \<times> 's" where
  "Run_step call ls = (case Rooms call (snd ls) of
     (Inl _, s1) \<Rightarrow> (fst ls, s1) | (Inr rs, s1) \<Rightarrow> (start_loops rs (fst ls), s1))"

end
