(* ===== verification/Admitter_Laws.thy ===== *)
theory Admitter_Laws
  imports Admitter
begin

text \<open>
  The properties of the loop of the admitter: it touches only its own room, it never raises the
  number of passes in force above \<open>max_active\<close>, the token bucket stays within its bounds, and an
  instance without the lease changes nothing. The first two hold on every path, including those
  where a command fails half-way through a tick.
\<close>

section \<open>Frames of the phases\<close>

context store_frame
begin

lemma close_waves_frame: "R (view s) (view (snd (close_waves E call i w now ns s)))"
proof (induction ns arbitrary: s)
  case Nil
  then show ?case by (simp add: R_refl)
next
  case (Cons n ns)
  obtain x s1 where 1: "CloseWave call i n (fuel E) (draw E n) s = (x, s1)" by fastforce
  obtain y s2 where 2: "SetLastWave call i n s1 = (y, s2)" by fastforce
  have r1: "R (view s) (view s1)" using CloseWave_frame [of s n "fuel E" "draw E n"] 1 by simp
  have r2: "R (view s) (view s2)" using R_trans [OF r1] SetLastWave_frame [of s1 n] 2 by simp
  have r3: "R (view s) (view (snd (close_waves E call i w now ns s2)))" by (rule R_trans [OF r2 Cons.IH])
  have "snd (close_waves E call i w now (n # ns) s) \<in> {s, s1, s2, snd (close_waves E call i w now ns s2)}"
    by (simp add: 1 2 split: sum.split)
  then show ?case using r1 r2 r3 R_refl by (elim insertE) simp_all
qed

lemma close_strays_frame: "R (view s) (view (snd (close_strays E call i ns s)))"
proof (induction ns arbitrary: s)
  case Nil
  then show ?case by (simp add: R_refl)
next
  case (Cons n ns)
  obtain x s1 where 1: "CloseWave call i n (fuel E) (draw E n) s = (x, s1)" by fastforce
  have r1: "R (view s) (view s1)" using CloseWave_frame [of s n "fuel E" "draw E n"] 1 by simp
  have "R (view s) (view (snd (close_strays E call i ns s1)))" by (rule R_trans [OF r1 Cons.IH])
  then show ?case using r1 by (simp add: 1 split: sum.split)
qed

lemma stray_phase_frame: "R (view s) (view (snd (stray_phase E call i now cur s)))"
proof -
  obtain x s1 where 1: "StrayWaves call i cur s = (x, s1)" by fastforce
  have r1: "R (view s) (view s1)" using StrayWaves_frame [of s cur] 1 by simp
  have "R (view s) (view (snd (close_strays E call i ns s1)))" for ns
    by (rule R_trans [OF r1 close_strays_frame])
  then show ?thesis using r1 by (simp add: stray_phase_def 1 R_refl split: sum.split)
qed

end

context store_frame_all
begin

lemma admit_all_frame: "R (view s) (view (snd (admit_all E call i cfg key now tids adm s)))"
proof (induction tids arbitrary: adm s)
  case Nil
  then show ?case by (simp add: R_refl)
next
  case (Cons tid tids)
  obtain x s1 where 1: "GetTicket (lb E) call i tid s = (x, s1)" by fastforce
  have r1: "R (view s) (view s1)" using GetTicket_frame [of s "lb E" tid] 1 by simp
  note go = R_trans [OF _ Cons.IH]
  show ?case
  proof (cases "\<exists>t. x = Inr (Some t)")
    case False
    then show ?thesis using go [OF r1] by (auto simp: 1 split: sum.split option.split)
  next
    case True
    then obtain t where x: "x = Inr (Some t)" by blast
    let ?m = "Mint (lb E) (cr E) (snd key) (fst key)
      \<lparr>CSub = tid, CTenant = Tenant i, CDom = Dom t, CRoom = String i, CTTL = PassTTL cfg\<rparr>
      (clk E tid) (seed E tid) (seed E tid)"
    have rq: "R (view s) (view (snd (Requeue call i t s1)))" by (rule R_trans [OF r1 Requeue_frame])
    show ?thesis
    proof (cases ?m)
      case (Inl e)
      then show ?thesis using go [OF rq] r1 by (cases e) (simp_all add: 1 x)
    next
      case (Inr tok)
      obtain y s2 where 2: "MarkAdmitted call i tid tok (Unix (now + PassTTL cfg)) (Unix now) s1 = (y, s2)"
        by fastforce
      have r2: "R (view s) (view s2)"
        using R_trans [OF r1] MarkAdmitted_frame [of s1 tid tok "Unix (now + PassTTL cfg)" "Unix now"] 2 by simp
      have r3: "R (view s) (view (snd (Requeue call i t s2)))" by (rule R_trans [OF r2 Requeue_frame])
      then show ?thesis using go [OF r2] by (simp add: 1 x Inr 2 split: sum.split)
    qed
  qed
qed

lemma admit_phase_frame: "R (view s) (view (snd (admit_phase E call i cfg keyc now tokens counts s)))"
proof -
  obtain p a h where c: "counts = (p, a, h)" by (cases counts)
  let ?k = "quota cfg tokens a p"
  obtain x s1 where 1: "PopPending call i ?k s = (x, s1)" by fastforce
  have r1: "R (view s) (view s1)" using PopPending_frame [of s ?k] 1 by simp
  show ?thesis
  proof (cases x)
    case (Inl e)
    then show ?thesis using r1 by (simp add: admit_phase_def c 1 Let_def R_refl)
  next
    case (Inr ids)
    obtain eo adm s2 where 2: "admit_all E call i cfg (Current keyc) now ids [] s1 = ((eo, adm), s2)"
      by (metis surj_pair)
    have r2: "R (view s) (view s2)"
      using R_trans [OF r1] admit_all_frame [of s1 E cfg "Current keyc" now ids "[]"] 2 by simp
    have r3: "R (view s) (view (snd (Publish call i ev s2)))" for ev by (rule R_trans [OF r2 Publish_frame])
    show ?thesis using r2 r3 by (simp add: admit_phase_def c 1 2 Inr Let_def R_refl split: option.split prod.split)
        (metis snd_conv)
  qed
qed

lemma tickOnce_frame: "R (view s) (view (snd (tickOnce E call i keyc now dt tokens s)))"
proof -
  obtain x1 s1 where 1: "Config_of (lb E) call i s = (x1, s1)" by fastforce
  obtain x2 s2 where 2: "LastWave call i s1 = (x2, s2)" by fastforce
  have r1: "R (view s) (view s1)" using Config_of_frame [of s "lb E"] 1 by simp
  have r2: "R (view s) (view s2)" using R_trans [OF r1] LastWave_frame [of s1] 2 by simp
  show ?thesis
  proof (cases "\<exists>cfg fd cur lw. x1 = Inr (cfg, fd) \<and> Wave now (WaveSec cfg) = Some cur \<and> x2 = Inr lw")
    case False
    then have "snd (tickOnce E call i keyc now dt tokens s) \<in> {s1, s2}"
      by (cases x1; cases x2; auto simp: tickOnce_def 1 2 split: option.split)
    then show ?thesis using r1 r2 by auto
  next
    case True
    then obtain cfg fd cur lw where x: "x1 = Inr (cfg, fd)" "Wave now (WaveSec cfg) = Some cur" "x2 = Inr lw"
      by blast
    obtain x3 s3 where 3: "close_waves E call i (WaveSec cfg) now [first_wave lw cur..cur - 1] s2 = (x3, s3)"
      by fastforce
    obtain x4 s4 where 4: "stray_phase E call i now cur s3 = (x4, s4)" by fastforce
    obtain x5 s5 where 5: "Counts call i now s4 = (x5, s5)" by fastforce
    have r3: "R (view s) (view s3)"
      using R_trans [OF r2] close_waves_frame [of s2 E "WaveSec cfg" now "[first_wave lw cur..cur - 1]"] 3 by simp
    have r4: "R (view s) (view s4)" using R_trans [OF r3] stray_phase_frame [of s3 E now cur] 4 by simp
    have r5: "R (view s) (view s5)" using R_trans [OF r4] Counts_frame [of s4 now] 5 by simp
    have r6: "R (view s) (view (snd (admit_phase E call i cfg keyc now t1 counts s5)))" for t1 counts
      by (rule R_trans [OF r5 admit_phase_frame])
    have "\<exists>t1 counts. snd (tickOnce E call i keyc now dt tokens s) \<in>
        {s3, s4, s5, snd (admit_phase E call i cfg keyc now t1 counts s5)}"
      by (cases x3; cases x4; cases x5) (auto simp: tickOnce_def 1 2 x 3 4 5 Let_def)
    then show ?thesis using r3 r4 r5 r6 by auto
  qed
qed

lemma loop_step_frame: "R (view (snd ls)) (view (snd (loop_step E call i owner keyc t0 t1 ls)))"
proof -
  obtain l s where ls: "ls = (l, s)" by fastforce
  obtain x s1 where 1: "Acquire call i owner lockTTL s = (x, s1)" by fastforce
  have r1: "R (view s) (view s1)" using Acquire_frame [of s owner lockTTL] 1 by simp
  have "R (view s) (view (snd (tickOnce E call i keyc t1 dt tk s1)))" for dt tk
    by (rule R_trans [OF r1 tickOnce_frame])
  then show ?thesis using r1 by (simp add: loop_step_def ls 1 Let_def split: sum.split bool.split prod.split)
      (metis snd_conv)
qed

end

section \<open>The active set during a tick\<close>

lemma quota_le:
  "quota cfg t a p \<le> \<lfloor>t\<rfloor>" "quota cfg t a p \<le> p" "0 < MaxActive cfg \<Longrightarrow> quota cfg t a p \<le> MaxActive cfg - a"
  by (auto simp: quota_def Let_def)

context redis_server
begin

lemma admit_all_active:
  "active_size i (view (snd (admit_all E call i cfg key now tids adm s))) \<le> active_size i (view s) + length tids"
proof (induction tids arbitrary: adm s)
  case Nil
  then show ?case by simp
next
  case (Cons tid tids)
  obtain x s1 where 1: "GetTicket (lb E) call i tid s = (x, s1)" by fastforce
  have r1: "active_size i (view s1) \<le> active_size i (view s)"
    using act.GetTicket_frame [of i "lb E" tid s] 1 by simp
  have go: "active_size i (view (snd (admit_all E call i cfg key now tids adm' s'))) \<le> active_size i (view s) + length (tid # tids)"
    if "active_size i (view s') \<le> Suc (active_size i (view s))" for adm' s'
    using Cons.IH [of adm' s'] that by simp
  show ?case
  proof (cases "\<exists>t. x = Inr (Some t)")
    case False
    then show ?thesis using go [of s1] r1 by (auto simp: 1 split: sum.split option.split)
  next
    case True
    then obtain t where x: "x = Inr (Some t)" by blast
    let ?m = "Mint (lb E) (cr E) (snd key) (fst key)
      \<lparr>CSub = tid, CTenant = Tenant i, CDom = Dom t, CRoom = String i, CTTL = PassTTL cfg\<rparr>
      (clk E tid) (seed E tid) (seed E tid)"
    have rq: "active_size i (view (snd (Requeue call i t s'))) \<le> active_size i (view s')" for s'
      by (rule act.Requeue_frame)
    show ?thesis
    proof (cases ?m)
      case (Inl e)
      then show ?thesis using go [of "snd (Requeue call i t s1)"] rq [of s1] r1
        by (cases e) (simp_all add: 1 x)
    next
      case (Inr tok)
      obtain y s2 where 2: "MarkAdmitted call i tid tok (Unix (now + PassTTL cfg)) (Unix now) s1 = (y, s2)"
        by fastforce
      have r2: "active_size i (view s2) \<le> Suc (active_size i (view s))"
        using MarkAdmitted_active [of i tid tok "Unix (now + PassTTL cfg)" "Unix now" s1] 2 r1 by simp
      then show ?thesis using go [of s2] rq [of s2] by (auto simp: 1 x Inr 2 split: sum.split)
    qed
  qed
qed


lemma admit_phase_active:
  assumes a: "a = int (active_size i (view s))" and m: "0 < MaxActive cfg"
  shows "int (active_size i (view (snd (admit_phase E call i cfg keyc now tokens (p, a, h) s))))
    \<le> max (MaxActive cfg) (int (active_size i (view s)))"
proof -
  let ?k = "quota cfg tokens a p"
  obtain x s1 where 1: "PopPending call i ?k s = (x, s1)" by fastforce
  have r1: "active_size i (view s1) \<le> active_size i (view s)" using act.PopPending_frame [of i ?k s] 1 by simp
  show ?thesis
  proof (cases x)
    case (Inl e)
    then show ?thesis using r1 by (auto simp: admit_phase_def 1 Let_def)
  next
    case (Inr ids)
    show ?thesis
    proof (cases "?k \<le> 0")
      case True
      then show ?thesis by (simp add: admit_phase_def Let_def)
    next
      case False
      have "length ids \<le> nat ?k" using PopPending_ok [of i ?k s ids s1] 1 Inr by simp
      then have len: "int (length ids) \<le> MaxActive cfg - a" using quota_le(3) [OF m, of tokens a p] False by linarith
      obtain eo adm s2 where 2: "admit_all E call i cfg (Current keyc) now ids [] s1 = ((eo, adm), s2)"
        by (metis surj_pair)
      have r2: "int (active_size i (view s2)) \<le> MaxActive cfg"
        using admit_all_active [of i E cfg "Current keyc" now ids "[]" s1] 2 r1 len a by simp
      have r3: "active_size i (view (snd (Publish call i ev s2))) \<le> active_size i (view s2)" for ev
        by (rule act.Publish_frame)
      have "snd (admit_phase E call i cfg keyc now tokens (p, a, h) s) \<in>
          {s, s2} \<union> range (\<lambda>ev. snd (Publish call i ev s2))"
        by (auto simp: admit_phase_def 1 2 Inr Let_def split: option.split prod.split)
          (metis (no_types, lifting) rangeI snd_conv)
      then show ?thesis using r2 r3 by (auto simp: le_max_iff_disj) (meson of_nat_mono order_trans)
    qed
  qed
qed

lemma tickOnce_active:
  assumes c: "Config_of (lb E) call i s = (Inr (cfg, fd), s1)" and m: "0 < MaxActive cfg"
  shows "int (active_size i (view (snd (tickOnce E call i keyc now dt tokens s))))
    \<le> max (MaxActive cfg) (int (active_size i (view s)))"
proof -
  have small: ?thesis if "snd (tickOnce E call i keyc now dt tokens s) = t" "active_size i (view t) \<le> active_size i (view s)" for t
    using that by simp
  have r1: "active_size i (view s1) \<le> active_size i (view s)" using act.Config_of_frame [of i "lb E" s] c by simp
  obtain x2 s2 where 2: "LastWave call i s1 = (x2, s2)" by fastforce
  have r2: "active_size i (view s2) \<le> active_size i (view s)" using act.LastWave_frame [of i s1] 2 r1 by simp
  show ?thesis
  proof (cases "\<exists>cur lw. Wave now (WaveSec cfg) = Some cur \<and> x2 = Inr lw")
    case False
    then have "snd (tickOnce E call i keyc now dt tokens s) \<in> {s1, s2}"
      by (cases x2; auto simp: tickOnce_def c 2 split: option.split)
    then show ?thesis using r1 r2 small by auto
  next
    case True
    then obtain cur lw where x: "Wave now (WaveSec cfg) = Some cur" "x2 = Inr lw" by blast
    obtain x3 s3 where 3: "close_waves E call i (WaveSec cfg) now [first_wave lw cur..cur - 1] s2 = (x3, s3)"
      by fastforce
    obtain x4 s4 where 4: "stray_phase E call i now cur s3 = (x4, s4)" by fastforce
    obtain x5 s5 where 5: "Counts call i now s4 = (x5, s5)" by fastforce
    have r3: "active_size i (view s3) \<le> active_size i (view s)"
      using act.close_waves_frame [of i E "WaveSec cfg" now "[first_wave lw cur..cur - 1]" s2] 3 r2 by simp
    have r4: "active_size i (view s4) \<le> active_size i (view s)" using r3 act.stray_phase_frame [of i E now cur s3] 4 by simp
    have r5: "active_size i (view s5) \<le> active_size i (view s)" using r4 act.Counts_frame [of i now s4] 5 by simp
    show ?thesis
    proof (cases "\<exists>u3 u4 p a h. x3 = Inr u3 \<and> x4 = Inr u4 \<and> x5 = Inr (p, a, h)")
      case False
      then have "snd (tickOnce E call i keyc now dt tokens s) \<in> {s3, s4, s5}"
        by (cases x3; cases x4; cases x5) (auto simp: tickOnce_def c 2 x 3 4 5)
      then show ?thesis using r3 r4 r5 small by auto
    next
      case True
      then obtain u3 u4 p a h where y: "x3 = Inr u3" "x4 = Inr u4" "x5 = Inr (p, a, h)" by blast
      let ?t1 = "refill (fl E) (Rate cfg) tokens dt"
      have "a = int (active_size i (view s5))" using Counts_ok [of i now s4 p a h s5] 5 y
        by (simp add: active_size_def Let_def)
      note ap = admit_phase_active [OF this m, of E keyc now ?t1 p h]
      have "snd (tickOnce E call i keyc now dt tokens s) \<in>
          {s5, snd (admit_phase E call i cfg keyc now ?t1 (p, a, h) s5)}"
        by (simp add: tickOnce_def c 2 x 3 4 5 y Let_def)
      then show ?thesis
      proof (elim insertE emptyE)
        assume "snd (tickOnce E call i keyc now dt tokens s) = s5"
        then show ?thesis using r5 by (rule small)
      next
        assume "snd (tickOnce E call i keyc now dt tokens s) =
          snd (admit_phase E call i cfg keyc now ?t1 (p, a, h) s5)"
        then show ?thesis using ap r5 by (simp only:)
      qed
    qed
  qed
qed

end

section \<open>The token bucket\<close>

lemma admit_all_adm:
  "admit_all E call i cfg key now tids adm s = ((eo, out), s') \<Longrightarrow> length out \<le> length adm + length tids"
proof (induction tids arbitrary: adm s)
  case Nil
  then show ?case by simp
next
  case (Cons tid tids)
  then show ?case
    by (fastforce split: sum.splits option.splits err.splits prod.splits)
qed

lemma quota_tokens: "int n \<le> quota cfg t a p \<Longrightarrow> of_nat n \<le> t"
  using quota_le(1) [of cfg t a p] by (metis le_floor_iff of_int_of_nat_eq order_trans)

lemma fl_le: "(\<And>x y. x \<le> y \<Longrightarrow> f x \<le> f y) \<Longrightarrow> f a = a \<Longrightarrow> x \<le> a \<Longrightarrow> f x \<le> a" for f :: "rat \<Rightarrow> rat"
  by metis

context redis_server
begin

lemma admit_phase_tokens:
  assumes mono: "\<And>x y. x \<le> y \<Longrightarrow> fl E x \<le> fl E y" and z: "fl E 0 = 0" and ft: "fl E tokens = tokens"
    and t: "0 \<le> tokens" and r: "admit_phase E call i cfg keyc now tokens (p, a, h) s = ((r, left), s')"
  shows "0 \<le> left \<and> left \<le> tokens"
proof -
  let ?k = "quota cfg tokens a p"
  obtain x s1 where 1: "PopPending call i ?k s = (x, s1)" by fastforce
  consider "left = tokens" | ids adm s2 where "x = Inr ids" "0 < ?k"
      "admit_all E call i cfg (Current keyc) now ids [] s1 = ((None, adm), s2)"
      "left = fl E (tokens - of_nat (length adm))"
    using r 1 by (cases x) (fastforce simp: admit_phase_def Let_def split: if_splits prod.splits option.splits)+
  then show ?thesis
  proof cases
    case 1
    then show ?thesis using t by simp
  next
    case 2
    have "length adm \<le> length ids" using admit_all_adm [OF 2(3)] by simp
    also have "length ids \<le> nat ?k" using PopPending_ok [of i ?k s ids s1] 1 2(1) by simp
    finally have "of_nat (length adm) \<le> tokens" using 2(2) by (intro quota_tokens [of _ cfg tokens a p]) linarith
    then have "0 \<le> tokens - of_nat (length adm)" "tokens - of_nat (length adm) \<le> tokens" by simp_all
    then show ?thesis using mono z ft 2(4) by metis
  qed
qed

lemma tickOnce_tokens:
  assumes mono: "\<And>x y. x \<le> y \<Longrightarrow> fl E x \<le> fl E y" and z: "fl E 0 = 0" and idem: "\<And>x. fl E (fl E x) = fl E x"
    and t: "0 \<le> tokens" "0 \<le> dt" and c: "Config_of (lb E) call i s = (Inr (cfg, fd), s1)" "0 \<le> Rate cfg"
    and r: "tickOnce E call i keyc now dt tokens s = ((r, left), s')"
  shows "0 \<le> left \<and> left \<le> max tokens (fl E (Rate cfg * 5))"
proof -
  let ?t1 = "refill (fl E) (Rate cfg) tokens dt"
  have "0 \<le> Rate cfg * dt" "0 \<le> Rate cfg * 5" using t c(2) by simp_all
  then have p: "0 \<le> fl E (Rate cfg * dt)" "0 \<le> fl E (Rate cfg * 5)" using mono z by metis+
  then have "0 \<le> tokens + fl E (Rate cfg * dt)" using t by simp
  then have "0 \<le> fl E (tokens + fl E (Rate cfg * dt))" using mono z by metis
  with p have t1: "0 \<le> ?t1" "?t1 \<le> fl E (Rate cfg * 5)" by (simp_all add: refill_def)
  have f1: "fl E ?t1 = ?t1" using idem by (simp add: refill_def min_def)
  consider "left = tokens" | "left = ?t1" | p a h s5 where
      "admit_phase E call i cfg keyc now ?t1 (p, a, h) s5 = ((r, left), s')"
    using r c by (fastforce simp: tickOnce_def Let_def split: prod.splits sum.splits option.splits if_splits)
  then show ?thesis
  proof cases
    case 3
    then show ?thesis using admit_phase_tokens [OF mono z f1 t1(1) 3] t1 by auto
  qed (use t t1 in auto)
qed

lemma loop_step_isolates:
  "same_outside i (view (snd ls)) (view (snd (loop_step E call i owner keyc t0 t1 ls)))"
  by (rule iso.loop_step_frame)

lemma loop_step_follower:
  assumes l: "map_of (strs (view s)) (Key i ''lock'') = Some o2" "o2 \<noteq> owner"
  shows "view (snd (loop_step E call i owner keyc t0 t1 (l, s))) = view s \<and>
    (let l' = fst (loop_step E call i owner keyc t0 t1 (l, s)) in l' = l \<or> (Tokens l' = 0 \<and> \<not> Leader l'))"
proof -
  obtain x s1 where 1: "Acquire call i owner lockTTL s = (x, s1)" by fastforce
  obtain y s2 where 2: "do1 call (SETNX (Key i ''lock'') owner lockTTL) s = (y, s2)" by fastforce
  obtain z s3 where 3: "do1 call (GET (Key i ''lock'')) s2 = (z, s3)" by fastforce
  have v2: "view s2 = view s" and y: "\<And>r. y = Inr r \<Longrightarrow> r = RBool False"
    using 2 l do1_ok [of "SETNX (Key i ''lock'') owner lockTTL" s _ s2]
      do1_err [of "SETNX (Key i ''lock'') owner lockTTL" s _ s2] by (cases y; auto)+
  have v3: "view s3 = view s" and z: "\<And>r. z = Inr r \<Longrightarrow> r = RStr o2"
    using 3 l v2 do1_ok [of "GET (Key i ''lock'')" s2 _ s3] do1_err [of "GET (Key i ''lock'')" s2 _ s3]
    by (cases z; auto)+
  have "view s1 = view s \<and> x \<noteq> Inr True"
    using 1 2 3 v2 v3 y z l(2) by (cases y; cases z) (auto simp: Acquire_def)
  then show ?thesis by (cases x) (auto simp: loop_step_def 1 Let_def split: bool.split)
qed

end

section \<open>Properties\<close>

text \<open>a turn of the loop of one room, whatever happens in it, leaves every key of every other
  room as it was: hashes, sets, queues, lease, and publishes nothing on their channels.\<close>

theorem loop_step_isolated:
  assumes "redis_server call view" and "valid_id i" and "valid_id j" and "i \<noteq> j"
    and "loop_step E call i owner keyc t0 t1 (l, s) = (l', s')"
  shows "hget (view s') (Key j x) = hget (view s) (Key j x) \<and> sget (view s') (Key j x) = sget (view s) (Key j x) \<and>
    zget (view s') (Key j x) = zget (view s) (Key j x) \<and>
    map_of (strs (view s')) (Key j x) = map_of (strs (view s)) (Key j x) \<and>
    filter (\<lambda>m. fst m = Key j x) (chan (view s')) = filter (\<lambda>m. fst m = Key j x) (chan (view s))"
proof -
  have so: "same_outside i (view s) (view s')"
    using redis_server.loop_step_isolates [OF assms(1), of i "(l, s)" E owner keyc t0 t1] assms(5) by simp
  have out: "\<not> in_room i (Key j x)" by (rule other_room [OF assms(2-4)])
  show ?thesis by (rule same_outside_key [OF so out])
qed

text \<open>A room with a ticket to admit, a pass in force and room for two more passes.\<close>

definition demo_env :: env where
  "demo_env = \<lparr>lb = demo_lib2, cr = demo_crypto, fl = id, fuel = 3, draw = (\<lambda>_ _. 0), clk = (\<lambda>_. 1760000000),
     seed = id\<rparr>"

definition demo_key :: Client where
  "demo_key = \<lparr>kid = ''k1'', privPEM = ''pem'', pubPEM = ''pub''\<rparr>"

definition demo_room :: rdb where
  "demo_room = empty_rdb\<lparr>
     hashes := [(Key demo_id ''cfg'', ToHash demo_lib (Defaults\<lparr>MaxActive := 2\<rparr>)),
       (tkey demo_id ''a'', [(''status'', ''waiting''), (''dom'', ''a.fr'')]),
       (tkey demo_id ''b'', [(''status'', ''waiting''), (''dom'', ''a.fr'')])],
     zsets := [(Key demo_id ''pending'', [(70, ''a''), (71, ''b'')]),
       (Key demo_id ''active'', [(1860000000, ''x'')])]\<rparr>"

definition other_id :: ID where
  "other_id = \<lparr>Tenant = ''bank'', Room = ''sale''\<rparr>"

theorem loop_step_isolated_witness:
  "zget (snd (loop_step demo_env sure_call demo_id ''p1'' demo_key 1760000000000000000 1760000001000000000
     (\<lparr>Tokens = 3, Last = 1760000000000000000, Leader = True\<rparr>, demo_room))) (Key other_id ''pending'') = []"
proof -
  obtain l' s' where r: "loop_step demo_env sure_call demo_id ''p1'' demo_key 1760000000000000000 1760000001000000000
     (\<lparr>Tokens = 3, Last = 1760000000000000000, Leader = True\<rparr>, demo_room) = (l', s')" by fastforce
  have v: "valid_id demo_id" "valid_id other_id" "demo_id \<noteq> other_id" by code_simp+
  have "zget demo_room (Key other_id ''pending'') = []" by code_simp
  then show ?thesis using loop_step_isolated [OF sure.redis_server_axioms v r, of "''pending''"] r by simp
qed

text \<open>C4: the admitter never lets the passes in force exceed \<open>max_active\<close>: whatever fails during a
  tick, the active set afterwards holds at most \<open>max_active\<close> entries, or as many as before when it
  was already above.\<close>

theorem max_active_respected:
  assumes "redis_server call view" and "Config_of (lb E) call i s = (Inr (cfg, fd), s1)"
    and "0 < MaxActive cfg"
  shows "int (active_size i (view (snd (tickOnce E call i keyc now dt tokens s))))
    \<le> max (MaxActive cfg) (int (active_size i (view s)))"
  using redis_server.tickOnce_active [OF assms] .

theorem max_active_respected_witness:
  "active_size demo_id (snd (tickOnce demo_env sure_call demo_id demo_key 1760000001000000000 1 3 demo_room)) \<le> 2"
proof -
  have 1: "is_ok (Config_of (lb demo_env) sure_call demo_id demo_room)"
    and 2: "(case fst (Config_of (lb demo_env) sure_call demo_id demo_room) of Inr (cfg, _) \<Rightarrow> MaxActive cfg = 2 | _ \<Rightarrow> False)"
    and 3: "active_size demo_id demo_room = 1" by code_simp+
  from is_ok_ex [OF 1] obtain x s1 where c: "Config_of (lb demo_env) sure_call demo_id demo_room = (Inr x, s1)" by blast
  obtain cfg fd where x: "x = (cfg, fd)" by fastforce
  have "MaxActive cfg = 2" using 2 c x by simp
  then show ?thesis
    using max_active_respected [OF sure.redis_server_axioms c [unfolded x], of demo_key 1760000001000000000 1 3] 3
    by simp
qed

text \<open>the token bucket stays between 0 and five seconds of the rate: with a rounding that is
  monotone, keeps 0 and is idempotent, a tick leaves the tokens non-negative and not above the
  burst of the configuration, or what they were.\<close>

theorem token_bucket_bounds:
  assumes "redis_server call view" and "\<And>x y. x \<le> y \<Longrightarrow> fl E x \<le> fl E y" and "fl E 0 = 0"
    and "\<And>x. fl E (fl E x) = fl E x" and "0 \<le> tokens" and "0 \<le> dt"
    and "Config_of (lb E) call i s = (Inr (cfg, fd), s1)" and "0 \<le> Rate cfg"
    and "tickOnce E call i keyc now dt tokens s = ((r, left), s')"
  shows "0 \<le> left \<and> left \<le> max tokens (fl E (Rate cfg * 5))"
  using redis_server.tickOnce_tokens [OF assms(1-7) assms(8,9)] .

theorem token_bucket_bounds_witness:
  "\<exists>r left s'. tickOnce demo_env sure_call demo_id demo_key 1760000001000000000 1 3 demo_room = ((r, left), s') \<and>
     0 \<le> left \<and> left \<le> 50"
proof -
  have 1: "is_ok (Config_of (lb demo_env) sure_call demo_id demo_room)"
    and 2: "(case fst (Config_of (lb demo_env) sure_call demo_id demo_room) of Inr (cfg, _) \<Rightarrow> Rate cfg = 10 | _ \<Rightarrow> False)"
    by code_simp+
  from is_ok_ex [OF 1] obtain x s1 where c: "Config_of (lb demo_env) sure_call demo_id demo_room = (Inr x, s1)" by blast
  obtain cfg fd where x: "x = (cfg, fd)" by fastforce
  have rate: "Rate cfg = 10" using 2 c x by simp
  obtain r left s' where t: "tickOnce demo_env sure_call demo_id demo_key 1760000001000000000 1 3 demo_room = ((r, left), s')"
    by (metis surj_pair)
  have "0 \<le> left \<and> left \<le> max 3 (fl demo_env (Rate cfg * 5))"
    by (rule token_bucket_bounds [OF sure.redis_server_axioms _ _ _ _ _ c [unfolded x] _ t])
      (simp_all add: demo_env_def rate)
  then show ?thesis using t by (simp add: rate demo_env_def)
qed

text \<open>an instance that does not hold the lease changes nothing: while another holds it, a turn
  leaves the data as it was, and the instance keeps its state or gives up leadership and tokens.\<close>

theorem follower_is_inert:
  assumes "redis_server call view" and "map_of (strs (view s)) (Key i ''lock'') = Some o2" and "o2 \<noteq> owner"
  shows "view (snd (loop_step E call i owner keyc t0 t1 (l, s))) = view s \<and>
    (let l' = fst (loop_step E call i owner keyc t0 t1 (l, s)) in l' = l \<or> (Tokens l' = 0 \<and> \<not> Leader l'))"
  using redis_server.loop_step_follower [OF assms] .

theorem follower_is_inert_witness:
  "snd (loop_step demo_env sure_call demo_id ''p2'' demo_key 0 0 (\<lparr>Tokens = 3, Last = 0, Leader = True\<rparr>,
      strput (Key demo_id ''lock'') ''p1'' demo_room)) = strput (Key demo_id ''lock'') ''p1'' demo_room"
  using follower_is_inert [OF sure.redis_server_axioms, of "strput (Key demo_id ''lock'') ''p1'' demo_room" demo_id "''p1''" "''p2''"]
  by simp

end
