(* ===== verification/Hub.thy ===== *)
theory Hub
  imports Store_Frame
begin

text \<open>
  queue/internal/hub/hub.go: the fan-out of the events of a room to the streams this replica
  holds. The state is the rooms with at least one stream, and for each stream its ticket and
  the messages waiting in its channel (of capacity 8). The steps are the operations of the
  code: a subscription, its end, an event received from Redis, a round of statuses, a message
  taken by the handler of the stream. The map of subscriptions is a list in order of creation;
  the program relies on no order.
\<close>

record Status =
  SState :: string
  Position :: int
  Ahead :: int
  Pending :: int
  ETA :: int
  WaveIn :: int
  SRate :: rat

datatype data = DTicket string | DReason string | DStatus Status

record Msg =
  Event :: string
  Data :: data

record sub =
  sid :: nat
  ticket :: string
  ch :: "Msg list"

record hub =
  rooms :: "(string \<times> sub list) list"
  fresh :: nat

definition New_hub :: hub where
  "New_hub = \<lparr>rooms = [], fresh = 0\<rparr>"

section \<open>Statuses\<close>

definition trunc :: "rat \<Rightarrow> int" where
  "trunc x = (if x < 0 then - \<lfloor>- x\<rfloor> else \<lfloor>x\<rfloor>)"

text \<open>
  \<open>int64(float64(n)/cfg.Rate)\<close>, with the division rounded by \<open>fl\<close>; the rate of a validated
  configuration is positive.
\<close>

definition eta :: "(rat \<Rightarrow> rat) \<Rightarrow> int \<Rightarrow> rat \<Rightarrow> int" where
  "eta fl n rate = trunc (fl (of_int (f64_of_int n) / rate))"

definition BuildStatus :: "(rat \<Rightarrow> rat) \<Rightarrow> Config \<Rightarrow> int \<Rightarrow> int \<Rightarrow> int \<Rightarrow> Status" where
  "BuildStatus fl cfg pending rank waveIn =
    (let s = \<lparr>SState = State cfg, Position = 0, Ahead = 0, Pending = pending, ETA = 0, WaveIn = 0, SRate = Rate cfg\<rparr>
     in if 0 \<le> rank
        then s\<lparr>Position := rank + 1, Ahead := rank, ETA := eta fl rank (Rate cfg) + 1\<rparr>
        else s\<lparr>WaveIn := waveIn, ETA := waveIn + eta fl pending (Rate cfg) + 1\<rparr>)"

text \<open>A round of statuses, by batches of 500; a batch whose ranks cannot be read is skipped.\<close>

function status_batches :: "(rat \<Rightarrow> rat) \<Rightarrow> 's server \<Rightarrow> ID \<Rightarrow> Config \<Rightarrow> int \<Rightarrow> sub list \<Rightarrow> 's \<Rightarrow> (nat \<times> Status) list \<times> 's" where
  "status_batches fl call i cfg pending subs s =
    (if subs = [] then ([], s)
     else let batch = take 500 subs in
       case Ranks call i (map ticket batch) s of
         (Inl _, s1) \<Rightarrow> status_batches fl call i cfg pending (drop 500 subs) s1
       | (Inr ranks, s1) \<Rightarrow>
          (let (out, s2) = status_batches fl call i cfg pending (drop 500 subs) s1
           in (map (\<lambda>(b, r). (sid b, BuildStatus fl cfg pending r 0)) (zip batch ranks) @ out, s2)))"
  by pat_completeness auto
termination by (relation "measure (\<lambda>(_, _, _, _, _, subs, _). length subs)") auto

declare status_batches.simps [simp del]

definition status_round :: "lib \<Rightarrow> (rat \<Rightarrow> rat) \<Rightarrow> 's server \<Rightarrow> ID \<Rightarrow> int \<Rightarrow> sub list \<Rightarrow> 's \<Rightarrow> (nat \<times> Status) list \<times> 's" where
  "status_round L fl call i now subs s =
    (if subs = [] then ([], s)
     else case Config_of L call i s of
       (Inl _, s1) \<Rightarrow> ([], s1)
     | (Inr (cfg, _), s1) \<Rightarrow> (case Counts call i now s1 of
          (Inl _, s2) \<Rightarrow> ([], s2)
        | (Inr (pending, _, _), s2) \<Rightarrow> status_batches fl call i cfg pending subs s2))"

section \<open>Subscriptions and messages\<close>

definition send :: "Msg \<Rightarrow> sub \<Rightarrow> sub" where
  "send m s = (if length (ch s) < 8 then s\<lparr>ch := ch s @ [m]\<rparr> else s)"

definition room_subs :: "hub \<Rightarrow> string \<Rightarrow> sub list" where
  "room_subs h r = (case map_of (rooms h) r of None \<Rightarrow> [] | Some ss \<Rightarrow> ss)"

definition Subscribe :: "string \<Rightarrow> string \<Rightarrow> hub \<Rightarrow> nat \<times> hub" where
  "Subscribe r t h = (fresh h,
     \<lparr>rooms = AList.update r (room_subs h r @ [\<lparr>sid = fresh h, ticket = t, ch = []\<rparr>]) (rooms h),
      fresh = Suc (fresh h)\<rparr>)"

definition Unsubscribe :: "string \<Rightarrow> nat \<Rightarrow> hub \<Rightarrow> hub" where
  "Unsubscribe r n h =
    (let ss = filter (\<lambda>s. sid s \<noteq> n) (room_subs h r)
     in h\<lparr>rooms := (if ss = [] then AList.delete r (rooms h) else AList.update r ss (rooms h))\<rparr>)"

definition on_subs :: "string \<Rightarrow> (sub \<Rightarrow> sub) \<Rightarrow> hub \<Rightarrow> hub" where
  "on_subs r g h = (case map_of (rooms h) r of None \<Rightarrow> h
     | Some ss \<Rightarrow> h\<lparr>rooms := AList.update r (map g ss) (rooms h)\<rparr>)"

text \<open>What \<open>pump\<close> does with one event of the channel of the room.\<close>

definition pump :: "string \<Rightarrow> event \<Rightarrow> hub \<Rightarrow> hub" where
  "pump r ev h =
    (if EType ev = ''admitted''
     then on_subs r (\<lambda>s. if ticket s \<in> set (EAdmitted ev)
        then send \<lparr>Event = ''admitted'', Data = DTicket (ticket s)\<rparr> s else s) h
     else if EType ev \<in> {''config'', ''flush''}
     then on_subs r (send \<lparr>Event = ''refresh'', Data = DReason (EType ev)\<rparr>) h
     else h)"

text \<open>The statuses of a round, sent to the streams they were computed for.\<close>

definition send_statuses :: "string \<Rightarrow> (nat \<times> Status) list \<Rightarrow> hub \<Rightarrow> hub" where
  "send_statuses r out h = foldl (\<lambda>h (n, st). on_subs r (\<lambda>s. if sid s = n
     then send \<lparr>Event = ''status'', Data = DStatus st\<rparr> s else s) h) h out"

text \<open>The handler of a stream takes its oldest message.\<close>

definition receive :: "string \<Rightarrow> nat \<Rightarrow> hub \<Rightarrow> Msg option \<times> hub" where
  "receive r n h = ((case filter (\<lambda>s. sid s = n \<and> ch s \<noteq> []) (room_subs h r) of [] \<Rightarrow> None | s # _ \<Rightarrow> Some (hd (ch s))),
     on_subs r (\<lambda>s. if sid s = n then s\<lparr>ch := tl (ch s)\<rparr> else s) h)"

datatype hub_event =
    HSub string string
  | HUnsub string nat
  | HPump string event
  | HStatus string "(nat \<times> Status) list"
  | HRecv string nat

fun hub_step :: "hub \<Rightarrow> hub_event \<Rightarrow> hub" where
  "hub_step h (HSub r t) = snd (Subscribe r t h)"
| "hub_step h (HUnsub r n) = Unsubscribe r n h"
| "hub_step h (HPump r ev) = pump r ev h"
| "hub_step h (HStatus r out) = send_statuses r out h"
| "hub_step h (HRecv r n) = snd (receive r n h)"

section \<open>The invariant\<close>

text \<open>Every room has a stream, no stream is in it twice, and every channel is within its capacity.\<close>

definition room_ok :: "nat \<Rightarrow> sub list \<Rightarrow> bool" where
  "room_ok n ss \<longleftrightarrow> ss \<noteq> [] \<and> distinct (map sid ss) \<and> (\<forall>s \<in> set ss. sid s < n \<and> length (ch s) \<le> 8)"

definition hub_inv :: "hub \<Rightarrow> bool" where
  "hub_inv h \<longleftrightarrow> (\<forall>r ss. map_of (rooms h) r = Some ss \<longrightarrow> room_ok (fresh h) ss)"

lemma send_props [simp]: "sid (send m s) = sid s" "ticket (send m s) = ticket s"
  by (simp_all add: send_def)

lemma send_length: "length (ch s) \<le> 8 \<Longrightarrow> length (ch (send m s)) \<le> 8"
  by (simp add: send_def)

lemma room_ok_map:
  assumes "\<And>s. sid (g s) = sid s" and "\<And>s. length (ch s) \<le> 8 \<Longrightarrow> length (ch (g s)) \<le> 8"
  shows "room_ok n ss \<Longrightarrow> room_ok n (map g ss)"
  using assms by (auto simp: room_ok_def comp_def)

lemma on_subs_inv:
  assumes "\<And>s. sid (g s) = sid s" and "\<And>s. length (ch s) \<le> 8 \<Longrightarrow> length (ch (g s)) \<le> 8" and "hub_inv h"
  shows "hub_inv (on_subs r g h)"
  using assms(3) room_ok_map [OF assms(1,2)] by (auto simp: hub_inv_def on_subs_def split: option.split)

lemma pump_inv: "hub_inv h \<Longrightarrow> hub_inv (pump r ev h)"
  by (auto simp: pump_def send_length intro!: on_subs_inv)

lemma send_statuses_inv: "hub_inv h \<Longrightarrow> hub_inv (send_statuses r out h)"
  unfolding send_statuses_def
proof (induction out arbitrary: h)
  case Nil
  then show ?case by simp
next
  case (Cons p out)
  obtain n st where p: "p = (n, st)" by fastforce
  have "hub_inv (on_subs r (\<lambda>s. if sid s = n then send \<lparr>Event = ''status'', Data = DStatus st\<rparr> s else s) h)"
    using Cons.prems by (intro on_subs_inv) (auto simp: send_length)
  from Cons.IH [OF this] show ?case by (simp add: p)
qed

lemma Subscribe_inv: "hub_inv h \<Longrightarrow> hub_inv (snd (Subscribe r t h))"
  by (fastforce simp: hub_inv_def Subscribe_def room_subs_def room_ok_def split: option.splits)

lemma Unsubscribe_inv: "hub_inv h \<Longrightarrow> hub_inv (Unsubscribe r n h)"
  by (auto simp: hub_inv_def Unsubscribe_def room_subs_def room_ok_def Let_def distinct_map_filter
      split: option.splits if_splits)

lemma receive_inv: "hub_inv h \<Longrightarrow> hub_inv (snd (receive r n h))"
  by (auto simp: receive_def intro!: on_subs_inv)

interpretation hub: step_system hub_step hub_inv
proof unfold_locales
  fix h e
  assume "hub_inv h"
  then show "hub_inv (hub_step h e)"
    by (cases e) (simp_all add: Subscribe_inv Unsubscribe_inv pump_inv send_statuses_inv receive_inv)
qed

lemma run_hub_inv: "hub_inv (foldl hub_step New_hub es)"
  by (rule hub.run_inv) (simp add: hub_inv_def New_hub_def)

section \<open>Properties\<close>

lemma pump_admitted:
  "room_subs (pump r (no_event\<lparr>EType := ''admitted'', EAdmitted := ts\<rparr>) h) r =
     map (\<lambda>s. if ticket s \<in> set ts \<and> length (ch s) < 8
        then s\<lparr>ch := ch s @ [\<lparr>Event = ''admitted'', Data = DTicket (ticket s)\<rparr>]\<rparr> else s) (room_subs h r)"
  "q = r \<or> room_subs (pump r ev h) q = room_subs h q"
  by (auto simp: pump_def on_subs_def room_subs_def send_def split: option.split)

text \<open>in every state the hub can reach, no channel holds more than 8 messages and no stream is
  listed twice; and an admission reaches every stream of the room whose ticket is admitted and
  whose channel is not full, no other stream of it, and no other room.\<close>

theorem hub_delivers:
  "let h = foldl hub_step New_hub es; ev = no_event\<lparr>EType := ''admitted'', EAdmitted := ts\<rparr>; h' = pump r ev h
   in hub_inv h' \<and>
      room_subs h' r = map (\<lambda>s. if ticket s \<in> set ts \<and> length (ch s) < 8
        then s\<lparr>ch := ch s @ [\<lparr>Event = ''admitted'', Data = DTicket (ticket s)\<rparr>]\<rparr> else s) (room_subs h r) \<and>
      (\<forall>q. q = r \<or> room_subs h' q = room_subs h q)"
  unfolding Let_def using pump_inv [OF run_hub_inv] pump_admitted by blast

lemma trunc_mono: "0 \<le> x \<Longrightarrow> x \<le> y \<Longrightarrow> 0 \<le> trunc x \<and> trunc x \<le> trunc y"
  by (simp add: trunc_def floor_mono)

text \<open>what a waiting visitor is told is consistent: its position is its rank plus one, and of two
  tickets the one closer to the head is announced a wait that is positive and not longer.\<close>

theorem BuildStatus_monotone:
  assumes "\<And>x y. x \<le> y \<Longrightarrow> fl x \<le> fl y" and "fl 0 = 0" and "0 < Rate cfg"
    and "0 \<le> r" and "r \<le> r'" and "r' \<le> 2 ^ 53"
  shows "Position (BuildStatus fl cfg p r w) = r + 1 \<and> 1 \<le> ETA (BuildStatus fl cfg p r w) \<and>
    ETA (BuildStatus fl cfg p r w) \<le> ETA (BuildStatus fl cfg p r' w')"
proof -
  let ?q = "\<lambda>n :: int. fl (of_int n / Rate cfg)"
  have ex: "f64_of_int r = r" "f64_of_int r' = r'" using assms(4-6) by (simp_all add: f64_of_int_exact)
  have "0 \<le> (of_int r :: rat) / Rate cfg" "(of_int r :: rat) / Rate cfg \<le> of_int r' / Rate cfg"
    using assms(3-5) by (simp_all add: divide_right_mono)
  then have "0 \<le> ?q r" "?q r \<le> ?q r'" using assms(1,2) by metis+
  from trunc_mono [OF this] show ?thesis using assms(4,5)
    by (simp add: BuildStatus_def Let_def eta_def ex)
qed

theorem BuildStatus_monotone_witness:
  "ETA (BuildStatus (\<lambda>x. x) Defaults 100 19 0) \<le> ETA (BuildStatus (\<lambda>x. x) Defaults 100 25 0)"
  using BuildStatus_monotone [of "\<lambda>x. x" Defaults 19 25 100 0 0] by (simp add: Defaults_def)

end
