(* ===== verification/Queue_Api.thy ===== *)
theory Queue_Api
  imports Hub Pass_Token Signing_Keys
begin

text \<open>
  queue/internal/api/api.go: the public API of the waiting room and the internal API of
  flyc-control, one definition per handler, from the request and the state of the server to the
  response and the next state, with the helpers the handlers share (the signed cookie, the
  return path, the redirection of an admitted visitor). HMAC-SHA-256, \<open>url.Parse\<close>, the case
  folding of Unicode and the Turnstile service are fields of \<open>api\<close>; the clock readings and the
  draws made while serving a request are fields of the request.
\<close>

record url =
  uHost :: string
  uHostname :: string
  uEscapedPath :: string
  uRawQuery :: string

record api =
  alib :: lib
  acr :: crypto
  afl :: "rat \<Rightarrow> rat"
  hmac :: "string \<Rightarrow> string \<Rightarrow> string"
  urlParse :: "string \<Rightarrow> url option"
  uFold :: "string \<Rightarrow> string \<Rightarrow> bool"
  siteverify :: "string \<Rightarrow> string \<Rightarrow> string \<Rightarrow> bool"
  InternalToken :: string
  CookieSecret :: string
  TurnstileSecret :: string
  TurnstileSiteKey :: string

record ticketReq =
  H :: string
  R :: string
  Turnstile :: string

text \<open>
  A request: the room of the path, the query parameter t, the cookies, the headers used, the
  decoded bodies (a body that does not decode leaves the zero \<open>ticketReq\<close>, or \<open>None\<close> for the
  configuration, which is decoded over the defaults), and what serving it reads and draws.
\<close>

record req =
  path_room :: string
  query_t :: string
  rcookies :: "(string \<times> string) list"
  Authorization :: string
  degraded :: string
  real_ip :: string
  flusher :: bool
  body_ticket :: ticketReq
  body_cfg :: "Config \<Rightarrow> (Config \<times> int) option"
  rnow :: int
  rmint :: int
  rid :: string
  rseed :: string

section \<open>Standard library\<close>

text \<open>\<open>base64.StdEncoding\<close>: the other alphabet, and padding to a multiple of four.\<close>

definition std_char :: "nat \<Rightarrow> char" where
  "std_char n = (if n = 62 then CHR ''+'' else if n = 63 then CHR ''/'' else b64_char n)"

definition std_val :: "char \<Rightarrow> nat option" where
  "std_val c = (if c = CHR ''+'' then Some 62 else if c = CHR ''/'' then Some 63
     else if c = CHR ''-'' \<or> c = CHR ''_'' then None else b64_val c)"

definition StdEncode :: "string \<Rightarrow> string" where
  "StdEncode s = map std_char (enc_bytes (map of_char s)) @ replicate ((3 - length s mod 3) mod 3) (CHR ''='')"

definition strip_pad :: "string \<Rightarrow> string" where
  "strip_pad s = (if suffix ''=='' s then take (length s - 2) s
     else if suffix ''='' s then take (length s - 1) s else s)"

definition StdDecode :: "string \<Rightarrow> string option" where
  "StdDecode s0 = (let s = filter (\<lambda>c. c \<noteq> CHR 0x0A \<and> c \<noteq> CHR 0x0D) s0 in
     if length s mod 4 \<noteq> 0 then None
     else case those (map std_val (strip_pad s)) of
       None \<Rightarrow> None
     | Some is \<Rightarrow> map_option (map char_of) (dec_bytes is))"

definition EqualFold :: "api \<Rightarrow> string \<Rightarrow> string \<Rightarrow> bool" where
  "EqualFold A a b = (if ascii a \<and> ascii b then map lower_char a = map lower_char b else uFold A a b)"

section \<open>Helpers\<close>

definition auth :: "api \<Rightarrow> (req \<Rightarrow> 's \<Rightarrow> resp \<times> 's) \<Rightarrow> req \<Rightarrow> 's \<Rightarrow> resp \<times> 's" where
  "auth A next rq s =
    (if InternalToken A = '''' \<or> Authorization rq \<noteq> ''Bearer '' @ InternalToken A
     then (Error 401 ''unauthorized'' ''jeton interne invalide'', s) else next rq s)"

definition roomOf :: "api \<Rightarrow> 's server \<Rightarrow> req \<Rightarrow> 's \<Rightarrow> (resp + ID \<times> Config) \<times> 's" where
  "roomOf A call rq s = (case Parse (path_room rq) of
       None \<Rightarrow> (Inl (Error 404 ''unknown_room'' ''file inconnue''), s)
     | Some i \<Rightarrow> (case Config_of (alib A) call i s of
          (Inl _, s1) \<Rightarrow> (Inl (Error 503 ''store'' ''file d'attente indisponible''), s1)
        | (Inr (cfg, found), s1) \<Rightarrow>
            if \<not> found then (Inl (Error 404 ''unknown_room'' ''file non configuree''), s1)
            else (Inr (i, cfg), s1)))"

definition signTicket :: "api \<Rightarrow> ID \<Rightarrow> string \<Rightarrow> string" where
  "signTicket A i tid = tid @ ''.'' @ take 32 (hex (hmac A (CookieSecret A) (String i @ ''|'' @ tid)))"

definition TrimPrefix :: "string \<Rightarrow> string \<Rightarrow> string" where
  "TrimPrefix s p = (if prefix p s then drop (length p) s else s)"

definition verifyTicket :: "api \<Rightarrow> ID \<Rightarrow> string \<Rightarrow> string \<times> bool" where
  "verifyTicket A i v = (case cut (CHR ''.'') v of
       None \<Rightarrow> ('''', False)
     | Some (tid, sig) \<Rightarrow>
        if tid = '''' then ('''', False)
        else (tid, sig = TrimPrefix (signTicket A i tid) (tid @ ''.'')))"

definition cookieName :: "ID \<Rightarrow> string" where
  "cookieName i = ''flyc_ticket_'' @ Tenant i @ ''_'' @ Room i"

definition setTicketCookie :: "api \<Rightarrow> ID \<Rightarrow> string \<Rightarrow> resp \<Rightarrow> resp" where
  "setTicketCookie A i tid r = r\<lparr>cookies := cookies r @ [(cookieName i, signTicket A i tid)]\<rparr>"

definition ticketFromRequest :: "api \<Rightarrow> req \<Rightarrow> ID \<Rightarrow> string" where
  "ticketFromRequest A rq i =
    (if query_t rq \<noteq> '''' then query_t rq
     else case map_of (rcookies rq) (cookieName i) of
       None \<Rightarrow> ''''
     | Some v \<Rightarrow> (case verifyTicket A i v of (tid, ok) \<Rightarrow> if ok then tid else ''''))"

definition normalizeReturn :: "api \<Rightarrow> string \<Rightarrow> string \<Rightarrow> string" where
  "normalizeReturn A raw0 d =
    (if raw0 = '''' then ''/''
     else let raw = (case StdDecode raw0 of Some b \<Rightarrow> b
                     | None \<Rightarrow> (case DecodeString raw0 of Some b \<Rightarrow> b | None \<Rightarrow> raw0))
       in if prefix ''/'' raw \<and> \<not> prefix ''//'' raw then raw
          else case urlParse A raw of
            None \<Rightarrow> ''/''
          | Some u \<Rightarrow>
             if uHost u \<noteq> '''' \<and> EqualFold A (uHostname u) d
             then (if uEscapedPath u = '''' then ''/'' else uEscapedPath u)
                  @ (if uRawQuery u \<noteq> '''' then ''?'' @ uRawQuery u else '''')
             else ''/'')"

definition goURL :: "string \<Rightarrow> string \<Rightarrow> string \<Rightarrow> string" where
  "goURL d ret tok = ''https://'' @ d @ ''/__flyc/go?p='' @ QueryEscape tok @ ''&r='' @ QueryEscape (StdEncode ret)"

definition goPath :: "ID \<Rightarrow> string \<Rightarrow> string" where
  "goPath i tid = ''/q/'' @ String i @ ''/go?t='' @ tid"

section \<open>Status of a ticket\<close>

definition zero_status :: Status where
  "zero_status = \<lparr>SState = '''', Position = 0, Ahead = 0, Pending = 0, ETA = 0, WaveIn = 0, SRate = 0\<rparr>"

definition status_json :: "Status \<Rightarrow> jv" where
  "status_json st = JObj [(''state'', JStr (SState st)), (''position'', JInt (Position st)),
     (''ahead'', JInt (Ahead st)), (''pending'', JInt (Pending st)), (''eta_s'', JInt (ETA st)),
     (''wave_in_s'', JInt (WaveIn st)), (''rate'', JNum (SRate st))]"

definition theme_json :: "(string \<times> string) list \<Rightarrow> jv" where
  "theme_json t = JObj (map (\<lambda>(k, v). (k, JStr v)) t)"

text \<open>A ticket that was ranked and is no longer in the queue is put back at its place.\<close>

definition statusOf :: "api \<Rightarrow> 's server \<Rightarrow> ID \<Rightarrow> Config \<Rightarrow> Ticket \<Rightarrow> int \<Rightarrow> 's \<Rightarrow> Status res \<times> 's" where
  "statusOf A call i cfg t now s = (case Counts call i now s of
     (Inl e, s1) \<Rightarrow> (Inl e, s1)
   | (Inr (pending, _, _), s1) \<Rightarrow> (case Rank call i (TID t) s1 of
       (Inl e, s2) \<Rightarrow> (Inl e, s2)
     | (Inr rank, s2) \<Rightarrow>
        (if rank < 0
         then if 0 < Score t
           then (let (_, s3) = Requeue call i t s2; (r, s4) = Rank call i (TID t) s3
                 in (Inr (BuildStatus (afl A) cfg pending (case r of Inl _ \<Rightarrow> 0 | Inr k \<Rightarrow> k) 0), s4))
           else (Inr (BuildStatus (afl A) cfg pending rank
                   (max 0 (wrap64 ((TWave t + 1) * WaveSec cfg + 1 - Unix now)))), s2)
         else (Inr (BuildStatus (afl A) cfg pending rank 0), s2))))"

definition admitted_json :: "ID \<Rightarrow> string \<Rightarrow> jv" where
  "admitted_json i tid = JObj [(''ticket'', JStr tid), (''state'', JStr ''admitted''), (''go'', JStr (goPath i tid))]"

definition respondTicket :: "api \<Rightarrow> 's server \<Rightarrow> ID \<Rightarrow> Config \<Rightarrow> Ticket \<Rightarrow> int \<Rightarrow> 's \<Rightarrow> resp \<times> 's" where
  "respondTicket A call i cfg t now s =
    (if Status t = StatusAdmitted then (JSON 200 (admitted_json i (TID t)), s)
     else let (r, s1) = statusOf A call i cfg t now s;
              st = (case r of Inl _ \<Rightarrow> zero_status | Inr x \<Rightarrow> x)
       in (JSON 200 (JObj [(''ticket'', JStr (TID t)), (''state'', JStr ''waiting''), (''status'', status_json st),
             (''title'', JStr (Title cfg)), (''theme'', theme_json (Theme cfg))]), s1))"

definition find_ticket :: "api \<Rightarrow> 's server \<Rightarrow> ID \<Rightarrow> string \<Rightarrow> 's \<Rightarrow> Ticket option \<times> 's" where
  "find_ticket A call i tid s = (case GetTicket (alib A) call i tid s of
     (Inl _, s1) \<Rightarrow> (None, s1) | (Inr t, s1) \<Rightarrow> (t, s1))"

section \<open>The public routes\<close>

definition config_h :: "api \<Rightarrow> 's server \<Rightarrow> req \<Rightarrow> 's \<Rightarrow> resp \<times> 's" where
  "config_h A call rq s = (case roomOf A call rq s of
     (Inl r, s1) \<Rightarrow> (r, s1)
   | (Inr (i, cfg), s1) \<Rightarrow> (JSON 200 (JObj [(''room'', JStr (String i)), (''state'', JStr (State cfg)),
       (''wave_s'', JInt (WaveSec cfg)), (''title'', JStr (Title cfg)), (''opens_at'', JInt (OpensAt cfg)),
       (''turnstile_sitekey'', JStr (TurnstileSiteKey A)), (''theme'', theme_json (Theme cfg))]), s1))"

definition verifyTurnstile :: "api \<Rightarrow> string \<Rightarrow> string \<Rightarrow> bool" where
  "verifyTurnstile A token ip \<longleftrightarrow> token \<noteq> '''' \<and> siteverify A (TurnstileSecret A) token ip"

text \<open>The ticket of the cookie, when it is still of use.\<close>

definition existing :: "api \<Rightarrow> 's server \<Rightarrow> ID \<Rightarrow> req \<Rightarrow> 's \<Rightarrow> Ticket option \<times> 's" where
  "existing A call i rq s = (case map_of (rcookies rq) (cookieName i) of
     None \<Rightarrow> (None, s)
   | Some v \<Rightarrow> (case verifyTicket A i v of (tid, ok) \<Rightarrow>
       if \<not> ok then (None, s)
       else (case find_ticket A call i tid s of
          (None, s1) \<Rightarrow> (None, s1)
        | (Some t, s1) \<Rightarrow> (if Status t = StatusWaiting \<or> Unix (rnow rq) < Exp t then (Some t, s1) else (None, s1)))))"

text \<open>A new ticket: the captcha in state queue, then a pass at once in state open, or a place in a wave.\<close>

definition issue :: "api \<Rightarrow> 's server \<Rightarrow> Client \<Rightarrow> ID \<Rightarrow> Config \<Rightarrow> string \<Rightarrow> string \<Rightarrow> req \<Rightarrow> 's \<Rightarrow> resp \<times> 's" where
  "issue A call keyc i cfg d ret rq s =
    (if TurnstileSecret A \<noteq> '''' \<and> State cfg = Queue \<and>
        \<not> verifyTurnstile A (Turnstile (body_ticket rq)) (real_ip rq)
     then (Error 403 ''captcha'' ''verification anti-robot echouee'', s)
     else if State cfg = Open
     then (if fst (Current keyc) = '''' then (Error 503 ''no_key'' ''signature indisponible'', s)
       else (case Mint (alib A) (acr A) (snd (Current keyc)) (fst (Current keyc))
                \<lparr>CSub = '''', CTenant = Tenant i, CDom = d, CRoom = String i, CTTL = PassTTL cfg\<rparr>
                (rmint rq) (rseed rq) (rseed rq) of
           Inl _ \<Rightarrow> (Error 500 ''sign'' ''signature impossible'', s)
         | Inr tok \<Rightarrow> (case AdmitDirect call i d ret tok (Unix (rnow rq + PassTTL cfg)) (rnow rq) (rid rq) s of
              (Inl _, s1) \<Rightarrow> (Error 503 ''store'' ''file d'attente indisponible'', s1)
            | (Inr t, s1) \<Rightarrow> (setTicketCookie A i (TID t) (JSON 200 (admitted_json i (TID t))), s1))))
     else (case CreateTicket call i cfg d ret (rnow rq) (rid rq) s of
         (Inl _, s1) \<Rightarrow> (Error 503 ''store'' ''file d'attente indisponible'', s1)
       | (Inr t, s1) \<Rightarrow> (case respondTicket A call i cfg t (rnow rq) s1 of
            (r, s2) \<Rightarrow> (r\<lparr>cookies := [(cookieName i, signTicket A i (TID t))]\<rparr>, s2))))"

definition ticket_h :: "api \<Rightarrow> 's server \<Rightarrow> Client \<Rightarrow> req \<Rightarrow> 's \<Rightarrow> resp \<times> 's" where
  "ticket_h A call keyc rq s = (case roomOf A call rq s of
     (Inl r, s1) \<Rightarrow> (r, s1)
   | (Inr (i, cfg), s1) \<Rightarrow>
      (let d = to_lower (ulower (alib A)) (trim_space (utrim (alib A)) (H (body_ticket rq)))
       in if \<not> AllowsDomain (alib A) cfg d
          then (Error 400 ''bad_domain'' ''ce domaine n'est pas protege par cette file'', s1)
          else let ret = normalizeReturn A (R (body_ticket rq)) d
            in if State cfg = Closed
               then (JSON 200 (JObj [(''state'', JStr ''closed''), (''opens_at'', JInt (OpensAt cfg)),
                       (''title'', JStr (Title cfg)), (''theme'', theme_json (Theme cfg))]), s1)
               else (case existing A call i rq s1 of
                   (Some t, s2) \<Rightarrow> respondTicket A call i cfg t (rnow rq) s2
                 | (None, s2) \<Rightarrow> issue A call keyc i cfg d ret rq s2)))"

definition status_h :: "api \<Rightarrow> 's server \<Rightarrow> req \<Rightarrow> 's \<Rightarrow> resp \<times> 's" where
  "status_h A call rq s = (case roomOf A call rq s of
     (Inl r, s1) \<Rightarrow> (r, s1)
   | (Inr (i, cfg), s1) \<Rightarrow> (case find_ticket A call i (ticketFromRequest A rq i) s1 of
       (None, s2) \<Rightarrow> (Error 404 ''unknown_ticket'' ''ticket inconnu ou expire'', s2)
     | (Some t, s2) \<Rightarrow>
        if State cfg = Closed
        then (JSON 200 (JObj [(''state'', JStr ''closed''), (''opens_at'', JInt (OpensAt cfg))]), s2)
        else if Status t = StatusAdmitted
        then (JSON 200 (JObj [(''state'', JStr ''admitted''), (''go'', JStr (goPath i (TID t)))]), s2)
        else (case statusOf A call i cfg t (rnow rq) s2 of
            (Inl _, s3) \<Rightarrow> (Error 503 ''store'' ''file d'attente indisponible'', s3)
          | (Inr st, s3) \<Rightarrow> (JSON 200 (JObj [(''state'', JStr ''waiting''), (''status'', status_json st),
               (''poll_s'', JInt 5)]), s3))))"

text \<open>
  The stream: either it ends with a response, or it starts with the events given and goes on
  with the messages of the hub. \<open>stream_messages\<close> is that second part, over the messages the
  channel delivers; it ends at the admission.
\<close>

datatype stream = Done resp | Streaming "(string \<times> jv) list"

definition stream_resp :: "(string \<times> jv) list \<Rightarrow> resp" where
  "stream_resp evs = \<lparr>code = 200, cookies = [], headers = [(''Content-Type'', ''text/event-stream''),
     (''Cache-Control'', ''no-store''), (''X-Accel-Buffering'', ''no'')], body = Events evs\<rparr>"

definition go_event :: "ID \<Rightarrow> string \<Rightarrow> string \<times> jv" where
  "go_event i tid = (''admitted'', JObj [(''ticket'', JStr tid), (''go'', JStr (goPath i tid))])"

fun data_json :: "data \<Rightarrow> jv" where
  "data_json (DTicket t) = JObj [(''ticket'', JStr t)]"
| "data_json (DReason r) = JObj [(''reason'', JStr r)]"
| "data_json (DStatus st) = status_json st"

fun stream_messages :: "ID \<Rightarrow> string \<Rightarrow> Msg list \<Rightarrow> (string \<times> jv) list" where
  "stream_messages i tid [] = []"
| "stream_messages i tid (m # ms) =
     (if Event m = ''admitted'' then [go_event i tid]
      else (Event m, data_json (Data m)) # stream_messages i tid ms)"

definition events_h :: "api \<Rightarrow> 's server \<Rightarrow> req \<Rightarrow> 's \<Rightarrow> stream \<times> 's" where
  "events_h A call rq s = (case roomOf A call rq s of
     (Inl r, s1) \<Rightarrow> (Done r, s1)
   | (Inr (i, cfg), s1) \<Rightarrow>
      if degraded rq \<noteq> ''''
      then (Done ((JSON 503 (JObj [(''error'', JStr ''degraded''), (''poll_s'', JInt 15)]))
              \<lparr>headers := [(''Retry-After'', ''15'')]\<rparr>), s1)
      else (case find_ticket A call i (ticketFromRequest A rq i) s1 of
          (None, s2) \<Rightarrow> (Done (Error 404 ''unknown_ticket'' ''ticket inconnu ou expire''), s2)
        | (Some t, s2) \<Rightarrow>
           if \<not> flusher rq then (Done (Error 500 ''stream'' ''flux impossible''), s2)
           else if State cfg = Closed
           then (Done (stream_resp [(''closed'', JObj [(''opens_at'', JInt (OpensAt cfg))])]), s2)
           else if Status t = StatusAdmitted then (Done (stream_resp [go_event i (TID t)]), s2)
           else (case statusOf A call i cfg t (rnow rq) s2 of
               (Inl _, s3) \<Rightarrow> (Streaming [], s3)
             | (Inr st, s3) \<Rightarrow> (Streaming [(''status'', status_json st)], s3))))"

definition no_store :: "resp \<Rightarrow> resp" where
  "no_store r = r\<lparr>headers := (''Cache-Control'', ''no-store'') # headers r\<rparr>"

definition goTo :: "api \<Rightarrow> 's server \<Rightarrow> req \<Rightarrow> 's \<Rightarrow> resp \<times> 's" where
  "goTo A call rq s = (case roomOf A call rq s of
     (Inl r, s1) \<Rightarrow> (r, s1)
   | (Inr (i, cfg), s1) \<Rightarrow> (case find_ticket A call i (ticketFromRequest A rq i) s1 of
       (None, s2) \<Rightarrow> (Error 403 ''not_admitted'' ''ce ticket n'est pas encore admis'', s2)
     | (Some t, s2) \<Rightarrow>
        if Status t \<noteq> StatusAdmitted \<or> Pass t = ''''
        then (Error 403 ''not_admitted'' ''ce ticket n'est pas encore admis'', s2)
        else if Exp t \<le> Unix (rnow rq)
        then (Error 410 ''expired'' ''le pass a expire, reprenez un ticket'', s2)
        else if State cfg = Closed
        then (Redirect (''/w/'' @ String i @ ''?h='' @ QueryEscape (Dom t) @ ''&closed=1'') 302, s2)
        else (no_store (Redirect (goURL (Dom t) (Ret t) (Pass t)) 302), s2)))"

definition passJSON :: "api \<Rightarrow> 's server \<Rightarrow> req \<Rightarrow> 's \<Rightarrow> resp \<times> 's" where
  "passJSON A call rq s = (case roomOf A call rq s of
     (Inl r, s1) \<Rightarrow> (r, s1)
   | (Inr (i, cfg), s1) \<Rightarrow> (case find_ticket A call i (ticketFromRequest A rq i) s1 of
       (None, s2) \<Rightarrow> (Error 403 ''not_admitted'' ''ce ticket n'est pas encore admis'', s2)
     | (Some t, s2) \<Rightarrow>
        if Status t \<noteq> StatusAdmitted \<or> Pass t = ''''
        then (Error 403 ''not_admitted'' ''ce ticket n'est pas encore admis'', s2)
        else if Exp t \<le> Unix (rnow rq) \<or> State cfg = Closed
        then (Error 410 ''expired'' ''le pass a expire ou la file est fermee'', s2)
        else (no_store (JSON 200 (JObj [(''pass'', JStr (Pass t)), (''exp'', JInt (Exp t)), (''dom'', JStr (Dom t)),
               (''room'', JStr (String i))])), s2)))"

section \<open>The internal routes\<close>

definition cfg_json :: "Config \<Rightarrow> jv" where
  "cfg_json c = JObj [(''state'', JStr (State c)), (''rate'', JNum (Rate c)), (''max_active'', JInt (MaxActive c)),
     (''wave_s'', JInt (WaveSec c)), (''pass_ttl'', JInt (PassTTL c)), (''domains'', JArr (map JStr (Domains c))),
     (''opens_at'', JInt (OpensAt c)), (''title'', JStr (Title c)), (''theme'', theme_json (Theme c))]"

definition err_msg :: "err \<Rightarrow> string" where
  "err_msg e = (case e of EInvalid m \<Rightarrow> m | EPanic m \<Rightarrow> m | _ \<Rightarrow> ''store'')"

definition putRoom :: "api \<Rightarrow> 's server \<Rightarrow> req \<Rightarrow> 's \<Rightarrow> resp \<times> 's" where
  "putRoom A call rq s = (case Parse (path_room rq) of
     None \<Rightarrow> (Error 400 ''bad_room'' ''identifiant de file invalide'', s)
   | Some i \<Rightarrow> (case body_cfg rq Defaults of
       None \<Rightarrow> (Error 400 ''bad_json'' ''json'', s)
     | Some (cfg0, secs) \<Rightarrow>
        (let cfg1 = (if 0 < secs then cfg0\<lparr>PassTTL := wrap64 (secs * Second)\<rparr> else cfg0)
         in case Validate (alib A) cfg1 of
              (Some m, _) \<Rightarrow> (Error 400 ''invalid'' m, s)
            | (None, cfg) \<Rightarrow> (case SetConfig (alib A) call i cfg s of
                 (Inl e, s1) \<Rightarrow> (Error 503 ''store'' (err_msg e), s1)
               | (Inr _, s1) \<Rightarrow> (JSON 200 (cfg_json cfg), s1)))))"

text \<open>Errors of the reads are ignored; a division by zero is a panic, answered by the server's recovery.\<close>

definition getRoom :: "api \<Rightarrow> 's server \<Rightarrow> req \<Rightarrow> 's \<Rightarrow> resp \<times> 's" where
  "getRoom A call rq s = (case roomOf A call rq s of
     (Inl r, s1) \<Rightarrow> (r, s1)
   | (Inr (i, cfg), s1) \<Rightarrow>
      (let (c, s2) = Counts call i (rnow rq) s1; (p, a, h) = (case c of Inl _ \<Rightarrow> (0, 0, 0) | Inr x \<Rightarrow> x)
       in case Wave (rnow rq) (WaveSec cfg) of
            None \<Rightarrow> (\<lparr>code = 0, cookies = [], headers = [], body = NoBody\<rparr>, s2)
          | Some w \<Rightarrow>
             (let (n, s3) = WaveSize call i w s2; (st, s4) = Stats call i s3
              in (JSON 200 (JObj [(''room'', JStr (String i)), (''config'', cfg_json cfg), (''pending'', JInt p),
                    (''active'', JInt a), (''in_wave'', JInt (case n of Inl _ \<Rightarrow> 0 | Inr x \<Rightarrow> x)), (''head'', JNum h),
                    (''stats'', JObj (map (\<lambda>(k, v). (k, JStr v)) (case st of Inl _ \<Rightarrow> [] | Inr x \<Rightarrow> x)))]), s4))))"

definition flushRoom :: "api \<Rightarrow> 's server \<Rightarrow> req \<Rightarrow> 's \<Rightarrow> resp \<times> 's" where
  "flushRoom A call rq s = (case roomOf A call rq s of
     (Inl r, s1) \<Rightarrow> (r, s1)
   | (Inr (i, cfg), s1) \<Rightarrow> (case Flush call i (rnow rq) (WaveSec cfg) s1 of
       (Inl e, s2) \<Rightarrow> (Error 503 ''store'' (err_msg e), s2)
     | (Inr _, s2) \<Rightarrow> (JSON 200 (JObj [(''status'', JStr ''flushed'')]), s2)))"

section \<open>The routes\<close>

text \<open>Every route but the stream ends with its response.\<close>

datatype route = Config_R | Ticket_R | Status_R | Events_R | Go_R | Pass_R | PutRoom_R | GetRoom_R | Flush_R

definition serve :: "api \<Rightarrow> 's server \<Rightarrow> Client \<Rightarrow> route \<Rightarrow> req \<Rightarrow> 's \<Rightarrow> stream \<times> 's" where
  "serve A call keyc rt rq s = (case rt of
     Config_R \<Rightarrow> apfst Done (config_h A call rq s)
   | Ticket_R \<Rightarrow> apfst Done (ticket_h A call keyc rq s)
   | Status_R \<Rightarrow> apfst Done (status_h A call rq s)
   | Events_R \<Rightarrow> events_h A call rq s
   | Go_R \<Rightarrow> apfst Done (goTo A call rq s)
   | Pass_R \<Rightarrow> apfst Done (passJSON A call rq s)
   | PutRoom_R \<Rightarrow> apfst Done (auth A (putRoom A call) rq s)
   | GetRoom_R \<Rightarrow> apfst Done (auth A (getRoom A call) rq s)
   | Flush_R \<Rightarrow> apfst Done (auth A (flushRoom A call) rq s))"

end
