(* ===== verification/Queue_Api_Laws.thy ===== *)
theory Queue_Api_Laws
  imports Queue_Api
begin

text \<open>
  The properties of the API of the waiting room: the signed cookie names one ticket of one room,
  a pass is handed out for an admitted ticket in force only, a closed room and a foreign domain
  get nothing, a request on one room leaves the others alone, the internal routes need the token.
\<close>

section \<open>Frames of the handlers\<close>

context store_frame
begin

lemma find_ticket_frame: "find_ticket A call i tid s = (x, t) \<Longrightarrow> R (view s) (view t)"
  using GetTicket_frame [of s "alib A" tid] by (auto simp: find_ticket_def split: prod.splits sum.splits)

lemma statusOf_frame: "statusOf A call i cfg t now s = (x, u) \<Longrightarrow> R (view s) (view u)"
proof -
  assume h: "statusOf A call i cfg t now s = (x, u)"
  obtain x1 s1 where 1: "Counts call i now s = (x1, s1)" by fastforce
  obtain x2 s2 where 2: "Rank call i (TID t) s1 = (x2, s2)" by fastforce
  obtain x3 s3 where 3: "Requeue call i t s2 = (x3, s3)" by fastforce
  obtain x4 s4 where 4: "Rank call i (TID t) s3 = (x4, s4)" by fastforce
  have r1: "R (view s) (view s1)" using Counts_frame [of s now] 1 by simp
  have r2: "R (view s) (view s2)" using R_trans [OF r1] Rank_frame [of s1 "TID t"] 2 by simp
  have r3: "R (view s) (view s3)" using R_trans [OF r2] Requeue_frame [of s2 t] 3 by simp
  have r4: "R (view s) (view s4)" using R_trans [OF r3] Rank_frame [of s3 "TID t"] 4 by simp
  have "u \<in> {s1, s2, s4}" using h
    by (cases x1; cases x2; auto simp: statusOf_def 1 2 3 4 Let_def split: if_splits)
  then show ?thesis using r1 r2 r4 by auto
qed

lemma respondTicket_frame: "respondTicket A call i cfg t now s = (x, u) \<Longrightarrow> R (view s) (view u)"
  by (auto simp: respondTicket_def Let_def R_refl split: if_splits prod.splits dest: statusOf_frame)

lemma existing_frame: "existing A call i rq s = (x, u) \<Longrightarrow> R (view s) (view u)"
  by (auto simp: existing_def R_refl split: option.splits prod.splits if_splits dest: find_ticket_frame)

lemma issue_frame: "issue A call keyc i cfg d ret rq s = (x, u) \<Longrightarrow> R (view s) (view u)"
proof -
  assume h: "issue A call keyc i cfg d ret rq s = (x, u)"
  obtain y1 s1 where 1: "CreateTicket call i cfg d ret (rnow rq) (rid rq) s = (y1, s1)" by fastforce
  have r1: "R (view s) (view s1)" using CreateTicket_frame [of s cfg d ret "rnow rq" "rid rq"] 1 by simp
  have r2: "R (view s) (view (snd (AdmitDirect call i d ret tok ex (rnow rq) (rid rq) s)))" for tok ex
    by (rule AdmitDirect_frame)
  have r3: "R (view s) (view (snd (respondTicket A call i cfg t (rnow rq) s1)))" for t
    using R_trans [OF r1 respondTicket_frame] by (metis prod.collapse)
  have "u = s \<or> u = s1 \<or> (\<exists>tok ex. u = snd (AdmitDirect call i d ret tok ex (rnow rq) (rid rq) s)) \<or>
      (\<exists>t. u = snd (respondTicket A call i cfg t (rnow rq) s1))"
    using h by (cases y1) (auto simp: issue_def 1 split: if_splits sum.splits prod.splits, (metis snd_conv)+)
  then show ?thesis using r1 r2 r3 R_refl by auto
qed

text \<open>The room of the request is the room of the frame.\<close>

lemma roomOf_frame:
  "Parse (path_room rq) = Some i \<Longrightarrow> roomOf A call rq s = (x, u) \<Longrightarrow>
   R (view s) (view u) \<and> (\<forall>j cfg. x = Inr (j, cfg) \<longrightarrow> j = i)"
  using Config_of_frame [of s "alib A"] by (auto simp: roomOf_def split: prod.splits sum.splits if_splits)

lemma apfst_eq [simp]: "apfst f p = (x, u) \<longleftrightarrow> (\<exists>y. p = (y, u) \<and> x = f y)"
  by (cases p) auto

lemma events_frame:
  assumes p: "Parse (path_room rq) = Some i" and h: "events_h A call rq s = (x, u)"
  shows "R (view s) (view u)"
proof -
  obtain y s1 where 1: "roomOf A call rq s = (y, s1)" by fastforce
  note ro = roomOf_frame [OF p 1]
  show ?thesis
  proof (cases y)
    case (Inl r)
    then show ?thesis using h ro by (auto simp: events_h_def 1)
  next
    case (Inr ic)
    then obtain cfg where ic: "y = Inr (i, cfg)" using ro by (cases ic) auto
    obtain z s2 where 2: "find_ticket A call i (ticketFromRequest A rq i) s1 = (z, s2)" by fastforce
    have r1: "R (view s) (view s1)" using ro by blast
    have r2: "R (view s) (view s2)" using R_trans [OF r1 find_ticket_frame [OF 2]] .
    have r3: "R (view s) (view (snd (statusOf A call i cfg t (rnow rq) s2)))" for t
      using R_trans [OF r2 statusOf_frame] by (metis prod.collapse)
    have "u \<in> {s1, s2} \<or> (\<exists>t. u = snd (statusOf A call i cfg t (rnow rq) s2))"
      using h by (cases z) (auto simp: events_h_def 1 ic 2 split: if_splits prod.splits sum.splits, (metis snd_conv)+)
    then show ?thesis using r1 r2 r3 by auto
  qed
qed

lemma serve_frame:
  assumes p: "Parse (path_room rq) = Some i" and h: "serve A call keyc rt rq s = (x, u)"
  shows "R (view s) (view u)"
proof -
  obtain y s1 where 1: "roomOf A call rq s = (y, s1)" by fastforce
  note ro = roomOf_frame [OF p 1]
  have ft: "R (view s) (view t)" if "find_ticket A call i tid s1 = (z, t)" for z tid t
    using R_trans ro find_ticket_frame [OF that] by blast
  have st: "R (view s) (view t)" if "find_ticket A call i tid s1 = (z, s2)" "statusOf A call i cfg k now s2 = (v, t)"
    for z tid s2 cfg k now v t using R_trans [OF ft [OF that(1)] statusOf_frame [OF that(2)]] .
  have ex: "R (view s) (view t)" if "existing A call i rq s1 = (z, t)" for z t
    using R_trans ro existing_frame [OF that] by blast
  have re: "R (view s) (view t)" if "existing A call i rq s1 = (z, s2)" "respondTicket A call i cfg k now s2 = (v, t)"
    for z s2 cfg k now v t using R_trans [OF ex [OF that(1)] respondTicket_frame [OF that(2)]] .
  have iss: "R (view s) (view t)" if "existing A call i rq s1 = (z, s2)" "issue A call keyc i cfg d ret rq s2 = (v, t)"
    for z s2 cfg d ret v t using R_trans [OF ex [OF that(1)] issue_frame [OF that(2)]] .
  show ?thesis
  proof (cases y)
    case (Inl r)
    have "R (view s) (view s1)" using ro by blast
    moreover have "R (view s) (view u)" if "rt = Events_R" using events_frame [OF p] h that by (simp add: serve_def)
    moreover have "u = s1 \<or> u = s \<or> rt = PutRoom_R \<or> rt = Events_R" using h Inl
      by (cases rt) (auto simp: serve_def config_h_def ticket_h_def status_h_def goTo_def passJSON_def auth_def
          getRoom_def flushRoom_def 1 split: if_splits)
    moreover have "R (view s) (view u)" if "rt = PutRoom_R"
      using h that p SetConfig_frame [of s] R_refl
      by (auto simp: serve_def auth_def putRoom_def Let_def split: if_splits option.splits prod.splits sum.splits; metis snd_conv)
    ultimately show ?thesis using R_refl by auto
  next
    case (Inr ic)
    then obtain cfg where ic: "y = Inr (i, cfg)" using ro by (cases ic) auto
    have r1: "R (view s) (view s1)" using ro by blast
    show ?thesis
    proof (cases rt)
      case Events_R
      then show ?thesis using events_frame [OF p] h by (simp add: serve_def)
    next
      case Ticket_R
      then show ?thesis using h r1 ex re iss
        by (auto simp: serve_def ticket_h_def 1 ic Let_def split: if_splits prod.splits option.splits)
    next
      case Status_R
      then show ?thesis using h ft st
        by (auto simp: serve_def status_h_def 1 ic split: if_splits prod.splits option.splits sum.splits)
    next
      case GetRoom_R
      obtain c s2 where 2: "Counts call i (rnow rq) s1 = (c, s2)" by fastforce
      have r2: "R (view s) (view s2)" using R_trans [OF r1] Counts_frame [of s1 "rnow rq"] 2 by simp
      have r3: "R (view s) (view (snd (WaveSize call i w s2)))" for w by (rule R_trans [OF r2 WaveSize_frame])
      have r4: "R (view s) (view (snd (Stats call i (snd (WaveSize call i w s2)))))" for w
        by (rule R_trans [OF r3 Stats_frame])
      have "u = s \<or> u = s2 \<or> (\<exists>w. u = snd (Stats call i (snd (WaveSize call i w s2))))"
        using h GetRoom_R by (auto simp: serve_def auth_def getRoom_def 1 ic 2 Let_def split: if_splits option.splits prod.splits, (metis snd_conv)+)
      then show ?thesis using r2 r4 R_refl by auto
    next
      case Flush_R
      then show ?thesis using h r1 R_refl R_trans [OF r1 Flush_frame]
        by (auto simp: serve_def auth_def flushRoom_def 1 ic split: if_splits prod.splits sum.splits; metis snd_conv)
    next
      case PutRoom_R
      then show ?thesis using h p SetConfig_frame [of s] R_refl
        by (auto simp: serve_def auth_def putRoom_def Let_def split: if_splits option.splits prod.splits sum.splits; metis snd_conv)
    qed (use h r1 ft in \<open>auto simp: serve_def config_h_def goTo_def passJSON_def 1 ic split: if_splits prod.splits option.splits\<close>)
  qed
qed

end

section \<open>Lemmas\<close>

lemma verifyTicket_iff:
  "verifyTicket A i v = (tid, True) \<longleftrightarrow> v = signTicket A i tid \<and> tid \<noteq> '''' \<and> CHR ''.'' \<notin> set tid"
proof
  assume h: "verifyTicket A i v = (tid, True)"
  then obtain sig where c: "cut (CHR ''.'') v = Some (tid, sig)" and ne: "tid \<noteq> ''''"
    and s: "sig = TrimPrefix (signTicket A i tid) (tid @ ''.'')"
    by (auto simp: verifyTicket_def split: option.splits if_splits)
  from c have v: "v = tid @ CHR ''.'' # sig" and d: "CHR ''.'' \<notin> set tid" by (simp_all add: cut_Some)
  have "v = signTicket A i tid" using v s by (simp add: TrimPrefix_def signTicket_def)
  with ne d show "v = signTicket A i tid \<and> tid \<noteq> '''' \<and> CHR ''.'' \<notin> set tid" by simp
next
  let ?m = "take 32 (hex (hmac A (CookieSecret A) (String i @ ''|'' @ tid)))"
  assume h: "v = signTicket A i tid \<and> tid \<noteq> '''' \<and> CHR ''.'' \<notin> set tid"
  then have v: "v = tid @ CHR ''.'' # ?m" by (simp add: signTicket_def)
  have "cut (CHR ''.'') v = Some (tid, ?m)" using h v by (simp add: cut_Some)
  with h show "verifyTicket A i v = (tid, True)"
    by (simp add: verifyTicket_def TrimPrefix_def signTicket_def)
qed

lemma slug_no_bar: "slugRe s \<Longrightarrow> CHR ''|'' \<notin> set s"
  using slugRe_chars [of s "CHR ''|''"] by (auto simp: slug_char_def is_digit_def)

lemma String_bar_inj:
  assumes "valid_id i" and "valid_id j" and "String i @ ''|'' @ a = String j @ ''|'' @ b"
  shows "i = j \<and> a = b"
proof -
  from assms(3) have e: "Tenant i @ CHR ''.'' # Room i @ CHR ''|'' # a = Tenant j @ CHR ''.'' # Room j @ CHR ''|'' # b"
    by (simp add: String_def)
  then have t: "Tenant i = Tenant j" and "Room i @ CHR ''|'' # a = Room j @ CHR ''|'' # b"
    using assms(1,2) slugRe_fresh(1) by (simp_all add: fresh_append_eq valid_id_def)
  then have "Room i = Room j" "a = b" using assms(1,2) slug_no_bar by (simp_all add: fresh_append_eq valid_id_def)
  with t show ?thesis by (simp add: ID_eqI)
qed

context redis_server
begin

lemma read_view:
  assumes "\<And>db r db'. doc c db r db' \<Longrightarrow> db' = db"
  shows "view (snd (do1 call c s)) = view s"
proof -
  obtain x t where "do1 call c s = (x, t)" by fastforce
  then show ?thesis using do1_ok [of c s _ t] do1_err [of c s _ t] assms by (cases x) fastforce+
qed

lemma Config_of_view: "view (snd (Config_of L call i s)) = view s"
  using read_view [of "HGETALL (Key i ''cfg'')" s] by (auto simp: Config_of_def split: prod.splits sum.splits)

lemma GetTicket_view: "view (snd (GetTicket L call i tid s)) = view s"
  using read_view [of "HGETALL (tkey i tid)" s]
  by (auto simp: GetTicket_def Let_def split: prod.splits sum.splits)

lemma roomOf_view: "roomOf A call rq s = (x, t) \<Longrightarrow> view t = view s"
  using Config_of_view [of "alib A"] by (auto simp: roomOf_def split: option.splits prod.splits sum.splits if_splits, (metis snd_conv)+)

lemma find_ticket_view: "find_ticket A call i tid s = (x, t) \<Longrightarrow> view t = view s"
  using GetTicket_view [of "alib A" i tid s] by (auto simp: find_ticket_def split: prod.splits sum.splits)

lemma find_ticket_Some:
  "find_ticket A call i tid s = (Some t, s') \<Longrightarrow>
   TID t = tid \<and> Status t = hv (hget (view s) (tkey i tid)) ''status'' \<and> Pass t = hv (hget (view s) (tkey i tid)) ''pass'' \<and>
   Dom t = hv (hget (view s) (tkey i tid)) ''dom'' \<and> Ret t = hv (hget (view s) (tkey i tid)) ''ret'' \<and>
   Exp t = fst (ParseInt (hv (hget (view s) (tkey i tid)) ''exp''))"
proof -
  assume "find_ticket A call i tid s = (Some t, s')"
  then have "GetTicket (alib A) call i tid s = (Inr (Some t), s')"
    by (auto simp: find_ticket_def split: prod.splits sum.splits)
  note g = GetTicket_ok [OF this]
  define h where "h = hget (view s) (tkey i tid)"
  from g have "t = \<lparr>TID = tid, Created = fst (ParseInt (hv h ''created'')), TWave = fst (ParseInt (hv h ''wave'')),
       Status = hv h ''status'', Score = (case ParseFloat (alib A) (hv h ''score'') of Some v \<Rightarrow> v | None \<Rightarrow> 0),
       Dom = hv h ''dom'', Ret = hv h ''ret'', Pass = hv h ''pass'',
       Exp = fst (ParseInt (hv h ''exp'')), Admitted = fst (ParseInt (hv h ''admitted''))\<rparr>"
    unfolding Let_def h_def by blast
  then show ?thesis by (simp add: h_def)
qed

lemma Config_of_ok: "Config_of L call i s = (Inr x, t) \<Longrightarrow> x = FromHash L (hget (view s) (Key i ''cfg''))"
  by (auto simp: Config_of_def split: prod.splits sum.splits dest!: do1_ok)

lemma roomOf_Some:
  "roomOf A call rq s = (Inr (i, cfg), s1) \<Longrightarrow>
   Parse (path_room rq) = Some i \<and> cfg = fst (FromHash (alib A) (hget (view s) (Key i ''cfg'')))"
  using Config_of_ok [of "alib A" i s "(cfg, True)" s1]
  by (auto simp: roomOf_def split: option.splits prod.splits sum.splits if_splits) (metis fst_conv)

lemma ticket_h_inert:
  assumes ro: "roomOf A call rq s = (Inr (i, cfg), s1)"
    and c: "State cfg = Closed \<or> \<not> AllowsDomain (alib A) cfg
       (to_lower (ulower (alib A)) (trim_space (utrim (alib A)) (H (body_ticket rq))))"
    and t: "ticket_h A call keyc rq s = (r, s')"
  shows "view s' = view s \<and> cookies r = []"
  using assms roomOf_view [OF ro]
  by (auto simp: ticket_h_def Let_def Error_def JSON_def split: if_splits)

lemma passJSON_ok:
  assumes "passJSON A call rq s = (r, s')" and "code r = 200"
  shows "\<exists>i cfg tid. Parse (path_room rq) = Some i \<and> tid = ticketFromRequest A rq i \<and>
     cfg = fst (FromHash (alib A) (hget (view s) (Key i ''cfg''))) \<and> State cfg \<noteq> Closed \<and>
     (let h = hget (view s) (tkey i tid) in hv h ''status'' = StatusAdmitted \<and> hv h ''pass'' \<noteq> '''' \<and>
        Unix (rnow rq) < fst (ParseInt (hv h ''exp'')) \<and>
        body r = Body (JObj [(''pass'', JStr (hv h ''pass'')), (''exp'', JInt (fst (ParseInt (hv h ''exp'')))),
          (''dom'', JStr (hv h ''dom'')), (''room'', JStr (String i))])) \<and> view s' = view s"
proof -
  obtain y s1 where 1: "roomOf A call rq s = (y, s1)" by fastforce
  from assms 1 obtain i cfg where y: "y = Inr (i, cfg)"
    by (cases y) (auto simp: passJSON_def roomOf_def split: option.splits prod.splits sum.splits if_splits)
  obtain z s2 where 2: "find_ticket A call i (ticketFromRequest A rq i) s1 = (z, s2)" by fastforce
  from assms obtain t where z: "z = Some t"
    by (cases z) (auto simp: passJSON_def 1 y 2)
  note f = find_ticket_Some [OF 2 [unfolded z]]
  have v: "view s1 = view s" "view s2 = view s" using roomOf_view [OF 1] find_ticket_view [OF 2] by simp_all
  show ?thesis using assms f v roomOf_Some [OF 1 [unfolded y]]
    by (auto simp: passJSON_def 1 y 2 z Let_def no_store_def JSON_def Error_def split: if_splits)
qed

lemma goTo_ok:
  assumes "goTo A call rq s = (r, s')" and "body r = Location l" and "\<not> prefix ''/w/'' l"
  shows "\<exists>i cfg tid. Parse (path_room rq) = Some i \<and> tid = ticketFromRequest A rq i \<and>
     cfg = fst (FromHash (alib A) (hget (view s) (Key i ''cfg''))) \<and> State cfg \<noteq> Closed \<and>
     (let h = hget (view s) (tkey i tid) in hv h ''status'' = StatusAdmitted \<and> hv h ''pass'' \<noteq> '''' \<and>
        Unix (rnow rq) < fst (ParseInt (hv h ''exp'')) \<and>
        l = goURL (hv h ''dom'') (hv h ''ret'') (hv h ''pass'')) \<and> view s' = view s"
proof -
  obtain y s1 where 1: "roomOf A call rq s = (y, s1)" by fastforce
  from assms 1 obtain i cfg where y: "y = Inr (i, cfg)"
    by (cases y) (auto simp: goTo_def roomOf_def Error_def JSON_def split: option.splits prod.splits sum.splits if_splits)
  obtain z s2 where 2: "find_ticket A call i (ticketFromRequest A rq i) s1 = (z, s2)" by fastforce
  from assms obtain t where z: "z = Some t"
    by (cases z) (auto simp: goTo_def 1 y 2 Error_def JSON_def)
  note f = find_ticket_Some [OF 2 [unfolded z]]
  have v: "view s1 = view s" "view s2 = view s" using roomOf_view [OF 1] find_ticket_view [OF 2] by simp_all
  show ?thesis using assms f v roomOf_Some [OF 1 [unfolded y]]
    by (auto simp: goTo_def 1 y 2 z Let_def no_store_def JSON_def Error_def Redirect_def split: if_splits)
qed

lemma serve_isolates:
  "Parse (path_room rq) = Some i \<Longrightarrow> same_outside i (view s) (view (snd (serve A call keyc rt rq s)))"
  using iso.serve_frame [of rq i A keyc rt s] by (metis prod.collapse)

lemma serve_unknown:
  "Parse (path_room rq) = None \<Longrightarrow> snd (serve A call keyc rt rq s) = s"
  by (cases rt) (auto simp: serve_def config_h_def ticket_h_def status_h_def goTo_def passJSON_def auth_def
      events_h_def putRoom_def getRoom_def flushRoom_def roomOf_def)

end

section \<open>Properties\<close>

text \<open>An API for the witnesses: the authentication code is the message itself.\<close>

definition demo_api :: api where
  "demo_api = \<lparr>alib = demo_lib2, acr = demo_crypto, afl = id, hmac = (\<lambda>k m. rev m), urlParse = (\<lambda>_. None),
     uFold = (\<lambda>_ _. False), siteverify = (\<lambda>_ _ _. True), InternalToken = ''tok'', CookieSecret = ''s'',
     TurnstileSecret = '''', TurnstileSiteKey = ''''\<rparr>"

definition demo_req :: req where
  "demo_req = \<lparr>path_room = ''acme.sale'', query_t = ''a'', rcookies = [], Authorization = '''', degraded = '''',
     real_ip = '''', flusher = True, body_ticket = \<lparr>H = ''a.fr'', R = '''', Turnstile = ''''\<rparr>, body_cfg = (\<lambda>_. None),
     rnow = 1760000001000000000, rmint = 1760000001, rid = ''0'', rseed = ''0''\<rparr>"

definition demo_site :: rdb where
  "demo_site = empty_rdb\<lparr>
     hashes := [(Key demo_id ''cfg'', ToHash demo_lib (Defaults\<lparr>State := Open, Domains := [''a.fr'']\<rparr>)),
       (tkey demo_id ''a'', [(''status'', ''admitted''), (''dom'', ''a.fr''), (''ret'', ''/x''), (''pass'', ''jwt''),
          (''exp'', ''1760001000'')])]\<rparr>"

text \<open>C28: The ticket cookie of a room is accepted by that room, for that ticket; what a room accepts as the cookie of a
  ticket is the ticket with the truncated authentication code of this very room and ticket, under the secret of the
  server; and a cookie signed for one room that another room accepts names the same ticket, and is a collision of the
  truncated codes of the two messages, which differ.\<close>

theorem ticket_cookie_bound:
  assumes "valid_id i" and "valid_id j" and "tid \<noteq> ''''" and "CHR ''.'' \<notin> set tid"
  shows "verifyTicket A i (signTicket A i tid) = (tid, True) \<and>
    (\<forall>v t. verifyTicket A j v = (t, True) \<longrightarrow>
       v = t @ ''.'' @ take 32 (hex (hmac A (CookieSecret A) (String j @ ''|'' @ t)))) \<and>
    (\<forall>t. verifyTicket A j (signTicket A i tid) = (t, True) \<longrightarrow> t = tid \<and>
       (i = j \<or> String i @ ''|'' @ tid \<noteq> String j @ ''|'' @ tid \<and>
          take 32 (hex (hmac A (CookieSecret A) (String i @ ''|'' @ tid))) = take 32 (hex (hmac A (CookieSecret A) (String j @ ''|'' @ tid)))))"
proof (intro conjI allI impI)
  let ?m = "\<lambda>i t. String i @ ''|'' @ t"
  show "verifyTicket A i (signTicket A i tid) = (tid, True)" using assms(3,4) verifyTicket_iff by blast
  show "v = t @ ''.'' @ take 32 (hex (hmac A (CookieSecret A) (?m j t)))" if "verifyTicket A j v = (t, True)" for v t
    using that by (simp add: verifyTicket_iff signTicket_def)
  fix t assume t: "verifyTicket A j (signTicket A i tid) = (t, True)"
  then have v: "signTicket A i tid = signTicket A j t" and d: "CHR ''.'' \<notin> set t"
    by (simp_all add: verifyTicket_iff)
  have "tid @ CHR ''.'' # take 32 (hex (hmac A (CookieSecret A) (?m i tid))) =
      t @ CHR ''.'' # take 32 (hex (hmac A (CookieSecret A) (?m j t)))"
    using v by (simp add: signTicket_def)
  from fresh_append_eq [OF assms(4) d, THEN iffD1, OF this]
  have e: "t = tid" "take 32 (hex (hmac A (CookieSecret A) (?m i tid))) = take 32 (hex (hmac A (CookieSecret A) (?m j tid)))" by auto
  then show "t = tid" by blast
  show "i = j \<or> ?m i tid \<noteq> ?m j tid \<and>
      take 32 (hex (hmac A (CookieSecret A) (?m i tid))) = take 32 (hex (hmac A (CookieSecret A) (?m j tid)))"
    using e(2) String_bar_inj [OF assms(1,2)] by blast
qed

text \<open>Another room accepts the cookie under none of the tickets.\<close>

theorem ticket_cookie_bound_witness:
  "verifyTicket demo_api demo_id (signTicket demo_api demo_id ''t_1'') = (''t_1'', True) \<and>
   (\<forall>t. verifyTicket demo_api \<lparr>Tenant = ''bank'', Room = ''tell''\<rparr> (signTicket demo_api demo_id ''t_1'') \<noteq> (t, True))"
proof -
  have v: "valid_id demo_id" "valid_id \<lparr>Tenant = ''bank'', Room = ''tell''\<rparr>" by code_simp+
  have n: "demo_id \<noteq> \<lparr>Tenant = ''bank'', Room = ''tell''\<rparr>" by (simp add: demo_id_def)
  have c: "take 32 (hex (hmac demo_api (CookieSecret demo_api) (String demo_id @ ''|'' @ ''t_1''))) \<noteq>
      take 32 (hex (hmac demo_api (CookieSecret demo_api) (String \<lparr>Tenant = ''bank'', Room = ''tell''\<rparr> @ ''|'' @ ''t_1'')))" by code_simp
  have t: "''t_1'' \<noteq> ''''" "CHR ''.'' \<notin> set ''t_1''" by simp_all
  show ?thesis using ticket_cookie_bound [OF v t, of demo_api] n c by blast
qed

text \<open>a closed room, or a domain that is not configured for the room, gets nothing: the request
  for a ticket changes no data and sets no cookie.\<close>

theorem closed_or_foreign_gets_nothing:
  assumes "redis_server call view" and "roomOf A call rq s = (Inr (i, cfg), s1)"
    and "State cfg = Closed \<or> \<not> AllowsDomain (alib A) cfg
       (to_lower (ulower (alib A)) (trim_space (utrim (alib A)) (H (body_ticket rq))))"
    and "ticket_h A call keyc rq s = (r, s')"
  shows "view s' = view s \<and> cookies r = []"
  using redis_server.ticket_h_inert [OF assms] .

lemma demo_roomOf:
  "\<exists>cfg s1. roomOf demo_api sure_call demo_req demo_site = (Inr (demo_id, cfg), s1) \<and> Domains cfg = [''a.fr''] \<and> State cfg = Open"
proof -
  have 1: "(case roomOf demo_api sure_call demo_req demo_site of (Inr (i, cfg), _) \<Rightarrow>
      Tenant i = ''acme'' \<and> Room i = ''sale'' \<and> Domains cfg = [''a.fr''] \<and> State cfg = Open | _ \<Rightarrow> False)" by code_simp
  obtain x s1 where x: "roomOf demo_api sure_call demo_req demo_site = (x, s1)" by fastforce
  with 1 obtain i cfg where "x = Inr (i, cfg)" by (cases x) auto
  with 1 x show ?thesis by (auto simp: demo_id_def intro: ID_eqI)
qed

theorem closed_or_foreign_gets_nothing_witness:
  "snd (ticket_h demo_api sure_call New_client (demo_req\<lparr>body_ticket := \<lparr>H = ''evil.fr'', R = '''', Turnstile = ''''\<rparr>\<rparr>) demo_site)
     = demo_site"
proof -
  let ?rq = "demo_req\<lparr>body_ticket := \<lparr>H = ''evil.fr'', R = '''', Turnstile = ''''\<rparr>\<rparr>"
  obtain cfg s1 where r: "roomOf demo_api sure_call demo_req demo_site = (Inr (demo_id, cfg), s1)" "Domains cfg = [''a.fr'']"
    using demo_roomOf by blast
  then have ro: "roomOf demo_api sure_call ?rq demo_site = (Inr (demo_id, cfg), s1)" by (simp add: roomOf_def)
  have n: "to_lower (ulower (alib demo_api)) (trim_space (utrim (alib demo_api)) ''evil.fr'') = ''evil.fr''"
    "to_lower (ulower (alib demo_api)) ''evil.fr'' = ''evil.fr''" by code_simp+
  obtain q s' where t: "ticket_h demo_api sure_call New_client ?rq demo_site = (q, s')" by fastforce
  have "s' = demo_site \<and> cookies q = []"
    by (rule closed_or_foreign_gets_nothing [OF sure.redis_server_axioms ro _ t]) (simp add: AllowsDomain_def r(2) n)
  then show ?thesis using t by simp
qed

text \<open>C3: a pass leaves the queue for an admitted ticket only: both routes that hand it out do so
  only when the ticket of the request is stored as admitted, with a pass, not expired, and the
  room is not closed; what is handed out is what is stored, and nothing is changed.\<close>

theorem pass_only_when_admitted:
  assumes "redis_server call view"
    and "(passJSON A call rq s = (r, s') \<and> code r = 200) \<or>
         (goTo A call rq s = (r, s') \<and> body r = Location l \<and> \<not> prefix ''/w/'' l)"
  shows "view s' = view s \<and> (\<exists>i cfg. Parse (path_room rq) = Some i \<and>
     cfg = fst (FromHash (alib A) (hget (view s) (Key i ''cfg''))) \<and> State cfg \<noteq> Closed \<and>
     (let h = hget (view s) (tkey i (ticketFromRequest A rq i)) in
        hv h ''status'' = StatusAdmitted \<and> hv h ''pass'' \<noteq> '''' \<and> Unix (rnow rq) < fst (ParseInt (hv h ''exp'')) \<and>
        body r \<in> {Body (JObj [(''pass'', JStr (hv h ''pass'')), (''exp'', JInt (fst (ParseInt (hv h ''exp'')))),
            (''dom'', JStr (hv h ''dom'')), (''room'', JStr (String i))]),
          Location (goURL (hv h ''dom'') (hv h ''ret'') (hv h ''pass''))}))"
  using assms(2) redis_server.passJSON_ok [OF assms(1), of A rq s r s'] redis_server.goTo_ok [OF assms(1), of A rq s r s' l]
  by (auto simp: Let_def)

theorem pass_only_when_admitted_witness:
  "\<exists>r s'. passJSON demo_api sure_call demo_req demo_site = (r, s') \<and> s' = demo_site"
proof -
  obtain r s' where p: "passJSON demo_api sure_call demo_req demo_site = (r, s')" by fastforce
  have "code (fst (passJSON demo_api sure_call demo_req demo_site)) = 200" by code_simp
  with p have "passJSON demo_api sure_call demo_req demo_site = (r, s') \<and> code r = 200" by simp
  with pass_only_when_admitted [OF sure.redis_server_axioms, where l = "''''"] have "s' = demo_site" by blast
  with p show ?thesis by blast
qed

text \<open>C27: A request is served within its room: whatever the route, the opening of an event stream included, and
  whatever fails, the data of every other room and the messages published to it are as before.\<close>

theorem serve_isolated:
  assumes "redis_server call view" and "Parse (path_room rq) = Some i" and "valid_id j" and "i \<noteq> j"
    and "serve A call keyc rt rq s = (r, s')"
  shows "hget (view s') (Key j x) = hget (view s) (Key j x) \<and> sget (view s') (Key j x) = sget (view s) (Key j x) \<and>
    zget (view s') (Key j x) = zget (view s) (Key j x) \<and>
    map_of (strs (view s')) (Key j x) = map_of (strs (view s)) (Key j x) \<and>
    filter (\<lambda>m. fst m = Key j x) (chan (view s')) = filter (\<lambda>m. fst m = Key j x) (chan (view s))"
proof -
  have out: "\<not> in_room i (Key j x)" using other_room assms(2-4) Parse_Some by blast
  have S: "same_outside i (view s) (view s')" using redis_server.serve_isolates [OF assms(1,2), of s A keyc rt] assms(5) by simp
  show ?thesis by (rule same_outside_key [OF S out])
qed

theorem serve_isolated_witness:
  "hget (snd (serve demo_api sure_call New_client Events_R demo_req demo_site))
     (Key \<lparr>Tenant = ''bank'', Room = ''sale''\<rparr> ''cfg'') = []"
proof -
  have p: "Parse (path_room demo_req) = Some demo_id" and v: "valid_id \<lparr>Tenant = ''bank'', Room = ''sale''\<rparr>"
    and e: "hget demo_site (Key \<lparr>Tenant = ''bank'', Room = ''sale''\<rparr> ''cfg'') = []" by code_simp+
  obtain r s' where t: "serve demo_api sure_call New_client Events_R demo_req demo_site = (r, s')" by fastforce
  have n: "demo_id \<noteq> \<lparr>Tenant = ''bank'', Room = ''sale''\<rparr>" by (simp add: demo_id_def)
  have "hget s' (Key \<lparr>Tenant = ''bank'', Room = ''sale''\<rparr> ''cfg'') = hget demo_site (Key \<lparr>Tenant = ''bank'', Room = ''sale''\<rparr> ''cfg'')"
    by (rule conjunct1 [OF serve_isolated [OF sure.redis_server_axioms p v n t]])
  then show ?thesis by (simp only: t e snd_conv)
qed

text \<open>without the internal token, or when none is configured, the internal routes answer 401 and
  change nothing.\<close>

theorem internal_routes_guarded:
  assumes "rt \<in> {PutRoom_R, GetRoom_R, Flush_R}"
    and "InternalToken A = '''' \<or> Authorization rq \<noteq> ''Bearer '' @ InternalToken A"
  shows "snd (serve A call keyc rt rq s) = s \<and> (\<exists>r. fst (serve A call keyc rt rq s) = Done r \<and> code r = 401)"
  using assms by (auto simp: serve_def auth_def)

theorem internal_routes_guarded_witness:
  "snd (serve demo_api sure_call New_client Flush_R demo_req demo_site) = demo_site"
  using internal_routes_guarded [of Flush_R demo_api demo_req sure_call New_client demo_site]
  by (simp add: demo_api_def demo_req_def)

text \<open>the return path kept with a ticket is a path: it always starts with a slash, given that a
  parsed URL with a host has an empty path or one that starts with a slash.\<close>

theorem normalizeReturn_is_path:
  assumes "\<And>x u. urlParse A x = Some u \<Longrightarrow> uHost u \<noteq> '''' \<Longrightarrow> uEscapedPath u = '''' \<or> prefix ''/'' (uEscapedPath u)"
  shows "prefix ''/'' (normalizeReturn A raw d)"
proof -
  have u: "prefix ''/'' ((if uEscapedPath u = '''' then ''/'' else uEscapedPath u) @ q)"
    if "urlParse A x = Some u" "uHost u \<noteq> ''''" for x u q
    using assms [OF that] by (auto simp: prefix_def)
  define pr where "pr x = (prefix ''/'' x \<and> \<not> prefix ''//'' x)" for x :: string
  define raw' where "raw' = (case StdDecode raw of Some b \<Rightarrow> b | None \<Rightarrow> (case DecodeString raw of Some b \<Rightarrow> b | None \<Rightarrow> raw))"
  show ?thesis
  proof (cases "raw = '''' \<or> pr raw'")
    case True
    then show ?thesis by (auto simp: normalizeReturn_def Let_def pr_def raw'_def)
  next
    case False
    then show ?thesis using u
      by (cases "urlParse A raw'") (simp_all add: normalizeReturn_def Let_def flip: raw'_def pr_def)
  qed
qed

text \<open>What the parser makes of one absolute URL.\<close>

definition demo_url_api :: api where
  "demo_url_api = demo_api\<lparr>urlParse := (\<lambda>x. if x = ''https://shop.fr//evil.com/''
     then Some \<lparr>uHost = ''shop.fr'', uHostname = ''shop.fr'', uEscapedPath = ''//evil.com/'', uRawQuery = ''''\<rparr> else None)\<rparr>"

theorem normalizeReturn_is_path_witness: "prefix ''/'' (normalizeReturn demo_url_api ''https://shop.fr//evil.com/'' ''shop.fr'')"
  by (rule normalizeReturn_is_path) (auto simp: demo_url_api_def prefix_def split: if_splits)

text \<open>but that path can be a network path: an absolute URL on the protected domain whose path
  starts with two slashes is kept as it is, and a browser reads it as another host, which the
  branch of the relative paths excludes.\<close>

theorem normalizeReturn_keeps_network_path:
  "normalizeReturn demo_url_api ''https://shop.fr//evil.com/'' ''shop.fr'' = ''//evil.com/'' \<and>
   normalizeReturn demo_url_api ''//evil.com/'' ''shop.fr'' = ''/''"
  by code_simp

definition demo_waiting :: rdb where
  "demo_waiting = empty_rdb\<lparr>
     hashes := [(Key demo_id ''cfg'', ToHash demo_lib (Defaults\<lparr>Domains := [''a.fr'']\<rparr>)),
       (tkey demo_id ''a'', [(''status'', ''waiting''), (''score'', ''700'')])],
     zsets := [(Key demo_id ''pending'', [(700, ''a'')])]\<rparr>"

lemma docs_DELs:
  "docs (map DEL ks) db rs db' \<Longrightarrow> db' = foldl (\<lambda>d k. del_key k d) db ks"
  by (induction ks arbitrary: db rs) auto

lemma foldl_del_get:
  "hget (foldl (\<lambda>d k. del_key k d) db ks) k = (if k \<in> set ks then [] else hget db k)"
  "zget (foldl (\<lambda>d k. del_key k d) db ks) k = (if k \<in> set ks then [] else zget db k)"
  by (induction ks arbitrary: db) auto

context redis_server
begin

lemma Flush_ok:
  assumes "Flush call i now w s = (Inr u, s')"
  shows "zget (view s') (Key i ''pending'') = [] \<and> hget (view s') (tkey i t) = hget (view s) (tkey i t)"
proof -
  from assms obtain cur where w: "Wave now w = Some cur" by (cases "Wave now w") (auto simp: Flush_def)
  obtain x s1 where 1: "pipe call (flush_cmds i cur) s = (x, s1)" by fastforce
  with assms w obtain rs where x: "x = Inr rs" by (cases x) (auto simp: Flush_def)
  let ?ks = "Key i ''pending'' # map (wkey i) [cur - 200..cur + 1]"
  have fc: "flush_cmds i cur = map DEL ?ks @ [SET (Key i ''lastwave'') (show_int (cur - 1))]"
    by (simp add: flush_cmds_def)
  have "docs (flush_cmds i cur) (view s) rs (view s1)" using pipe_ok [OF 1 [unfolded x]] by blast
  then obtain r1 db1 r2 where "docs (map DEL ?ks) (view s) r1 db1"
    and "docs [SET (Key i ''lastwave'') (show_int (cur - 1))] db1 r2 (view s1)"
    unfolding fc docs_append by blast
  then have v: "view s1 = strput (Key i ''lastwave'') (show_int (cur - 1)) (foldl (\<lambda>d k. del_key k d) (view s) ?ks)"
    using docs_DELs [of ?ks "view s"] by simp
  have "hashes (view s') = hashes (view s1) \<and> zsets (view s') = zsets (view s1)"
    using assms by (auto simp: Flush_def w 1 x Publish_def split: prod.splits sum.splits dest!: do1_ok)
  moreover have "zget (view s1) (Key i ''pending'') = []" unfolding v put_sel foldl_del_get by simp
  moreover have "tkey i t \<notin> set ?ks" by auto
  then have "hget (view s1) (tkey i t) = hget (view s) (tkey i t)" unfolding v put_sel foldl_del_get by (simp only: if_False)
  ultimately show ?thesis by simp
qed

lemma Flush_total: "(\<And>s cs. fst (call s cs) \<noteq> None) \<Longrightarrow> w \<noteq> 0 \<Longrightarrow> \<exists>s'. Flush call i now w s = (Inr (), s')"
proof -
  assume h: "\<And>s cs. fst (call s cs) \<noteq> None" "w \<noteq> 0"
  then obtain cur where w: "Wave now w = Some cur" by (simp add: Wave_def)
  obtain rs s1 where 1: "pipe call (flush_cmds i cur) s = (Inr rs, s1)"
    using pipe_total [OF h(1), of "flush_cmds i cur" s] by (auto simp: flush_cmds_def)
  obtain r s2 where "do1 call (PUBLISH (Key i ''ev'') (no_event\<lparr>EType := ''flush''\<rparr>)) s1 = (Inr r, s2)"
    using do1_total [OF h(1), where c = "PUBLISH (Key i ''ev'') (no_event\<lparr>EType := ''flush''\<rparr>)"] by blast
  then show ?thesis by (simp add: Flush_def w 1 Publish_def)
qed

lemma statusOf_requeues:
  assumes sure: "\<And>s cs. fst (call s cs) \<noteq> None" and p: "zget (view s) (Key i ''pending'') = []"
    and sc: "0 < Score t" and st: "statusOf A call i cfg t now s = (Inr st, s')"
  shows "zget (view s') (Key i ''pending'') = [(Score t, TID t)]"
proof -
  obtain p1 a h s1 where 1: "Counts call i now s = (Inr (p1, a, h), s1)"
    using st by (auto simp: statusOf_def split: prod.splits sum.splits)
  have v1: "zget (view s1) (Key i ''pending'') = []" using Counts_ok [OF 1] p by (simp add: Let_def)
  obtain r s2 where 2: "do1 call (ZRANK (Key i ''pending'') (TID t)) s1 = (Inr r, s2)"
    using do1_total [OF sure, where c = "ZRANK (Key i ''pending'') (TID t)"] by blast
  have r: "r = RNil" and v2: "view s2 = view s1" using do1_ok [OF 2] v1 by auto
  obtain r3 s3 where 3: "do1 call (ZADD (Key i ''pending'') [(Score t, TID t)]) s2 = (Inr r3, s3)"
    using do1_total [OF sure, where c = "ZADD (Key i ''pending'') [(Score t, TID t)]"] by blast
  have v3: "zget (view s3) (Key i ''pending'') = [(Score t, TID t)]"
    using do1_ok [OF 3] v1 v2 by (simp add: zadd1_def)
  obtain r4 s4 where 4: "do1 call (ZRANK (Key i ''pending'') (TID t)) s3 = (Inr r4, s4)"
    using do1_total [OF sure, where c = "ZRANK (Key i ''pending'') (TID t)"] by blast
  have "s' = s4" using st sc by (simp add: statusOf_def 1 Rank_def 2 r rank_of_def Requeue_def 3 4)
  then show ?thesis using do1_ok [OF 4] v3 by simp
qed

end

text \<open>a flushed ticket comes back: on a server that answers, the flush of a room empties its
  queue, but the hash of a ticket keeps its score, and the next status request of its holder
  puts it back into the queue.\<close>

theorem flush_is_undone_by_status:
  assumes "redis_server call view" and "\<And>s cs. fst (call s cs) \<noteq> None"
    and "Flush call i now w s = (Inr (), s1)" and "GetTicket L call i tid s1 = (Inr (Some t), s2)"
    and "0 < Score t" and "statusOf A call i cfg t now' s2 = (Inr st, s3)"
  shows "zget (view s1) (Key i ''pending'') = [] \<and> zget (view s3) (Key i ''pending'') = [(Score t, TID t)]"
proof -
  have z: "zget (view s1) (Key i ''pending'') = []" using redis_server.Flush_ok [OF assms(1,3)] by blast
  moreover have "view s2 = view s1" using redis_server.GetTicket_view [OF assms(1), of L i tid s1] assms(4) by simp
  ultimately show ?thesis using redis_server.statusOf_requeues [OF assms(1,2) _ assms(5,6)] by simp
qed

theorem flush_is_undone_by_status_witness:
  "\<exists>s1 t s3. Flush sure_call demo_id 1760000000000000000 30 demo_waiting = (Inr (), s1) \<and>
     zget s3 (Key demo_id ''pending'') = [(700, ''a'')] \<and> fst (GetTicket demo_lib2 sure_call demo_id ''a'' s1) = Inr (Some t)"
proof -
  obtain s1 where f: "Flush sure_call demo_id 1760000000000000000 30 demo_waiting = (Inr (), s1)"
    using sure.Flush_total [OF sure_call_Some, of 30 demo_id 1760000000000000000 demo_waiting] by auto
  have h: "hget s1 (tkey demo_id ''a'') = [(''status'', ''waiting''), (''score'', ''700'')]"
    using sure.Flush_ok [OF f, of "''a''"] by (simp add: demo_waiting_def lget_def)
  have k: "hv [(''status'', ''waiting''), (''score'', ''700'')] ''score'' = ''700''"
    "ParseFloat demo_lib2 ''700'' = Some 700" by code_simp+
  obtain r s2 where g: "GetTicket demo_lib2 sure_call demo_id ''a'' s1 = (r, s2)" by fastforce
  have "\<exists>t. r = Inr (Some t) \<and> Score t = 700 \<and> TID t = ''a''"
    using g h k by (auto simp: GetTicket_def Let_def do1_def pipe_def sure_call_def)
  then obtain t where r: "r = Inr (Some t)" "Score t = 700" "TID t = ''a''" by blast
  have "s2 = s1" using g by (auto simp: GetTicket_def Let_def do1_def pipe_def sure_call_def split: if_splits)
  obtain x s3 where st: "statusOf demo_api sure_call demo_id Defaults t 0 s2 = (x, s3)" by fastforce
  have "\<exists>st. x = Inr st" using st
    by (auto simp: statusOf_def Counts_def Rank_def Requeue_def do1_def pipe_def sure_call_def Let_def split: if_splits option.splits)
  then obtain y where "x = Inr y" by blast
  with flush_is_undone_by_status [OF sure.redis_server_axioms sure_call_Some f g [unfolded r(1)] _ st [unfolded \<open>x = Inr y\<close>]] r
  have "zget s3 (Key demo_id ''pending'') = [(700, ''a'')]" by simp
  with f g r show ?thesis by auto
qed

end
