(* ===== verification/Dataplane.thy ===== *)
theory Dataplane
  imports Flyc_Prelude
begin

text \<open>
  control/internal/dataplane/client.go: the client of the HAProxy Dataplane API. The device is
  not in the repository: it is an argument \<open>dp\<close> from its state and a request to an answer and the
  next state. A request is one constructor per method and path the client uses; an answer is a
  lost connection or a status with the decoded body. The locales \<open>map_device\<close> and
  \<open>edge_device\<close> hold what the documentation of the API promises of the runtime maps and of the
  stored files; an in-memory device interprets them.
\<close>

section \<open>Data\<close>

record Backend =
  BName :: string
  Mode :: string
  Balance :: string
  AdvCheck :: string
  ChkMethod :: string
  ChkURI :: string
  DSCheck :: string
  DSInter :: int
  DSRise :: int
  DSFall :: int

record Server =
  SName :: string
  Address :: string
  Port :: int
  Weight :: "int option"
  Maxconn :: "int option"
  SCheck :: string

type_synonym entries = "(string \<times> string) list"

datatype dreq =
    InfoQ | VersionQ | TxPost int | TxPut string | TxDelete string
  | BackendsQ | BackendPost string Backend | BackendPut string Backend | BackendDelete string string
  | ServersQ string | ServerPost string string Server | ServerPut string string Server
  | ServerDelete string string string
  | EntriesQ string | EntryPost string string string | EntryPut string string string
  | EntryDelete string string | MapDelete string
  | CertsQ | CertPut string string | CertPost string string
  | CrtListQ string | CrtListPut string string
  | GeneralQ string | GeneralPost string string | GeneralPut string string
  | StatsQ string

text \<open>The statistics are lists of objects, each a list of name, type and current sessions.\<close>

datatype payload =
    PNone | PInt int | PTx string | PBackends "Backend list" | PServers "Server list" | PEntries entries
  | PText string | PCerts "(string \<times> string) list" | PStats "(string \<times> string \<times> int) list list"

datatype answer = Lost | Ans int payload

type_synonym 'd device = "'d \<Rightarrow> dreq \<Rightarrow> answer \<times> 'd"

text \<open>\<open>do\<close>: a transport error, an \<open>APIError\<close> from status 300 on, the body otherwise.\<close>

definition do_req :: "'d device \<Rightarrow> dreq \<Rightarrow> 'd \<Rightarrow> payload res \<times> 'd" where
  "do_req dp rq d = (case dp d rq of
     (Lost, d') \<Rightarrow> (Inl ENet, d')
   | (Ans st p, d') \<Rightarrow> (if 300 \<le> st then (Inl (EApi st), d') else (Inr p, d')))"

definition IsStatus :: "err \<Rightarrow> int \<Rightarrow> bool" where
  "IsStatus e c \<longleftrightarrow> e = EApi c"

definition do_unit :: "'d device \<Rightarrow> dreq \<Rightarrow> 'd \<Rightarrow> unit res \<times> 'd" where
  "do_unit dp rq d = (case do_req dp rq d of (Inl e, d') \<Rightarrow> (Inl e, d') | (Inr _, d') \<Rightarrow> (Inr (), d'))"

section \<open>Transactions, backends and servers\<close>

definition bad_json :: err where "bad_json = EInvalid ''json''"

definition Info :: "'d device \<Rightarrow> 'd \<Rightarrow> unit res \<times> 'd" where
  "Info dp d = (case do_req dp InfoQ d of
     (Inl e, d') \<Rightarrow> (Inl e, d') | (Inr (PText t), d') \<Rightarrow> (Inl bad_json, d') | (Inr _, d') \<Rightarrow> (Inr (), d'))"

definition Version :: "'d device \<Rightarrow> 'd \<Rightarrow> int res \<times> 'd" where
  "Version dp d = (case do_req dp VersionQ d of
     (Inl e, d') \<Rightarrow> (Inl e, d') | (Inr (PInt v), d') \<Rightarrow> (Inr v, d') | (Inr PNone, d') \<Rightarrow> (Inr 0, d')
   | (Inr _, d') \<Rightarrow> (Inl bad_json, d'))"

definition BeginTx :: "'d device \<Rightarrow> 'd \<Rightarrow> string res \<times> 'd" where
  "BeginTx dp d = (case Version dp d of
     (Inl e, d1) \<Rightarrow> (Inl e, d1)
   | (Inr v, d1) \<Rightarrow> (case do_req dp (TxPost v) d1 of
        (Inl e, d2) \<Rightarrow> (Inl e, d2) | (Inr (PTx t), d2) \<Rightarrow> (Inr t, d2) | (Inr PNone, d2) \<Rightarrow> (Inr '''', d2)
      | (Inr _, d2) \<Rightarrow> (Inl bad_json, d2)))"

definition CommitTx :: "'d device \<Rightarrow> string \<Rightarrow> 'd \<Rightarrow> unit res \<times> 'd" where
  "CommitTx dp t d = do_unit dp (TxPut t) d"

definition AbortTx :: "'d device \<Rightarrow> string \<Rightarrow> 'd \<Rightarrow> 'd" where
  "AbortTx dp t d = snd (do_req dp (TxDelete t) d)"

definition Reload :: "'d device \<Rightarrow> 'd \<Rightarrow> unit res \<times> 'd" where
  "Reload dp d = (case BeginTx dp d of (Inl e, d1) \<Rightarrow> (Inl e, d1) | (Inr t, d1) \<Rightarrow> CommitTx dp t d1)"

definition Backends :: "'d device \<Rightarrow> 'd \<Rightarrow> Backend list res \<times> 'd" where
  "Backends dp d = (case do_req dp BackendsQ d of
     (Inl e, d') \<Rightarrow> (Inl e, d') | (Inr (PBackends bs), d') \<Rightarrow> (Inr bs, d') | (Inr PNone, d') \<Rightarrow> (Inr [], d')
   | (Inr _, d') \<Rightarrow> (Inl bad_json, d'))"

definition CreateBackend :: "'d device \<Rightarrow> string \<Rightarrow> Backend \<Rightarrow> 'd \<Rightarrow> unit res \<times> 'd" where
  "CreateBackend dp t b d = do_unit dp (BackendPost t b) d"

definition ReplaceBackend :: "'d device \<Rightarrow> string \<Rightarrow> Backend \<Rightarrow> 'd \<Rightarrow> unit res \<times> 'd" where
  "ReplaceBackend dp t b d = do_unit dp (BackendPut t b) d"

definition DeleteBackend :: "'d device \<Rightarrow> string \<Rightarrow> string \<Rightarrow> 'd \<Rightarrow> unit res \<times> 'd" where
  "DeleteBackend dp t n d = do_unit dp (BackendDelete t n) d"

definition Servers :: "'d device \<Rightarrow> string \<Rightarrow> 'd \<Rightarrow> Server list res \<times> 'd" where
  "Servers dp b d = (case do_req dp (ServersQ b) d of
     (Inl e, d') \<Rightarrow> (Inl e, d') | (Inr (PServers ss), d') \<Rightarrow> (Inr ss, d') | (Inr PNone, d') \<Rightarrow> (Inr [], d')
   | (Inr _, d') \<Rightarrow> (Inl bad_json, d'))"

definition CreateServer :: "'d device \<Rightarrow> string \<Rightarrow> string \<Rightarrow> Server \<Rightarrow> 'd \<Rightarrow> unit res \<times> 'd" where
  "CreateServer dp t b s d = do_unit dp (ServerPost t b s) d"

definition ReplaceServer :: "'d device \<Rightarrow> string \<Rightarrow> string \<Rightarrow> Server \<Rightarrow> 'd \<Rightarrow> unit res \<times> 'd" where
  "ReplaceServer dp t b s d = do_unit dp (ServerPut t b s) d"

definition DeleteServer :: "'d device \<Rightarrow> string \<Rightarrow> string \<Rightarrow> string \<Rightarrow> 'd \<Rightarrow> unit res \<times> 'd" where
  "DeleteServer dp t b n d = do_unit dp (ServerDelete t b n) d"

section \<open>Runtime maps\<close>

definition MapEntries :: "'d device \<Rightarrow> string \<Rightarrow> 'd \<Rightarrow> entries res \<times> 'd" where
  "MapEntries dp m d = (case do_req dp (EntriesQ m) d of
     (Inl e, d') \<Rightarrow> (Inl e, d') | (Inr (PEntries es), d') \<Rightarrow> (Inr es, d') | (Inr PNone, d') \<Rightarrow> (Inr [], d')
   | (Inr _, d') \<Rightarrow> (Inl bad_json, d'))"

text \<open>A Go map filled from a list of pairs: the last value of a key wins.\<close>

definition go_map :: "(string \<times> 'v) list \<Rightarrow> (string \<times> 'v) list" where
  "go_map es = foldl (\<lambda>al e. AList.update (fst e) (snd e) al) [] es"

fun sync_adds :: "'d device \<Rightarrow> string \<Rightarrow> entries \<Rightarrow> entries \<Rightarrow> 'd \<Rightarrow> unit res \<times> 'd" where
  "sync_adds dp m cur [] d = (Inr (), d)"
| "sync_adds dp m cur ((k, v) # kvs) d = (case map_of cur k of
     None \<Rightarrow> (case do_unit dp (EntryPost m k v) d of
        (Inl e, d1) \<Rightarrow> if IsStatus e 409 then sync_adds dp m cur kvs d1 else (Inl e, d1)
      | (Inr _, d1) \<Rightarrow> sync_adds dp m cur kvs d1)
   | Some cv \<Rightarrow> (if cv \<noteq> v
        then (case do_unit dp (EntryPut m k v) d of
            (Inl e, d1) \<Rightarrow> (Inl e, d1) | (Inr _, d1) \<Rightarrow> sync_adds dp m cur kvs d1)
        else sync_adds dp m cur kvs d))"

fun sync_dels :: "'d device \<Rightarrow> string \<Rightarrow> entries \<Rightarrow> string list \<Rightarrow> 'd \<Rightarrow> unit res \<times> 'd" where
  "sync_dels dp m want [] d = (Inr (), d)"
| "sync_dels dp m want (k # ks) d =
     (if map_of want k \<noteq> None then sync_dels dp m want ks d
      else case do_unit dp (EntryDelete m k) d of
        (Inl e, d1) \<Rightarrow> if IsStatus e 404 then sync_dels dp m want ks d1 else (Inl e, d1)
      | (Inr _, d1) \<Rightarrow> sync_dels dp m want ks d1)"

text \<open>The order in which Go ranges over a map is the argument \<open>perm\<close>.\<close>

definition sync_maps :: "'d device \<Rightarrow> (string list \<Rightarrow> string list) \<Rightarrow> string \<Rightarrow> entries \<Rightarrow> entries \<Rightarrow> 'd \<Rightarrow> unit res \<times> 'd" where
  "sync_maps dp perm m cur want d =
    (case sync_adds dp m cur (map (\<lambda>k. (k, the (map_of want k))) (perm (map fst want))) d of
       (Inl e, d1) \<Rightarrow> (Inl e, d1)
     | (Inr _, d1) \<Rightarrow> sync_dels dp m want (perm (map fst cur)) d1)"

definition SyncMap :: "'d device \<Rightarrow> (string list \<Rightarrow> string list) \<Rightarrow> string \<Rightarrow> entries \<Rightarrow> 'd \<Rightarrow> unit res \<times> 'd" where
  "SyncMap dp perm m desired d =
    (let (r, d1) = MapEntries dp m d
     in case (case r of Inl e \<Rightarrow> if IsStatus e 404 then Inr [] else Inl e | Inr es \<Rightarrow> Inr es) of
          Inl e \<Rightarrow> (Inl e, d1)
        | Inr current \<Rightarrow>
           (let dup = \<not> distinct (map fst current);
                (c, d2) = (if dup then do_unit dp (MapDelete m) d1 else (Inr (), d1));
                want = go_map desired
            in case c of
                 Inl e \<Rightarrow> if IsStatus e 404 then sync_maps dp perm m [] want d2 else (Inl e, d2)
               | Inr _ \<Rightarrow> sync_maps dp perm m (if dup then [] else go_map current) want d2))"

section \<open>Certificates and stored files\<close>

definition StoredCerts :: "'d device \<Rightarrow> 'd \<Rightarrow> (string \<times> string) list res \<times> 'd" where
  "StoredCerts dp d = (case do_req dp CertsQ d of
     (Inl e, d') \<Rightarrow> (Inl e, d') | (Inr (PCerts cs), d') \<Rightarrow> (Inr cs, d') | (Inr PNone, d') \<Rightarrow> (Inr [], d')
   | (Inr _, d') \<Rightarrow> (Inl bad_json, d'))"

text \<open>Whether the certificate was created: replaced in place, or sent when it was absent.\<close>

definition UpsertCert :: "'d device \<Rightarrow> string \<Rightarrow> string \<Rightarrow> 'd \<Rightarrow> bool res \<times> 'd" where
  "UpsertCert dp n pem d = (case do_unit dp (CertPut n pem) d of
     (Inr _, d1) \<Rightarrow> (Inr False, d1)
   | (Inl e, d1) \<Rightarrow>
      (if \<not> IsStatus e 404 then (Inl e, d1)
       else case do_unit dp (CertPost n pem) d1 of (Inl e', d2) \<Rightarrow> (Inl e', d2) | (Inr _, d2) \<Rightarrow> (Inr True, d2)))"

definition TrimSuffix :: "string \<Rightarrow> string \<Rightarrow> string" where
  "TrimSuffix s x = (if suffix x s then take (length s - length x) s else s)"

definition StorageName :: "string \<Rightarrow> string" where
  "StorageName fqdn = replace_char (CHR ''.'') (CHR ''_'') (TrimSuffix fqdn ''.pem'') @ ''.pem''"

definition CrtListGet :: "'d device \<Rightarrow> string \<Rightarrow> 'd \<Rightarrow> string res \<times> 'd" where
  "CrtListGet dp n d = (case do_req dp (CrtListQ n) d of
     (Inl e, d') \<Rightarrow> (if IsStatus e 404 then (Inr '''', d') else (Inl e, d'))
   | (Inr (PText t), d') \<Rightarrow> (Inr t, d') | (Inr _, d') \<Rightarrow> (Inr '''', d'))"

text \<open>\<open>u\<close> is \<open>strings.TrimSpace\<close> outside ASCII.\<close>

definition CrtListSync :: "(string \<Rightarrow> string) \<Rightarrow> 'd device \<Rightarrow> string \<Rightarrow> string \<Rightarrow> 'd \<Rightarrow> bool res \<times> 'd" where
  "CrtListSync u dp n content d = (case CrtListGet dp n d of
     (Inl e, d1) \<Rightarrow> (Inl e, d1)
   | (Inr cur, d1) \<Rightarrow>
      (if trim_space u cur = trim_space u content then (Inr False, d1)
       else case do_unit dp (CrtListPut n content) d1 of (Inl e, d2) \<Rightarrow> (Inl e, d2) | (Inr _, d2) \<Rightarrow> (Inr True, d2)))"

text \<open>The status of the read decides here, whatever it is; only a transport error ends the call.\<close>

definition GeneralSync :: "(string \<Rightarrow> string) \<Rightarrow> 'd device \<Rightarrow> string \<Rightarrow> string \<Rightarrow> 'd \<Rightarrow> bool res \<times> 'd" where
  "GeneralSync u dp n content d = (case dp d (GeneralQ n) of
     (Lost, d1) \<Rightarrow> (Inl ENet, d1)
   | (Ans st p, d1) \<Rightarrow>
      (if st = 200 \<and> trim_space u (case p of PText t \<Rightarrow> t | _ \<Rightarrow> '''') = trim_space u content then (Inr False, d1)
       else case do_unit dp (if st = 404 then GeneralPost n content else GeneralPut n content) d1 of
         (Inl e, d2) \<Rightarrow> (Inl e, d2) | (Inr _, d2) \<Rightarrow> (Inr True, d2)))"

definition BackendSessions :: "'d device \<Rightarrow> string \<Rightarrow> 'd \<Rightarrow> int res \<times> 'd" where
  "BackendSessions dp b d = (case do_req dp (StatsQ b) d of
     (Inl e, d') \<Rightarrow> (Inl e, d')
   | (Inr (PStats objs), d') \<Rightarrow>
       (Inr (sum_list (map (\<lambda>(n, ty, scur). if ty = ''backend'' \<and> n = b then scur else 0) (concat objs))), d')
   | (Inr _, d') \<Rightarrow> (Inl bad_json, d'))"

section \<open>What the API promises of a map\<close>

locale map_device =
  fixes dp :: "'d device" and mview :: "'d \<Rightarrow> string \<Rightarrow> entries"
  assumes entries_ok: "dp d (EntriesQ m) = (Ans st p, d') \<Longrightarrow> st < 300 \<Longrightarrow> p = PEntries (mview d m)"
    and entries_keep: "dp d (EntriesQ m) = (a, d') \<Longrightarrow> mview d' = mview d"
    and entries_404: "dp d (EntriesQ m) = (Ans 404 p, d') \<Longrightarrow> mview d m = []"
    and post_ok: "dp d (EntryPost m k v) = (Ans st p, d') \<Longrightarrow> st < 300 \<Longrightarrow>
          mview d' = (mview d)(m := mview d m @ [(k, v)])"
    and post_409: "dp d (EntryPost m k v) = (Ans 409 p, d') \<Longrightarrow> k \<in> fst ` set (mview d m)"
    and put_ok: "dp d (EntryPut m k v) = (Ans st p, d') \<Longrightarrow> st < 300 \<Longrightarrow>
          mview d' = (mview d)(m := map (\<lambda>e. if fst e = k then (k, v) else e) (mview d m))"
    and del_ok: "dp d (EntryDelete m k) = (Ans st p, d') \<Longrightarrow> st < 300 \<Longrightarrow>
          mview d' = (mview d)(m := filter (\<lambda>e. fst e \<noteq> k) (mview d m))"
    and del_404: "dp d (EntryDelete m k) = (Ans 404 p, d') \<Longrightarrow> k \<notin> fst ` set (mview d m) \<and> mview d' = mview d"
    and clear_ok: "dp d (MapDelete m) = (Ans st p, d') \<Longrightarrow> st < 300 \<Longrightarrow> mview d' = (mview d)(m := [])"
    and clear_404: "dp d (MapDelete m) = (Ans 404 p, d') \<Longrightarrow> mview d m = [] \<and> mview d' = mview d"
begin

lemma do_unit_ok: "do_unit dp rq d = (Inr u, d') \<Longrightarrow> \<exists>st p. dp d rq = (Ans st p, d') \<and> st < 300"
  by (auto simp: do_unit_def do_req_def split: prod.splits sum.splits answer.splits if_splits)

lemma do_unit_status: "do_unit dp rq d = (Inl e, d') \<Longrightarrow> IsStatus e c \<Longrightarrow> \<exists>p. dp d rq = (Ans c p, d')"
  by (auto simp: do_unit_def do_req_def IsStatus_def split: prod.splits sum.splits answer.splits if_splits)

lemma map_of_keep: "map_of (map (\<lambda>e. if fst e = k then (k, v) else e) es) q =
    (if q = k \<and> k \<in> fst ` set es then Some v else map_of es q)"
  by (induction es) (auto, (metis fst_conv image_eqI)+)

lemma map_of_snoc: "k \<notin> fst ` set es \<Longrightarrow> map_of (es @ [(k, v)]) q = (if q = k then Some v else map_of es q)"
  by (induction es) auto

lemma map_of_drop: "map_of (filter (\<lambda>e. fst e \<noteq> k) es) q = (if q = k then None else map_of es q)"
  by (induction es) auto

lemma sync_adds_ok:
  "sync_adds dp m cur kvs d = (Inr u, d') \<Longrightarrow> distinct (map fst kvs) \<Longrightarrow> distinct (map fst (mview d m)) \<Longrightarrow>
   (\<forall>k \<in> fst ` set kvs. map_of cur k = map_of (mview d m) k) \<Longrightarrow>
   distinct (map fst (mview d' m)) \<and> (\<forall>q. q \<noteq> m \<longrightarrow> mview d' q = mview d q) \<and>
   (\<forall>k. map_of (mview d' m) k = (case map_of kvs k of Some v \<Rightarrow> Some v | None \<Rightarrow> map_of (mview d m) k))"
proof (induction kvs arbitrary: d)
  case Nil
  then show ?case by simp
next
  case (Cons kv kvs)
  obtain k v where kv: "kv = (k, v)" by fastforce
  have kn: "map_of kvs k = None" and kf: "k \<notin> fst ` set kvs" using Cons.prems(2) kv by (auto simp: map_of_eq_None_iff)
  have step: ?case
    if go: "sync_adds dp m cur kvs d1 = (Inr u, d')" and v1: "mview d1 = (mview d)(m := es)"
      and dis: "distinct (map fst es)" and es: "\<And>q. map_of es q = (if q = k then Some v else map_of (mview d m) q)"
    for d1 es
  proof -
    have "\<forall>q \<in> fst ` set kvs. map_of cur q = map_of (mview d1 m) q" using Cons.prems(4) kv kf v1 es by auto
    moreover have m: "mview d1 m = es" "\<And>q. q \<noteq> m \<Longrightarrow> mview d1 q = mview d q" using v1 by simp_all
    ultimately show ?thesis using Cons.IH [OF go] Cons.prems(2) dis es kn unfolding m(1)
      by (auto simp: kv m(2) split: option.split)
  qed
  show ?case
  proof (cases "map_of cur k")
    case None
    then have k: "k \<notin> fst ` set (mview d m)" using Cons.prems(4) kv by (auto simp: map_of_eq_None_iff)
    obtain x d1 where p: "do_unit dp (EntryPost m k v) d = (x, d1)" by fastforce
    have "x = Inr ()"
    proof (cases x)
      case (Inl e)
      then have "IsStatus e 409" using Cons.prems(1) kv None p by (auto split: if_splits)
      then obtain q where "dp d (EntryPost m k v) = (Ans 409 q, d1)" using do_unit_status p Inl by blast
      then show ?thesis using post_409 k by blast
    qed simp
    then have go: "sync_adds dp m cur kvs d1 = (Inr u, d')" using Cons.prems(1) kv None p by simp
    have v1: "mview d1 = (mview d)(m := mview d m @ [(k, v)])"
      using do_unit_ok [of "EntryPost m k v" d] p \<open>x = Inr ()\<close> post_ok by blast
    show ?thesis
    proof (rule step [OF go v1])
      show "distinct (map fst (mview d m @ [(k, v)]))" using Cons.prems(3) k by simp
      show "map_of (mview d m @ [(k, v)]) q = (if q = k then Some v else map_of (mview d m) q)" for q
        using k by (rule map_of_snoc)
    qed
  next
    case (Some cv)
    then have k: "map_of (mview d m) k = Some cv" using Cons.prems(4) kv by simp
    then have kin: "k \<in> fst ` set (mview d m)" by (metis map_of_eq_None_iff option.distinct(1))
    show ?thesis
    proof (cases "cv = v")
      case True
      then have go: "sync_adds dp m cur kvs d = (Inr u, d')" using Cons.prems(1) kv Some by simp
      show ?thesis by (rule step [OF go, of "mview d m"]) (use Cons.prems(3) k True in auto)
    next
      case False
      obtain x d1 where p: "do_unit dp (EntryPut m k v) d = (x, d1)" by fastforce
      with Cons.prems(1) kv Some False have x: "x = Inr ()" and go: "sync_adds dp m cur kvs d1 = (Inr u, d')"
        by (cases x; auto)+
      have v1: "mview d1 = (mview d)(m := map (\<lambda>e. if fst e = k then (k, v) else e) (mview d m))"
        using do_unit_ok [of "EntryPut m k v" d] p x put_ok by blast
      have f: "map fst (map (\<lambda>e. if fst e = k then (k, v) else e) (mview d m)) = map fst (mview d m)" by simp
      show ?thesis
      proof (rule step [OF go v1])
        show "distinct (map fst (map (\<lambda>e. if fst e = k then (k, v) else e) (mview d m)))"
          unfolding f by (rule Cons.prems(3))
      qed (simp add: map_of_keep kin)
    qed
  qed
qed

lemma sync_dels_ok:
  "sync_dels dp m want ks d = (Inr u, d') \<Longrightarrow> distinct (map fst (mview d m)) \<Longrightarrow>
   distinct (map fst (mview d' m)) \<and> (\<forall>q. q \<noteq> m \<longrightarrow> mview d' q = mview d q) \<and>
   (\<forall>k. map_of (mview d' m) k = (if k \<in> set ks \<and> map_of want k = None then None else map_of (mview d m) k))"
proof (induction ks arbitrary: d)
  case Nil
  then show ?case by simp
next
  case (Cons k ks)
  show ?case
  proof (cases "map_of want k = None")
    case False
    then show ?thesis using Cons by auto
  next
    case True
    obtain x d1 where p: "do_unit dp (EntryDelete m k) d = (x, d1)" by fastforce
    have go: "sync_dels dp m want ks d1 = (Inr u, d')" using Cons.prems(1) True p
      by (cases x) (auto split: if_splits)
    have v1: "mview d1 = (mview d)(m := filter (\<lambda>e. fst e \<noteq> k) (mview d m))"
    proof (cases x)
      case (Inl e)
      then have "IsStatus e 404" using Cons.prems(1) True p by (auto split: if_splits)
      then obtain q where "dp d (EntryDelete m k) = (Ans 404 q, d1)" using do_unit_status p Inl by blast
      from del_404 [OF this] have n: "k \<notin> fst ` set (mview d m)" and e: "mview d1 = mview d" by simp_all
      from n have "filter (\<lambda>e. fst e \<noteq> k) (mview d m) = mview d m" by (auto simp: filter_id_conv)
      with e show ?thesis by simp
    next
      case (Inr y)
      then show ?thesis using do_unit_ok [of "EntryDelete m k" d] p del_ok by blast
    qed
    have "distinct (map fst (mview d1 m))" using Cons.prems(2) v1 by (simp add: distinct_map_filter)
    from Cons.IH [OF go this] show ?thesis
      using v1 True by (auto simp: map_of_drop)
  qed
qed

end

lemma go_map_props: "distinct (map fst (go_map es)) \<and> map_of (go_map es) = map_of (rev es)"
proof -
  have "distinct (map fst (foldl (\<lambda>al e. AList.update (fst e) (snd e) al) al es)) \<and>
      map_of (foldl (\<lambda>al e. AList.update (fst e) (snd e) al) al es) = map_of al ++ map_of (rev es)"
    if "distinct (map fst al)" for al
    using that
  proof (induction es arbitrary: al)
    case Nil
    then show ?case by simp
  next
    case (Cons e es)
    have "distinct (map fst (AList.update (fst e) (snd e) al))" using Cons.prems by (rule distinct_update)
    from Cons.IH [OF this] show ?case by (cases e) (auto simp: map_add_def split: option.split)
  qed
  from this [of "[]"] show ?thesis by (simp add: go_map_def)
qed

lemma map_of_map_the: "distinct ks \<Longrightarrow> map_of (map (\<lambda>k. (k, the (f k))) ks) q = (if q \<in> set ks then Some (the (f q)) else None)"
  by (induction ks) auto

context map_device
begin

lemma sync_maps_ok:
  assumes s: "sync_maps dp perm m cur (go_map des) d = (Inr u, d')" and perm: "\<And>ks. mset (perm ks) = mset ks"
    and dis: "distinct (map fst (mview d m))" and cur: "map_of cur = map_of (mview d m)"
  shows "distinct (map fst (mview d' m)) \<and> map_of (mview d' m) = map_of (rev des) \<and> (\<forall>q. q \<noteq> m \<longrightarrow> mview d' q = mview d q)"
proof -
  let ?want = "go_map des" and ?wk = "perm (map fst (go_map des))" and ?ck = "perm (map fst cur)"
  let ?kvs = "map (\<lambda>k. (k, the (map_of ?want k))) ?wk"
  have wk: "set ?wk = fst ` set ?want" "distinct ?wk" using perm [of "map fst ?want"] go_map_props [of des]
    by (metis set_map set_mset_mset, metis mset_eq_imp_distinct_iff)
  have ck: "set ?ck = fst ` set cur" using perm [of "map fst cur"] by (metis set_map set_mset_mset)
  obtain x d1 where a: "sync_adds dp m cur ?kvs d = (x, d1)" by fastforce
  with s have x: "x = Inr ()" and b: "sync_dels dp m ?want ?ck d1 = (Inr u, d')"
    by (cases x; auto simp: sync_maps_def)+
  have "distinct (map fst ?kvs)" using wk(2) by (simp add: comp_def)
  from sync_adds_ok [OF a [unfolded x] this dis] have A: "distinct (map fst (mview d1 m))"
    "\<forall>q. q \<noteq> m \<longrightarrow> mview d1 q = mview d q"
    "\<forall>k. map_of (mview d1 m) k = (case map_of ?kvs k of Some v \<Rightarrow> Some v | None \<Rightarrow> map_of (mview d m) k)"
    using cur by auto
  from sync_dels_ok [OF b A(1)] have B: "distinct (map fst (mview d' m))"
    "\<forall>q. q \<noteq> m \<longrightarrow> mview d' q = mview d1 q"
    "\<forall>k. map_of (mview d' m) k = (if k \<in> set ?ck \<and> map_of ?want k = None then None else map_of (mview d1 m) k)"
    by auto
  have kv: "map_of ?kvs q = (if q \<in> set ?wk then Some (the (map_of ?want q)) else None)" for q
    by (rule map_of_map_the [OF wk(2)])
  have "map_of (mview d' m) k = map_of ?want k" for k
  proof (cases "map_of ?want k")
    case None
    then have "k \<notin> set ?wk" by (simp add: wk map_of_eq_None_iff)
    then have "map_of (mview d1 m) k = map_of cur k" using A(3) cur kv by simp
    then show ?thesis using B(3) None ck map_of_eq_None_iff [of cur k] by (cases "k \<in> set ?ck") simp_all
  next
    case (Some v)
    then have "k \<in> set ?wk" using map_of_eq_None_iff [of ?want k] by (simp add: wk)
    then have "map_of (mview d1 m) k = Some v" using A(3) Some kv by simp
    then show ?thesis using B(3) Some by simp
  qed
  then show ?thesis using A B go_map_props [of des] by auto
qed

lemma SyncMap_ok:
  assumes s: "SyncMap dp perm m des d = (Inr u, d')" and perm: "\<And>ks. mset (perm ks) = mset ks"
  shows "distinct (map fst (mview d' m)) \<and> map_of (mview d' m) = map_of (rev des) \<and> (\<forall>q. q \<noteq> m \<longrightarrow> mview d' q = mview d q)"
proof -
  obtain r d1 where r: "MapEntries dp m d = (r, d1)" by fastforce
  obtain st0 d1' where q: "dp d (EntriesQ m) = (st0, d1')" by fastforce
  have d1: "d1' = d1" using r q
    by (auto simp: MapEntries_def do_req_def split: answer.splits if_splits payload.splits)
  have v1: "mview d1 = mview d" using entries_keep [OF q] d1 by simp
  define cur where "cur = (case r of Inl e \<Rightarrow> [] | Inr es \<Rightarrow> es)"
  have cur: "cur = mview d m" and nerr: "\<And>e. r = Inl e \<Longrightarrow> IsStatus e 404"
  proof -
    show n: "IsStatus e 404" if "r = Inl e" for e using s r that by (auto simp: SyncMap_def split: if_splits)
    show "cur = mview d m"
    proof (cases r)
      case (Inl e)
      with n have "st0 = Ans 404 (case st0 of Ans _ p \<Rightarrow> p | Lost \<Rightarrow> PNone)" using r q
        by (auto simp: MapEntries_def do_req_def IsStatus_def bad_json_def split: answer.splits if_splits payload.splits)
      then show ?thesis using entries_404 q Inl by (metis cur_def sum.case(1))
    next
      case (Inr es)
      then obtain st p where a: "st0 = Ans st p" "st < 300" using r q
        by (auto simp: MapEntries_def do_req_def split: answer.splits if_splits)
      then have "p = PEntries (mview d m)" using entries_ok q by blast
      then show ?thesis using r q a Inr by (simp add: MapEntries_def do_req_def cur_def)
    qed
  qed
  show ?thesis
  proof (cases "distinct (map fst cur)")
    case True
    then have "sync_maps dp perm m (go_map cur) (go_map des) d1 = (Inr u, d')"
      using s r nerr by (cases r) (auto simp: SyncMap_def cur_def go_map_def Let_def split: if_splits)
    moreover have "map_of (go_map cur) = map_of cur"
      using go_map_props [of cur] True map_of_inject_set [of "rev cur" cur] by (simp add: rev_map [symmetric])
    ultimately show ?thesis using sync_maps_ok perm True v1 cur by fastforce
  next
    case False
    then obtain es where es: "r = Inr es" by (cases r) (auto simp: cur_def)
    obtain c d2 where c: "do_unit dp (MapDelete m) d1 = (c, d2)" by fastforce
    have go: "sync_maps dp perm m [] (go_map des) d2 = (Inr u, d')" and nc: "\<And>e. c = Inl e \<Longrightarrow> IsStatus e 404"
      using s r es False c by (cases c; auto simp: SyncMap_def cur_def Let_def split: if_splits)+
    have v2: "mview d2 = (mview d)(m := [])"
    proof (cases c)
      case (Inl e)
      then obtain q where "dp d1 (MapDelete m) = (Ans 404 q, d2)" using do_unit_status c nc by blast
      from clear_404 [OF this] show ?thesis using v1 by auto
    next
      case (Inr y)
      then show ?thesis using do_unit_ok c clear_ok v1 by metis
    qed
    then show ?thesis using sync_maps_ok [OF go perm] by simp
  qed
qed

end

section \<open>Stored files\<close>

locale edge_device = map_device dp mview for dp :: "'d device" and mview :: "'d \<Rightarrow> string \<Rightarrow> entries" +
  fixes cview :: "'d \<Rightarrow> string \<Rightarrow> string option"
  assumes crt_get: "dp d (CrtListQ n) = (Ans st p, d') \<Longrightarrow> st < 300 \<Longrightarrow> \<exists>t. p = PText t \<and> cview d n = Some t"
    and crt_get_404: "dp d (CrtListQ n) = (Ans 404 p, d') \<Longrightarrow> cview d n = None"
    and crt_get_keep: "dp d (CrtListQ n) = (a, d') \<Longrightarrow> cview d' = cview d"
    and crt_put: "dp d (CrtListPut n t) = (Ans st p, d') \<Longrightarrow> st < 300 \<Longrightarrow> cview d' = (cview d)(n := Some t)"
begin

lemma CrtListGet_ok:
  "CrtListGet dp n d = (Inr t, d') \<Longrightarrow> t = (case cview d n of None \<Rightarrow> '''' | Some x \<Rightarrow> x) \<and> cview d' = cview d"
proof -
  assume h: "CrtListGet dp n d = (Inr t, d')"
  obtain a d1 where q: "dp d (CrtListQ n) = (a, d1)" by fastforce
  have d1: "d1 = d'" using h q
    by (auto simp: CrtListGet_def do_req_def split: answer.splits payload.splits if_splits)
  then have v: "cview d' = cview d" using crt_get_keep [OF q] by simp
  show ?thesis
  proof (cases a)
    case Lost
    then show ?thesis using h q by (simp add: CrtListGet_def do_req_def IsStatus_def)
  next
    case (Ans st p)
    show ?thesis
    proof (cases "st < 300")
      case True
      then obtain x where "p = PText x" "cview d n = Some x" using crt_get q Ans by blast
      then show ?thesis using h q Ans True v by (simp add: CrtListGet_def do_req_def)
    next
      case False
      then have "st = 404" "t = ''''" using h q Ans by (auto simp: CrtListGet_def do_req_def IsStatus_def split: if_splits)
      then show ?thesis using crt_get_404 q Ans v by simp
    qed
  qed
qed

lemma CrtListSync_ok:
  "CrtListSync u dp n content d = (Inr b, d') \<Longrightarrow>
   trim_space u (case cview d' n of None \<Rightarrow> '''' | Some x \<Rightarrow> x) = trim_space u content \<and>
   (if b then cview d' = (cview d)(n := Some content) else cview d' = cview d)"
proof -
  assume h: "CrtListSync u dp n content d = (Inr b, d')"
  then obtain cur d1 where 1: "CrtListGet dp n d = (Inr cur, d1)"
    by (auto simp: CrtListSync_def split: prod.splits sum.splits)
  note g = CrtListGet_ok [OF 1]
  show ?thesis
  proof (cases "trim_space u cur = trim_space u content")
    case True
    then show ?thesis using h 1 g by (simp add: CrtListSync_def)
  next
    case False
    then have b: b and "do_unit dp (CrtListPut n content) d1 = (Inr (), d')" using h 1
      by (auto simp: CrtListSync_def split: prod.splits sum.splits)
    then obtain st p where "dp d1 (CrtListPut n content) = (Ans st p, d')" "st < 300" using do_unit_ok by blast
    then have "cview d' = (cview d1)(n := Some content)" by (rule crt_put)
    then show ?thesis using g b by simp
  qed
qed

end

section \<open>An in-memory device\<close>

record memdp =
  mmaps :: "(string \<times> entries) list"
  mcrts :: "(string \<times> string) list"
  mbacks :: "Backend list"
  mservers :: "(string \<times> Server list) list"

definition ents :: "memdp \<Rightarrow> string \<Rightarrow> entries" where
  "ents d m = (case map_of (mmaps d) m of None \<Rightarrow> [] | Some es \<Rightarrow> es)"

definition set_ents :: "string \<Rightarrow> entries \<Rightarrow> memdp \<Rightarrow> memdp" where
  "set_ents m es d = d\<lparr>mmaps := AList.update m es (mmaps d)\<rparr>"

lemma ents_set [simp]: "ents (set_ents m es d) = (ents d)(m := es)"
  by (auto simp: ents_def set_ents_def fun_eq_iff)

fun mem_dp :: "memdp \<Rightarrow> dreq \<Rightarrow> answer \<times> memdp" where
  "mem_dp d (EntriesQ m) = ((case map_of (mmaps d) m of None \<Rightarrow> Ans 404 PNone | Some es \<Rightarrow> Ans 200 (PEntries es)), d)"
| "mem_dp d (EntryPost m k v) = (if k \<in> fst ` set (ents d m) then (Ans 409 PNone, d)
     else (Ans 201 PNone, set_ents m (ents d m @ [(k, v)]) d))"
| "mem_dp d (EntryPut m k v) = (Ans 200 PNone, set_ents m (map (\<lambda>e. if fst e = k then (k, v) else e) (ents d m)) d)"
| "mem_dp d (EntryDelete m k) = (if k \<in> fst ` set (ents d m)
     then (Ans 204 PNone, set_ents m (filter (\<lambda>e. fst e \<noteq> k) (ents d m)) d) else (Ans 404 PNone, d))"
| "mem_dp d (MapDelete m) = (Ans 204 PNone, set_ents m [] d)"
| "mem_dp d (CrtListQ n) = ((case map_of (mcrts d) n of None \<Rightarrow> Ans 404 PNone | Some t \<Rightarrow> Ans 200 (PText t)), d)"
| "mem_dp d (CrtListPut n t) = (Ans 200 PNone, d\<lparr>mcrts := AList.update n t (mcrts d)\<rparr>)"
| "mem_dp d BackendsQ = (Ans 200 (PBackends (mbacks d)), d)"
| "mem_dp d (ServersQ b) = (Ans 200 (PServers (case map_of (mservers d) b of None \<Rightarrow> [] | Some ss \<Rightarrow> ss)), d)"
| "mem_dp d VersionQ = (Ans 200 (PInt 1), d)"
| "mem_dp d (TxPost v) = (Ans 201 (PTx ''tx1''), d)"
| "mem_dp d _ = (Ans 200 PNone, d)"

interpretation mem_edge: edge_device mem_dp ents "\<lambda>d n. map_of (mcrts d) n"
proof unfold_locales
  fix d :: memdp and m k v st p and d' :: memdp and n t a
  show "mem_dp d (EntriesQ m) = (Ans st p, d') \<Longrightarrow> st < 300 \<Longrightarrow> p = PEntries (ents d m)"
    and "mem_dp d (EntriesQ m) = (a, d') \<Longrightarrow> ents d' = ents d"
    and "mem_dp d (EntriesQ m) = (Ans 404 p, d') \<Longrightarrow> ents d m = []"
    by (auto simp: ents_def split: option.splits)
  show "mem_dp d (EntryPost m k v) = (Ans st p, d') \<Longrightarrow> st < 300 \<Longrightarrow> ents d' = (ents d)(m := ents d m @ [(k, v)])"
    and "mem_dp d (EntryPost m k v) = (Ans 409 p, d') \<Longrightarrow> k \<in> fst ` set (ents d m)"
    and "mem_dp d (EntryPut m k v) = (Ans st p, d') \<Longrightarrow> st < 300 \<Longrightarrow>
      ents d' = (ents d)(m := map (\<lambda>e. if fst e = k then (k, v) else e) (ents d m))"
    and "mem_dp d (EntryDelete m k) = (Ans st p, d') \<Longrightarrow> st < 300 \<Longrightarrow>
      ents d' = (ents d)(m := filter (\<lambda>e. fst e \<noteq> k) (ents d m))"
    and "mem_dp d (EntryDelete m k) = (Ans 404 p, d') \<Longrightarrow> k \<notin> fst ` set (ents d m) \<and> ents d' = ents d"
    and "mem_dp d (MapDelete m) = (Ans st p, d') \<Longrightarrow> st < 300 \<Longrightarrow> ents d' = (ents d)(m := [])"
    and "mem_dp d (MapDelete m) = (Ans 404 p, d') \<Longrightarrow> ents d m = [] \<and> ents d' = ents d"
    by (auto split: if_splits)
  show "mem_dp d (CrtListQ n) = (Ans st p, d') \<Longrightarrow> st < 300 \<Longrightarrow> \<exists>t. p = PText t \<and> map_of (mcrts d) n = Some t"
    and "mem_dp d (CrtListQ n) = (Ans 404 p, d') \<Longrightarrow> map_of (mcrts d) n = None"
    and "mem_dp d (CrtListQ n) = (a, d') \<Longrightarrow> map_of (mcrts d') = map_of (mcrts d)"
    and "mem_dp d (CrtListPut n t) = (Ans st p, d') \<Longrightarrow> st < 300 \<Longrightarrow>
      map_of (mcrts d') = (map_of (mcrts d))(n := Some t)"
    by (auto split: option.splits)
qed

section \<open>Properties\<close>

text \<open>C10: \<open>SyncMap\<close> converges: when it returns without an error, the runtime map holds exactly the
  desired entries (the last one of a key), each key once, whatever it held before, duplicates
  included, in whatever order Go ranges over its maps, and the other maps are untouched.\<close>

theorem SyncMap_converges:
  assumes "map_device dp mview" and "\<And>ks. mset (perm ks) = mset ks" and "SyncMap dp perm m des d = (Inr u, d')"
  shows "map_of (mview d' m) = map_of (rev des) \<and> distinct (map fst (mview d' m)) \<and>
    (\<forall>q. q \<noteq> m \<longrightarrow> mview d' q = mview d q)"
  using map_device.SyncMap_ok [OF assms(1,3,2)] by simp

definition demo_dp :: memdp where
  "demo_dp = \<lparr>mmaps = [(''rooms.map'', [(''a.fr'', ''x.y''), (''old.fr'', ''x.z''), (''a.fr'', ''dup'')])], mcrts = [],
     mbacks = [], mservers = []\<rparr>"

definition res_ok :: "'a res \<times> 'd \<Rightarrow> bool" where
  "res_ok p = (case fst p of Inl _ \<Rightarrow> False | Inr _ \<Rightarrow> True)"

lemma res_ok_ex: "res_ok p \<Longrightarrow> \<exists>x d. p = (Inr x, d)"
  by (cases p) (auto simp: res_ok_def split: sum.splits)

theorem SyncMap_converges_witness:
  "\<exists>d'. SyncMap mem_dp rev ''rooms.map'' [(''a.fr'', ''t.r''), (''b.fr'', ''t.q'')] demo_dp = (Inr (), d') \<and>
     map_of (ents d' ''rooms.map'') ''a.fr'' = Some ''t.r''"
proof -
  have "res_ok (SyncMap mem_dp rev ''rooms.map'' [(''a.fr'', ''t.r''), (''b.fr'', ''t.q'')] demo_dp)" by code_simp
  from res_ok_ex [OF this] obtain u d' where
    "SyncMap mem_dp rev ''rooms.map'' [(''a.fr'', ''t.r''), (''b.fr'', ''t.q'')] demo_dp = (Inr u, d')" by blast
  then have s: "SyncMap mem_dp rev ''rooms.map'' [(''a.fr'', ''t.r''), (''b.fr'', ''t.q'')] demo_dp = (Inr (), d')" by simp
  from SyncMap_converges [OF mem_edge.map_device_axioms _ s] s show ?thesis by simp
qed

text \<open>\<open>CrtListSync\<close> is idempotent: after a call that returned, the stored list is the wanted
  one up to surrounding blanks, and a second call changes nothing and reports no change, so a
  converged edge is not reloaded.\<close>

theorem CrtListSync_idempotent:
  assumes "edge_device dp mview cview" and "CrtListSync u dp n content d = (Inr b, d')"
    and "CrtListSync u dp n content d' = (Inr b', d'')"
  shows "trim_space u (case cview d' n of None \<Rightarrow> '''' | Some x \<Rightarrow> x) = trim_space u content \<and> \<not> b' \<and> cview d'' = cview d'"
proof -
  note 1 = edge_device.CrtListSync_ok [OF assms(1,2)]
  obtain cur d1 where g: "CrtListGet dp n d' = (Inr cur, d1)"
    using assms(3) by (auto simp: CrtListSync_def split: prod.splits sum.splits)
  note 2 = edge_device.CrtListGet_ok [OF assms(1) g]
  have "trim_space u cur = trim_space u content" using 1 2 by simp
  then show ?thesis using assms(3) g 1 2 by (simp add: CrtListSync_def)
qed

theorem CrtListSync_idempotent_witness:
  "\<exists>b d' d''. CrtListSync id mem_dp ''app.crt-list'' ''x.pem a.fr'' demo_dp = (Inr b, d') \<and>
     CrtListSync id mem_dp ''app.crt-list'' ''x.pem a.fr'' d' = (Inr False, d'')"
proof -
  have ok: "res_ok (CrtListSync id mem_dp ''app.crt-list'' ''x.pem a.fr'' d)" for d
    by (auto simp: res_ok_def CrtListSync_def CrtListGet_def do_req_def do_unit_def IsStatus_def split: option.split)
  obtain b d' where 1: "CrtListSync id mem_dp ''app.crt-list'' ''x.pem a.fr'' demo_dp = (Inr b, d')"
    using res_ok_ex [OF ok] by blast
  obtain b' d'' where 2: "CrtListSync id mem_dp ''app.crt-list'' ''x.pem a.fr'' d' = (Inr b', d'')"
    using res_ok_ex [OF ok] by blast
  from CrtListSync_idempotent [OF mem_edge.edge_device_axioms 1 2] 1 2 show ?thesis by auto
qed

end
