(* ===== verification/Queue_Client.thy ===== *)
theory Queue_Client
  imports Flyc_Prelude
begin

text \<open>
  control/internal/queueclient/queueclient.go: the client by which flyc-control configures the
  waiting rooms of flyc-queue. The network is an argument \<open>http\<close>, from its state and a request to
  an answer and the next state; a host is its base URL.
\<close>

section \<open>Data\<close>

record Queue_client =
  Token :: string
  hosts :: "string list"

record RoomConfig =
  CState :: string
  CRate :: rat
  CMaxActive :: int
  CWaveSec :: int
  CPassTTLS :: int
  CDomains :: "string list"
  COpensAt :: int
  CTitle :: string
  CTheme :: "(string \<times> string) list"

record hreq =
  Meth :: string
  Url :: string
  Bearer :: "string option"
  HBody :: "jv option"

datatype hans = HLost | HAns int string

type_synonym 'w network = "'w \<Rightarrow> hreq \<Rightarrow> hans \<times> 'w"

section \<open>Hosts\<close>

definition SetHosts :: "string list \<Rightarrow> Queue_client \<Rightarrow> Queue_client" where
  "SetHosts hs c = c\<lparr>hosts := hs\<rparr>"

definition Hosts :: "Queue_client \<Rightarrow> string list" where
  "Hosts c = hosts c"

definition New_queue_client :: "string list \<Rightarrow> string \<Rightarrow> Queue_client" where
  "New_queue_client hs t = \<lparr>Token = t, hosts = hs\<rparr>"

definition parse_host :: "(string \<Rightarrow> string) \<Rightarrow> string \<Rightarrow> string list" where
  "parse_host u x = (let part = trim_space u x in
     if part = [] then []
     else let addr = (case cut (CHR ''='') part of Some (_, a) \<Rightarrow> a | None \<Rightarrow> part)
          in [if prefix ''http'' addr then addr else ''http://'' @ addr])"

definition ParseHosts :: "(string \<Rightarrow> string) \<Rightarrow> string \<Rightarrow> string list" where
  "ParseHosts u s = concat (map (parse_host u) (split_on (CHR '','') s))"

section \<open>Requests\<close>

text \<open>\<open>json.Marshal\<close> of a \<open>RoomConfig\<close>: a nil list is \<open>null\<close>, an empty theme is left out, the keys of
  a map are sorted.\<close>

definition cfg_json :: "RoomConfig \<Rightarrow> jv" where
  "cfg_json c = JObj ([(''state'', JStr (CState c)), (''rate'', JNum (CRate c)), (''max_active'', JInt (CMaxActive c)),
     (''wave_s'', JInt (CWaveSec c)), (''pass_ttl_s'', JInt (CPassTTLS c)),
     (''domains'', if CDomains c = [] then JNull else JArr (map JStr (CDomains c))),
     (''opens_at'', JInt (COpensAt c)), (''title'', JStr (CTitle c))] @
     (if CTheme c = [] then []
      else [(''theme'', JObj (map (\<lambda>(k, v). (k, JStr v)) (sort_key fst (CTheme c))))]))"

fun put_hosts :: "'w network \<Rightarrow> string \<Rightarrow> string \<Rightarrow> jv \<Rightarrow> err option \<Rightarrow> string list \<Rightarrow> 'w \<Rightarrow> unit res \<times> 'w" where
  "put_hosts http tok i b prev_err [] w =
     (Inl (case prev_err of None \<Rightarrow> EInvalid ''no host'' | Some e \<Rightarrow> e), w)"
| "put_hosts http tok i b prev_err (h # hs) w =
     (case http w \<lparr>Meth = ''PUT'', Url = h @ ''/internal/rooms/'' @ i, Bearer = Some tok, HBody = Some b\<rparr> of
        (HLost, w1) \<Rightarrow> put_hosts http tok i b (Some ENet) hs w1
      | (HAns st d, w1) \<Rightarrow>
          if st = 200 then (Inr (), w1) else put_hosts http tok i b (Some (EApi st)) hs w1)"

definition PutRoom :: "'w network \<Rightarrow> Queue_client \<Rightarrow> string \<Rightarrow> RoomConfig \<Rightarrow> 'w \<Rightarrow> unit res \<times> 'w" where
  "PutRoom http c i cfg w = put_hosts http (Token c) i (cfg_json cfg) None (Hosts c) w"

text \<open>Without a host, Go returns status 0 and a nil error.\<close>

fun call_hosts :: "'w network \<Rightarrow> string \<Rightarrow> string \<Rightarrow> string \<Rightarrow> err option \<Rightarrow> string list \<Rightarrow> 'w \<Rightarrow> (int \<times> string) res \<times> 'w" where
  "call_hosts http tok meth path prev_err [] w =
     ((case prev_err of None \<Rightarrow> Inr (0, '''') | Some e \<Rightarrow> Inl e), w)"
| "call_hosts http tok meth path prev_err (h # hs) w =
     (case http w \<lparr>Meth = meth, Url = h @ path, Bearer = Some tok, HBody = None\<rparr> of
        (HLost, w1) \<Rightarrow> call_hosts http tok meth path (Some ENet) hs w1
      | (HAns st d, w1) \<Rightarrow> (Inr (st, d), w1))"

definition Call :: "'w network \<Rightarrow> Queue_client \<Rightarrow> string \<Rightarrow> string \<Rightarrow> 'w \<Rightarrow> (int \<times> string) res \<times> 'w" where
  "Call http c meth path w = call_hosts http (Token c) meth path None (Hosts c) w"

definition Healthy :: "'w network \<Rightarrow> string \<Rightarrow> 'w \<Rightarrow> unit res \<times> 'w" where
  "Healthy http host w = (case http w \<lparr>Meth = ''GET'', Url = host @ ''/healthz'', Bearer = None, HBody = None\<rparr> of
     (HLost, w1) \<Rightarrow> (Inl ENet, w1)
   | (HAns st _, w1) \<Rightarrow> (if st \<noteq> 200 then (Inl (EApi st), w1) else (Inr (), w1)))"

section \<open>Laws\<close>

text \<open>A room is configured exactly when one host answers 200; the hosts behind it are not asked.\<close>

lemma put_hosts_first:
  "(\<And>w. http w \<lparr>Meth = ''PUT'', Url = h @ ''/internal/rooms/'' @ i, Bearer = Some tok, HBody = Some b\<rparr> = (HAns 200 d, w)) \<Longrightarrow>
   put_hosts http tok i b prev_err (h # hs) w = (Inr (), w)"
  by simp

lemma put_hosts_Inr:
  "put_hosts http tok i b prev_err hs w = (Inr u, w') \<Longrightarrow>
   \<exists>h \<in> set hs. \<exists>w0 d. http w0 \<lparr>Meth = ''PUT'', Url = h @ ''/internal/rooms/'' @ i, Bearer = Some tok, HBody = Some b\<rparr> =
     (HAns 200 d, w')"
proof (induction hs arbitrary: w prev_err)
  case (Cons h hs)
  obtain a w1 where h: "http w \<lparr>Meth = ''PUT'', Url = h @ ''/internal/rooms/'' @ i, Bearer = Some tok, HBody = Some b\<rparr> = (a, w1)"
    by fastforce
  show ?case
  proof (cases a)
    case HLost
    then show ?thesis using Cons h by simp
  next
    case (HAns st d)
    then show ?thesis using Cons h by (cases "st = 200") (simp_all, blast)
  qed
qed simp

lemma put_hosts_down:
  "(\<And>w rq. fst (http w rq) = HLost) \<Longrightarrow> fst (put_hosts http tok i b prev_err hs w) \<noteq> Inr ()"
proof (induction hs arbitrary: w prev_err)
  case (Cons h hs)
  obtain a w1 where h: "http w \<lparr>Meth = ''PUT'', Url = h @ ''/internal/rooms/'' @ i, Bearer = Some tok, HBody = Some b\<rparr> = (a, w1)"
    by fastforce
  then have "a = HLost" using Cons.prems by (metis fst_conv)
  then show ?case using Cons h by simp
qed simp

lemma parse_host_http: "h \<in> set (ParseHosts u s) \<Longrightarrow> prefix ''http'' h"
  by (auto simp: ParseHosts_def parse_host_def Let_def split: if_splits option.splits)

end
