(* ===== verification/Compile_State.thy ===== *)
theory Compile_State
  imports Dataplane Queue_Client
begin

text \<open>
  control/internal/compile/compile.go: the state every load balancer should have, built from the
  tables of Postgres. The tables are lists of records and a query is written out as its joins,
  filter and order; \<open>coll\<close> is the collation of the database, as a sort key. A query can be
  refused, and the connection can break after some rows; \<open>rows.Next\<close> then returns false and
  nobody reads \<open>rows.Err\<close>, so the rows read so far stand for the whole answer.
\<close>

section \<open>Tables\<close>

record tenant_row =
  t_id :: nat
  t_slug :: string
  t_name :: string
  t_created :: int

record backend_row =
  b_id :: nat
  b_tenant :: nat
  b_name :: string
  b_balance :: string
  b_check :: string

record server_row =
  s_backend :: nat
  s_name :: string
  s_address :: string
  s_port :: int
  s_weight :: int
  s_maxconn :: int

record domain_row =
  d_id :: nat
  d_fqdn :: string
  d_mode :: string
  d_tenant :: nat
  d_tls :: string
  d_created :: int

text \<open>The theme is a JSON value; \<open>None\<close> stands for one that is not an object of strings, which
  \<open>Scan\<close> refuses.\<close>

record room_row =
  r_id :: nat
  r_tenant :: nat
  r_slug :: string
  r_title :: string
  r_domain :: "nat option"
  r_backend :: "nat option"
  r_state :: string
  r_effective :: string
  r_rate :: rat
  r_max_active :: int
  r_wave_s :: int
  r_pass_ttl_s :: int
  r_opens_at :: "int option"
  r_theme :: "(string \<times> string) list option"
  r_auto_on :: int
  r_auto_off :: int
  r_updated :: int

record cert_row =
  c_fqdn :: string
  c_status :: string
  c_pem_enc :: "string option"
  c_issuer :: "string option"
  c_not_before :: "int option"
  c_not_after :: "int option"
  c_last_error :: "string option"
  c_last_attempt :: "int option"

record key_row =
  k_public :: string
  k_active :: bool
  k_created :: int
  k_retired :: "int option"
  k_kid :: string
  k_private :: string

record tables =
  tenants :: "tenant_row list"
  backends :: "backend_row list"
  servers :: "server_row list"
  domains :: "domain_row list"
  rooms_t :: "room_row list"
  certificates :: "cert_row list"
  signing_keys :: "key_row list"

datatype query = QBackends | QServers nat | QRooms | QCerts | QKeys

datatype delivery = Refused | Broken nat | Full

type_synonym conn = "query \<Rightarrow> delivery"

definition read_rows :: "conn \<Rightarrow> query \<Rightarrow> 'r list \<Rightarrow> 'r list res" where
  "read_rows c q rs = (case c q of Refused \<Rightarrow> Inl EDb | Broken n \<Rightarrow> Inr (take n rs) | Full \<Rightarrow> Inr rs)"

definition find_by :: "('r \<Rightarrow> nat) \<Rightarrow> nat \<Rightarrow> 'r list \<Rightarrow> 'r option" where
  "find_by f i rs = find (\<lambda>r. f r = i) rs"

section \<open>The desired state\<close>

record BackendSpec =
  SpecName :: string
  SpecBalance :: string
  CheckPath :: string
  SpecServers :: "Server list"

record CertSpec =
  FQDN :: string
  CHash :: string
  PEM :: string

record Desired =
  Backends_d :: "BackendSpec list"
  Rooms_d :: entries
  Backend_d :: entries
  States_d :: entries
  Certs_d :: "CertSpec list"
  PassPub :: string
  PassPrevPub :: string
  Hash :: string
  Queue_d :: "(string \<times> RoomConfig) list"

definition BackendName :: "string \<Rightarrow> string \<Rightarrow> string" where
  "BackendName tenant name =
     ''bk_'' @ replace_char (CHR ''-'') (CHR ''_'') tenant @ ''__'' @ replace_char (CHR ''-'') (CHR ''_'') name"

definition sortEntries :: "entries \<Rightarrow> entries" where
  "sortEntries e = sort_key fst e"

text \<open>\<open>json.Marshal\<close> of what \<open>hashOf\<close> keeps; a nil slice is \<open>null\<close>.\<close>

definition jlist :: "('x \<Rightarrow> jv) \<Rightarrow> 'x list \<Rightarrow> jv" where
  "jlist f xs = (if xs = [] then JNull else JArr (map f xs))"

definition entry_json :: "string \<times> string \<Rightarrow> jv" where
  "entry_json e = JObj [(''key'', JStr (fst e)), (''value'', JStr (snd e))]"

definition opt_field :: "string \<Rightarrow> int option \<Rightarrow> (string \<times> jv) list" where
  "opt_field k x = (case x of None \<Rightarrow> [] | Some i \<Rightarrow> [(k, JInt i)])"

definition str_field :: "string \<Rightarrow> string \<Rightarrow> (string \<times> jv) list" where
  "str_field k x = (if x = [] then [] else [(k, JStr x)])"

definition server_json :: "Server \<Rightarrow> jv" where
  "server_json s = JObj ([(''name'', JStr (SName s)), (''address'', JStr (Address s)), (''port'', JInt (Port s))] @
     opt_field ''weight'' (Weight s) @ opt_field ''maxconn'' (Maxconn s) @ str_field ''check'' (SCheck s))"

definition spec_json :: "BackendSpec \<Rightarrow> jv" where
  "spec_json b = JObj [(''Name'', JStr (SpecName b)), (''Balance'', JStr (SpecBalance b)),
     (''CheckPath'', JStr (CheckPath b)), (''Servers'', jlist server_json (SpecServers b))]"

definition light :: "Desired \<Rightarrow> jv" where
  "light d = JObj [(''B'', jlist spec_json (Backends_d d)), (''R'', jlist entry_json (Rooms_d d)),
     (''K'', jlist entry_json (Backend_d d)), (''S'', jlist entry_json (States_d d)),
     (''C'', jlist JStr (map (\<lambda>c. FQDN c @ '':'' @ CHash c) (Certs_d d) @
        [''key:'' @ PassPub d, ''prev:'' @ PassPrevPub d]))]"

definition hashOf :: "(string \<Rightarrow> string) \<Rightarrow> (jv \<Rightarrow> string) \<Rightarrow> Desired \<Rightarrow> string" where
  "hashOf sha json d = hex (sha (json (light d)))"

section \<open>Build\<close>

definition tenant_slug :: "tables \<Rightarrow> nat \<Rightarrow> string option" where
  "tenant_slug db t = map_option t_slug (find_by t_id t (tenants db))"

text \<open>The first query: each backend joined with its tenant, in the order of both names.\<close>

definition backend_query :: "(string \<Rightarrow> 'k::linorder) \<Rightarrow> tables \<Rightarrow> (nat \<times> string \<times> backend_row) list" where
  "backend_query coll db = sort_key (\<lambda>(i, t, b). coll t) (sort_key (\<lambda>(i, t, b). coll (b_name b))
     (List.map_filter (\<lambda>b. map_option (\<lambda>t. (b_id b, t, b)) (tenant_slug db (b_tenant b))) (backends db)))"

definition server_of :: "server_row \<Rightarrow> Server" where
  "server_of s = \<lparr>SName = s_name s, Address = s_address s, Port = s_port s, Weight = Some (s_weight s),
     Maxconn = (if 0 < s_maxconn s then Some (s_maxconn s) else None), SCheck = ''enabled''\<rparr>"

fun build_backends :: "(string \<Rightarrow> 'k::linorder) \<Rightarrow> conn \<Rightarrow> tables \<Rightarrow> (nat \<times> string \<times> backend_row) list \<Rightarrow> BackendSpec list res" where
  "build_backends coll c db [] = Inr []"
| "build_backends coll c db ((i, t, b) # bks) =
     (case read_rows c (QServers i) (sort_key (\<lambda>s. coll (s_name s)) (filter (\<lambda>s. s_backend s = i) (servers db))) of
        Inl e \<Rightarrow> Inl e
      | Inr ss \<Rightarrow> (case build_backends coll c db bks of
          Inl e \<Rightarrow> Inl e
        | Inr bs \<Rightarrow> Inr (\<lparr>SpecName = BackendName t (b_name b), SpecBalance = b_balance b, CheckPath = b_check b,
                         SpecServers = map server_of ss\<rparr> # bs)))"

text \<open>A row of the second query: the room, the slug of its tenant, and what the left joins found of
  its domain, of its backend and of the tenant of its backend.\<close>

type_synonym room_join = "room_row \<times> string \<times> domain_row option \<times> backend_row option \<times> string option"

definition room_query :: "(string \<Rightarrow> 'k::linorder) \<Rightarrow> tables \<Rightarrow> room_join list" where
  "room_query coll db = sort_key (\<lambda>(r, t, x). coll t) (sort_key (\<lambda>(r, t, x). coll (r_slug r))
     (List.map_filter (\<lambda>r. map_option (\<lambda>t.
        (let b = (case r_backend r of None \<Rightarrow> None | Some i \<Rightarrow> find_by b_id i (backends db))
         in (r, t, case r_domain r of None \<Rightarrow> None | Some i \<Rightarrow> find_by d_id i (domains db), b,
             case b of None \<Rightarrow> None | Some b \<Rightarrow> tenant_slug db (b_tenant b))))
        (tenant_slug db (r_tenant r))) (rooms_t db)))"

definition room_config :: "room_join \<Rightarrow> (string \<times> string) list \<Rightarrow> RoomConfig" where
  "room_config j th = (case j of (r, t, dm, b, bt) \<Rightarrow>
     \<lparr>CState = r_effective r, CRate = r_rate r, CMaxActive = r_max_active r, CWaveSec = r_wave_s r,
      CPassTTLS = r_pass_ttl_s r, CDomains = (case dm of None \<Rightarrow> [] | Some x \<Rightarrow> [d_fqdn x]),
      COpensAt = (case r_opens_at r of None \<Rightarrow> 0 | Some o' \<Rightarrow> o'), CTitle = r_title r, CTheme = th\<rparr>)"

text \<open>The maps only name the domains the load balancer serves: those in mode \<open>dns\<close>.\<close>

definition room_maps :: "room_join \<Rightarrow> Desired \<Rightarrow> Desired" where
  "room_maps j d = (case j of (r, t, dm, b, bt) \<Rightarrow>
     (let rid = t @ ''.'' @ r_slug r in
      case dm of None \<Rightarrow> d
      | Some x \<Rightarrow> (if d_mode x = ''dns''
          then d\<lparr>Rooms_d := Rooms_d d @ [(d_fqdn x, rid)], States_d := States_d d @ [(rid, r_effective r)],
                 Backend_d := Backend_d d @ (case (b, bt) of
                    (Some bk, Some bts) \<Rightarrow> [(d_fqdn x, BackendName bts (b_name bk))] | _ \<Rightarrow> [])\<rparr>
          else d)))"

fun build_rooms :: "room_join list \<Rightarrow> Desired \<Rightarrow> Desired res" where
  "build_rooms [] d = Inr d"
| "build_rooms (j # js) d = (case r_theme (fst j) of
     None \<Rightarrow> Inl (EInvalid ''theme'')
   | Some th \<Rightarrow> build_rooms js ((room_maps j d)\<lparr>Queue_d :=
        AList.update (fst (snd j) @ ''.'' @ r_slug (fst j)) (room_config j th) (Queue_d d)\<rparr>))"

definition build_certs :: "(string \<Rightarrow> string) \<Rightarrow> (string \<Rightarrow> string option) \<Rightarrow> cert_row list \<Rightarrow> CertSpec list" where
  "build_certs sha decrypt cs = List.map_filter (\<lambda>c.
     case c_pem_enc c of None \<Rightarrow> None
     | Some enc \<Rightarrow> map_option (\<lambda>pem. \<lparr>FQDN = c_fqdn c, CHash = hex (sha pem), PEM = pem\<rparr>) (decrypt enc)) cs"

definition cert_query :: "(string \<Rightarrow> 'k::linorder) \<Rightarrow> tables \<Rightarrow> cert_row list" where
  "cert_query coll db = sort_key (\<lambda>c. coll (c_fqdn c))
     (filter (\<lambda>c. c_status c = ''issued'' \<and> c_pem_enc c \<noteq> None) (certificates db))"

text \<open>\<open>order by active desc, created_at desc limit 2\<close> of the keys that are active or were retired
  less than 24 hours ago.\<close>

definition key_query :: "int \<Rightarrow> tables \<Rightarrow> key_row list" where
  "key_query now db = take 2 (sort_key (\<lambda>k. \<not> k_active k) (sort_key (\<lambda>k. - k_created k)
     (filter (\<lambda>k. k_active k \<or> (case k_retired k of None \<Rightarrow> False | Some t \<Rightarrow> now - 24 * 3600 < t)) (signing_keys db))))"

fun pick_keys :: "key_row list \<Rightarrow> string \<times> string \<Rightarrow> string \<times> string" where
  "pick_keys [] pp = pp"
| "pick_keys (k # ks) (pub, prev) =
     pick_keys ks (if k_active k \<and> pub = [] then (k_public k, prev)
                   else if \<not> k_active k \<and> prev = [] then (pub, k_public k) else (pub, prev))"

definition empty_desired :: Desired where
  "empty_desired = \<lparr>Backends_d = [], Rooms_d = [], Backend_d = [], States_d = [], Certs_d = [], PassPub = [],
     PassPrevPub = [], Hash = [], Queue_d = []\<rparr>"

definition finish_build :: "(string \<Rightarrow> string) \<Rightarrow> (jv \<Rightarrow> string) \<Rightarrow> key_row list \<Rightarrow> Desired \<Rightarrow> Desired" where
  "finish_build sha json ks d =
    (let (pub, prev) = pick_keys ks ([], []);
         d1 = d\<lparr>PassPub := pub, PassPrevPub := (if prev = [] then pub else prev), Rooms_d := sortEntries (Rooms_d d),
                Backend_d := sortEntries (Backend_d d), States_d := sortEntries (States_d d)\<rparr>
     in d1\<lparr>Hash := hashOf sha json d1\<rparr>)"

definition Build :: "(string \<Rightarrow> 'k::linorder) \<Rightarrow> (string \<Rightarrow> string) \<Rightarrow> (jv \<Rightarrow> string) \<Rightarrow> (string \<Rightarrow> string option) \<Rightarrow>
    int \<Rightarrow> conn \<Rightarrow> tables \<Rightarrow> Desired res" where
  "Build coll sha json decrypt now c db =
    (case read_rows c QBackends (backend_query coll db) of Inl e \<Rightarrow> Inl e | Inr bks \<Rightarrow>
     case build_backends coll c db bks of Inl e \<Rightarrow> Inl e | Inr specs \<Rightarrow>
     case read_rows c QRooms (room_query coll db) of Inl e \<Rightarrow> Inl e | Inr js \<Rightarrow>
     case build_rooms js (empty_desired\<lparr>Backends_d := specs\<rparr>) of Inl e \<Rightarrow> Inl e | Inr d1 \<Rightarrow>
     case read_rows c QCerts (cert_query coll db) of Inl e \<Rightarrow> Inl e | Inr cs \<Rightarrow>
     case read_rows c QKeys (key_query now db) of Inl e \<Rightarrow> Inl e | Inr ks \<Rightarrow>
       Inr (finish_build sha json ks (d1\<lparr>Certs_d := build_certs sha decrypt cs\<rparr>)))"

section \<open>Names\<close>

lemma first_dunder:
  assumes "x @ ''__'' @ y = x' @ ''__'' @ y'"
    and "\<not> sublist ''__'' x" "\<not> suffix ''_'' x" "\<not> sublist ''__'' x'" "\<not> suffix ''_'' x'"
  shows "x = x' \<and> y = y'"
proof -
  have no: False if e: "us @ ''__'' @ v = ''__'' @ w" and ne: "us \<noteq> []"
      and s: "\<not> sublist ''__'' (z @ us)" "\<not> suffix ''_'' (z @ us)" for us v w z
  proof (cases us rule: remdups_adj.cases)
    case (2 a)
    then have "us = ''_''" using e by simp
    then show False using s(2) by (simp add: suffix_def)
  next
    case (3 a b r)
    then have "us = ''__'' @ r" using e by simp
    then show False using s(1) by (auto simp: sublist_def)
  qed (use ne in simp)
  from assms(1) obtain us where "x = x' @ us \<and> us @ ''__'' @ y = ''__'' @ y' \<or> x @ us = x' \<and> ''__'' @ y = us @ ''__'' @ y'"
    by (auto simp: append_eq_append_conv2)
  then have "us = []" using no [of us y y' x'] no [of us y' y x] assms(2-5) by metis
  with \<open>x = x' @ us \<and> _ \<or> _\<close> show ?thesis by auto
qed

lemma replace_dash_inj:
  "replace_char (CHR ''-'') (CHR ''_'') s = replace_char (CHR ''-'') (CHR ''_'') s' \<Longrightarrow>
   CHR ''_'' \<notin> set s \<Longrightarrow> CHR ''_'' \<notin> set s' \<Longrightarrow> s = s'"
  unfolding replace_char_def by (subst (asm) inj_on_map_eq_map) (auto simp: inj_on_def split: if_splits)

lemma sublist_map_ex: "sublist ys (map f s) \<Longrightarrow> \<exists>zs. sublist zs s \<and> map f zs = ys"
  unfolding sublist_def map_eq_append_conv append_eq_map_conv by metis

lemma suffix_map_ex: "suffix ys (map f s) \<Longrightarrow> \<exists>zs. suffix zs s \<and> map f zs = ys"
  unfolding suffix_def map_eq_append_conv append_eq_map_conv by metis

definition tidy :: "string \<Rightarrow> bool" where
  "tidy s \<longleftrightarrow> CHR ''_'' \<notin> set s \<and> \<not> sublist ''--'' s \<and> \<not> suffix ''-'' s"

lemma tidy_replace:
  assumes "tidy s"
  shows "\<not> sublist ''__'' (replace_char (CHR ''-'') (CHR ''_'') s) \<and> \<not> suffix ''_'' (replace_char (CHR ''-'') (CHR ''_'') s)"
proof -
  let ?f = "\<lambda>x. if x = CHR ''-'' then CHR ''_'' else x"
  have sub: "CHR ''_'' \<notin> set zs" if "sublist zs s" for zs using assms that by (auto simp: tidy_def sublist_def)
  have "\<not> sublist ''__'' (map ?f s)"
  proof
    assume "sublist ''__'' (map ?f s)"
    from sublist_map_ex [OF this] obtain zs where z: "sublist zs s" "map ?f zs = ''__''" by (elim exE conjE)
    then obtain a b where ab: "zs = [a, b]" by auto
    then have "a \<noteq> CHR ''_'' \<and> b \<noteq> CHR ''_''" using sub [OF z(1)] by auto
    then show False using z ab assms by (auto simp: tidy_def split: if_splits)
  qed
  moreover have "\<not> suffix ''_'' (map ?f s)"
  proof
    assume "suffix ''_'' (map ?f s)"
    from suffix_map_ex [OF this] obtain zs where z: "suffix zs s" "map ?f zs = ''_''" by (elim exE conjE)
    then obtain a where a: "zs = [a]" by auto
    then have "a \<noteq> CHR ''_''" using sub z(1) by (force dest: suffix_imp_sublist)
    then show False using z a assms by (auto simp: tidy_def split: if_splits)
  qed
  ultimately show ?thesis by (simp add: replace_char_def)
qed

section \<open>What Build promises\<close>

lemma read_Full [simp]: "c q = Full \<Longrightarrow> read_rows c q rs = Inr rs"
  by (simp add: read_rows_def)

lemma build_backends_names:
  "build_backends coll c db bks = Inr bs \<Longrightarrow> map SpecName bs = map (\<lambda>(i, t, b). BackendName t (b_name b)) bks"
  by (induction bks arbitrary: bs) (auto split: sum.splits)

lemma backend_query_mem:
  "b \<in> set (backends db) \<Longrightarrow> tenant_slug db (b_tenant b) = Some t \<Longrightarrow> (b_id b, t, b) \<in> set (backend_query coll db)"
  by (force simp: backend_query_def List.map_filter_def)

lemma find_by_mem: "find_by f i rs = Some x \<Longrightarrow> x \<in> set rs \<and> f x = i"
  by (auto simp: find_by_def find_Some_iff)

lemma set_map_filter: "set (List.map_filter f xs) = {y. \<exists>x \<in> set xs. f x = Some y}"
  by (force simp: List.map_filter_def)

lemma room_query_mem:
  "(r, t, dm, b, bt) \<in> set (room_query coll db) \<Longrightarrow>
   (\<forall>x. b = Some x \<longrightarrow> x \<in> set (backends db) \<and> bt = tenant_slug db (b_tenant x))"
  by (auto simp: room_query_def set_map_filter Let_def dest: find_by_mem split: option.splits)

text \<open>What the rows added so far hold together: every list only names what the others know.\<close>

definition linked :: "string set \<Rightarrow> Desired \<Rightarrow> bool" where
  "linked N d \<longleftrightarrow> snd ` set (Backend_d d) \<subseteq> N \<and> fst ` set (Backend_d d) \<subseteq> fst ` set (Rooms_d d) \<and>
     snd ` set (Rooms_d d) \<subseteq> fst ` set (States_d d) \<and> fst ` set (States_d d) \<subseteq> fst ` set (Queue_d d)"

lemma room_maps_other [simp]:
  "Queue_d (room_maps j d) = Queue_d d" "Backends_d (room_maps j d) = Backends_d d" "Certs_d (room_maps j d) = Certs_d d"
  by (auto simp: room_maps_def Let_def split: prod.split option.split)

lemma build_rooms_linked:
  "build_rooms js d = Inr d' \<Longrightarrow> linked N d \<Longrightarrow>
   (\<forall>j \<in> set js. case j of (r, t, dm, Some b, Some bt) \<Rightarrow> BackendName bt (b_name b) \<in> N | _ \<Rightarrow> True) \<Longrightarrow>
   linked N d' \<and> Backends_d d' = Backends_d d"
proof (induction js arbitrary: d)
  case (Cons j js)
  obtain r t dm b bt where j: "j = (r, t, dm, b, bt)" by (cases j)
  obtain th where th: "r_theme r = Some th" using Cons.prems(1) j by (auto split: option.splits)
  let ?d = "(room_maps j d)\<lparr>Queue_d := AList.update (t @ ''.'' @ r_slug r) (room_config j th) (Queue_d d)\<rparr>"
  have "linked N ?d" using Cons.prems(2,3) j
    by (auto simp: linked_def room_maps_def Let_def dom_update split: option.splits)
  then show ?case using Cons.IH [of ?d] Cons.prems j th by simp
qed simp

lemma set_sortEntries [simp]: "set (sortEntries e) = set e"
  by (simp add: sortEntries_def)

lemma sorted_sortEntries: "sorted (map fst (sortEntries e))"
  by (simp add: sortEntries_def)

lemma finish_linked: "linked N (finish_build sha json ks d) \<longleftrightarrow> linked N d"
  by (simp add: finish_build_def linked_def Let_def split: prod.split)

lemma finish_fields:
  "Backends_d (finish_build sha json ks d) = Backends_d d" "Certs_d (finish_build sha json ks d) = Certs_d d"
  "Rooms_d (finish_build sha json ks d) = sortEntries (Rooms_d d)" "Backend_d (finish_build sha json ks d) = sortEntries (Backend_d d)"
  "States_d (finish_build sha json ks d) = sortEntries (States_d d)"
  by (simp_all add: finish_build_def Let_def split: prod.split)

lemma Build_linked:
  assumes full: "\<And>q. c q = Full" and b: "Build coll sha json decrypt now c db = Inr d"
  shows "linked (SpecName ` set (Backends_d d)) d"
proof -
  obtain specs where s: "build_backends coll c db (backend_query coll db) = Inr specs"
    using b full by (auto simp: Build_def split: sum.splits)
  obtain d1 where d1: "build_rooms (room_query coll db) (empty_desired\<lparr>Backends_d := specs\<rparr>) = Inr d1"
    using b full s by (auto simp: Build_def split: sum.splits)
  have d: "d = finish_build sha json (key_query now db) (d1\<lparr>Certs_d := build_certs sha decrypt (cert_query coll db)\<rparr>)"
    using b full s d1 by (simp add: Build_def)
  let ?N = "SpecName ` set specs"
  have N: "?N = set (map (\<lambda>(i, t, b). BackendName t (b_name b)) (backend_query coll db))"
    using build_backends_names [OF s] by (metis set_map)
  have known: "BackendName bt (b_name b) \<in> ?N" if "(r, t, dm, Some b, Some bt) \<in> set (room_query coll db)" for r t dm b bt
  proof -
    have "b \<in> set (backends db)" "tenant_slug db (b_tenant b) = Some bt" using room_query_mem [OF that] by auto
    then show ?thesis unfolding N by (force dest: backend_query_mem [where coll = coll])
  qed
  have "linked ?N (empty_desired\<lparr>Backends_d := specs\<rparr>)" by (simp add: linked_def empty_desired_def)
  moreover have "\<forall>j \<in> set (room_query coll db).
      case j of (r, t, dm, Some b, Some bt) \<Rightarrow> BackendName bt (b_name b) \<in> ?N | _ \<Rightarrow> True"
    using known by (auto split: option.split)
  ultimately have "linked ?N d1 \<and> Backends_d d1 = specs"
    using build_rooms_linked [OF d1, of ?N] by simp
  then show ?thesis by (simp add: d finish_linked finish_fields) (simp add: linked_def)
qed

lemma Build_sorted:
  "Build coll sha json decrypt now c db = Inr d \<Longrightarrow>
   sorted (map fst (Rooms_d d)) \<and> sorted (map fst (Backend_d d)) \<and> sorted (map fst (States_d d))"
  by (auto simp: Build_def finish_fields sorted_sortEntries split: sum.splits)

section \<open>The hash\<close>

lemma jlist_inj: "(\<And>x y. f x = f y \<Longrightarrow> x = y) \<Longrightarrow> jlist f xs = jlist f ys \<Longrightarrow> xs = ys"
  by (auto simp: jlist_def split: if_splits) (metis inj_def inj_map_eq_map)

lemma server_json_inj: "server_json s = server_json s' \<Longrightarrow> s = s'"
  by (auto simp: server_json_def opt_field_def str_field_def split: option.splits if_splits)

lemma spec_json_inj: "spec_json b = spec_json b' \<Longrightarrow> b = b'"
  using jlist_inj [of server_json "SpecServers b" "SpecServers b'"] server_json_inj
  by (cases b; cases b') (auto simp: spec_json_def)

lemma entry_json_inj: "entry_json e = entry_json e' \<Longrightarrow> e = e'"
  by (auto simp: entry_json_def prod_eq_iff)

lemma hex_inj: "hex x = hex y \<Longrightarrow> x = y"
proof (induction x arbitrary: y)
  case Nil
  then show ?case by (cases y) (simp_all add: hex_def)
next
  case (Cons a x)
  then obtain b y' where y: "y = b # y'" by (cases y) (auto simp: hex_def)
  have lt: "(of_char c :: nat) div 16 < 16" for c :: char
    using nat_of_char_less_256 [of c] by (intro less_mult_imp_div_less) simp
  have inj: "m = n" if "m < 16" "n < 16" "hex_digit m = hex_digit n" for m n
    using of_char_hex_digit [OF that(1)] of_char_hex_digit [OF that(2)] that(1,2) unfolding that(3)
    by (simp split: if_splits)
  have e: "hex_digit (of_char a div 16) = hex_digit (of_char b div 16)"
    "hex_digit (of_char a mod 16) = hex_digit (of_char b mod 16)" "hex x = hex y'"
    using Cons.prems by (simp_all add: y hex_def)
  have "(of_char a :: nat) div 16 = of_char b div 16" "(of_char a :: nat) mod 16 = of_char b mod 16"
    using inj e(1,2) lt by auto
  then have "(of_char a :: nat) = of_char b" by (metis div_mult_mod_eq)
  then show ?case using Cons.IH [OF e(3)] y by simp
qed

lemma light_inj:
  assumes "light d = light d'"
  shows "Backends_d d = Backends_d d' \<and> Rooms_d d = Rooms_d d' \<and> Backend_d d = Backend_d d' \<and>
     States_d d = States_d d' \<and> PassPub d = PassPub d' \<and> PassPrevPub d = PassPrevPub d' \<and>
     map (\<lambda>c. FQDN c @ '':'' @ CHash c) (Certs_d d) = map (\<lambda>c. FQDN c @ '':'' @ CHash c) (Certs_d d')"
proof -
  note e = assms [unfolded light_def jv.inject list.inject prod.inject]
  have str: "JStr x = JStr y \<Longrightarrow> x = y" for x y by simp
  have "Backends_d d = Backends_d d'" using e by (intro jlist_inj [of spec_json, OF spec_json_inj]) blast+
  moreover have "Rooms_d d = Rooms_d d'" "Backend_d d = Backend_d d'" "States_d d = States_d d'"
    using e by (blast intro: jlist_inj [of entry_json, OF entry_json_inj])+
  moreover have "map (\<lambda>c. FQDN c @ '':'' @ CHash c) (Certs_d d) @ [''key:'' @ PassPub d, ''prev:'' @ PassPrevPub d] =
      map (\<lambda>c. FQDN c @ '':'' @ CHash c) (Certs_d d') @ [''key:'' @ PassPub d', ''prev:'' @ PassPrevPub d']"
    using e by (intro jlist_inj [of JStr, OF str]) blast+
  ultimately show ?thesis by simp
qed

section \<open>Properties\<close>

text \<open>C34: Backends of different customers never share a HAProxy name, provided that no tenant slug
  holds two dashes in a row or ends with one: the name determines tenant and backend.\<close>

theorem BackendName_injective:
  assumes "tidy t" "tidy t'" and "CHR ''_'' \<notin> set n" "CHR ''_'' \<notin> set n'"
  shows "BackendName t n = BackendName t' n' \<longleftrightarrow> t = t' \<and> n = n'"
proof
  assume "BackendName t n = BackendName t' n'"
  then have "replace_char (CHR ''-'') (CHR ''_'') t @ ''__'' @ replace_char (CHR ''-'') (CHR ''_'') n =
      replace_char (CHR ''-'') (CHR ''_'') t' @ ''__'' @ replace_char (CHR ''-'') (CHR ''_'') n'"
    by (simp add: BackendName_def)
  from first_dunder [OF this] have "replace_char (CHR ''-'') (CHR ''_'') t = replace_char (CHR ''-'') (CHR ''_'') t' \<and>
      replace_char (CHR ''-'') (CHR ''_'') n = replace_char (CHR ''-'') (CHR ''_'') n'"
    using tidy_replace assms(1,2) by blast
  then show "t = t' \<and> n = n'" using replace_dash_inj assms by (auto simp: tidy_def)
qed simp

theorem BackendName_injective_witness:
  "BackendName ''acme'' ''web-1'' \<noteq> BackendName ''acme-shop'' ''web'' \<and> BackendName ''acme-shop'' ''web'' = ''bk_acme_shop__web''"
proof -
  have t: "tidy ''acme''" "tidy ''acme-shop''" by code_simp+
  show ?thesis using BackendName_injective [OF t, of "''web-1''" "''web''"] by (simp add: BackendName_def replace_char_def)
qed

text \<open>The schema allows slugs with two dashes in a row, and then the names do collide.\<close>

theorem BackendName_collides:
  "BackendName ''a1--b'' ''c'' = BackendName ''a1'' ''b--c''"
  by code_simp

text \<open>C35: When every query is answered in full, the desired state is closed: each domain of
  \<open>backends.map\<close> is in \<open>rooms.map\<close> and points to a backend that is created, each room of
  \<open>rooms.map\<close> has a state in \<open>states.map\<close> and a configuration for flyc-queue, and the three maps
  are sorted. (A connection that breaks while rows are read is not noticed, and then the state can lack what it
  refers to: the lemma \<open>Build_hides_a_broken_read\<close>.)\<close>

theorem Build_is_closed:
  assumes "\<And>q. c q = Full" and "Build coll sha json decrypt now c db = Inr d"
  shows "(\<forall>(f, b) \<in> set (Backend_d d). b \<in> SpecName ` set (Backends_d d) \<and> f \<in> fst ` set (Rooms_d d)) \<and>
    (\<forall>(f, r) \<in> set (Rooms_d d). r \<in> fst ` set (States_d d) \<and> r \<in> fst ` set (Queue_d d)) \<and>
    sorted (map fst (Rooms_d d)) \<and> sorted (map fst (Backend_d d)) \<and> sorted (map fst (States_d d))"
  using Build_linked [OF assms] Build_sorted [OF assms(2)]
  by (simp add: linked_def image_subset_iff case_prod_beta) (metis imageE)

definition demo_db :: tables where
  "demo_db = \<lparr>tenants = [\<lparr>t_id = 1, t_slug = ''acme'', t_name = ''Acme'', t_created = 0\<rparr>],
     backends = [\<lparr>b_id = 7, b_tenant = 1, b_name = ''web'', b_balance = ''roundrobin'', b_check = ''/''\<rparr>],
     servers = [\<lparr>s_backend = 7, s_name = ''s1'', s_address = ''10.0.0.1'', s_port = 80, s_weight = 100, s_maxconn = 0\<rparr>],
     domains = [\<lparr>d_id = 3, d_fqdn = ''shop.fr'', d_mode = ''dns'', d_tenant = 1, d_tls = ''auto'', d_created = 0\<rparr>],
     rooms_t = [\<lparr>r_id = 1, r_tenant = 1, r_slug = ''sale'', r_title = ''Sale'', r_domain = Some 3, r_backend = Some 7,
       r_state = ''queue'', r_effective = ''queue'', r_rate = 10, r_max_active = 0, r_wave_s = 30, r_pass_ttl_s = 1200,
       r_opens_at = None, r_theme = Some [], r_auto_on = 0, r_auto_off = 0, r_updated = 0\<rparr>],
     certificates = [], signing_keys = []\<rparr>"

definition demo_build :: "conn \<Rightarrow> Desired res" where
  "demo_build c = Build id id (\<lambda>_. ''h'') Some 0 c demo_db"

lemmas build_eval = demo_build_def demo_db_def Build_def read_rows_def backend_query_def room_query_def tenant_slug_def
  find_by_def room_maps_def cert_query_def key_query_def build_certs_def finish_fields sortEntries_def empty_desired_def
  List.map_filter_simps Let_def

theorem Build_is_closed_witness:
  "\<exists>d. demo_build (\<lambda>_. Full) = Inr d \<and> Backend_d d = [(''shop.fr'', ''bk_acme__web'')] \<and>
     ''bk_acme__web'' \<in> SpecName ` set (Backends_d d)"
proof -
  have "(case demo_build (\<lambda>_. Full) of Inl _ \<Rightarrow> False | Inr d \<Rightarrow> Backend_d d = [(''shop.fr'', BackendName ''acme'' ''web'')])" by (simp add: build_eval)
  moreover have "BackendName ''acme'' ''web'' = ''bk_acme__web''" by code_simp
  ultimately obtain d where d: "demo_build (\<lambda>_. Full) = Inr d" "Backend_d d = [(''shop.fr'', ''bk_acme__web'')]"
    by (cases "demo_build (\<lambda>_. Full)") auto
  from Build_is_closed [OF refl d(1) [unfolded demo_build_def]] d show ?thesis by auto
qed

text \<open>A connection lost while the backends are read is not an error for \<open>Build\<close>: the desired
  state it returns has no backend at all, while \<open>backends.map\<close> still points to one.\<close>

theorem Build_hides_a_broken_read:
  "\<exists>d. demo_build (\<lambda>q. if q = QBackends then Broken 0 else Full) = Inr d \<and> Backends_d d = [] \<and>
     Backend_d d = [(''shop.fr'', ''bk_acme__web'')]"
proof -
  have "(case demo_build (\<lambda>q. if q = QBackends then Broken 0 else Full) of Inl _ \<Rightarrow> False
      | Inr d \<Rightarrow> Backends_d d = [] \<and> Backend_d d = [(''shop.fr'', BackendName ''acme'' ''web'')])" by (simp add: build_eval)
  moreover have "BackendName ''acme'' ''web'' = ''bk_acme__web''" by code_simp
  ultimately show ?thesis by (auto split: sum.splits)
qed

text \<open>The hash is a sound sign of change: if two desired states with different backends, maps,
  keys or certificates have the same hash, then SHA-256 collides on the JSON texts of two different values.\<close>

theorem hash_detects_change:
  assumes "hashOf sha json d = hashOf sha json d'"
    and "Backends_d d \<noteq> Backends_d d' \<or> Rooms_d d \<noteq> Rooms_d d' \<or> Backend_d d \<noteq> Backend_d d' \<or> States_d d \<noteq> States_d d' \<or>
      PassPub d \<noteq> PassPub d' \<or> PassPrevPub d \<noteq> PassPrevPub d' \<or>
      map (\<lambda>c. FQDN c @ '':'' @ CHash c) (Certs_d d) \<noteq> map (\<lambda>c. FQDN c @ '':'' @ CHash c) (Certs_d d')"
  shows "\<exists>v w. v \<noteq> w \<and> sha (json v) = sha (json w)"
  using assms light_inj [of d d'] hex_inj unfolding hashOf_def by blast

theorem hash_detects_change_witness:
  "hashOf (\<lambda>_. ''x'') (\<lambda>_. ''h'') empty_desired = hashOf (\<lambda>_. ''x'') (\<lambda>_. ''h'') (empty_desired\<lparr>PassPub := ''k''\<rparr>) \<and>
   (\<exists>v w :: jv. v \<noteq> w)"
proof -
  have e: "hashOf (\<lambda>_. ''x'') (\<lambda>_. ''h'') empty_desired = hashOf (\<lambda>_. ''x'') (\<lambda>_. ''h'') (empty_desired\<lparr>PassPub := ''k''\<rparr>)"
    by (simp add: hashOf_def)
  from hash_detects_change [OF e] show ?thesis using e by (auto simp: empty_desired_def)
qed

end
