(* ===== verification/Reconcile.thy ===== *)
theory Reconcile
  imports Compile_State
begin

text \<open>
  control/internal/reconcile/reconcile.go: the desired state applied to each load balancer and to
  flyc-queue. \<open>pushEdge\<close> is a sequence of requests to one device; \<open>Once\<close> runs it for all edges and
  records the outcome in Postgres; \<open>RunAuto\<close> switches the rooms in mode \<open>auto\<close>. The order in
  which Go ranges over a map is the argument \<open>perm\<close>; logs are left out.
\<close>

section \<open>One load balancer\<close>

type_synonym pushed = "(string \<times> string) list"

text \<open>Certificates: the files that changed, then the lines of the two lists.\<close>

fun push_certs :: "'d device \<Rightarrow> string \<Rightarrow> string \<Rightarrow> CertSpec list \<Rightarrow> pushed \<Rightarrow> string list \<times> string list \<Rightarrow> 'd \<Rightarrow>
    (string list \<times> string list) res \<times> pushed \<times> 'd" where
  "push_certs dp ssl wh [] ps ll d = (Inr ll, ps, d)"
| "push_certs dp ssl wh (c # cs) ps (app, wt) d =
    (let name = StorageName (FQDN c);
         line = ssl @ ''/'' @ name @ '' '' @ FQDN c;
         ll = (if FQDN c = wh then (app, wt @ [line]) else (app @ [line], wt))
     in if (case map_of ps (FQDN c) of None \<Rightarrow> '''' | Some h \<Rightarrow> h) \<noteq> CHash c
        then (case UpsertCert dp name (PEM c) d of
            (Inl e, d1) \<Rightarrow> (Inl e, ps, d1)
          | (Inr _, d1) \<Rightarrow> push_certs dp ssl wh cs (AList.update (FQDN c) (CHash c) ps) ll d1)
        else push_certs dp ssl wh cs ps ll d)"

fun sync_lists :: "(string \<Rightarrow> string) \<Rightarrow> 'd device \<Rightarrow> (string \<times> string) list \<Rightarrow> 'd \<Rightarrow> unit res \<times> 'd" where
  "sync_lists u dp [] d = (Inr (), d)"
| "sync_lists u dp ((n, content) # ls) d = (case CrtListSync u dp n content d of
     (Inl e, d1) \<Rightarrow> (Inl e, d1) | (Inr _, d1) \<Rightarrow> sync_lists u dp ls d1)"

fun sync_keys :: "(string \<Rightarrow> string) \<Rightarrow> 'd device \<Rightarrow> (string \<times> string) list \<Rightarrow> bool \<Rightarrow> 'd \<Rightarrow> bool res \<times> 'd" where
  "sync_keys u dp [] ch d = (Inr ch, d)"
| "sync_keys u dp ((n, pem) # ks) ch d =
    (if pem = [] then sync_keys u dp ks ch d
     else case GeneralSync u dp n pem d of
       (Inl e, d1) \<Rightarrow> (Inl e, d1) | (Inr c, d1) \<Rightarrow> sync_keys u dp ks (ch \<or> c) d1)"

subsection \<open>Backends, in one transaction\<close>

definition managed :: "string \<Rightarrow> bool" where
  "managed n \<longleftrightarrow> prefix ''bk_'' n \<and> sublist ''__'' n"

fun del_backends :: "'d device \<Rightarrow> string \<Rightarrow> string list \<Rightarrow> string list \<Rightarrow> bool \<Rightarrow> 'd \<Rightarrow> bool res \<times> 'd" where
  "del_backends dp t wanted [] ch d = (Inr ch, d)"
| "del_backends dp t wanted (n # ns) ch d =
    (if n \<in> set wanted then del_backends dp t wanted ns ch d
     else case DeleteBackend dp t n d of
       (Inl e, d1) \<Rightarrow> (Inl e, AbortTx dp t d1) | (Inr _, d1) \<Rightarrow> del_backends dp t wanted ns True d1)"

definition backend_of :: "string \<Rightarrow> BackendSpec \<Rightarrow> Backend" where
  "backend_of n s = \<lparr>BName = n, Mode = ''http'', Balance = SpecBalance s, AdvCheck = ''httpchk'', ChkMethod = ''GET'',
     ChkURI = CheckPath s, DSCheck = ''enabled'', DSInter = 5000, DSRise = 2, DSFall = 3\<rparr>"

fun create_servers :: "'d device \<Rightarrow> string \<Rightarrow> string \<Rightarrow> Server list \<Rightarrow> 'd \<Rightarrow> unit res \<times> 'd" where
  "create_servers dp t b [] d = (Inr (), d)"
| "create_servers dp t b (s # ss) d = (case CreateServer dp t b s d of
     (Inl e, d1) \<Rightarrow> (Inl e, AbortTx dp t d1) | (Inr _, d1) \<Rightarrow> create_servers dp t b ss d1)"

definition server_differs :: "Server \<Rightarrow> Server \<Rightarrow> bool" where
  "server_differs old s \<longleftrightarrow> Address old \<noteq> Address s \<or> Port old \<noteq> Port s \<or>
     (case Weight s of None \<Rightarrow> False | Some w \<Rightarrow> Weight old \<noteq> Some w)"

fun update_servers :: "'d device \<Rightarrow> string \<Rightarrow> string \<Rightarrow> Server list \<Rightarrow> (string \<times> Server) list \<Rightarrow> bool \<Rightarrow> 'd \<Rightarrow>
    (bool \<times> (string \<times> Server) list) res \<times> 'd" where
  "update_servers dp t b [] cur ch d = (Inr (ch, cur), d)"
| "update_servers dp t b (s # ss) cur ch d = (case map_of cur (SName s) of
     None \<Rightarrow> (case CreateServer dp t b s d of
        (Inl e, d1) \<Rightarrow> (Inl e, AbortTx dp t d1)
      | (Inr _, d1) \<Rightarrow> update_servers dp t b ss (AList.delete (SName s) cur) True d1)
   | Some old \<Rightarrow>
      (if server_differs old s
       then (case ReplaceServer dp t b s d of
          (Inl e, d1) \<Rightarrow> (Inl e, AbortTx dp t d1)
        | (Inr _, d1) \<Rightarrow> update_servers dp t b ss (AList.delete (SName s) cur) True d1)
       else update_servers dp t b ss (AList.delete (SName s) cur) ch d))"

fun del_servers :: "'d device \<Rightarrow> string \<Rightarrow> string \<Rightarrow> string list \<Rightarrow> bool \<Rightarrow> 'd \<Rightarrow> bool res \<times> 'd" where
  "del_servers dp t b [] ch d = (Inr ch, d)"
| "del_servers dp t b (n # ns) ch d = (case DeleteServer dp t b n d of
     (Inl e, d1) \<Rightarrow> (Inl e, AbortTx dp t d1) | (Inr _, d1) \<Rightarrow> del_servers dp t b ns True d1)"

text \<open>A wanted backend: created with its servers when it is absent, otherwise its servers are
  brought up to date. The rest of an existing backend is left as it is.\<close>

definition put_backend :: "'d device \<Rightarrow> (string list \<Rightarrow> string list) \<Rightarrow> string \<Rightarrow> string list \<Rightarrow> string \<Rightarrow> BackendSpec \<Rightarrow> bool \<Rightarrow> 'd \<Rightarrow>
    bool res \<times> 'd" where
  "put_backend dp perm t present n spec ch d =
    (if n \<notin> set present
     then (case CreateBackend dp t (backend_of n spec) d of
        (Inl e, d1) \<Rightarrow> (Inl e, AbortTx dp t d1)
      | (Inr _, d1) \<Rightarrow> (case create_servers dp t n (SpecServers spec) d1 of
          (Inl e, d2) \<Rightarrow> (Inl e, d2) | (Inr _, d2) \<Rightarrow> (Inr True, d2)))
     else (case Servers dp n d of
        (Inl e, d1) \<Rightarrow> (Inl e, AbortTx dp t d1)
      | (Inr cur, d1) \<Rightarrow>
         (case update_servers dp t n (SpecServers spec) (go_map (map (\<lambda>s. (SName s, s)) cur)) ch d1 of
            (Inl e, d2) \<Rightarrow> (Inl e, d2)
          | (Inr (ch', left), d2) \<Rightarrow> del_servers dp t n (perm (map fst left)) ch' d2)))"

fun put_backends :: "'d device \<Rightarrow> (string list \<Rightarrow> string list) \<Rightarrow> string \<Rightarrow> string list \<Rightarrow> (string \<times> BackendSpec) list \<Rightarrow> bool \<Rightarrow> 'd \<Rightarrow>
    bool res \<times> 'd" where
  "put_backends dp perm t present [] ch d = (Inr ch, d)"
| "put_backends dp perm t present ((n, spec) # ns) ch d =
    (case put_backend dp perm t present n spec ch d of
       (Inl e, d1) \<Rightarrow> (Inl e, d1) | (Inr ch', d1) \<Rightarrow> put_backends dp perm t present ns ch' d1)"

definition push_backends :: "'d device \<Rightarrow> (string list \<Rightarrow> string list) \<Rightarrow> BackendSpec list \<Rightarrow> 'd \<Rightarrow> unit res \<times> 'd" where
  "push_backends dp perm specs d =
    (case Backends dp d of (Inl e, d1) \<Rightarrow> (Inl e, d1)
     | (Inr existing, d1) \<Rightarrow>
       (let present = remdups (filter managed (map BName existing));
            want = go_map (map (\<lambda>b. (SpecName b, b)) specs)
        in case BeginTx dp d1 of (Inl e, d2) \<Rightarrow> (Inl e, d2)
         | (Inr t, d2) \<Rightarrow>
           (case del_backends dp t (map fst want) (perm present) False d2 of (Inl e, d3) \<Rightarrow> (Inl e, d3)
            | (Inr ch1, d3) \<Rightarrow>
              (case put_backends dp perm t present (map (\<lambda>n. (n, the (map_of want n))) (perm (map fst want))) ch1 d3 of
                 (Inl e, d4) \<Rightarrow> (Inl e, d4)
               | (Inr ch2, d4) \<Rightarrow>
                 (if ch2 then CommitTx dp t d4 else (Inr (), AbortTx dp t d4))))))"

subsection \<open>The whole push\<close>

fun sync_all :: "'d device \<Rightarrow> (string list \<Rightarrow> string list) \<Rightarrow> (string \<times> entries) list \<Rightarrow> 'd \<Rightarrow> unit res \<times> 'd" where
  "sync_all dp perm [] d = (Inr (), d)"
| "sync_all dp perm ((m, es) # ms) d = (case SyncMap dp perm m es d of
     (Inl e, d1) \<Rightarrow> (Inl e, d1) | (Inr _, d1) \<Rightarrow> sync_all dp perm ms d1)"

definition lines_of :: "string list \<Rightarrow> string" where
  "lines_of ls = join [CHR 0x0A] ls @ [CHR 0x0A]"

definition pushEdge :: "(string \<Rightarrow> string) \<Rightarrow> (string list \<Rightarrow> string list) \<Rightarrow> string \<Rightarrow> string \<Rightarrow> 'd device \<Rightarrow> Desired \<Rightarrow>
    pushed \<Rightarrow> 'd \<Rightarrow> unit res \<times> pushed \<times> 'd" where
  "pushEdge u perm ssl wh dp des ps d =
    (case Info dp d of (Inl e, d1) \<Rightarrow> (Inl e, ps, d1)
     | (Inr _, d1) \<Rightarrow>
       (case push_certs dp ssl wh (Certs_d des) ps ([], []) d1 of (Inl e, ps1, d2) \<Rightarrow> (Inl e, ps1, d2)
        | (Inr (app, wt), ps1, d2) \<Rightarrow>
          (case sync_lists u dp [(''app.crt-list'', lines_of (app @ [ssl @ ''/bootstrap.pem''])),
                                 (''wait.crt-list'', lines_of (wt @ [ssl @ ''/bootstrap.pem'']))] d2 of
             (Inl e, d3) \<Rightarrow> (Inl e, ps1, d3)
           | (Inr _, d3) \<Rightarrow>
             (case sync_keys u dp [(''pass.pub'', PassPub des), (''pass-prev.pub'', PassPrevPub des)] False d3 of
                (Inl e, d4) \<Rightarrow> (Inl e, ps1, d4)
              | (Inr ch, d4) \<Rightarrow>
                (case (if ch then Reload dp d4 else (Inr (), d4)) of (Inl e, d5) \<Rightarrow> (Inl e, ps1, d5)
                 | (Inr _, d5) \<Rightarrow>
                   (case push_backends dp perm (Backends_d des) d5 of (Inl e, d6) \<Rightarrow> (Inl e, ps1, d6)
                    | (Inr _, d6) \<Rightarrow>
                      (case sync_all dp perm [(''backends.map'', Backend_d des), (''rooms.map'', Rooms_d des),
                                              (''states.map'', States_d des)] d6 of
                         (r, d7) \<Rightarrow> (r, ps1, d7))))))))"

section \<open>The loop\<close>

record Edge =
  EName :: string
  EURL :: string

record Reconciler =
  edges :: "Edge list"
  waitHost :: string
  sslDir :: string
  lastVer :: int
  pushedCerts :: "(string \<times> pushed) list"
  kick :: bool
  queue_c :: Queue_client

definition New_reconciler :: "Queue_client \<Rightarrow> Reconciler" where
  "New_reconciler q = \<lparr>edges = [], waitHost = '''', sslDir = ''/etc/haproxy/ssl'', lastVer = 0, pushedCerts = [],
     kick = False, queue_c = q\<rparr>"

definition SetWaitHost :: "(string \<Rightarrow> string) \<Rightarrow> string \<Rightarrow> Reconciler \<Rightarrow> Reconciler" where
  "SetWaitHost u h r = r\<lparr>waitHost := to_lower u h\<rparr>"

text \<open>The channel of \<open>Kick\<close> holds one request; a second one is dropped.\<close>

definition Kick :: "Reconciler \<Rightarrow> Reconciler" where
  "Kick r = r\<lparr>kick := True\<rparr>"

definition EdgeNames :: "Reconciler \<Rightarrow> string list" where
  "EdgeNames r = map EName (edges r)"

text \<open>What the inventory answers: whether the tables could be brought up to date, the load
  balancers, the hosts of flyc-queue.\<close>

datatype sync_result = SyncOk | SyncIncomplete | SyncErr

record topology =
  Sync_r :: sync_result
  Edges_r :: "Edge list res"
  Hosts_r :: "string list res"

definition reloadTopology :: "topology \<Rightarrow> Reconciler \<Rightarrow> Reconciler" where
  "reloadTopology tp r =
    (if Sync_r tp = SyncIncomplete then r
     else case Edges_r tp of Inl _ \<Rightarrow> r
      | Inr es \<Rightarrow> (let r1 = r\<lparr>edges := es\<rparr> in
          case Hosts_r tp of Inl _ \<Rightarrow> r1 | Inr hs \<Rightarrow> r1\<lparr>queue_c := SetHosts hs (queue_c r1)\<rparr>))"

text \<open>The rows of the table \<open>edges\<close> that a pass writes, and the error of \<open>queue_hosts\<close>.\<close>

record edge_row =
  e_name :: string
  e_status :: "string option"
  e_error :: "err option"
  e_config :: "string option"
  e_desired :: "string option"

record pg =
  edge_rows :: "edge_row list"
  queue_error :: "err option"

definition set_row :: "string \<Rightarrow> unit res \<Rightarrow> string \<Rightarrow> edge_row \<Rightarrow> edge_row" where
  "set_row n res h row =
    (if e_name row \<noteq> n then row
     else case res of
        Inl e \<Rightarrow> row\<lparr>e_status := Some ''error'', e_error := Some e, e_desired := Some h\<rparr>
      | Inr _ \<Rightarrow> row\<lparr>e_status := Some ''ok'', e_error := None, e_config := Some h, e_desired := Some h\<rparr>)"

fun push_rooms :: "'w network \<Rightarrow> Queue_client \<Rightarrow> (string \<times> RoomConfig) list \<Rightarrow> pg \<Rightarrow> 'w \<Rightarrow> pg \<times> 'w" where
  "push_rooms http q [] g w = (g, w)"
| "push_rooms http q ((i, cfg) # cs) g w = (case PutRoom http q i cfg w of
     (Inl e, w1) \<Rightarrow> push_rooms http q cs (g\<lparr>queue_error := Some e\<rparr>) w1
   | (Inr _, w1) \<Rightarrow> push_rooms http q cs (g\<lparr>queue_error := None\<rparr>) w1)"

definition pushed_of :: "Reconciler \<Rightarrow> string \<Rightarrow> pushed" where
  "pushed_of r n = (case map_of (pushedCerts r) n of None \<Rightarrow> [] | Some ps \<Rightarrow> ps)"

text \<open>A load balancer that fails does not keep the others from being pushed.\<close>

fun push_edges :: "(string \<Rightarrow> string) \<Rightarrow> (string list \<Rightarrow> string list) \<Rightarrow> (string \<Rightarrow> 'd device) \<Rightarrow> Desired \<Rightarrow> Edge list \<Rightarrow>
    Reconciler \<Rightarrow> pg \<Rightarrow> 'd \<Rightarrow> Reconciler \<times> pg \<times> 'd" where
  "push_edges u perm dps des [] r g d = (r, g, d)"
| "push_edges u perm dps des (e # es) r g d =
    (case pushEdge u perm (sslDir r) (waitHost r) (dps (EURL e)) des (pushed_of r (EName e)) d of
       (res, ps, d1) \<Rightarrow> push_edges u perm dps des es
          (r\<lparr>pushedCerts := AList.update (EName e) ps (pushedCerts r)\<rparr>)
          (g\<lparr>edge_rows := map (set_row (EName e) res (Hash des)) (edge_rows g)\<rparr>) d1)"

text \<open>\<open>b\<close> is the outcome of \<open>Build\<close> and \<open>ver\<close> the version read before it, if it could be read.\<close>

definition Once :: "(string \<Rightarrow> string) \<Rightarrow> (string list \<Rightarrow> string list) \<Rightarrow> (string \<Rightarrow> 'd device) \<Rightarrow> 'w network \<Rightarrow> topology \<Rightarrow>
    int option \<Rightarrow> Desired res \<Rightarrow> Reconciler \<Rightarrow> pg \<Rightarrow> 'w \<Rightarrow> 'd \<Rightarrow> Reconciler \<times> pg \<times> 'w \<times> 'd" where
  "Once u perm dps http tp ver b r g w d =
    (let r1 = reloadTopology tp r in
     case b of Inl _ \<Rightarrow> (r1, g, w, d)
     | Inr des \<Rightarrow>
       (let (g1, w1) = push_rooms http (queue_c r1)
              (map (\<lambda>i. (i, the (map_of (Queue_d des) i))) (perm (map fst (Queue_d des)))) g w;
            (r2, g2, d1) = push_edges u perm dps des (edges r1) r1 g1 d
        in (r2\<lparr>lastVer := (case ver of None \<Rightarrow> 0 | Some v \<Rightarrow> v)\<rparr>, g2, w1, d1)))"

text \<open>What makes \<open>Run\<close> start a pass: the start, a kick, the minute, or a version that moved.\<close>

datatype wake = WStart | WKick | WMinute | WPoll "int option"

definition Run_wakes :: "wake \<Rightarrow> Reconciler \<Rightarrow> bool \<times> Reconciler" where
  "Run_wakes wk r = (case wk of
     WStart \<Rightarrow> (True, r)
   | WKick \<Rightarrow> (kick r, r\<lparr>kick := False\<rparr>)
   | WMinute \<Rightarrow> (True, r)
   | WPoll v \<Rightarrow> (case v of None \<Rightarrow> False | Some x \<Rightarrow> x \<noteq> lastVer r, r))"

definition EdgeInSync :: "edge_row \<Rightarrow> bool" where
  "EdgeInSync row \<longleftrightarrow> (case e_config row of None \<Rightarrow> False
     | Some h \<Rightarrow> h = (case e_desired row of None \<Rightarrow> '''' | Some x \<Rightarrow> x))"

section \<open>Automatic mode\<close>

text \<open>The sum of the sessions over the load balancers that answered, and how many did.\<close>

fun sum_sessions :: "(string \<Rightarrow> 'd device) \<Rightarrow> string \<Rightarrow> Edge list \<Rightarrow> int \<times> nat \<Rightarrow> 'd \<Rightarrow> (int \<times> nat) \<times> 'd" where
  "sum_sessions dps bk [] acc d = (acc, d)"
| "sum_sessions dps bk (e # es) (tot, ok) d = (case BackendSessions (dps (EURL e)) bk d of
     (Inl _, d1) \<Rightarrow> sum_sessions dps bk es (tot, ok) d1
   | (Inr n, d1) \<Rightarrow> sum_sessions dps bk es (tot + n, Suc ok) d1)"

definition auto_next :: "int \<Rightarrow> int \<Rightarrow> int \<Rightarrow> string \<Rightarrow> string" where
  "auto_next on off tot eff =
    (if eff \<noteq> ''queue'' \<and> 0 < on \<and> on < tot then ''queue''
     else if eff = ''queue'' \<and> tot < off then ''open''
     else eff)"

text \<open>One room of the pass: \<open>x\<close> is the row with the name of its backend, \<open>upd\<close> whether the update of
  the row succeeds.\<close>

definition auto_room :: "(string \<Rightarrow> 'd device) \<Rightarrow> (nat \<Rightarrow> bool) \<Rightarrow> room_row \<Rightarrow> string \<Rightarrow> Reconciler \<Rightarrow> 'd \<Rightarrow>
    room_row \<times> Reconciler \<times> 'd" where
  "auto_room dps upd x bk r d =
    (case sum_sessions dps bk (edges r) (0, 0) d of
       ((tot, ok), d1) \<Rightarrow>
         (if ok = 0 then (x, r, d1)
          else let nx = auto_next (r_auto_on x) (r_auto_off x) tot (r_effective x) in
            if nx \<noteq> r_effective x \<and> upd (r_id x) then (x\<lparr>r_effective := nx\<rparr>, Kick r, d1) else (x, r, d1)))"

text \<open>The rows of the query: in mode \<open>auto\<close>, with a backend whose tenant is known.\<close>

definition auto_backend :: "tables \<Rightarrow> room_row \<Rightarrow> string option" where
  "auto_backend db x =
    (if r_state x \<noteq> ''auto'' \<or> tenant_slug db (r_tenant x) = None then None
     else case r_backend x of None \<Rightarrow> None
      | Some i \<Rightarrow> (case find_by b_id i (backends db) of None \<Rightarrow> None
          | Some b \<Rightarrow> map_option (\<lambda>bt. BackendName bt (b_name b)) (tenant_slug db (b_tenant b))))"

fun auto_rooms :: "(string \<Rightarrow> 'd device) \<Rightarrow> (nat \<Rightarrow> bool) \<Rightarrow> tables \<Rightarrow> room_row list \<Rightarrow> Reconciler \<Rightarrow> 'd \<Rightarrow>
    room_row list \<times> Reconciler \<times> 'd" where
  "auto_rooms dps upd db [] r d = ([], r, d)"
| "auto_rooms dps upd db (x # xs) r d =
    (case (case auto_backend db x of None \<Rightarrow> (x, r, d) | Some bk \<Rightarrow> auto_room dps upd x bk r d) of
       (x', r1, d1) \<Rightarrow> (case auto_rooms dps upd db xs r1 d1 of (xs', r2, d2) \<Rightarrow> (x' # xs', r2, d2)))"

definition RunAuto_step :: "(string \<Rightarrow> 'd device) \<Rightarrow> (nat \<Rightarrow> bool) \<Rightarrow> tables \<Rightarrow> Reconciler \<Rightarrow> 'd \<Rightarrow> tables \<times> Reconciler \<times> 'd" where
  "RunAuto_step dps upd db r d =
    (case auto_rooms dps upd db (rooms_t db) r d of (xs, r1, d1) \<Rightarrow> (db\<lparr>rooms_t := xs\<rparr>, r1, d1))"

end
