(* ===== verification/Push_Log.thy ===== *)
theory Push_Log
  imports Reconcile
begin

text \<open>
  Which requests a push sends to a load balancer: \<open>kept_device\<close> lifts a law of single requests
  to every operation of the client and to \<open>pushEdge\<close>; its two instances on a device that keeps
  a log are about the transactions (how each one opened is ended) and about the names of the
  backends that a push may touch.
\<close>

section \<open>What a push may send\<close>

text \<open>
  A predicate on requests and an invariant of the device that every such request keeps. The
  operations keep the invariant as soon as their requests satisfy the predicate; the two
  instances below are about the log of a push.
\<close>

locale kept_device =
  fixes dp :: "'d device" and P :: "dreq \<Rightarrow> bool" and I :: "'d \<Rightarrow> bool"
  assumes keep: "P rq \<Longrightarrow> I d \<Longrightarrow> I (snd (dp d rq))"
begin

lemma do_req_keep: "P rq \<Longrightarrow> I d \<Longrightarrow> I (snd (do_req dp rq d))"
  using keep [of rq d] by (auto simp: do_req_def split: prod.splits answer.splits)

lemma do_unit_keep: "P rq \<Longrightarrow> I d \<Longrightarrow> I (snd (do_unit dp rq d))"
  using do_req_keep [of rq d] by (auto simp: do_unit_def split: prod.splits sum.splits)

lemma do_unitD: "do_unit dp rq d = (x, d') \<Longrightarrow> P rq \<Longrightarrow> I d \<Longrightarrow> I d'"
  using do_unit_keep [of rq d] by simp

lemma do_reqD: "do_req dp rq d = (x, d') \<Longrightarrow> P rq \<Longrightarrow> I d \<Longrightarrow> I d'"
  using do_req_keep [of rq d] by simp

lemmas split_res = prod.splits sum.splits answer.splits payload.splits if_splits option.splits

lemma queries_keep:
  "P InfoQ \<Longrightarrow> I d \<Longrightarrow> I (snd (Info dp d))"
  "P VersionQ \<Longrightarrow> I d \<Longrightarrow> I (snd (Version dp d))"
  "P BackendsQ \<Longrightarrow> I d \<Longrightarrow> I (snd (Backends dp d))"
  "P (ServersQ b) \<Longrightarrow> I d \<Longrightarrow> I (snd (Servers dp b d))"
  "P (EntriesQ m) \<Longrightarrow> I d \<Longrightarrow> I (snd (MapEntries dp m d))"
  "P (CrtListQ n) \<Longrightarrow> I d \<Longrightarrow> I (snd (CrtListGet dp n d))"
  by (auto simp: Info_def Version_def Backends_def Servers_def MapEntries_def CrtListGet_def
      intro: do_unit_keep dest: do_reqD split: split_res)

lemma tx_keep:
  "P (TxPut t) \<Longrightarrow> I d \<Longrightarrow> I (snd (CommitTx dp t d))"
  "P (TxDelete t) \<Longrightarrow> I d \<Longrightarrow> I (AbortTx dp t d)"
  by (simp_all add: CommitTx_def AbortTx_def do_unit_keep do_req_keep)

lemma UpsertCert_keep:
  "P (CertPut n pem) \<Longrightarrow> P (CertPost n pem) \<Longrightarrow> I d \<Longrightarrow> I (snd (UpsertCert dp n pem d))"
  by (auto simp: UpsertCert_def dest: do_unitD split: split_res)

lemma CrtListSync_keep:
  "P (CrtListQ n) \<Longrightarrow> P (CrtListPut n c) \<Longrightarrow> I d \<Longrightarrow> I (snd (CrtListSync u dp n c d))"
  using queries_keep(6) [of n d] by (auto simp: CrtListSync_def dest: do_unitD split: split_res)

lemma GeneralSync_keep:
  assumes "P (GeneralQ n)" "P (GeneralPost n c)" "P (GeneralPut n c)" "I d"
  shows "I (snd (GeneralSync u dp n c d))"
  using keep [OF assms(1,4)] assms(2,3)
  by (auto simp: GeneralSync_def dest: do_unitD split: prod.splits answer.splits sum.splits)

lemma push_certs_keep:
  "(\<And>n x. P (CertPut n x) \<and> P (CertPost n x)) \<Longrightarrow> I d \<Longrightarrow> I (snd (snd (push_certs dp ssl wh cs ps ll d)))"
proof (induction cs arbitrary: ps ll d)
  case (Cons c cs)
  obtain app wt where ll: "ll = (app, wt)" by fastforce
  have "I (snd (UpsertCert dp (StorageName (FQDN c)) (PEM c) d))" using Cons.prems by (blast intro: UpsertCert_keep)
  then show ?case using Cons by (auto simp: ll Let_def split: prod.split sum.split)
qed (auto split: prod.split)

lemma sync_lists_keep:
  "(\<And>n x. P (CrtListQ n) \<and> P (CrtListPut n x)) \<Longrightarrow> I d \<Longrightarrow> I (snd (sync_lists u dp ll d))"
proof (induction ll arbitrary: d)
  case (Cons l ll)
  obtain n content where l: "l = (n, content)" by fastforce
  have "I (snd (CrtListSync u dp n content d))" using Cons.prems by (blast intro: CrtListSync_keep)
  then show ?case using Cons by (auto simp: l split: prod.split sum.split)
qed simp

lemma sync_keys_keep:
  "(\<And>n x. P (GeneralQ n) \<and> P (GeneralPost n x) \<and> P (GeneralPut n x)) \<Longrightarrow> I d \<Longrightarrow> I (snd (sync_keys u dp ks ch d))"
proof (induction ks arbitrary: ch d)
  case (Cons k ks)
  obtain n pem where k: "k = (n, pem)" by fastforce
  have "I (snd (GeneralSync u dp n pem d))" using Cons.prems by (blast intro: GeneralSync_keep)
  then show ?case using Cons by (auto simp: k split: prod.split sum.split)
qed simp

lemma sync_adds_keep:
  "(\<And>k v. P (EntryPost m k v) \<and> P (EntryPut m k v)) \<Longrightarrow> I d \<Longrightarrow> I (snd (sync_adds dp m cur kvs d))"
proof (induction kvs arbitrary: d)
  case (Cons kv kvs)
  obtain k v where kv: "kv = (k, v)" by fastforce
  have "I (snd (do_unit dp (EntryPost m k v) d))" "I (snd (do_unit dp (EntryPut m k v) d))"
    using Cons.prems do_unit_keep by blast+
  then show ?case using Cons by (auto simp: kv split: prod.split sum.split option.split)
qed simp

lemma sync_dels_keep:
  "(\<And>k. P (EntryDelete m k)) \<Longrightarrow> I d \<Longrightarrow> I (snd (sync_dels dp m want ks d))"
proof (induction ks arbitrary: d)
  case (Cons k ks)
  have "I (snd (do_unit dp (EntryDelete m k) d))" using Cons.prems do_unit_keep by blast
  then show ?case using Cons by (auto split: prod.split sum.split)
qed simp

lemma SyncMap_keep:
  assumes "\<And>k v. P (EntryPost m k v) \<and> P (EntryPut m k v) \<and> P (EntryDelete m k)" "P (MapDelete m)" "P (EntriesQ m)" "I d"
  shows "I (snd (SyncMap dp perm m des d))"
proof -
  have maps: "I (snd (sync_maps dp perm m cur want d))" if "I d" for cur want d
  proof -
    obtain r d1 where a: "sync_adds dp m cur (map (\<lambda>k. (k, the (map_of want k))) (perm (map fst want))) d = (r, d1)"
      by fastforce
    have "I (snd (sync_adds dp m cur (map (\<lambda>k. (k, the (map_of want k))) (perm (map fst want))) d))"
      using that assms(1) by (blast intro: sync_adds_keep)
    then have "I d1" by (simp add: a)
    then have "I (snd (sync_dels dp m want (perm (map fst cur)) d1))" using assms(1) by (blast intro: sync_dels_keep)
    then show ?thesis using a \<open>I d1\<close> by (simp add: sync_maps_def split: sum.split)
  qed
  have 2: "I (snd (do_unit dp (MapDelete m) d))" if "I d" for d using that assms do_unit_keep by blast
  obtain r d1 where 1: "MapEntries dp m d = (r, d1)" "I d1" using queries_keep(5) [OF assms(3,4)] by (metis prod.collapse)
  have 3: "do_unit dp (MapDelete m) d1 = (c, d2) \<Longrightarrow> I d2" for c d2 using 2 [OF 1(2)] by simp
  show ?thesis unfolding SyncMap_def 1(1) Let_def using 1(2) by (auto simp: maps 3 split: sum.split prod.split)
qed

lemma sync_all_keep:
  "(\<And>m k v. P (EntryPost m k v) \<and> P (EntryPut m k v) \<and> P (EntryDelete m k)) \<Longrightarrow> (\<And>m. P (MapDelete m) \<and> P (EntriesQ m)) \<Longrightarrow>
   I d \<Longrightarrow> I (snd (sync_all dp perm ms d))"
proof (induction ms arbitrary: d)
  case (Cons x ms)
  obtain m es where x: "x = (m, es)" by fastforce
  have "I (snd (SyncMap dp perm m es d))" using Cons.prems by (blast intro: SyncMap_keep)
  then show ?case using Cons by (auto simp: x split: prod.split sum.split)
qed simp

end

section \<open>Transactions\<close>

text \<open>A device that keeps the log of the requests and their answers.\<close>

definition logged :: "'d device \<Rightarrow> ('d \<times> (dreq \<times> answer) list) device" where
  "logged dp s rq = (case dp (fst s) rq of (a, d') \<Rightarrow> (a, d', snd s @ [(rq, a)]))"

fun opens :: "dreq \<times> answer \<Rightarrow> string list" where
  "opens (TxPost v, Ans st (PTx t)) = (if st < 300 then [t] else [])"
| "opens _ = []"

text \<open>The requests that end a transaction, whatever comes back; and whether what came back accepts it.\<close>

fun ends :: "dreq \<times> answer \<Rightarrow> string list" where
  "ends (TxPut t, a) = [t]"
| "ends (TxDelete t, a) = [t]"
| "ends _ = []"

fun accepted :: "answer \<Rightarrow> bool" where
  "accepted Lost = False"
| "accepted (Ans st p) = (st < 300)"

lemma opens_refused [simp]: "300 \<le> st \<Longrightarrow> opens (TxPost v, Ans st p) = []"
  by (cases p) auto

definition opened :: "(dreq \<times> answer) list \<Rightarrow> string list" where "opened l = concat (map opens l)"
definition ended :: "(dreq \<times> answer) list \<Rightarrow> string list" where "ended l = concat (map ends l)"

fun is_tx :: "dreq \<Rightarrow> bool" where
  "is_tx (TxPost v) = True" | "is_tx (TxPut t) = True" | "is_tx (TxDelete t) = True" | "is_tx _ = False"

definition tr :: "'d \<times> (dreq \<times> answer) list \<Rightarrow> string list \<times> string list" where
  "tr s = (opened (snd s), ended (snd s))"

lemma quiet_opens: "\<not> is_tx rq \<Longrightarrow> opens (rq, a) = [] \<and> ends (rq, a) = []"
  by (cases rq) auto

interpretation quiet: kept_device "logged dp" "\<lambda>rq. \<not> is_tx rq" "\<lambda>s. tr s = x" for dp x
  by unfold_locales (auto simp: logged_def tr_def opened_def ended_def quiet_opens split: prod.splits)

lemma AbortTx_tr [simp]: "tr (AbortTx (logged dp) t s) = (fst (tr s), snd (tr s) @ [t])"
  by (auto simp: AbortTx_def do_req_def logged_def tr_def opened_def ended_def split: prod.splits answer.splits)

lemma CommitTx_tr [simp]: "tr (snd (CommitTx (logged dp) t s)) = (fst (tr s), snd (tr s) @ [t])"
  by (auto simp: CommitTx_def do_unit_def do_req_def logged_def tr_def opened_def ended_def
      split: prod.splits answer.splits sum.splits if_splits)

text \<open>The answer to an opened transaction carries its identifier.\<close>

definition tx_answers :: "'d device \<Rightarrow> bool" where
  "tx_answers dp \<longleftrightarrow> (\<forall>d v st p d'. dp d (TxPost v) = (Ans st p, d') \<and> st < 300 \<longrightarrow> (\<exists>t. p = PTx t))"

lemma BeginTx_tr:
  assumes "tx_answers dp" and "BeginTx (logged dp) s = (r, s')"
  shows "tr s' = (fst (tr s) @ (case r of Inl _ \<Rightarrow> [] | Inr t \<Rightarrow> [t]), snd (tr s))"
proof -
  obtain v s1 where v: "Version (logged dp) s = (v, s1)" by (meson surj_pair)
  have 1: "tr s1 = tr s" using quiet.queries_keep(2) [of s "tr s" dp] by (simp add: v)
  show ?thesis
  proof (cases v)
    case (Inr n)
    obtain a d where p: "dp (fst s1) (TxPost n) = (a, d)" by fastforce
    show ?thesis
    proof (cases a)
      case (Ans st pl)
      have "\<exists>t. pl = PTx t" if "st < 300" using assms(1) p Ans that unfolding tx_answers_def by blast
      then show ?thesis using assms(2) v Inr p Ans 1
        by (auto simp: BeginTx_def do_req_def logged_def tr_def opened_def ended_def split: if_splits)
    qed (use assms(2) v Inr p 1 in \<open>auto simp: BeginTx_def do_req_def logged_def tr_def opened_def ended_def\<close>)
  qed (use assms(2) v 1 in \<open>auto simp: BeginTx_def\<close>)
qed

text \<open>Inside a transaction an error has aborted it, a success has not touched it.\<close>

definition held :: "string \<Rightarrow> 'a res \<Rightarrow> string list \<times> string list \<Rightarrow> string list \<times> string list" where
  "held t r x = (fst x, snd x @ (case r of Inl _ \<Rightarrow> [t] | Inr _ \<Rightarrow> []))"

lemma held_simps [simp]: "held t (Inl e) x = (fst x, snd x @ [t])" "held t (Inr y) x = x"
  by (simp_all add: held_def)

lemma quiet_unit: "do_unit (logged dp) rq s = (r, s') \<Longrightarrow> \<not> is_tx rq \<Longrightarrow> tr s' = tr s"
  using quiet.do_unit_keep [of rq s "tr s" dp] by simp

lemmas in_tx = DeleteBackend_def CreateBackend_def CreateServer_def ReplaceServer_def DeleteServer_def

lemma del_backends_tr: "del_backends (logged dp) t w ns ch s = (r, s') \<Longrightarrow> tr s' = held t r (tr s)"
  by (induction ns arbitrary: ch s) (auto simp: in_tx dest!: quiet_unit split: if_splits prod.splits sum.splits)

lemma create_servers_tr: "create_servers (logged dp) t b ss s = (r, s') \<Longrightarrow> tr s' = held t r (tr s)"
  by (induction ss arbitrary: s) (auto simp: in_tx dest!: quiet_unit split: prod.splits sum.splits)

lemma update_servers_tr: "update_servers (logged dp) t b ss cur ch s = (r, s') \<Longrightarrow> tr s' = held t r (tr s)"
  by (induction ss arbitrary: cur ch s)
    (auto simp: in_tx dest!: quiet_unit split: if_splits prod.splits sum.splits option.splits)

lemma del_servers_tr: "del_servers (logged dp) t b ns ch s = (r, s') \<Longrightarrow> tr s' = held t r (tr s)"
  by (induction ns arbitrary: ch s) (auto simp: in_tx dest!: quiet_unit split: prod.splits sum.splits)

lemma Servers_tr: "Servers (logged dp) b s = (r, s') \<Longrightarrow> tr s' = tr s"
  using quiet.queries_keep(4) [of b s "tr s" dp] by simp

lemma put_backend_tr: "put_backend (logged dp) perm t present n spec ch s = (r, s') \<Longrightarrow> tr s' = held t r (tr s)"
  by (auto simp: put_backend_def CreateBackend_def dest!: quiet_unit create_servers_tr update_servers_tr del_servers_tr Servers_tr
      split: if_splits prod.splits sum.splits)

lemma put_backends_tr: "put_backends (logged dp) perm t present ns ch s = (r, s') \<Longrightarrow> tr s' = held t r (tr s)"
  by (induction ns arbitrary: ch s) (auto dest!: put_backend_tr split: prod.splits sum.splits)

text \<open>Over the whole push the two lists grow alike.\<close>

definition balanced :: "'d \<times> (dreq \<times> answer) list \<Rightarrow> bool" where
  "balanced s \<longleftrightarrow> fst (tr s) = snd (tr s)"

lemma push_backends_balanced:
  assumes "tx_answers dp" and "balanced s"
  shows "balanced (snd (push_backends (logged dp) perm specs s))"
proof -
  obtain r s1 where b: "Backends (logged dp) s = (r, s1)" by (meson surj_pair)
  have 1: "tr s1 = tr s" using quiet.queries_keep(3) [of s "tr s" dp] by (simp add: b)
  show ?thesis using assms(2) b 1
    by (auto simp: push_backends_def Let_def balanced_def
        dest!: BeginTx_tr [OF assms(1)] del_backends_tr put_backends_tr
        split: prod.split sum.split)
qed

lemma Reload_balanced:
  assumes "tx_answers dp" and "balanced s"
  shows "balanced (snd (Reload (logged dp) s))"
  using assms(2) by (auto simp: Reload_def balanced_def dest!: BeginTx_tr [OF assms(1)] split: prod.split sum.split)

lemma push_quiet:
  "balanced s \<Longrightarrow> balanced (snd (Info (logged dp) s))"
  "balanced s \<Longrightarrow> balanced (snd (snd (push_certs (logged dp) ssl wh cs ps ll s)))"
  "balanced s \<Longrightarrow> balanced (snd (sync_lists u (logged dp) cl s))"
  "balanced s \<Longrightarrow> balanced (snd (sync_keys u (logged dp) ks ch s))"
  "balanced s \<Longrightarrow> balanced (snd (sync_all (logged dp) perm ms s))"
  using quiet.queries_keep(1) [of s "tr s" dp] quiet.push_certs_keep [of s "tr s" dp] quiet.sync_lists_keep [of s "tr s" u dp]
    quiet.sync_keys_keep [of s "tr s" u dp] quiet.sync_all_keep [of s "tr s" dp]
  by (simp_all add: balanced_def)

text \<open>The stages of a push one after the other: an invariant that each of them keeps is kept by
  \<open>pushEdge\<close>.\<close>

lemma stage: "I (snd r) \<Longrightarrow> (\<And>e d. I d \<Longrightarrow> I (snd (snd (f e d)))) \<Longrightarrow> (\<And>x d. I d \<Longrightarrow> I (snd (snd (g x d)))) \<Longrightarrow>
    I (snd (snd (case r of (Inl e, d) \<Rightarrow> f e d | (Inr x, d) \<Rightarrow> g x d)))"
  by (auto split: prod.split sum.split)

lemma stage3: "I (snd (snd r)) \<Longrightarrow> (\<And>e p d. I d \<Longrightarrow> I (snd (snd (f e p d)))) \<Longrightarrow>
    (\<And>x y p d. I d \<Longrightarrow> I (snd (snd (g x y p d)))) \<Longrightarrow>
    I (snd (snd (case r of (Inl e, p, d) \<Rightarrow> f e p d | (Inr (x, y), p, d) \<Rightarrow> g x y p d)))"
  by (auto split: prod.split sum.split)

lemma stage_last: "I (snd r) \<Longrightarrow> (\<And>x d. I d \<Longrightarrow> I (snd (snd (g x d)))) \<Longrightarrow> I (snd (snd (case r of (x, d) \<Rightarrow> g x d)))"
  by (auto split: prod.split)

lemma pushEdge_stages:
  assumes "I d" and "\<And>d. I d \<Longrightarrow> I (snd (Info dp d))"
    and "\<And>d. I d \<Longrightarrow> I (snd (snd (push_certs dp ssl wh (Certs_d des) ps ([], []) d)))"
    and "\<And>cl d. I d \<Longrightarrow> I (snd (sync_lists u dp cl d))"
    and "\<And>ks d. I d \<Longrightarrow> I (snd (sync_keys u dp ks False d))"
    and "\<And>d. I d \<Longrightarrow> I (snd (Reload dp d))"
    and "\<And>d. I d \<Longrightarrow> I (snd (push_backends dp perm (Backends_d des) d))"
    and "\<And>ms d. I d \<Longrightarrow> I (snd (sync_all dp perm ms d))"
  shows "I (snd (snd (pushEdge u perm ssl wh dp des ps d)))"
proof -
  have reload: "I (snd (if ch then Reload dp d else (Inr (), d)))" if "I d" for ch d using assms(6) that by simp
  show ?thesis unfolding pushEdge_def using assms(1)
    by (intro stage [of I] stage3 [of I] stage_last [of I] assms(2-5,7,8) reload; simp)
qed

lemma pushEdge_balanced:
  "tx_answers dp \<Longrightarrow> balanced s \<Longrightarrow> balanced (snd (snd (pushEdge u perm ssl wh (logged dp) des ps s)))"
  by (rule pushEdge_stages) (simp_all add: push_quiet push_backends_balanced Reload_balanced)

section \<open>Which requests a push sends\<close>

abbreviation wanted :: "BackendSpec list \<Rightarrow> (string \<times> BackendSpec) list" where
  "wanted specs \<equiv> go_map (map (\<lambda>b. (SpecName b, b)) specs)"

lemma wanted_keys: "set (map fst (wanted specs)) = SpecName ` set specs"
proof -
  have "n \<in> set (map fst (wanted specs)) \<longleftrightarrow> n \<in> SpecName ` set specs" for n
    using go_map_props [of "map (\<lambda>b. (SpecName b, b)) specs"]
      map_of_eq_None_iff [of "wanted specs" n] map_of_eq_None_iff [of "rev (map (\<lambda>b. (SpecName b, b)) specs)" n]
    by (auto simp: image_image)
  then show ?thesis by blast
qed

lemma wanted_spec:
  assumes "n \<in> SpecName ` set specs"
  shows "\<exists>spec \<in> set specs. SpecName spec = n \<and> map_of (wanted specs) n = Some spec"
proof -
  have "map_of (wanted specs) n \<noteq> None" using assms wanted_keys [of specs] by (simp add: map_of_eq_None_iff)
  then obtain spec where s: "map_of (wanted specs) n = Some spec" by blast
  then have "map_of (rev (map (\<lambda>b. (SpecName b, b)) specs)) n = Some spec" using go_map_props by metis
  then show ?thesis using s by (auto dest: map_of_SomeD)
qed

fun allowed :: "BackendSpec list \<Rightarrow> dreq \<Rightarrow> bool" where
  "allowed specs (BackendDelete t n) \<longleftrightarrow> managed n \<and> n \<notin> SpecName ` set specs"
| "allowed specs (BackendPost t b) \<longleftrightarrow> BName b \<in> SpecName ` set specs"
| "allowed specs (BackendPut t b) \<longleftrightarrow> False"
| "allowed specs (ServerPost t b s) \<longleftrightarrow> (\<exists>spec \<in> set specs. SpecName spec = b \<and> s \<in> set (SpecServers spec))"
| "allowed specs (ServerPut t b s) \<longleftrightarrow> (\<exists>spec \<in> set specs. SpecName spec = b \<and> s \<in> set (SpecServers spec))"
| "allowed specs (ServerDelete t b n) \<longleftrightarrow> b \<in> SpecName ` set specs"
| "allowed specs _ \<longleftrightarrow> True"

interpretation log: kept_device "logged dp" "allowed specs" "\<lambda>s. \<forall>e \<in> set (snd s). allowed specs (fst e)" for dp specs
  by unfold_locales (auto simp: logged_def split: prod.splits)

context kept_device
begin

lemma BeginTx_keep: "P VersionQ \<Longrightarrow> (\<And>v. P (TxPost v)) \<Longrightarrow> I d \<Longrightarrow> I (snd (BeginTx dp d))"
  using queries_keep(2) [of d] by (auto simp: BeginTx_def dest!: do_reqD split: prod.split sum.split payload.split)

lemma Reload_keep: "P VersionQ \<Longrightarrow> (\<And>v t. P (TxPost v) \<and> P (TxPut t)) \<Longrightarrow> I d \<Longrightarrow> I (snd (Reload dp d))"
  using BeginTx_keep [of d] tx_keep(1) by (auto simp: Reload_def split: prod.split sum.split)

lemma del_backends_keep:
  assumes "P (TxDelete t)" "\<And>n. n \<in> set ns \<Longrightarrow> n \<notin> set w \<Longrightarrow> P (BackendDelete t n)" "I d"
  shows "I (snd (del_backends dp t w ns ch d))"
  using assms(2,3)
proof (induction ns arbitrary: ch d)
  case (Cons n ns)
  then show ?case using tx_keep(2) [OF assms(1)] do_unit_keep [of "BackendDelete t n" d]
    by (auto simp: in_tx split: prod.split sum.split)
qed simp

lemma create_servers_keep:
  assumes "P (TxDelete t)" "\<And>s. s \<in> set ss \<Longrightarrow> P (ServerPost t b s)" "I d"
  shows "I (snd (create_servers dp t b ss d))"
  using assms(2,3)
proof (induction ss arbitrary: d)
  case (Cons s ss)
  then show ?case using tx_keep(2) [OF assms(1)] do_unit_keep [of "ServerPost t b s" d]
    by (auto simp: in_tx split: prod.split sum.split)
qed simp

lemma update_servers_keep:
  assumes "P (TxDelete t)" "\<And>s. s \<in> set ss \<Longrightarrow> P (ServerPost t b s) \<and> P (ServerPut t b s)" "I d"
  shows "I (snd (update_servers dp t b ss cur ch d))"
  using assms(2,3)
proof (induction ss arbitrary: cur ch d)
  case (Cons s ss)
  then show ?case using tx_keep(2) [OF assms(1)] do_unit_keep [of "ServerPost t b s" d] do_unit_keep [of "ServerPut t b s" d]
    by (auto simp: in_tx split: prod.split sum.split option.split)
qed simp

lemma del_servers_keep:
  assumes "P (TxDelete t)" "\<And>n. P (ServerDelete t b n)" "I d"
  shows "I (snd (del_servers dp t b ns ch d))"
  using assms(3)
proof (induction ns arbitrary: ch d)
  case (Cons n ns)
  then show ?case using tx_keep(2) [OF assms(1)] do_unit_keep [of "ServerDelete t b n" d] assms(2)
    by (auto simp: in_tx split: prod.split sum.split)
qed simp

lemma put_backend_keep:
  assumes "P (TxDelete t)" "P (BackendPost t (backend_of n spec))" "P (ServersQ n)"
    "\<And>s. s \<in> set (SpecServers spec) \<Longrightarrow> P (ServerPost t n s) \<and> P (ServerPut t n s)" "\<And>m. P (ServerDelete t n m)" "I d"
  shows "I (snd (put_backend dp perm t present n spec ch d))"
proof -
  have 1: "I (snd (create_servers dp t n (SpecServers spec) d))" if "I d" for d
    using create_servers_keep [of t "SpecServers spec" n d] assms that by blast
  have 2: "I (snd (update_servers dp t n (SpecServers spec) cur ch d))" if "I d" for cur ch d
    using update_servers_keep [of t "SpecServers spec" n d] assms that by blast
  have 3: "I (snd (del_servers dp t n ns ch d))" if "I d" for ns ch d
    using del_servers_keep [of t n d] assms that by blast
  have 4: "I (AbortTx dp t d)" if "I d" for d using tx_keep(2) assms that by blast
  have c: "CreateBackend dp t (backend_of n spec) d = (r, d') \<Longrightarrow> I d'" for r d'
    using do_unit_keep [OF assms(2,6)] by (simp add: CreateBackend_def)
  have s: "Servers dp n d = (r, d') \<Longrightarrow> I d'" for r d' using queries_keep(4) [OF assms(3,6)] by simp
  have 1: "create_servers dp t n (SpecServers spec) d = (r, d') \<Longrightarrow> I d \<Longrightarrow> I d'" for r d d' using 1 [of d] by simp
  have 2: "update_servers dp t n (SpecServers spec) cur ch d = (r, d') \<Longrightarrow> I d \<Longrightarrow> I d'" for cur ch r d d' using 2 [of d cur ch] by simp
  show ?thesis by (auto simp: put_backend_def 4 3 dest!: c s 1 2 split: prod.split sum.split)
qed

lemma put_backends_keep:
  assumes "\<And>n spec ch d. (n, spec) \<in> set ns \<Longrightarrow> I d \<Longrightarrow> I (snd (put_backend dp perm t present n spec ch d))" "I d"
  shows "I (snd (put_backends dp perm t present ns ch d))"
  using assms
proof (induction ns arbitrary: ch d)
  case (Cons x ns)
  obtain n spec where x: "x = (n, spec)" by fastforce
  obtain r d1 where e: "put_backend dp perm t present n spec ch d = (r, d1)" by fastforce
  have "I (snd (put_backend dp perm t present n spec ch d))" using Cons.prems x by simp
  then have "I d1" by (simp add: e)
  then have "I (snd (put_backends dp perm t present ns ch' d1))" for ch' using Cons.IH Cons.prems(1) by simp
  then show ?case using e \<open>I d1\<close> by (simp add: x split: sum.split)
qed simp

lemma push_backends_keep:
  assumes tx: "\<And>v t. P (TxPost v) \<and> P (TxPut t) \<and> P (TxDelete t)" and q: "P VersionQ" "P BackendsQ" "\<And>b. P (ServersQ b)"
    and del: "\<And>t n. managed n \<Longrightarrow> n \<notin> SpecName ` set specs \<Longrightarrow> P (BackendDelete t n)"
    and post: "\<And>t spec. spec \<in> set specs \<Longrightarrow> P (BackendPost t (backend_of (SpecName spec) spec))"
    and srv: "\<And>t spec s. spec \<in> set specs \<Longrightarrow> s \<in> set (SpecServers spec) \<Longrightarrow>
      P (ServerPost t (SpecName spec) s) \<and> P (ServerPut t (SpecName spec) s)"
    and sdel: "\<And>t spec n. spec \<in> set specs \<Longrightarrow> P (ServerDelete t (SpecName spec) n)"
    and perm: "\<And>ks. set (perm ks) = set ks" and d: "I d"
  shows "I (snd (push_backends dp perm specs d))"
proof -
  have w: "\<exists>spec' \<in> set specs. SpecName spec' = n \<and> spec' = spec"
    if "(n, spec) \<in> set (map (\<lambda>n. (n, the (map_of (wanted specs) n))) (perm (map fst (wanted specs))))" for n spec
    using that wanted_spec [of n specs] wanted_keys [of specs] perm by auto
  have dels: "I (snd (del_backends dp t (map fst (wanted specs)) (perm (remdups (filter managed ns))) ch d))" if "I d" for t ns ch d
    by (rule del_backends_keep) (use that tx del perm wanted_keys [of specs] in auto)
  have puts: "I (snd (put_backends dp perm t present (map (\<lambda>n. (n, the (map_of (wanted specs) n))) (perm (map fst (wanted specs)))) ch d))"
    if "I d" for t present ch d
  proof (rule put_backends_keep [OF _ that])
    fix n spec ch d
    assume "(n, spec) \<in> set (map (\<lambda>n. (n, the (map_of (wanted specs) n))) (perm (map fst (wanted specs))))" and d: "I d"
    then have "spec \<in> set specs" "n = SpecName spec" using w by blast+
    then show "I (snd (put_backend dp perm t present n spec ch d))" using tx q post srv sdel d by (intro put_backend_keep) auto
  qed
  have b: "Backends dp d = (r, d') \<Longrightarrow> I d'" for r d' using queries_keep(3) [OF q(2) d] by simp
  have t: "BeginTx dp d = (r, d') \<Longrightarrow> I d \<Longrightarrow> I d'" for r d d' using BeginTx_keep [OF q(1), of d] tx by simp
  have e: "del_backends dp t (map fst (wanted specs)) (perm (remdups (filter managed ns))) ch d = (r, d') \<Longrightarrow> I d \<Longrightarrow> I d'"
    for t ns ch r d d' using dels [of d t ns ch] by simp
  have p: "put_backends dp perm t present (map (\<lambda>n. (n, the (map_of (wanted specs) n))) (perm (map fst (wanted specs)))) ch d = (r, d') \<Longrightarrow>
      I d \<Longrightarrow> I d'" for t present ch r d d' using puts [of d t present ch] by simp
  have c: "I (snd (CommitTx dp t d))" "I (AbortTx dp t d)" if "I d" for t d using tx_keep tx that by blast+
  show ?thesis unfolding push_backends_def Let_def by (auto simp: c dest!: b t e p split: prod.split sum.split)
qed

end

section \<open>Commits\<close>

text \<open>Every commit was accepted; or the last request is the only one that was not, and the result is an error.\<close>

definition committed :: "(dreq \<times> answer) list \<Rightarrow> bool" where
  "committed l \<longleftrightarrow> (\<forall>t a. (TxPut t, a) \<in> set l \<longrightarrow> accepted a)"

definition committed_but_last :: "(dreq \<times> answer) list \<Rightarrow> bool" where
  "committed_but_last l \<longleftrightarrow> committed l \<or> (\<exists>k t a. l = k @ [(TxPut t, a)] \<and> committed k)"

fun settled :: "'r res \<times> 'd \<times> (dreq \<times> answer) list \<Rightarrow> bool" where
  "settled (Inl e, d, l) = committed_but_last l"
| "settled (Inr x, d, l) = committed l"

interpretation commits: kept_device "logged dp" "\<lambda>rq. \<forall>t. rq \<noteq> TxPut t" "\<lambda>s. committed (snd s)" for dp
  by unfold_locales (auto simp: logged_def committed_def split: prod.splits)

lemma committed_weaken: "committed l \<Longrightarrow> committed_but_last l"
  by (simp add: committed_but_last_def)

text \<open>A push stops at the first error: a law of the successful stages and one of the failed stage.\<close>

lemma stage_stop: "(case fst r of Inl _ \<Rightarrow> J (snd r) | Inr _ \<Rightarrow> I (snd r)) \<Longrightarrow> (\<And>e d. J d \<Longrightarrow> R (f e d)) \<Longrightarrow> (\<And>x d. I d \<Longrightarrow> R (g x d)) \<Longrightarrow>
    R (case r of (Inl e, d) \<Rightarrow> f e d | (Inr x, d) \<Rightarrow> g x d)"
  by (auto split: prod.split sum.split)

lemma stage_stop3: "I (snd (snd r)) \<Longrightarrow> (\<And>e p d. I d \<Longrightarrow> R (f e p d)) \<Longrightarrow> (\<And>x y p d. I d \<Longrightarrow> R (g x y p d)) \<Longrightarrow>
    R (case r of (Inl e, p, d) \<Rightarrow> f e p d | (Inr (x, y), p, d) \<Rightarrow> g x y p d)"
  by (auto split: prod.split sum.split)

lemma stage_stop_last: "I (snd r) \<Longrightarrow> (\<And>x d. I d \<Longrightarrow> R (g x d)) \<Longrightarrow> R (case r of (x, d) \<Rightarrow> g x d)"
  by (auto split: prod.split)

lemma settledI: "committed (snd (snd x)) \<Longrightarrow> settled x"
  by (cases x rule: settled.cases) (simp_all add: committed_weaken)

lemma CommitTx_settled:
  assumes "committed (snd s)"
  shows "settled (CommitTx (logged dp) t s)"
proof -
  obtain a d where p: "dp (fst s) (TxPut t) = (a, d)" by fastforce
  have "committed_but_last (snd s @ [(TxPut t, a)])" using assms by (auto simp: committed_but_last_def)
  moreover have "committed (snd s @ [(TxPut t, a)])" if "accepted a" using assms that by (auto simp: committed_def)
  ultimately show ?thesis
    by (cases a) (auto simp: CommitTx_def do_unit_def do_req_def logged_def p)
qed

lemma Reload_settled:
  assumes "committed (snd s)"
  shows "settled (Reload (logged dp) s)"
proof -
  let ?C = "\<lambda>s. committed (snd s)"
  have "?C (snd (BeginTx (logged dp) s))" by (rule commits.BeginTx_keep) (use assms in simp_all)
  then show ?thesis unfolding Reload_def
    by (intro stage_stop [of ?C _ ?C settled] CommitTx_settled) (simp_all add: settledI split: sum.split)
qed

lemma push_backends_settled:
  assumes "committed (snd s)" and perm: "\<And>ks. set (perm ks) = set ks"
  shows "settled (push_backends (logged dp) perm specs s)"
proof -
  let ?C = "\<lambda>s. committed (snd s)"
  have b: "?C (snd (Backends (logged dp) s))" if "?C s" for s by (rule commits.queries_keep) (use that in simp_all)
  have t: "?C (snd (BeginTx (logged dp) s))" if "?C s" for s by (rule commits.BeginTx_keep) (use that in simp_all)
  have d: "?C (snd (del_backends (logged dp) t w ns ch s))" if "?C s" for t w ns ch s
    by (rule commits.del_backends_keep) (use that in simp_all)
  have p: "?C (snd (put_backends (logged dp) perm t present ns ch s))" if "?C s" for t present ns ch s
    by (rule commits.put_backends_keep) (use that in \<open>auto intro!: commits.put_backend_keep\<close>)
  have ab: "?C (AbortTx (logged dp) t s)" if "?C s" for t s by (rule commits.tx_keep) (use that in simp_all)
  have fin: "settled (if ch then CommitTx (logged dp) t s else (Inr (), AbortTx (logged dp) t s))" if "?C s" for ch t s
    using CommitTx_settled [OF that] ab [OF that, of t] settledI [of "(Inr (), AbortTx (logged dp) t s)"] by simp
  have both: "(case r of Inl _ \<Rightarrow> x | Inr _ \<Rightarrow> x) = x" for r :: "'z res" and x :: bool by (cases r) simp_all
  show ?thesis unfolding push_backends_def Let_def using assms(1)
    by (intro stage_stop [of ?C _ ?C settled]; simp add: both b t d p fin settledI)
qed

lemma pushEdge_settled:
  assumes "committed (snd s)" and perm: "\<And>ks. set (perm ks) = set ks"
  shows "case pushEdge u perm ssl wh (logged dp) des ps s of (r, p, s') \<Rightarrow> settled (r, s')"
proof -
  let ?I = "\<lambda>s. committed (snd s)" and ?J = "\<lambda>s. committed_but_last (snd s)"
  let ?R = "\<lambda>(r, p, s'). settled (r, s')"
  have i: "?I (snd (Info (logged dp) s))" if "?I s" for s by (rule commits.queries_keep) (use that in simp_all)
  have l: "?I (snd (sync_lists u (logged dp) cl s))" if "?I s" for cl s by (rule commits.sync_lists_keep) (use that in simp_all)
  have k: "?I (snd (sync_keys u (logged dp) ks ch s))" if "?I s" for ks ch s by (rule commits.sync_keys_keep) (use that in simp_all)
  have c: "?I (snd (snd (push_certs (logged dp) ssl wh cs ps ll s)))" if "?I s" for cs ps ll s
    by (rule commits.push_certs_keep) (use that in simp_all)
  have m: "?I (snd (sync_all (logged dp) perm ms s))" if "?I s" for ms s by (rule commits.sync_all_keep) (use that in simp_all)
  have rl: "settled (if ch then Reload (logged dp) s else (Inr (), s))" if "?I s" for ch s
    using Reload_settled [OF that] that settledI [of "(Inr (), s)"] by simp
  have stop: "(case fst x of Inl _ \<Rightarrow> ?J (snd x) | Inr _ \<Rightarrow> ?I (snd x))" if "settled x" for x :: "'z res \<times> 'd \<times> (dreq \<times> answer) list"
    using that by (cases x rule: settled.cases) simp_all
  have pb: "settled (push_backends (logged dp) perm specs s)" if "?I s" for specs s by (rule push_backends_settled [OF that perm])
  have weak: "?J s" if "?I s" for s using that by (rule committed_weaken)
  have good: "settled (r, s)" if "?I s" for r :: "unit res" and s by (rule settledI) (use that in simp)
  have fail: "settled (Inl e, s)" if "?J s" for e s using that by (cases s) simp
  show ?thesis unfolding pushEdge_def using assms(1)
    by (intro stage_stop [of ?J _ ?I ?R] stage_stop3 [of ?I _ ?R] stage_stop_last [of ?I _ ?R] stop rl pb settledI; (intro i l k c m)?; simp add: weak fail good)
qed

end
