(* ===== verification/Push_Converges.thy ===== *)
theory Push_Converges
  imports Push_Log
begin

text \<open>
  What the backends section of a push achieves: under the documented behaviour of the
  configuration transactions (\<open>config_device\<close>), a push that returned has made the managed
  backends of the load balancer the wanted ones, and a second push changes nothing.
\<close>

section \<open>Configurations\<close>

text \<open>A configuration: for each name the backend with its settings, and its servers by name.\<close>

type_synonym conf = "string \<Rightarrow> (Backend \<times> (string \<Rightarrow> Server option)) option"

fun tx_of :: "dreq \<Rightarrow> string option" where
  "tx_of (BackendPost t b) = Some t"
| "tx_of (BackendPut t b) = Some t"
| "tx_of (BackendDelete t n) = Some t"
| "tx_of (ServerPost t b s) = Some t"
| "tx_of (ServerPut t b s) = Some t"
| "tx_of (ServerDelete t b n) = Some t"
| "tx_of _ = None"

text \<open>What a request of a transaction does to the configuration it stages.\<close>

fun edit :: "dreq \<Rightarrow> conf \<Rightarrow> conf" where
  "edit (BackendPost t b) c = c(BName b := Some (b, \<lambda>_. None))"
| "edit (BackendPut t b) c = c(BName b := map_option (\<lambda>(_, m). (b, m)) (c (BName b)))"
| "edit (BackendDelete t n) c = c(n := None)"
| "edit (ServerPost t b s) c = c(b := map_option (\<lambda>(k, m). (k, m(SName s := Some s))) (c b))"
| "edit (ServerPut t b s) c = c(b := map_option (\<lambda>(k, m). (k, m(SName s := Some s))) (c b))"
| "edit (ServerDelete t b n) c = c(b := map_option (\<lambda>(k, m). (k, m(n := None))) (c b))"
| "edit _ c = c"

locale config_device =
  fixes dp :: "'d device" and live :: "'d \<Rightarrow> conf" and staged :: "'d \<Rightarrow> string \<Rightarrow> conf"
  assumes reads_keep: "rq \<in> {VersionQ, BackendsQ, ServersQ n} \<Longrightarrow> dp d rq = (a, d') \<Longrightarrow> live d' = live d \<and> staged d' = staged d"
    and backends_ok: "dp d BackendsQ = (Ans st p, d') \<Longrightarrow> st < 300 \<Longrightarrow>
      \<exists>bs. p = PBackends bs \<and> (\<forall>n. n \<in> BName ` set bs \<longleftrightarrow> live d n \<noteq> None)"
    and servers_ok: "dp d (ServersQ n) = (Ans st p, d') \<Longrightarrow> st < 300 \<Longrightarrow> live d n \<noteq> None \<Longrightarrow>
      \<exists>ss. p = PServers ss \<and> distinct (map SName ss) \<and> map_option snd (live d n) = Some (map_of (map (\<lambda>s. (SName s, s)) ss))"
    and begin_ok: "dp d (TxPost v) = (Ans st p, d') \<Longrightarrow> st < 300 \<Longrightarrow>
      \<exists>t. p = PTx t \<and> live d' = live d \<and> staged d' t = live d"
    and edit_ok: "tx_of rq = Some t \<Longrightarrow> dp d rq = (Ans st p, d') \<Longrightarrow> st < 300 \<Longrightarrow>
      live d' = live d \<and> staged d' t = edit rq (staged d t)"
    and commit_ok: "dp d (TxPut t) = (Ans st p, d') \<Longrightarrow> st < 300 \<Longrightarrow> live d' = staged d t"
    and abort_keep: "dp d (TxDelete t) = (a, d') \<Longrightarrow> live d' = live d"

text \<open>
  A server is where it is wanted: address, port, and the weight when one is asked for. What a push owes to a wanted
  backend, from what was there: a new backend is created with the settings and the servers of its specification; an
  existing one keeps its settings, and ends with exactly the wanted servers, each where it is wanted, and each either
  the wanted one in all its fields or one that was there already.
\<close>

definition placed :: "Server \<Rightarrow> Server \<Rightarrow> bool" where
  "placed x s \<longleftrightarrow> Address x = Address s \<and> Port x = Port s \<and> (Weight s = None \<or> Weight x = Weight s)"

definition takes :: "Server option \<Rightarrow> Server \<Rightarrow> Server option \<Rightarrow> bool" where
  "takes old s new \<longleftrightarrow> (\<exists>x. new = Some x \<and> placed x s \<and> (x = s \<or> old = Some x))"

definition delivered :: "(Backend \<times> (string \<Rightarrow> Server option)) option \<Rightarrow> BackendSpec \<Rightarrow>
    (Backend \<times> (string \<Rightarrow> Server option)) option \<Rightarrow> bool" where
  "delivered old spec new \<longleftrightarrow> (\<exists>bk m. new = Some (bk, m) \<and>
     bk = (case old of None \<Rightarrow> backend_of (SpecName spec) spec | Some (b, _) \<Rightarrow> b) \<and>
     (\<forall>s \<in> set (SpecServers spec). takes (case old of None \<Rightarrow> None | Some (_, m0) \<Rightarrow> m0 (SName s)) s (m (SName s))) \<and>
     (\<forall>q. q \<notin> SName ` set (SpecServers spec) \<longrightarrow> m q = None))"

definition agrees :: "Server option \<Rightarrow> Server \<Rightarrow> bool" where
  "agrees x s \<longleftrightarrow> (\<exists>old. x = Some old \<and> placed old s)"

definition backend_agrees :: "(Backend \<times> (string \<Rightarrow> Server option)) option \<Rightarrow> BackendSpec \<Rightarrow> bool" where
  "backend_agrees x spec \<longleftrightarrow> (\<exists>bk m. x = Some (bk, m) \<and> (\<forall>s \<in> set (SpecServers spec). agrees (m (SName s)) s) \<and>
     (\<forall>q. q \<notin> SName ` set (SpecServers spec) \<longrightarrow> m q = None))"

lemma server_differs_iff: "server_differs old s \<longleftrightarrow> \<not> placed old s"
  by (auto simp: server_differs_def placed_def split: option.splits)

lemma placed_self [simp]: "placed s s"
  by (simp add: placed_def)

lemma takes_self [simp]: "takes old s (Some s)"
  by (simp add: takes_def)

lemma takes_agrees: "takes old s new \<Longrightarrow> agrees new s"
  by (auto simp: takes_def agrees_def)

lemma delivered_agrees: "delivered old spec new \<Longrightarrow> backend_agrees new spec"
  unfolding delivered_def backend_agrees_def by (blast intro: takes_agrees)

section \<open>The stages\<close>

context config_device
begin

lemma unit_ok: "do_unit dp rq d = (Inr u, d') \<Longrightarrow> \<exists>st p. dp d rq = (Ans st p, d') \<and> st < 300"
  by (auto simp: do_unit_def do_req_def split: prod.splits sum.splits answer.splits if_splits)

lemma edit_unit:
  "do_unit dp rq d = (Inr u, d') \<Longrightarrow> tx_of rq = Some t \<Longrightarrow> live d' = live d \<and> staged d' t = edit rq (staged d t)"
  using unit_ok edit_ok by blast

lemma del_backends_ok:
  "del_backends dp t w ns ch d = (Inr ch', d') \<Longrightarrow>
   live d' = live d \<and> staged d' t = (\<lambda>n. if n \<in> set ns \<and> n \<notin> set w then None else staged d t n) \<and>
   (\<not> ch' \<longrightarrow> \<not> ch \<and> set ns \<subseteq> set w)"
proof (induction ns arbitrary: ch d)
  case (Cons n ns)
  show ?case
  proof (cases "n \<in> set w")
    case True
    then show ?thesis using Cons by (auto simp: fun_eq_iff)
  next
    case False
    obtain r d1 where e: "do_unit dp (BackendDelete t n) d = (r, d1)" by fastforce
    then have go: "r = Inr ()" "del_backends dp t w ns True d1 = (Inr ch', d')"
      using Cons.prems False by (cases r; simp add: in_tx)+
    then have "live d1 = live d \<and> staged d1 t = (staged d t)(n := None)" using edit_unit e by fastforce
    then show ?thesis using Cons.IH [OF go(2)] False by (auto simp: fun_eq_iff)
  qed
qed simp

lemma create_servers_ok:
  "create_servers dp t b ss d = (Inr u, d') \<Longrightarrow> staged d t b = Some (k, m) \<Longrightarrow>
   live d' = live d \<and> staged d' t = (staged d t)(b := Some (k, \<lambda>q. case map_of (rev (map (\<lambda>s. (SName s, s)) ss)) q of
     None \<Rightarrow> m q | Some s \<Rightarrow> Some s))"
proof (induction ss arbitrary: d m)
  case (Cons s ss)
  obtain r d1 where e: "do_unit dp (ServerPost t b s) d = (r, d1)" by fastforce
  then have go: "r = Inr ()" "create_servers dp t b ss d1 = (Inr u, d')" using Cons.prems(1) by (cases r; simp add: in_tx)+
  then have 1: "live d1 = live d \<and> staged d1 t = (staged d t)(b := Some (k, m(SName s := Some s)))"
    using edit_unit [of "ServerPost t b s" d] e Cons.prems(2) by simp
  then have "staged d1 t b = Some (k, m(SName s := Some s))" by simp
  from Cons.IH [OF go(2) this] 1 show ?case by (auto simp: fun_eq_iff map_add_def split: option.split)
qed (auto simp: fun_eq_iff)

lemma update_servers_ok:
  assumes "update_servers dp t b ss cur ch d = (Inr (ch', left), d')" and "staged d t b = Some (k, m)"
    and "distinct (map SName ss)" and "\<And>s. s \<in> set ss \<Longrightarrow> map_of cur (SName s) = m (SName s)"
  shows "\<exists>m'. live d' = live d \<and> staged d' t = (staged d t)(b := Some (k, m')) \<and> (\<forall>s \<in> set ss. takes (m (SName s)) s (m' (SName s))) \<and>
    (\<forall>q. q \<notin> SName ` set ss \<longrightarrow> m' q = m q) \<and> map_of left = (\<lambda>q. if q \<in> SName ` set ss then None else map_of cur q) \<and>
    (\<not> ch' \<longrightarrow> \<not> ch \<and> m' = m)"
  using assms
proof (induction ss arbitrary: cur ch d m)
  case Nil
  then show ?case by (auto simp: fun_eq_iff)
next
  case (Cons s ss)
  have fresh: "SName s \<notin> SName ` set ss" using Cons.prems(3) by auto
  have step: ?case
    if go: "update_servers dp t b ss (AList.delete (SName s) cur) ch1 d1 = (Inr (ch', left), d')"
      and l: "live d1 = live d" and st: "staged d1 t = (staged d t)(b := Some (k, m1))"
      and m1: "takes (m (SName s)) s (m1 (SName s))" "\<And>q. q \<noteq> SName s \<Longrightarrow> m1 q = m q"
      and c1: "\<not> ch1 \<Longrightarrow> \<not> ch \<and> m1 = m" for ch1 d1 m1
  proof -
    have b1: "staged d1 t b = Some (k, m1)" by (simp add: st)
    have "map_of (AList.delete (SName s) cur) (SName s') = m1 (SName s')" if "s' \<in> set ss" for s'
    proof -
      have "SName s' \<noteq> SName s" using that fresh by (metis imageI)
      then show ?thesis using Cons.prems(4) [of s'] m1(2) [of "SName s'"] that by (simp add: delete_conv')
    qed
    moreover have "distinct (map SName ss)" using Cons.prems(3) by simp
    ultimately obtain m' where m':
      "live d' = live d1" "staged d' t = (staged d1 t)(b := Some (k, m'))" "\<forall>s \<in> set ss. takes (m1 (SName s)) s (m' (SName s))"
      "\<forall>q. q \<notin> SName ` set ss \<longrightarrow> m' q = m1 q"
      "map_of left = (\<lambda>q. if q \<in> SName ` set ss then None else map_of (AList.delete (SName s) cur) q)"
      "\<not> ch' \<longrightarrow> \<not> ch1 \<and> m' = m1" using Cons.IH [OF go b1] by blast
    have "m1 (SName s') = m (SName s')" if "s' \<in> set ss" for s' using that fresh m1(2) by (metis imageI)
    then have "\<forall>s' \<in> set (s # ss). takes (m (SName s')) s' (m' (SName s'))" using m'(3,4) m1(1) fresh by simp
    then show ?thesis by (intro exI [of _ m']) (use m' l st m1 c1 in \<open>auto simp: fun_eq_iff\<close>)
  qed
  show ?case
  proof (cases "map_of cur (SName s)")
    case None
    obtain r d1 where e: "do_unit dp (ServerPost t b s) d = (r, d1)" by fastforce
    then have go: "r = Inr ()" "update_servers dp t b ss (AList.delete (SName s) cur) True d1 = (Inr (ch', left), d')"
      using Cons.prems(1) None by (cases r; simp add: in_tx)+
    then have "live d1 = live d \<and> staged d1 t = (staged d t)(b := Some (k, m(SName s := Some s)))"
      using edit_unit [of "ServerPost t b s" d] e Cons.prems(2) by simp
    then show ?thesis by (intro step [OF go(2), of "m(SName s := Some s)"]) auto
  next
    case (Some old)
    show ?thesis
    proof (cases "server_differs old s")
      case True
      obtain r d1 where e: "do_unit dp (ServerPut t b s) d = (r, d1)" by fastforce
      then have go: "r = Inr ()" "update_servers dp t b ss (AList.delete (SName s) cur) True d1 = (Inr (ch', left), d')"
        using Cons.prems(1) Some True by (cases r; simp add: in_tx)+
      then have "live d1 = live d \<and> staged d1 t = (staged d t)(b := Some (k, m(SName s := Some s)))"
        using edit_unit [of "ServerPut t b s" d] e Cons.prems(2) by simp
      then show ?thesis by (intro step [OF go(2), of "m(SName s := Some s)"]) auto
    next
      case False
      then have go: "update_servers dp t b ss (AList.delete (SName s) cur) ch d = (Inr (ch', left), d')"
        using Cons.prems(1) Some by simp
      have "m (SName s) = Some old" using Cons.prems(4) [of s] Some by simp
      then show ?thesis using False Cons.prems(2)
        by (intro step [OF go, of m]) (auto simp: takes_def server_differs_iff fun_eq_iff)
    qed
  qed
qed

lemma del_servers_ok:
  "del_servers dp t b ns ch d = (Inr ch', d') \<Longrightarrow> staged d t b = Some (k, m) \<Longrightarrow>
   live d' = live d \<and> staged d' t = (staged d t)(b := Some (k, \<lambda>q. if q \<in> set ns then None else m q)) \<and> (\<not> ch' \<longrightarrow> \<not> ch \<and> ns = [])"
proof (induction ns arbitrary: ch d m)
  case (Cons n ns)
  obtain r d1 where e: "do_unit dp (ServerDelete t b n) d = (r, d1)" by fastforce
  then have go: "r = Inr ()" "del_servers dp t b ns True d1 = (Inr ch', d')" using Cons.prems(1) by (cases r; simp add: in_tx)+
  then have 1: "live d1 = live d \<and> staged d1 t = (staged d t)(b := Some (k, m(n := None)))"
    using edit_unit [of "ServerDelete t b n" d] e Cons.prems(2) by simp
  then have "staged d1 t b = Some (k, m(n := None))" by simp
  from Cons.IH [OF go(2) this] 1 show ?case by (auto simp: fun_eq_iff)
qed (auto simp: fun_eq_iff)

lemma Backends_ok: "Backends dp d = (Inr bs, d') \<Longrightarrow>
   live d' = live d \<and> staged d' = staged d \<and> (\<forall>n. n \<in> BName ` set bs \<longleftrightarrow> live d n \<noteq> None)"
  using backends_ok [of d] reads_keep [of BackendsQ _ d]
  by (auto simp: Backends_def do_req_def split: prod.splits sum.splits answer.splits payload.splits if_splits)

lemma Servers_ok: "Servers dp n d = (Inr ss, d') \<Longrightarrow> live d n \<noteq> None \<Longrightarrow>
   live d' = live d \<and> staged d' = staged d \<and> distinct (map SName ss) \<and> map_option snd (live d n) = Some (map_of (map (\<lambda>s. (SName s, s)) ss))"
  using servers_ok [of d n] reads_keep [of "ServersQ n" n d]
  by (auto simp: Servers_def do_req_def split: prod.splits sum.splits answer.splits payload.splits if_splits)

lemma BeginTx_ok: "BeginTx dp d = (Inr t, d') \<Longrightarrow> live d' = live d \<and> staged d' t = live d"
proof -
  assume b: "BeginTx dp d = (Inr t, d')"
  then obtain v d1 where v: "Version dp d = (Inr v, d1)" by (auto simp: BeginTx_def split: prod.splits sum.splits)
  then have 1: "live d1 = live d" using reads_keep [of VersionQ _ d]
    by (auto simp: Version_def do_req_def split: prod.splits answer.splits payload.splits if_splits)
  show ?thesis using b v 1 begin_ok [of d1 v]
    by (auto simp: BeginTx_def do_req_def split: prod.splits answer.splits payload.splits if_splits)
qed

lemma put_backend_ok:
  assumes p: "put_backend dp perm t present n spec ch d = (Inr ch', d')" and perm: "\<And>ks. set (perm ks) = set ks"
    and dis: "distinct (map SName (SpecServers spec))" and n: "n = SpecName spec"
    and present: "n \<in> set present \<longleftrightarrow> live d n \<noteq> None" and same: "staged d t n = live d n"
  shows "\<exists>x. live d' = live d \<and> staged d' t = (staged d t)(n := x) \<and> delivered (live d n) spec x \<and>
    (\<not> ch' \<longrightarrow> \<not> ch \<and> staged d' t = staged d t)"
proof (cases "n \<in> set present")
  case False
  obtain r d1 where e: "do_unit dp (BackendPost t (backend_of n spec)) d = (r, d1)" by fastforce
  then have r: "r = Inr ()" using p False by (cases r; simp add: put_backend_def in_tx)
  then have 1: "live d1 = live d \<and> staged d1 t = (staged d t)(n := Some (backend_of n spec, \<lambda>_. None))"
    using edit_unit [of "BackendPost t (backend_of n spec)" d] e by (simp add: backend_of_def)
  obtain u where c: "create_servers dp t n (SpecServers spec) d1 = (Inr u, d')" and ch: "ch'"
    using p False e r by (auto simp: put_backend_def CreateBackend_def split: prod.splits sum.splits)
  have "staged d1 t n = Some (backend_of n spec, \<lambda>_. None)" using 1 by simp
  note 2 = create_servers_ok [OF c this]
  have "map_of (rev (map (\<lambda>s. (SName s, s)) (SpecServers spec))) (SName s) = Some s" if "s \<in> set (SpecServers spec)" for s
    using that dis by (intro map_of_is_SomeI) (auto simp: rev_map [symmetric] comp_def)
  moreover have "map_of (rev (map (\<lambda>s. (SName s, s)) (SpecServers spec))) q = None" if "q \<notin> SName ` set (SpecServers spec)" for q
    using that by (auto simp: map_of_eq_None_iff)
  moreover have "live d n = None" using False present by blast
  ultimately have "delivered (live d n) spec (Some (backend_of n spec, \<lambda>q. case map_of (rev (map (\<lambda>s. (SName s, s)) (SpecServers spec))) q of
      None \<Rightarrow> None | Some s \<Rightarrow> Some s))"
    by (simp add: delivered_def n)
  then show ?thesis using 1 2 ch by (intro exI conjI) auto
next
  case True
  then obtain bk m0 where l: "live d n = Some (bk, m0)" using present by auto
  obtain ss d1 where s: "Servers dp n d = (Inr ss, d1)"
    using p True by (auto simp: put_backend_def split: prod.splits sum.splits)
  let ?m = "map_of (map (\<lambda>s. (SName s, s)) ss)"
  have 1: "live d1 = live d" "staged d1 = staged d" "distinct (map SName ss)" "m0 = ?m" using Servers_ok [OF s] l by auto
  have cur: "map_of (go_map (map (\<lambda>s. (SName s, s)) ss)) = m0"
    using go_map_props [of "map (\<lambda>s. (SName s, s)) ss"] 1(3,4)
      map_of_inject_set [of "rev (map (\<lambda>s. (SName s, s)) ss)" "map (\<lambda>s. (SName s, s)) ss"]
    by (simp add: rev_map [symmetric] comp_def)
  obtain c left d2 where u: "update_servers dp t n (SpecServers spec) (go_map (map (\<lambda>s. (SName s, s)) ss)) ch d1 = (Inr (c, left), d2)"
      and d: "del_servers dp t n (perm (map fst left)) c d2 = (Inr ch', d')"
    using p True s by (auto simp: put_backend_def split: prod.splits sum.splits)
  have st: "staged d1 t n = Some (bk, m0)" using 1(2) same l by simp
  have pre: "map_of (go_map (map (\<lambda>s. (SName s, s)) ss)) q = m0 q" for q by (simp add: cur)
  obtain m' where 2: "live d2 = live d1" "staged d2 t = (staged d1 t)(n := Some (bk, m'))"
      "\<forall>s \<in> set (SpecServers spec). takes (m0 (SName s)) s (m' (SName s))" "\<forall>q. q \<notin> SName ` set (SpecServers spec) \<longrightarrow> m' q = m0 q"
      "map_of left = (\<lambda>q. if q \<in> SName ` set (SpecServers spec) then None else m0 q)" "\<not> c \<longrightarrow> \<not> ch \<and> m' = m0"
    using update_servers_ok [OF u st dis pre] unfolding cur by blast
  have st2: "staged d2 t n = Some (bk, m')" using 2(2) by simp
  note 3 = del_servers_ok [OF d st2]
  have gone: "q \<in> set (perm (map fst left)) \<longleftrightarrow> q \<notin> SName ` set (SpecServers spec) \<and> m0 q \<noteq> None" for q
    using 2(5) map_of_eq_None_iff [of left q] perm by (auto split: if_splits)
  have "delivered (live d n) spec (Some (bk, \<lambda>q. if q \<in> set (perm (map fst left)) then None else m' q))"
    unfolding delivered_def gone l using 2(3,4) by auto
  moreover have "m' = m0 \<Longrightarrow> perm (map fst left) = [] \<Longrightarrow> (\<lambda>q. if q \<in> set (perm (map fst left)) then None else m' q) = m0" by auto
  ultimately show ?thesis using 1 2(1,2,6) 3 st by (intro exI conjI) (auto simp: fun_eq_iff)
qed

lemma put_backends_ok:
  assumes "put_backends dp perm t present ns ch d = (Inr ch', d')" and perm: "\<And>ks. set (perm ks) = set ks"
    and "distinct (map fst ns)" and "\<And>n spec. (n, spec) \<in> set ns \<Longrightarrow> n = SpecName spec \<and> distinct (map SName (SpecServers spec))"
    and "\<And>n. n \<in> fst ` set ns \<Longrightarrow> (n \<in> set present \<longleftrightarrow> live d n \<noteq> None) \<and> staged d t n = live d n"
  shows "live d' = live d \<and> (\<forall>n. n \<notin> fst ` set ns \<longrightarrow> staged d' t n = staged d t n) \<and>
    (\<forall>(n, spec) \<in> set ns. delivered (live d n) spec (staged d' t n)) \<and> (\<not> ch' \<longrightarrow> \<not> ch \<and> staged d' t = staged d t)"
  using assms(1,3-5)
proof (induction ns arbitrary: ch d)
  case (Cons x ns)
  obtain n spec where x: "x = (n, spec)" by fastforce
  obtain c d1 where p: "put_backend dp perm t present n spec ch d = (Inr c, d1)"
      and go: "put_backends dp perm t present ns c d1 = (Inr ch', d')"
    using Cons.prems(1) x by (auto split: prod.splits sum.splits)
  have fresh: "n \<notin> fst ` set ns" using Cons.prems(2) x by auto
  obtain y where y: "live d1 = live d" "staged d1 t = (staged d t)(n := y)" "delivered (live d n) spec y"
      "\<not> c \<longrightarrow> \<not> ch \<and> staged d1 t = staged d t"
  proof -
    have "n = SpecName spec" "distinct (map SName (SpecServers spec))" using Cons.prems(3) [of n spec] x by auto
    moreover have "n \<in> set present \<longleftrightarrow> live d n \<noteq> None" "staged d t n = live d n" using Cons.prems(4) [of n] x by simp_all
    ultimately show ?thesis using put_backend_ok [OF p perm] that by blast
  qed
  have pre: "(q \<in> set present \<longleftrightarrow> live d1 q \<noteq> None) \<and> staged d1 t q = live d1 q" if "q \<in> fst ` set ns" for q
    using that Cons.prems(4) [of q] y fresh x by auto
  have dis: "distinct (map fst ns)"
    and ss: "\<And>n spec. (n, spec) \<in> set ns \<Longrightarrow> n = SpecName spec \<and> distinct (map SName (SpecServers spec))"
    using Cons.prems(2,3) by auto
  have ih: "live d' = live d1 \<and> (\<forall>n. n \<notin> fst ` set ns \<longrightarrow> staged d' t n = staged d1 t n) \<and>
      (\<forall>(n, spec) \<in> set ns. delivered (live d1 n) spec (staged d' t n)) \<and> (\<not> ch' \<longrightarrow> \<not> c \<and> staged d' t = staged d1 t)"
  proof (rule Cons.IH [OF go dis])
    show "n = SpecName spec \<and> distinct (map SName (SpecServers spec))" if "(n, spec) \<in> set ns" for n spec using that by (rule ss)
    show "(q \<in> set present \<longleftrightarrow> live d1 q \<noteq> None) \<and> staged d1 t q = live d1 q" if "q \<in> fst ` set ns" for q using that by (rule pre)
  qed
  have 1: "staged d' t n = y" using ih y(2) fresh by simp
  have 2: "staged d' t q = staged d t q" if "q \<noteq> n" "q \<notin> fst ` set ns" for q using ih y(2) that by simp
  have 3: "\<not> ch' \<longrightarrow> \<not> ch \<and> staged d' t = staged d t" using ih y(4) by metis
  have 4: "\<forall>(m, s) \<in> set (x # ns). delivered (live d m) s (staged d' t m)" using ih y(1,3) 1 x by simp
  show ?case using ih y(1) 2 3 4 by (simp add: x)
qed simp

end

section \<open>Convergence\<close>

text \<open>The configuration a push aims at: every wanted backend agrees with its specification, no
  other backend has a managed name.\<close>

definition converged :: "BackendSpec list \<Rightarrow> conf \<Rightarrow> bool" where
  "converged specs c \<longleftrightarrow> (\<forall>spec \<in> set specs. backend_agrees (c (SpecName spec)) spec) \<and>
     (\<forall>n. managed n \<and> n \<notin> SpecName ` set specs \<longrightarrow> c n = None)"

text \<open>A list of specifications as the schema of the database guarantees it.\<close>

definition specs_ok :: "BackendSpec list \<Rightarrow> bool" where
  "specs_ok specs \<longleftrightarrow> distinct (map SpecName specs) \<and> (\<forall>spec \<in> set specs. distinct (map SName (SpecServers spec)))"

lemma wanted_all:
  assumes "specs_ok specs" and "spec \<in> set specs"
  shows "map_of (wanted specs) (SpecName spec) = Some spec"
proof -
  obtain spec' where s: "spec' \<in> set specs" "SpecName spec' = SpecName spec" "map_of (wanted specs) (SpecName spec) = Some spec'"
    using wanted_spec [of "SpecName spec" specs] assms(2) by auto
  have "spec' = spec" using s(1,2) assms by (simp add: specs_ok_def distinct_map inj_on_def)
  then show ?thesis using s(3) by simp
qed

definition orders :: "(string list \<Rightarrow> string list) \<Rightarrow> bool" where
  "orders perm \<longleftrightarrow> (\<forall>ks. mset (perm ks) = mset ks)"

lemma orders_set: "orders perm \<Longrightarrow> set (perm ks) = set ks"
  unfolding orders_def by (metis set_mset_mset)

lemma orders_distinct: "orders perm \<Longrightarrow> distinct (perm ks) \<longleftrightarrow> distinct ks"
  unfolding orders_def by (metis mset_eq_imp_distinct_iff)

text \<open>The list that \<open>put_backends\<close> works through.\<close>

definition todo :: "(string list \<Rightarrow> string list) \<Rightarrow> BackendSpec list \<Rightarrow> (string \<times> BackendSpec) list" where
  "todo perm specs = map (\<lambda>n. (n, the (map_of (wanted specs) n))) (perm (map fst (wanted specs)))"

lemma todo_keys: "orders perm \<Longrightarrow> fst ` set (todo perm specs) = SpecName ` set specs"
  using wanted_keys [of specs] by (simp add: todo_def orders_set image_image)

lemma todo_distinct: "orders perm \<Longrightarrow> distinct (map fst (todo perm specs))"
  using go_map_props [of "map (\<lambda>b. (SpecName b, b)) specs"] by (simp add: todo_def orders_distinct comp_def)

lemma todo_mem:
  assumes "orders perm" "specs_ok specs"
  shows "(n, spec) \<in> set (todo perm specs) \<longleftrightarrow> spec \<in> set specs \<and> n = SpecName spec"
proof
  assume "(n, spec) \<in> set (todo perm specs)"
  then have n: "n \<in> SpecName ` set specs" and s: "spec = the (map_of (wanted specs) n)"
    using wanted_keys [of specs] by (auto simp: todo_def orders_set [OF assms(1)] image_image)
  then show "spec \<in> set specs \<and> n = SpecName spec" using wanted_spec [OF n] by auto
next
  assume "spec \<in> set specs \<and> n = SpecName spec"
  then have "n \<in> set (map fst (wanted specs))" "map_of (wanted specs) n = Some spec"
    using wanted_keys [of specs] wanted_all [OF assms(2)] by auto
  then show "(n, spec) \<in> set (todo perm specs)" by (auto simp: todo_def orders_set [OF assms(1)])
qed

context config_device
begin

lemma push_backends_stages:
  assumes "push_backends dp perm specs d = (Inr u, d')"
  obtains bs d1 t d2 ch1 d3 ch2 d4 where "Backends dp d = (Inr bs, d1)" "BeginTx dp d1 = (Inr t, d2)"
    "del_backends dp t (map fst (wanted specs)) (perm (remdups (filter managed (map BName bs)))) False d2 = (Inr ch1, d3)"
    "put_backends dp perm t (remdups (filter managed (map BName bs))) (todo perm specs) ch1 d3 = (Inr ch2, d4)"
    "(if ch2 then CommitTx dp t d4 else (Inr (), AbortTx dp t d4)) = (Inr u, d')"
  using assms by (auto simp: push_backends_def Let_def todo_def split: prod.splits sum.splits)

lemma push_backends_ok:
  assumes p: "push_backends dp perm specs d = (Inr u, d')" and perm: "orders perm" and ok: "specs_ok specs"
    and man: "\<And>spec. spec \<in> set specs \<Longrightarrow> managed (SpecName spec)"
  shows "(\<forall>spec \<in> set specs. delivered (live d (SpecName spec)) spec (live d' (SpecName spec))) \<and>
    (\<forall>n. n \<notin> SpecName ` set specs \<longrightarrow> live d' n = (if managed n then None else live d n))"
proof -
  from push_backends_stages [OF p] obtain bs d1 t d2 ch1 d3 ch2 d4 where b: "Backends dp d = (Inr bs, d1)"
    and t: "BeginTx dp d1 = (Inr t, d2)"
    and e: "del_backends dp t (map fst (wanted specs)) (perm (remdups (filter managed (map BName bs)))) False d2 = (Inr ch1, d3)"
    and a: "put_backends dp perm t (remdups (filter managed (map BName bs))) (todo perm specs) ch1 d3 = (Inr ch2, d4)"
    and f: "(if ch2 then CommitTx dp t d4 else (Inr (), AbortTx dp t d4)) = (Inr u, d')" .
  let ?N = "SpecName ` set specs" and ?present = "remdups (filter managed (map BName bs))"
  have names: "n \<in> set ?present \<longleftrightarrow> managed n \<and> live d n \<noteq> None" for n using Backends_ok [OF b] by auto
  have 2: "live d2 = live d" "staged d2 t = live d" using Backends_ok [OF b] BeginTx_ok [OF t] by auto
  have 3: "live d3 = live d" "staged d3 t = (\<lambda>n. if managed n \<and> n \<notin> ?N then None else live d n)"
    "\<not> ch1 \<longrightarrow> (\<forall>n. managed n \<and> n \<notin> ?N \<longrightarrow> live d n = None)"
  proof -
    have mem: "n \<in> set (perm ?present) \<and> n \<notin> set (map fst (wanted specs)) \<longleftrightarrow> managed n \<and> live d n \<noteq> None \<and> n \<notin> ?N" for n
      unfolding orders_set [OF perm] names wanted_keys by blast
    note r = del_backends_ok [OF e, unfolded mem 2(2) 2(1)]
    show "live d3 = live d" using r by simp
    show "staged d3 t = (\<lambda>n. if managed n \<and> n \<notin> ?N then None else live d n)"
      using r by (auto simp: fun_eq_iff simp del: split_paired_Ex split_paired_All)
    show "\<not> ch1 \<longrightarrow> (\<forall>n. managed n \<and> n \<notin> ?N \<longrightarrow> live d n = None)" using r mem by blast
  qed
  have 4: "live d4 = live d3" "\<And>n. n \<notin> ?N \<Longrightarrow> staged d4 t n = staged d3 t n"
    "\<And>spec. spec \<in> set specs \<Longrightarrow> delivered (live d (SpecName spec)) spec (staged d4 t (SpecName spec))"
    "\<not> ch2 \<longrightarrow> \<not> ch1 \<and> staged d4 t = staged d3 t"
  proof -
    have "n = SpecName spec \<and> distinct (map SName (SpecServers spec))" if "(n, spec) \<in> set (todo perm specs)" for n spec
      using that ok perm by (auto simp: todo_mem specs_ok_def)
    moreover have "(n \<in> set ?present \<longleftrightarrow> live d3 n \<noteq> None) \<and> staged d3 t n = live d3 n" if "n \<in> fst ` set (todo perm specs)" for n
      using that 3 names [of n] todo_keys [OF perm, of specs] man by auto
    ultimately have r: "live d4 = live d3 \<and> (\<forall>n. n \<notin> fst ` set (todo perm specs) \<longrightarrow> staged d4 t n = staged d3 t n) \<and>
        (\<forall>(n, spec) \<in> set (todo perm specs). delivered (live d3 n) spec (staged d4 t n)) \<and> (\<not> ch2 \<longrightarrow> \<not> ch1 \<and> staged d4 t = staged d3 t)"
      by (intro put_backends_ok [OF a orders_set [OF perm] todo_distinct [OF perm]]) auto
    then show "live d4 = live d3" "\<And>n. n \<notin> ?N \<Longrightarrow> staged d4 t n = staged d3 t n" "\<not> ch2 \<longrightarrow> \<not> ch1 \<and> staged d4 t = staged d3 t"
      using todo_keys [OF perm, of specs] by auto
    fix spec assume "spec \<in> set specs"
    then have "(SpecName spec, spec) \<in> set (todo perm specs)" by (simp add: todo_mem [OF perm ok])
    with r 3(1) show "delivered (live d (SpecName spec)) spec (staged d4 t (SpecName spec))" by auto
  qed
  have final: "live d' = staged d4 t"
  proof (cases ch2)
    case True
    then show ?thesis using f unit_ok [of "TxPut t" d4] commit_ok by (auto simp: CommitTx_def)
  next
    case False
    then have "staged d4 t = live d" using 3 4 by (auto simp: fun_eq_iff)
    moreover have "live d' = live d4" using f False abort_keep [of d4 t]
      by (auto simp: AbortTx_def do_req_def split: prod.splits answer.splits)
    ultimately show ?thesis using 3 4 by simp
  qed
  show ?thesis unfolding final using 3(2) 4(2,3) by auto
qed

lemma push_backends_converged:
  assumes "push_backends dp perm specs d = (Inr u, d')" and "orders perm" and "specs_ok specs"
    and "\<And>spec. spec \<in> set specs \<Longrightarrow> managed (SpecName spec)"
  shows "converged specs (live d')"
  using push_backends_ok [OF assms] delivered_agrees by (fastforce simp: converged_def)

lemma update_servers_same:
  "(\<And>s. s \<in> set ss \<Longrightarrow> agrees (map_of cur (SName s)) s) \<Longrightarrow> distinct (map SName ss) \<Longrightarrow>
   \<exists>left. update_servers dp t b ss cur ch d = (Inr (ch, left), d) \<and>
     map_of left = (\<lambda>q. if q \<in> SName ` set ss then None else map_of cur q)"
proof (induction ss arbitrary: cur)
  case (Cons s ss)
  obtain old where old: "map_of cur (SName s) = Some old" "\<not> server_differs old s"
    using Cons.prems(1) [of s] by (auto simp: agrees_def server_differs_iff)
  have "agrees (map_of (AList.delete (SName s) cur) (SName s')) s'" if "s' \<in> set ss" for s'
  proof -
    have "SName s' \<noteq> SName s" using that Cons.prems(2) by (metis distinct.simps(2) imageI list.simps(9) set_map)
    then show ?thesis using Cons.prems(1) [of s'] that by (simp add: delete_conv')
  qed
  moreover have "distinct (map SName ss)" using Cons.prems(2) by simp
  ultimately obtain left where "update_servers dp t b ss (AList.delete (SName s) cur) ch d = (Inr (ch, left), d)"
      "map_of left = (\<lambda>q. if q \<in> SName ` set ss then None else map_of (AList.delete (SName s) cur) q)"
    using Cons.IH by blast
  then show ?case using old by (auto simp: fun_eq_iff delete_conv')
qed (auto simp: fun_eq_iff)

lemma put_backend_same:
  assumes p: "put_backend dp perm t present n spec ch d = (Inr ch', d')" and perm: "orders perm"
    and n: "n \<in> set present" and l: "backend_agrees (live d n) spec" and dis: "distinct (map SName (SpecServers spec))"
  shows "ch' = ch \<and> d' = snd (Servers dp n d)"
proof -
  obtain ss d1 where s: "Servers dp n d = (Inr ss, d1)"
    using p n by (auto simp: put_backend_def split: prod.splits sum.splits)
  let ?m = "map_of (map (\<lambda>s. (SName s, s)) ss)"
  have "live d n \<noteq> None" using l by (auto simp: backend_agrees_def)
  note 1 = Servers_ok [OF s this]
  have cur: "map_of (go_map (map (\<lambda>s. (SName s, s)) ss)) = ?m"
    using go_map_props [of "map (\<lambda>s. (SName s, s)) ss"] 1
      map_of_inject_set [of "rev (map (\<lambda>s. (SName s, s)) ss)" "map (\<lambda>s. (SName s, s)) ss"]
    by (simp add: rev_map [symmetric] comp_def)
  have ag: "agrees (?m (SName s)) s" if "s \<in> set (SpecServers spec)" for s using l 1 that by (auto simp: backend_agrees_def)
  have rest: "?m q = None" if "q \<notin> SName ` set (SpecServers spec)" for q using l 1 that by (auto simp: backend_agrees_def)
  obtain left where u: "update_servers dp t n (SpecServers spec) (go_map (map (\<lambda>s. (SName s, s)) ss)) ch d1 = (Inr (ch, left), d1)"
      "map_of left = (\<lambda>q. if q \<in> SName ` set (SpecServers spec) then None else ?m q)"
    using update_servers_same [of "SpecServers spec" "go_map (map (\<lambda>s. (SName s, s)) ss)" t n ch d1] ag dis unfolding cur by blast
  have "map_of left = (\<lambda>_. None)" using u(2) rest by auto
  then have "left = []" by (cases left) (auto simp: fun_eq_iff split: if_splits)
  then have "perm (map fst left) = []" using orders_set [OF perm, of "[]"] by simp
  then show ?thesis using p n s u(1) by (simp add: put_backend_def)
qed

lemma put_backends_same:
  assumes "put_backends dp perm t present ns ch d = (Inr ch', d')" and perm: "orders perm"
    and "\<And>n spec. (n, spec) \<in> set ns \<Longrightarrow> n \<in> set present \<and> backend_agrees (live d n) spec \<and> distinct (map SName (SpecServers spec))"
  shows "ch' = ch \<and> d' = foldl (\<lambda>d n. snd (Servers dp n d)) d (map fst ns)"
  using assms(1,3)
proof (induction ns arbitrary: ch d)
  case (Cons x ns)
  obtain n spec where x: "x = (n, spec)" by fastforce
  obtain c d1 where p: "put_backend dp perm t present n spec ch d = (Inr c, d1)"
      and go: "put_backends dp perm t present ns c d1 = (Inr ch', d')"
    using Cons.prems(1) x by (auto split: prod.splits sum.splits)
  have 1: "c = ch \<and> d1 = snd (Servers dp n d)" using put_backend_same [OF p perm] Cons.prems(2) [of n spec] x by simp
  have "live d1 = live d"
  proof -
    obtain r where "Servers dp n d = (r, d1)" using 1 by (metis prod.collapse)
    then show ?thesis using reads_keep [of "ServersQ n" n d]
      by (auto simp: Servers_def do_req_def split: prod.splits sum.splits answer.splits payload.splits if_splits)
  qed
  then have "ch' = c \<and> d' = foldl (\<lambda>d n. snd (Servers dp n d)) d1 (map fst ns)"
    using Cons.prems(2) by (intro Cons.IH [OF go]) auto
  then show ?case using 1 x by simp
qed simp

lemma push_backends_same:
  assumes p: "push_backends dp perm specs d = (Inr u, d')" and perm: "orders perm" and ok: "specs_ok specs"
    and c: "converged specs (live d)" and m: "\<And>n. n \<in> SpecName ` set specs \<Longrightarrow> managed n"
  shows "\<exists>d1 t d2. d1 = snd (Backends dp d) \<and> BeginTx dp d1 = (Inr t, d2) \<and>
    d' = AbortTx dp t (foldl (\<lambda>d n. snd (Servers dp n d)) d2 (map fst (todo perm specs)))"
proof -
  from push_backends_stages [OF p] obtain bs d1 t d2 ch1 d3 ch2 d4 where b: "Backends dp d = (Inr bs, d1)"
    and t: "BeginTx dp d1 = (Inr t, d2)"
    and e: "del_backends dp t (map fst (wanted specs)) (perm (remdups (filter managed (map BName bs)))) False d2 = (Inr ch1, d3)"
    and a: "put_backends dp perm t (remdups (filter managed (map BName bs))) (todo perm specs) ch1 d3 = (Inr ch2, d4)"
    and f: "(if ch2 then CommitTx dp t d4 else (Inr (), AbortTx dp t d4)) = (Inr u, d')" .
  have names: "n \<in> set (remdups (filter managed (map BName bs))) \<longleftrightarrow> managed n \<and> live d n \<noteq> None" for n
    using Backends_ok [OF b] by auto
  have skip: "set ns \<subseteq> set w \<Longrightarrow> del_backends dp t w ns ch d = (Inr ch, d)" for w ns ch d by (induction ns) auto
  have "set (perm (remdups (filter managed (map BName bs)))) \<subseteq> set (map fst (wanted specs))"
    unfolding orders_set [OF perm] using names c wanted_keys [of specs] by (auto simp: converged_def)
  from skip [OF this] e have 3: "ch1 = False" "d3 = d2" by auto
  have l: "live d3 = live d" using 3 Backends_ok [OF b] BeginTx_ok [OF t] by simp
  have pre: "n \<in> set (remdups (filter managed (map BName bs))) \<and> backend_agrees (live d3 n) spec \<and> distinct (map SName (SpecServers spec))"
    if "(n, spec) \<in> set (todo perm specs)" for n spec
  proof -
    have s: "spec \<in> set specs" "n = SpecName spec" using that todo_mem [OF perm ok] by auto
    then have "backend_agrees (live d n) spec" using c by (simp add: converged_def)
    moreover from this have "live d n \<noteq> None" by (auto simp: backend_agrees_def)
    ultimately show ?thesis using s m l ok names [of n] by (simp add: specs_ok_def)
  qed
  have "ch2 = ch1 \<and> d4 = foldl (\<lambda>d n. snd (Servers dp n d)) d3 (map fst (todo perm specs))"
    by (rule put_backends_same [OF a perm]) (rule pre)
  then show ?thesis using 3 b t f by auto
qed

end

end
