(* ===== verification/Reconcile_Laws.thy ===== *)
theory Reconcile_Laws
  imports Push_Converges
begin

text \<open>
  The properties of the reconciliation: the requests of a push, its convergence, what a pass
  over all load balancers records, and the hysteresis of the automatic mode. An in-memory
  device with transactions interprets \<open>config_device\<close> and runs the witnesses.
\<close>

section \<open>A device with transactions\<close>

type_synonym cfg = "(string \<times> Backend \<times> (string \<times> Server) list) list"

record cfgdp =
  clive :: cfg
  cstaged :: "(string \<times> cfg) list"

definition servers_in :: "(string \<times> Server) list \<Rightarrow> Server list" where
  "servers_in al = map (\<lambda>(k, s). s\<lparr>SName := k\<rparr>) (AList.clearjunk al)"

definition conf_of :: "cfg \<Rightarrow> conf" where
  "conf_of c = (\<lambda>n. map_option (\<lambda>(b, al). (b, map_of (map (\<lambda>(k, s). (k, s\<lparr>SName := k\<rparr>)) al))) (map_of c n))"

definition staged_in :: "cfgdp \<Rightarrow> string \<Rightarrow> cfg" where
  "staged_in d t = (case map_of (cstaged d) t of None \<Rightarrow> [] | Some c \<Rightarrow> c)"

definition cfg_servers :: "string \<Rightarrow> ((string \<times> Server) list \<Rightarrow> (string \<times> Server) list) \<Rightarrow> cfg \<Rightarrow> cfg" where
  "cfg_servers b f c = (case map_of c b of None \<Rightarrow> c | Some (k, m) \<Rightarrow> AList.update b (k, f m) c)"

fun cfg_edit :: "dreq \<Rightarrow> cfg \<Rightarrow> cfg" where
  "cfg_edit (BackendPost t b) c = AList.update (BName b) (b, []) c"
| "cfg_edit (BackendPut t b) c = (case map_of c (BName b) of None \<Rightarrow> c | Some (_, m) \<Rightarrow> AList.update (BName b) (b, m) c)"
| "cfg_edit (BackendDelete t n) c = AList.delete n c"
| "cfg_edit (ServerPost t b s) c = cfg_servers b (AList.update (SName s) s) c"
| "cfg_edit (ServerPut t b s) c = cfg_servers b (AList.update (SName s) s) c"
| "cfg_edit (ServerDelete t b n) c = cfg_servers b (AList.delete n) c"
| "cfg_edit _ c = c"

definition empty_spec :: BackendSpec where
  "empty_spec = \<lparr>SpecName = [], SpecBalance = [], CheckPath = [], SpecServers = []\<rparr>"

definition mem_cfg :: "cfgdp device" where
  "mem_cfg d rq = (case rq of
     VersionQ \<Rightarrow> (Ans 200 (PInt 1), d)
   | BackendsQ \<Rightarrow> (Ans 200 (PBackends (map (\<lambda>(n, b, _). b\<lparr>BName := n\<rparr>) (clive d))), d)
   | ServersQ n \<Rightarrow> (case map_of (clive d) n of None \<Rightarrow> (Ans 404 PNone, d) | Some (_, al) \<Rightarrow> (Ans 200 (PServers (servers_in al)), d))
   | TxPost v \<Rightarrow> (Ans 201 (PTx ''t1''), d\<lparr>cstaged := AList.update ''t1'' (clive d) (cstaged d)\<rparr>)
   | TxPut t \<Rightarrow> (Ans 202 PNone, d\<lparr>clive := staged_in d t\<rparr>)
   | _ \<Rightarrow> (case tx_of rq of None \<Rightarrow> (Ans 200 PNone, d)
       | Some t \<Rightarrow> (Ans 202 PNone, d\<lparr>cstaged := AList.update t (cfg_edit rq (staged_in d t)) (cstaged d)\<rparr>)))"

lemma map_of_renamed: "map_of (map (\<lambda>(k, s). (k, s\<lparr>SName := k\<rparr>)) al) = (\<lambda>q. map_option (\<lambda>s. s\<lparr>SName := q\<rparr>) (map_of al q))"
  by (induction al) auto

lemma conf_of_edit: "conf_of (cfg_edit rq c) = edit rq (conf_of c)"
  by (cases rq) (auto simp: conf_of_def cfg_servers_def map_of_renamed update_conv' delete_conv' fun_eq_iff split: option.splits)

lemma servers_in_map: "map_of (map (\<lambda>s. (SName s, s)) (servers_in al)) = map_of (map (\<lambda>(k, s). (k, s\<lparr>SName := k\<rparr>)) al)"
proof -
  have "map (\<lambda>s. (SName s, s)) (servers_in al) = map (\<lambda>(k, s). (k, s\<lparr>SName := k\<rparr>)) (AList.clearjunk al)"
    by (auto simp: servers_in_def)
  then show ?thesis by (simp add: map_of_renamed map_of_clearjunk)
qed

lemma servers_in_distinct: "distinct (map SName (servers_in al))"
proof -
  have "map SName (servers_in al) = map fst (AList.clearjunk al)" by (auto simp: servers_in_def)
  then show ?thesis by (simp add: distinct_clearjunk)
qed

interpretation mem_cfg: config_device mem_cfg "\<lambda>d. conf_of (clive d)" "\<lambda>d t. conf_of (staged_in d t)"
proof unfold_locales
  fix rq n and d d' :: cfgdp and a st p v t
  show "rq \<in> {VersionQ, BackendsQ, ServersQ n} \<Longrightarrow> mem_cfg d rq = (a, d') \<Longrightarrow>
      conf_of (clive d') = conf_of (clive d) \<and> (\<lambda>t. conf_of (staged_in d' t)) = (\<lambda>t. conf_of (staged_in d t))"
    by (auto simp: mem_cfg_def split: option.splits)
  have names: "n \<in> fst ` set c \<longleftrightarrow> conf_of c n \<noteq> None" for c :: cfg and n
    using map_of_eq_None_iff [of c n] by (auto simp: conf_of_def)
  have all: "\<forall>n. n \<in> BName ` set (map (\<lambda>(n, b, _). b\<lparr>BName := n\<rparr>) c) \<longleftrightarrow> conf_of c n \<noteq> None" for c
    using names [of _ c] by (simp add: image_image case_prod_beta)
  show "mem_cfg d BackendsQ = (Ans st p, d') \<Longrightarrow> st < 300 \<Longrightarrow>
      \<exists>bs. p = PBackends bs \<and> (\<forall>n. n \<in> BName ` set bs \<longleftrightarrow> conf_of (clive d) n \<noteq> None)"
    using all [of "clive d"]
    by (intro exI [of _ "map (\<lambda>(n, b, _). b\<lparr>BName := n\<rparr>) (clive d)"]) (clarsimp simp: mem_cfg_def)
  show "mem_cfg d (ServersQ n) = (Ans st p, d') \<Longrightarrow> st < 300 \<Longrightarrow> conf_of (clive d) n \<noteq> None \<Longrightarrow>
      \<exists>ss. p = PServers ss \<and> distinct (map SName ss) \<and> map_option snd (conf_of (clive d) n) = Some (map_of (map (\<lambda>s. (SName s, s)) ss))"
    by (auto simp: mem_cfg_def conf_of_def servers_in_map servers_in_distinct split: option.splits)
  show "mem_cfg d (TxPost v) = (Ans st p, d') \<Longrightarrow> st < 300 \<Longrightarrow>
      \<exists>t. p = PTx t \<and> conf_of (clive d') = conf_of (clive d) \<and> conf_of (staged_in d' t) = conf_of (clive d)"
    by (auto simp: mem_cfg_def staged_in_def)
  show "tx_of rq = Some t \<Longrightarrow> mem_cfg d rq = (Ans st p, d') \<Longrightarrow> st < 300 \<Longrightarrow>
      conf_of (clive d') = conf_of (clive d) \<and> conf_of (staged_in d' t) = edit rq (conf_of (staged_in d t))"
    by (cases rq) (auto simp: mem_cfg_def staged_in_def [of "d\<lparr>cstaged := _\<rparr>"] conf_of_edit [symmetric])
  show "mem_cfg d (TxPut t) = (Ans st p, d') \<Longrightarrow> st < 300 \<Longrightarrow> conf_of (clive d') = conf_of (staged_in d t)"
    by (auto simp: mem_cfg_def)
  show "mem_cfg d (TxDelete t) = (a, d') \<Longrightarrow> conf_of (clive d') = conf_of (clive d)"
    by (auto simp: mem_cfg_def)
qed

lemma orders_rev [simp]: "orders rev" by (simp add: orders_def)

lemma mem_cfg_tx: "tx_answers mem_cfg"
  by (auto simp: tx_answers_def mem_cfg_def)

section \<open>One load balancer\<close>

text \<open>C11: Every transaction that a push opens on a load balancer gets exactly one request that ends it, an abort or a
  commit, in the order they were opened, whichever request fails, including those of the reload after a key rotation.
  A commit whose answer does not accept it is the last request of its push, and the push returns an error; so a push
  that returns without one has had all its commits accepted. (The code aborts on every other error, and neither aborts
  after a refused commit nor looks at the answer to an abort.)\<close>

theorem push_ends_transactions:
  assumes "tx_answers dp" and "orders perm" and "pushEdge u perm ssl wh (logged dp) des ps (d, []) = (r, ps', d', l)"
  shows "opened l = ended l \<and> (\<forall>t a. (TxPut t, a) \<in> set l \<and> \<not> accepted a \<longrightarrow> last l = (TxPut t, a) \<and> (\<exists>e. r = Inl e))"
proof
  show "opened l = ended l"
    using pushEdge_balanced [OF assms(1), of "(d, [])" u perm ssl wh des ps] assms(3)
    by (simp add: balanced_def tr_def opened_def ended_def)
  have "committed (snd (d, [] :: (dreq \<times> answer) list))" by (simp add: committed_def)
  from pushEdge_settled [OF this, where perm = perm and dp = dp and u = u and ssl = ssl and wh = wh and des = des and ps = ps]
  have "settled (r, d', l)" using orders_set [OF assms(2)] assms(3) by simp
  then show "\<forall>t a. (TxPut t, a) \<in> set l \<and> \<not> accepted a \<longrightarrow> last l = (TxPut t, a) \<and> (\<exists>e. r = Inl e)"
    by (cases r) (auto simp: committed_but_last_def committed_def)
qed

definition demo_spec :: BackendSpec where
  "demo_spec = \<lparr>SpecName = ''bk_acme__web'', SpecBalance = ''roundrobin'', CheckPath = ''/'',
     SpecServers = [\<lparr>SName = ''s1'', Address = ''10.0.0.1'', Port = 80, Weight = Some 100, Maxconn = None, SCheck = ''enabled''\<rparr>]\<rparr>"

definition demo_desired :: Desired where
  "demo_desired = empty_desired\<lparr>Backends_d := [demo_spec], PassPub := ''k'', PassPrevPub := ''k''\<rparr>"

text \<open>An edge with a managed backend that is no longer wanted and one written by hand.\<close>

definition demo_cfg :: cfgdp where
  "demo_cfg = \<lparr>clive = [(''bk_old__x'', backend_of ''bk_old__x'' empty_spec, []), (''stats'', backend_of ''stats'' empty_spec, [])], cstaged = []\<rparr>"

definition demo_push :: "unit res \<times> pushed \<times> cfgdp \<times> (dreq \<times> answer) list" where
  "demo_push = pushEdge id rev ''/ssl'' ''w'' (logged mem_cfg) demo_desired [] (demo_cfg, [])"

theorem push_ends_transactions_witness:
  "\<exists>r ps' d' l. demo_push = (r, ps', d', l) \<and> opened l = ended l"
proof -
  obtain r ps' d' l where p: "demo_push = (r, ps', d', l)" by (metis prod.exhaust)
  have "opened l = ended l" using push_ends_transactions [OF mem_cfg_tx orders_rev p [unfolded demo_push_def]] by (rule conjunct1)
  with p show ?thesis by (intro exI conjI)
qed

lemma demo_push_log:
  "case demo_push of (r, _, _, l) \<Rightarrow> r = Inr () \<and> BackendDelete ''t1'' ''bk_old__x'' \<in> fst ` set l \<and> opened l = [''t1'', ''t1'']"
  by code_simp

text \<open>A load balancer that refuses a commit keeps the transaction: the push ends there, without aborting it.\<close>

definition refusing_cfg :: "cfgdp device" where
  "refusing_cfg d rq = (case rq of TxPut t \<Rightarrow> (Ans 409 PNone, d) | _ \<Rightarrow> mem_cfg d rq)"

lemma refused_commit_is_left_open:
  "case push_backends (logged refusing_cfg) rev [demo_spec] (demo_cfg, []) of (r, d', l) \<Rightarrow>
     r = Inl (EApi 409) \<and> last l = (TxPut ''t1'', Ans 409 PNone) \<and> TxDelete ''t1'' \<notin> fst ` set l"
  by code_simp

text \<open>C29: A push deletes only backends whose name is managed and that are no longer wanted,
  creates only wanted ones, never replaces a backend, and touches servers of wanted backends only:
  what an operator wrote into HAProxy by hand stays.\<close>

theorem push_touches_managed_only:
  assumes "orders perm" and "pushEdge u perm ssl wh (logged dp) des ps (d, []) = (r, ps', d', l)" and "(rq, a) \<in> set l"
  shows "allowed (Backends_d des) rq"
proof -
  let ?I = "\<lambda>s :: 'a \<times> (dreq \<times> answer) list. \<forall>e \<in> set (snd s). allowed (Backends_d des) (fst e)"
  have "?I (snd (snd (pushEdge u perm ssl wh (logged dp) des ps (d, []))))"
  proof (rule pushEdge_stages)
    show "?I (d, [])" by simp
    fix s assume i: "?I s"
    show "?I (snd (Info (logged dp) s))" by (rule log.queries_keep) (use i in auto)
    show "?I (snd (snd (push_certs (logged dp) ssl wh (Certs_d des) ps ([], []) s)))" by (rule log.push_certs_keep) (use i in auto)
    show "?I (snd (sync_lists u (logged dp) cl s))" for cl by (rule log.sync_lists_keep) (use i in auto)
    show "?I (snd (sync_keys u (logged dp) ks False s))" for ks by (rule log.sync_keys_keep) (use i in auto)
    show "?I (snd (Reload (logged dp) s))" by (rule log.Reload_keep) (use i in auto)
    show "?I (snd (push_backends (logged dp) perm (Backends_d des) s))"
      by (rule log.push_backends_keep) (use i orders_set [OF assms(1)] in \<open>auto simp: backend_of_def\<close>)
    show "?I (snd (sync_all (logged dp) perm ms s))" for ms by (rule log.sync_all_keep) (use i in auto)
  qed
  then show ?thesis using assms(2,3) by auto
qed

theorem push_touches_managed_only_witness:
  "\<exists>r ps' d' l. demo_push = (r, ps', d', l) \<and> BackendDelete ''t1'' ''bk_old__x'' \<in> fst ` set l \<and>
     allowed (Backends_d demo_desired) (BackendDelete ''t1'' ''bk_old__x'')"
proof -
  obtain r ps' d' l where p: "demo_push = (r, ps', d', l)" by (metis prod.exhaust)
  have "BackendDelete ''t1'' ''bk_old__x'' \<in> fst ` set l" using demo_push_log unfolding p by simp
  then obtain a where a: "(BackendDelete ''t1'' ''bk_old__x'', a) \<in> set l" by force
  from push_touches_managed_only [OF orders_rev p [unfolded demo_push_def] a] p \<open>_ \<in> fst ` set l\<close> show ?thesis by blast
qed

text \<open>C5: A push of the backends that returned has delivered them. On the load balancer every wanted backend has
  exactly the wanted servers, each at the wanted address, port and weight; a backend that was not there has the
  settings of its specification and its servers in all their fields; one that was there keeps its own settings, and a
  server in it is the wanted one in all its fields or one it already had. Every other backend with a managed name is
  gone, and every unmanaged one is as it was. Under the documented behaviour of transactions, for distinct managed
  names, and whatever order Go ranges over its maps.\<close>

theorem push_backends_converges:
  assumes "config_device dp live staged" and "orders perm" and "specs_ok specs"
    and "\<And>spec. spec \<in> set specs \<Longrightarrow> managed (SpecName spec)"
    and "push_backends dp perm specs d = (Inr u, d')"
  shows "(\<forall>spec \<in> set specs. \<exists>bk m. live d' (SpecName spec) = Some (bk, m) \<and>
      dom m = SName ` set (SpecServers spec) \<and>
      (\<forall>s \<in> set (SpecServers spec). \<exists>x. m (SName s) = Some x \<and> Address x = Address s \<and> Port x = Port s \<and>
         (Weight s = None \<or> Weight x = Weight s)) \<and>
      (case live d (SpecName spec) of
         None \<Rightarrow> bk = backend_of (SpecName spec) spec \<and> (\<forall>s \<in> set (SpecServers spec). m (SName s) = Some s)
       | Some (bk0, m0) \<Rightarrow> bk = bk0 \<and> (\<forall>s \<in> set (SpecServers spec). m (SName s) = Some s \<or> m (SName s) = m0 (SName s)))) \<and>
    (\<forall>n. n \<notin> SpecName ` set specs \<longrightarrow> live d' n = (if managed n then None else live d n))"
proof -
  note D = config_device.push_backends_ok [OF assms(1,5,2,3,4)]
  show ?thesis
  proof (intro conjI ballI)
    fix spec assume "spec \<in> set specs"
    with D obtain bk m where n: "live d' (SpecName spec) = Some (bk, m)"
      and b: "bk = (case live d (SpecName spec) of None \<Rightarrow> backend_of (SpecName spec) spec | Some (b, _) \<Rightarrow> b)"
      and t: "\<And>s. s \<in> set (SpecServers spec) \<Longrightarrow> takes (case live d (SpecName spec) of None \<Rightarrow> None | Some (_, m0) \<Rightarrow> m0 (SName s)) s (m (SName s))"
      and o': "\<And>q. q \<notin> SName ` set (SpecServers spec) \<Longrightarrow> m q = None" unfolding delivered_def by blast
    have dm: "dom m = SName ` set (SpecServers spec)"
    proof
      show "dom m \<subseteq> SName ` set (SpecServers spec)" using o' by fastforce
      show "SName ` set (SpecServers spec) \<subseteq> dom m" using t by (auto simp: takes_def)
    qed
    show "\<exists>bk m. live d' (SpecName spec) = Some (bk, m) \<and> dom m = SName ` set (SpecServers spec) \<and>
      (\<forall>s \<in> set (SpecServers spec). \<exists>x. m (SName s) = Some x \<and> Address x = Address s \<and> Port x = Port s \<and>
         (Weight s = None \<or> Weight x = Weight s)) \<and>
      (case live d (SpecName spec) of
         None \<Rightarrow> bk = backend_of (SpecName spec) spec \<and> (\<forall>s \<in> set (SpecServers spec). m (SName s) = Some s)
       | Some (bk0, m0) \<Rightarrow> bk = bk0 \<and> (\<forall>s \<in> set (SpecServers spec). m (SName s) = Some s \<or> m (SName s) = m0 (SName s)))"
      by (intro exI conjI, rule n, rule dm) (use t b in \<open>fastforce simp: takes_def placed_def split: option.splits\<close>)+
  qed (use D in blast)
qed

definition demo_backends :: "cfgdp \<Rightarrow> unit res \<times> cfgdp" where
  "demo_backends d = push_backends mem_cfg rev [demo_spec] d"

lemma demo_backends_ok: "res_ok (demo_backends demo_cfg)"
  by code_simp

lemma demo_specs_ok: "specs_ok [demo_spec]"
  by code_simp

lemma demo_managed: "spec \<in> set [demo_spec] \<Longrightarrow> managed (SpecName spec)"
  by (auto simp: demo_spec_def managed_def) code_simp


theorem push_backends_converges_witness:
  "\<exists>d' m. demo_backends demo_cfg = (Inr (), d') \<and>
     conf_of (clive d') ''bk_acme__web'' = Some (backend_of ''bk_acme__web'' demo_spec, m) \<and> m ''s1'' = Some (hd (SpecServers demo_spec)) \<and>
     conf_of (clive d') ''bk_old__x'' = None \<and> conf_of (clive d') ''stats'' = conf_of (clive demo_cfg) ''stats''"
proof -
  from res_ok_ex [OF demo_backends_ok] obtain u d' where p: "demo_backends demo_cfg = (Inr u, d')" by blast
  have n: "\<not> managed ''stats''" "managed ''bk_old__x''" "SpecName demo_spec = ''bk_acme__web''"
    "SpecServers demo_spec = [hd (SpecServers demo_spec)]" "SName (hd (SpecServers demo_spec)) = ''s1''"
    "conf_of (clive demo_cfg) ''bk_acme__web'' = None" by code_simp+
  note C = push_backends_converges [OF mem_cfg.config_device_axioms orders_rev demo_specs_ok demo_managed p [unfolded demo_backends_def]]
  from C n obtain m where m: "conf_of (clive d') ''bk_acme__web'' = Some (backend_of ''bk_acme__web'' demo_spec, m)"
    "\<forall>s \<in> set (SpecServers demo_spec). m (SName s) = Some s" by auto
  have "m ''s1'' = Some (hd (SpecServers demo_spec))" using m(2) n(4,5) by (metis list.set_intros(1))
  moreover have "conf_of (clive d') ''bk_old__x'' = None" "conf_of (clive d') ''stats'' = conf_of (clive demo_cfg) ''stats''"
    using C n(1,2,3) by auto
  ultimately show ?thesis using p m(1) by auto
qed






section \<open>All load balancers\<close>

lemma set_row_name [simp]: "e_name (set_row n res h row) = e_name row"
  by (cases res) (auto simp: set_row_def)

text \<open>A row after a pass: the desired hash, and either success with the hash as the current one, or
  an error.\<close>

definition recorded :: "string \<Rightarrow> edge_row \<Rightarrow> bool" where
  "recorded h row \<longleftrightarrow> e_desired row = Some h \<and>
     (e_status row = Some ''ok'' \<and> e_error row = None \<and> e_config row = Some h \<or>
      e_status row = Some ''error'' \<and> e_error row \<noteq> None)"

lemma set_row_recorded: "e_name row = n \<or> recorded h row \<Longrightarrow> recorded h (set_row n res h row)"
  by (cases res) (auto simp: set_row_def recorded_def)

lemma set_row_other: "e_name row \<noteq> n \<Longrightarrow> set_row n res h row = row"
  by (simp add: set_row_def)

lemma push_edges_rows:
  "push_edges u perm dps des es r g d = (r', g', d') \<Longrightarrow>
   \<exists>F. edge_rows g' = map F (edge_rows g) \<and> edges r' = edges r \<and>
     (\<forall>row. e_name (F row) = e_name row \<and> (e_name row \<notin> EName ` set es \<longrightarrow> F row = row) \<and>
        (e_name row \<in> EName ` set es \<or> recorded (Hash des) row \<longrightarrow> recorded (Hash des) (F row)))"
proof (induction es arbitrary: r g d)
  case Nil
  then show ?case by (intro exI [of _ id]) auto
next
  case (Cons e es)
  obtain res ps d1 where p: "pushEdge u perm (sslDir r) (waitHost r) (dps (EURL e)) des (pushed_of r (EName e)) d = (res, ps, d1)"
    by (metis prod.exhaust)
  let ?S = "set_row (EName e) res (Hash des)"
  obtain F where F: "edge_rows g' = map F (map ?S (edge_rows g))" "edges r' = edges r"
    "\<And>row. e_name (F row) = e_name row \<and> (e_name row \<notin> EName ` set es \<longrightarrow> F row = row) \<and>
        (e_name row \<in> EName ` set es \<or> recorded (Hash des) row \<longrightarrow> recorded (Hash des) (F row))"
    using Cons.prems Cons.IH p by (auto split: prod.splits) fastforce
  have "e_name (F (?S row)) = e_name row \<and> (e_name row \<notin> EName ` set (e # es) \<longrightarrow> F (?S row) = row) \<and>
        (e_name row \<in> EName ` set (e # es) \<or> recorded (Hash des) row \<longrightarrow> recorded (Hash des) (F (?S row)))" for row
    using F(3) [of "?S row"] set_row_recorded [of row "EName e" "Hash des" res] set_row_other [of row "EName e" res "Hash des"] by auto
  then show ?case using F(1,2) by (intro exI [of _ "F \<circ> ?S"]) auto
qed

lemma push_rooms_rows: "push_rooms http q cs g w = (g', w') \<Longrightarrow> edge_rows g' = edge_rows g"
  by (induction cs arbitrary: g w) (auto split: prod.splits sum.splits)

lemma Once_rows:
  assumes "Once u perm dps http tp ver (Inr des) r g w d = (r', g', w', d')"
  shows "\<exists>F. edge_rows g' = map F (edge_rows g) \<and> (\<forall>row \<in> set (edge_rows g). e_name (F row) = e_name row \<and>
     (if e_name row \<in> set (EdgeNames r') then recorded (Hash des) (F row) else F row = row))"
proof -
  let ?r = "reloadTopology tp r"
  obtain g1 w1 where q: "push_rooms http (queue_c ?r) (map (\<lambda>i. (i, the (map_of (Queue_d des) i))) (perm (map fst (Queue_d des)))) g w = (g1, w1)"
    by fastforce
  obtain r2 g2 d2 where p: "push_edges u perm dps des (edges ?r) ?r g1 d = (r2, g2, d2)" by (metis prod.exhaust)
  have o: "edge_rows g' = edge_rows g2" "edges r' = edges r2"
    using assms q p by (auto simp: Once_def Let_def)
  from push_edges_rows [OF p] obtain F where F: "edge_rows g2 = map F (edge_rows g1)" "edges r2 = edges ?r"
    "\<And>row. e_name (F row) = e_name row \<and> (e_name row \<notin> EName ` set (edges ?r) \<longrightarrow> F row = row) \<and>
        (e_name row \<in> EName ` set (edges ?r) \<or> recorded (Hash des) row \<longrightarrow> recorded (Hash des) (F row))" by blast
  show ?thesis by (rule exI [of _ F]) (use F push_rooms_rows [OF q] in \<open>simp add: o EdgeNames_def\<close>)
qed

definition demo_down :: "string \<Rightarrow> cfgdp device" where
  "demo_down url = (if url = ''u1'' then (\<lambda>d rq. (Lost, d)) else mem_cfg)"

definition demo_topology :: topology where
  "demo_topology = \<lparr>Sync_r = SyncOk, Edges_r = Inr [\<lparr>EName = ''a'', EURL = ''u1''\<rparr>, \<lparr>EName = ''b'', EURL = ''u2''\<rparr>], Hosts_r = Inr []\<rparr>"

definition demo_rows :: pg where
  "demo_rows = \<lparr>edge_rows = map (\<lambda>n. \<lparr>e_name = n, e_status = None, e_error = None, e_config = None, e_desired = None\<rparr>)
     [''a'', ''b'', ''gone''], queue_error = None\<rparr>"

definition demo_once :: "Reconciler \<times> pg \<times> unit \<times> cfgdp" where
  "demo_once = Once id rev demo_down (\<lambda>w rq. (HLost, w)) demo_topology (Some 3) (Inr demo_desired)
     (New_reconciler (New_queue_client [] ''t'')) demo_rows () demo_cfg"

section \<open>Automatic mode\<close>

text \<open>Between inverted thresholds the mode leaves the queue and enters it in turn.\<close>

lemma auto_oscillates:
  "0 < on \<Longrightarrow> on < n \<Longrightarrow> n < off \<Longrightarrow> auto_next on off n ''queue'' = ''open'' \<and> auto_next on off n ''open'' = ''queue''"
  by (simp add: auto_next_def)

lemma auto_next_stable: "off \<le> on + 1 \<Longrightarrow> auto_next on off n (auto_next on off n eff) = auto_next on off n eff"
  by (auto simp: auto_next_def)

text \<open>Between two passes the sessions are measured again; \<open>steady\<close> says they are the same.\<close>

definition steady :: "(string \<Rightarrow> 'd device) \<Rightarrow> (string \<Rightarrow> string \<Rightarrow> int res) \<Rightarrow> bool" where
  "steady dps f \<longleftrightarrow> (\<forall>url bk d. BackendSessions (dps url) bk d = (f url bk, d))"

lemma steady_sum:
  assumes "steady dps f"
  shows "\<exists>acc'. \<forall>d. sum_sessions dps bk es acc d = (acc', d)"
proof (induction es arbitrary: acc)
  case (Cons e es)
  show ?case using assms Cons.IH [of "case f (EURL e) bk of Inl _ \<Rightarrow> acc | Inr n \<Rightarrow> (fst acc + n, Suc (snd acc))"]
    by (cases acc; cases "f (EURL e) bk") (simp_all add: steady_def)
qed simp

lemma auto_room_twice:
  assumes "steady dps f" and "r_auto_off x \<le> r_auto_on x + 1" and "auto_room dps upd x bk r d = (x1, r1, d1)"
    and "edges r' = edges r"
  shows "auto_room dps upd x1 bk r' d' = (x1, r', d') \<and> edges r1 = edges r \<and> d1 = d \<and> r_state x1 = r_state x \<and>
    r_tenant x1 = r_tenant x \<and> r_backend x1 = r_backend x"
proof -
  obtain n ok where s: "\<And>d. sum_sessions dps bk (edges r) (0, 0) d = ((n, ok), d)"
    using steady_sum [OF assms(1), of bk "edges r" "(0, 0)"] by (metis prod.exhaust)
  show ?thesis using assms(2-4) s auto_next_stable [of "r_auto_off x" "r_auto_on x" n "r_effective x"]
    by (auto simp: auto_room_def Let_def Kick_def split: if_splits)
qed

lemma auto_rooms_twice:
  assumes "steady dps f" and "\<And>x. x \<in> set xs \<Longrightarrow> r_auto_off x \<le> r_auto_on x + 1"
    and "auto_rooms dps upd db xs r d = (xs1, r1, d1)" and "edges r' = edges r"
  shows "auto_rooms dps upd db xs1 r' d' = (xs1, r', d') \<and> edges r1 = edges r \<and> d1 = d"
  using assms(2-4)
proof (induction xs arbitrary: r d xs1 r1 d1 r' d')
  case (Cons x xs)
  obtain x1 r0 d0 where h: "(case auto_backend db x of None \<Rightarrow> (x, r, d) | Some bk \<Rightarrow> auto_room dps upd x bk r d) = (x1, r0, d0)"
    by (metis prod.exhaust)
  obtain xs2 where t: "auto_rooms dps upd db xs r0 d0 = (xs2, r1, d1)" "xs1 = x1 # xs2"
    using Cons.prems(2) h by (auto split: prod.splits)
  have e: "edges r0 = edges r \<and> d0 = d \<and> (case auto_backend db x1 of None \<Rightarrow> (x1, r', d') | Some bk \<Rightarrow> auto_room dps upd x1 bk r' d') = (x1, r', d')"
  proof (cases "auto_backend db x")
    case (Some bk)
    then have a: "auto_room dps upd x bk r d = (x1, r0, d0)" using h by simp
    from auto_room_twice [OF assms(1) _ a Cons.prems(3), of d'] Cons.prems(1) [of x]
    have t: "auto_room dps upd x1 bk r' d' = (x1, r', d')" and e: "edges r0 = edges r" "d0 = d"
      and "r_state x1 = r_state x" "r_tenant x1 = r_tenant x" "r_backend x1 = r_backend x" by auto
    then have "auto_backend db x1 = Some bk" using Some by (simp only: auto_backend_def)
    then show ?thesis using t e by simp
  qed (use h in auto)
  have "auto_rooms dps upd db xs2 r' d' = (xs2, r', d') \<and> edges r1 = edges r0 \<and> d1 = d0"
    using Cons.IH [OF _ t(1)] Cons.prems(1,3) e by auto
  then show ?case using e t(2) by simp
qed simp

text \<open>C39: For thresholds in order, the automatic mode has a hysteresis: when in every room the threshold to leave the
  queue is at most one above the one to enter it, and the measured sessions stay the same, a second pass changes no
  room and asks for no push. (The lemma \<open>auto_oscillates\<close> shows a room with inverted thresholds, which the code lets
  through when a room is switched to the mode, and that changes at every pass.)\<close>

theorem RunAuto_stable:
  assumes "steady dps f" and "\<And>x. x \<in> set (rooms_t db) \<Longrightarrow> r_auto_off x \<le> r_auto_on x + 1"
    and "RunAuto_step dps upd db r d = (db1, r1, d1)"
  shows "RunAuto_step dps upd db1 (r1\<lparr>kick := False\<rparr>) d1 = (db1, r1\<lparr>kick := False\<rparr>, d1)"
proof -
  obtain xs where a: "auto_rooms dps upd db (rooms_t db) r d = (xs, r1, d1)" "db1 = db\<lparr>rooms_t := xs\<rparr>"
    using assms(3) by (auto simp: RunAuto_step_def split: prod.splits)
  have ab: "auto_backend (db\<lparr>rooms_t := xs\<rparr>) = auto_backend db"
    by (rule ext) (simp add: auto_backend_def tenant_slug_def cong: option.case_cong)
  have "auto_rooms dps upd db' ys r d = auto_rooms dps upd db ys r d" if "auto_backend db' = auto_backend db" for db' ys r d
    using that by (induction ys arbitrary: r d) (auto split: prod.split option.split)
  note cong = this [OF ab]
  from auto_rooms_twice [OF assms(1,2) a(1), of "r1\<lparr>kick := False\<rparr>" d1] a(1)
  have "edges r1 = edges r" using auto_rooms_twice [OF assms(1,2) a(1), of r d] by simp
  then show ?thesis using auto_rooms_twice [OF assms(1,2) a(1), of "r1\<lparr>kick := False\<rparr>" d1]
    by (auto simp: RunAuto_step_def a(2) cong)
qed

definition demo_stats :: "unit device" where
  "demo_stats d rq = (Ans 200 (PStats [[(''bk_acme__web'', ''backend'', 150)]]), d)"

definition demo_auto_db :: tables where
  "demo_auto_db = demo_db\<lparr>rooms_t := map (\<lambda>x. x\<lparr>r_state := ''auto'', r_effective := ''open'', r_auto_on := 100, r_auto_off := 50\<rparr>)
     (rooms_t demo_db)\<rparr>"

definition demo_auto :: "tables \<times> Reconciler \<times> unit" where
  "demo_auto = RunAuto_step (\<lambda>_. demo_stats) (\<lambda>_. True) demo_auto_db
     ((New_reconciler (New_queue_client [] ''t''))\<lparr>edges := [\<lparr>EName = ''a'', EURL = ''u''\<rparr>]\<rparr>) ()"

lemma demo_auto_switches: "(case demo_auto of (db1, r1, _) \<Rightarrow> map r_effective (rooms_t db1) = [''queue''] \<and> kick r1)"
  by code_simp

theorem RunAuto_stable_witness:
  "\<exists>db1 r1 d1. demo_auto = (db1, r1, d1) \<and> map r_effective (rooms_t db1) = [''queue''] \<and> kick r1 \<and>
     RunAuto_step (\<lambda>_. demo_stats) (\<lambda>_. True) db1 (r1\<lparr>kick := False\<rparr>) d1 = (db1, r1\<lparr>kick := False\<rparr>, d1)"
proof -
  obtain db1 r1 d1 where p: "demo_auto = (db1, r1, d1)" by (metis prod.exhaust)
  have s: "steady (\<lambda>_. demo_stats) (\<lambda>_ bk. Inr (if bk = ''bk_acme__web'' then 150 else 0))"
    by (auto simp: steady_def demo_stats_def BackendSessions_def do_req_def)
  have h: "r_auto_off x \<le> r_auto_on x + 1" if "x \<in> set (rooms_t demo_auto_db)" for x
    using that by (auto simp: demo_auto_db_def)
  from RunAuto_stable [OF s h p [unfolded demo_auto_def]] demo_auto_switches p show ?thesis unfolding p by auto
qed

end
