(* ===== verification/Reconcile_Metrics.thy ===== *)
theory Reconcile_Metrics
  imports Reconcile_Laws
begin

text \<open>
  The gauges of control/internal/reconcile/reconcile.go: \<open>NewMetrics\<close> and \<open>updateMetrics\<close>, which a pass calls at its end.
  A family of gauges is a map from its labels to the last value set. The registry of Prometheus only reads them.
\<close>

section \<open>Gauges\<close>

record gauges =
  G_sync :: "string \<rightharpoonup> int"
  G_expiry :: "string \<rightharpoonup> int"
  G_status :: "string \<times> string \<rightharpoonup> int"
  G_rooms :: "string \<rightharpoonup> int"

definition NewMetrics :: gauges where
  "NewMetrics = \<lparr>G_sync = Map.empty, G_expiry = Map.empty, G_status = Map.empty, G_rooms = Map.empty\<rparr>"

text \<open>A query that is refused brings no row, one whose connection breaks the first ones; nobody looks at the error.\<close>

definition arrived :: "delivery \<Rightarrow> 'x list \<Rightarrow> 'x list" where
  "arrived c rs = (case c of Refused \<Rightarrow> [] | Broken n \<Rightarrow> take n rs | Full \<Rightarrow> rs)"

fun sync_gauges :: "edge_row list \<Rightarrow> gauges \<Rightarrow> gauges" where
  "sync_gauges [] G = G"
| "sync_gauges (row # rows) G = sync_gauges rows (G\<lparr>G_sync := (G_sync G)(e_name row \<mapsto> (if EdgeInSync row then 1 else 0))\<rparr>)"

fun cert_gauges :: "cert_row list \<Rightarrow> gauges \<Rightarrow> gauges" where
  "cert_gauges [] G = G"
| "cert_gauges (x # xs) G = cert_gauges xs
     (let G1 = G\<lparr>G_status := (G_status G)((c_fqdn x, c_status x) \<mapsto> 1)\<rparr>
      in case c_not_after x of None \<Rightarrow> G1 | Some t \<Rightarrow> G1\<lparr>G_expiry := (G_expiry G1)(c_fqdn x \<mapsto> f64_of_int t)\<rparr>)"

fun count_states :: "entries \<Rightarrow> (string \<rightharpoonup> int) \<Rightarrow> (string \<rightharpoonup> int)" where
  "count_states [] m = m"
| "count_states (e # es) m = count_states es (m(snd e \<mapsto> (case m (snd e) of None \<Rightarrow> 0 | Some n \<Rightarrow> n) + 1))"

definition zero_counts :: "string \<rightharpoonup> int" where
  "zero_counts = [''open'' \<mapsto> 0, ''queue'' \<mapsto> 0, ''closed'' \<mapsto> 0]"

definition updateMetrics :: "delivery \<Rightarrow> delivery \<Rightarrow> pg \<Rightarrow> cert_row list \<Rightarrow> Desired \<Rightarrow> gauges option \<Rightarrow> gauges option" where
  "updateMetrics ce cc g certs des m = (case m of None \<Rightarrow> None
     | Some G \<Rightarrow>
        (let G1 = sync_gauges (arrived ce (edge_rows g)) G;
             G2 = cert_gauges (arrived cc certs) (G1\<lparr>G_status := Map.empty\<rparr>)
         in Some (G2\<lparr>G_rooms := G_rooms G2 ++ count_states (States_d des) zero_counts\<rparr>)))"

section \<open>What the gauges say\<close>

lemma sync_gauges_frame [simp]:
  "G_expiry (sync_gauges rows G) = G_expiry G" "G_status (sync_gauges rows G) = G_status G" "G_rooms (sync_gauges rows G) = G_rooms G"
  by (induction rows G rule: sync_gauges.induct) simp_all

lemma cert_gauges_frame [simp]: "G_sync (cert_gauges xs G) = G_sync G" "G_rooms (cert_gauges xs G) = G_rooms G"
  by (induction xs G rule: cert_gauges.induct) (simp_all add: Let_def split: option.split)

lemma sync_gauges_other: "n \<notin> e_name ` set rows \<Longrightarrow> G_sync (sync_gauges rows G) n = G_sync G n"
  by (induction rows G rule: sync_gauges.induct) simp_all

lemma sync_gauges_row:
  "distinct (map e_name rows) \<Longrightarrow> row \<in> set rows \<Longrightarrow>
   G_sync (sync_gauges rows G) (e_name row) = Some (if EdgeInSync row then 1 else 0)"
  by (induction rows G rule: sync_gauges.induct) (auto simp: sync_gauges_other)

lemma cert_gauges_status: "dom (G_status (cert_gauges xs G)) = dom (G_status G) \<union> (\<lambda>x. (c_fqdn x, c_status x)) ` set xs"
  by (induction xs G rule: cert_gauges.induct) (auto simp: Let_def split: option.splits)

lemma cert_gauges_expiry:
  "f \<notin> c_fqdn ` set xs \<Longrightarrow> G_expiry (cert_gauges xs G) f = G_expiry G f"
  by (induction xs G rule: cert_gauges.induct) (auto simp: Let_def split: option.splits)

lemma count_states_value:
  "count_states es m st = (if st \<in> snd ` set es \<or> m st \<noteq> None
     then Some ((case m st of None \<Rightarrow> 0 | Some n \<Rightarrow> n) + int (length (filter (\<lambda>e. snd e = st) es))) else None)"
proof (induction es arbitrary: m)
  case (Cons e es)
  show ?case by (simp only: count_states.simps Cons.IH) (auto split: option.splits)
qed (auto split: option.splits)

lemma zero_counts_value: "zero_counts st = (if st \<in> {''open'', ''queue'', ''closed''} then Some 0 else None)"
  by (auto simp: zero_counts_def)

text \<open>The gauges after a pass say what the pass did: a load balancer that was pushed without an error is in sync, one
  that is in sync has the configuration it should have, the statuses of the certificates are exactly those of the
  table, whatever was exported before, and for each of the three states the number of rooms is the one of the desired
  state.\<close>

theorem metrics_tell_the_pass:
  assumes "Once u perm dps http tp ver (Inr des) r g w d = (r', g', w', d')" and "distinct (map e_name (edge_rows g))"
    and "updateMetrics Full Full g' certs des (Some G) = Some G'"
  shows "(\<forall>row \<in> set (edge_rows g'). e_name row \<in> set (EdgeNames r') \<longrightarrow>
      (e_status row = Some ''ok'' \<longrightarrow> G_sync G' (e_name row) = Some 1) \<and>
      (G_sync G' (e_name row) = Some 1 \<longleftrightarrow> e_config row = Some (Hash des))) \<and>
    dom (G_status G') = (\<lambda>x. (c_fqdn x, c_status x)) ` set certs \<and>
    (\<forall>st \<in> {''open'', ''queue'', ''closed''}. G_rooms G' st = Some (int (length (filter (\<lambda>e. snd e = st) (States_d des)))))"
proof -
  let ?G1 = "sync_gauges (edge_rows g') G"
  have G': "G_sync G' = G_sync ?G1" "G_status G' = G_status (cert_gauges certs (?G1\<lparr>G_status := Map.empty\<rparr>))"
    "G_rooms G' = G_rooms G ++ count_states (States_d des) zero_counts"
    using assms(3) by (auto simp: updateMetrics_def arrived_def Let_def)
  from Once_rows [OF assms(1)] obtain F where F: "edge_rows g' = map F (edge_rows g)"
    "\<And>row. row \<in> set (edge_rows g) \<Longrightarrow> e_name (F row) = e_name row"
    "\<And>row. row \<in> set (edge_rows g) \<Longrightarrow> e_name row \<in> set (EdgeNames r') \<Longrightarrow> recorded (Hash des) (F row)" by metis
  have "map e_name (edge_rows g') = map e_name (edge_rows g)" using F(1,2) by simp
  then have dis: "distinct (map e_name (edge_rows g'))" using assms(2) by simp
  have rec: "recorded (Hash des) row" if "row \<in> set (edge_rows g')" "e_name row \<in> set (EdgeNames r')" for row
    using that F by auto
  have "(e_status row = Some ''ok'' \<longrightarrow> G_sync G' (e_name row) = Some 1) \<and> (G_sync G' (e_name row) = Some 1 \<longleftrightarrow> e_config row = Some (Hash des))"
    if "row \<in> set (edge_rows g')" "e_name row \<in> set (EdgeNames r')" for row
    using rec [OF that] sync_gauges_row [OF dis that(1), of G] by (auto simp: G'(1) recorded_def EdgeInSync_def split: option.splits)
  moreover have "dom (G_status G') = (\<lambda>x. (c_fqdn x, c_status x)) ` set certs"
    by (simp add: G'(2) cert_gauges_status)
  moreover have "G_rooms G' st = Some (int (length (filter (\<lambda>e. snd e = st) (States_d des))))" if "st \<in> {''open'', ''queue'', ''closed''}" for st
    using that by (simp add: G'(3) count_states_value zero_counts_value map_add_Some_iff)
  ultimately show ?thesis by blast
qed

lemma arrived_sub: "x \<notin> h ` set xs \<Longrightarrow> x \<notin> h ` set (arrived c xs)"
  by (auto simp: arrived_def split: delivery.splits dest: in_set_takeD)

text \<open>What is never taken away: the series of a load balancer that left the table, and the expiry of a certificate that
  is gone, keep their last value.\<close>

lemma metrics_keep_the_gone:
  assumes "updateMetrics ce cc g certs des (Some G) = Some G'"
  shows "n \<notin> e_name ` set (edge_rows g) \<Longrightarrow> G_sync G' n = G_sync G n"
    and "f \<notin> c_fqdn ` set certs \<Longrightarrow> G_expiry G' f = G_expiry G f"
  using assms by (auto simp: updateMetrics_def Let_def arrived_sub sync_gauges_other cert_gauges_expiry)

definition demo_metrics :: "gauges option" where
  "demo_metrics = updateMetrics Full Full (fst (snd demo_once)) [] demo_desired (Some NewMetrics)"

theorem metrics_tell_the_pass_witness:
  "\<exists>G'. demo_metrics = Some G' \<and> G_sync G' ''b'' = Some 1 \<and> dom (G_status G') = {}"
proof -
  obtain r' g' w' d' where p: "demo_once = (r', g', w', d')" by (metis prod.exhaust)
  obtain G' where G: "updateMetrics Full Full g' [] demo_desired (Some NewMetrics) = Some G'" by (simp add: updateMetrics_def Let_def)
  have dis: "distinct (map e_name (edge_rows demo_rows))" by code_simp
  have "(case demo_once of (r, g, _) \<Rightarrow> list_ex (\<lambda>row. e_name row = ''b'' \<and> e_status row = Some ''ok'' \<and> ''b'' \<in> set (EdgeNames r)) (edge_rows g))"
    by code_simp
  then obtain row where row: "row \<in> set (edge_rows g')" "e_name row = ''b''" "e_status row = Some ''ok''" "''b'' \<in> set (EdgeNames r')"
    by (auto simp: p list_ex_iff)
  from metrics_tell_the_pass [OF p [unfolded demo_once_def] dis G] row have "G_sync G' ''b'' = Some 1 \<and> dom (G_status G') = {}" by auto
  then show ?thesis using G by (auto simp: demo_metrics_def p)
qed

end
