(* ===== verification/Postgres_Model.thy ===== *)
theory Postgres_Model
  imports Flyc_Prelude
begin

text \<open>
  What the components of flyc-control share about Postgres: the errors that the code tells apart,
  their translation to HTTP (\<open>dbErr\<close> in control/internal/api/api.go), and tables as lists of
  records. \<open>ok k\<close> says whether the \<open>k\<close>-th statement of an operation reaches the database; a
  statement that does not changes nothing. The texts of error messages are left out.
\<close>

definition unique_violation :: err where "unique_violation = EInvalid ''23505''"
definition check_violation :: err where "check_violation = EInvalid ''23514''"
definition invalid_text :: err where "invalid_text = EInvalid ''22P02''"
definition foreign_key_violation :: err where "foreign_key_violation = EInvalid ''23503''"
definition no_rows :: err where "no_rows = EInvalid ''no rows''"

lemmas pg_errors = unique_violation_def check_violation_def invalid_text_def foreign_key_violation_def no_rows_def

definition HErr :: "int \<Rightarrow> string \<Rightarrow> resp" where
  "HErr c k = Error c k []"

lemma HErr_code [simp]: "code (HErr c k) = c"
  by (simp add: HErr_def)

definition dbErr :: "err \<Rightarrow> resp" where
  "dbErr e = (if e = unique_violation then HErr 409 ''conflict''
     else if e = check_violation \<or> e = invalid_text then HErr 400 ''invalid''
     else if e = foreign_key_violation then HErr 400 ''invalid_reference''
     else if e = no_rows then HErr 404 ''not_found''
     else HErr 500 ''db'')"

lemma dbErr_code: "400 \<le> code (dbErr e)"
  by (simp add: dbErr_def)

text \<open>\<open>update t set f where P\<close>, and \<open>insert \<dots> on conflict do update\<close>: the row of the key is changed in
  place, or the new one is added.\<close>

definition update_where :: "('r \<Rightarrow> bool) \<Rightarrow> ('r \<Rightarrow> 'r) \<Rightarrow> 'r list \<Rightarrow> 'r list" where
  "update_where P f rs = map (\<lambda>r. if P r then f r else r) rs"

definition upsert :: "('r \<Rightarrow> 'k) \<Rightarrow> 'k \<Rightarrow> ('r \<Rightarrow> 'r) \<Rightarrow> 'r \<Rightarrow> 'r list \<Rightarrow> 'r list" where
  "upsert key k f new rs = (if k \<in> key ` set rs then update_where (\<lambda>r. key r = k) f rs else rs @ [new])"

lemma update_where_keys: "(\<And>r. key (f r) = key r) \<Longrightarrow> map key (update_where P f rs) = map key rs"
  by (simp add: update_where_def)

lemma set_update_where: "set (update_where P f rs) = (\<lambda>r. if P r then f r else r) ` set rs"
  by (simp add: update_where_def)

lemma upsert_distinct:
  "distinct (map key rs) \<Longrightarrow> (\<And>r. key (f r) = key r) \<Longrightarrow> key new = k \<Longrightarrow> distinct (map key (upsert key k f new rs))"
  by (auto simp: upsert_def update_where_keys)

lemma upsert_keys:
  assumes "\<And>r. key (f r) = key r" and "key new = k"
  shows "key ` set (upsert key k f new rs) = insert k (key ` set rs)"
proof -
  have "key ` set (update_where P f rs) = key ` set rs" for P
    using update_where_keys [where key = key and f = f] assms(1) by (metis set_map)
  then show ?thesis using assms(2) by (auto simp: upsert_def)
qed

lemma upsert_other: "r \<in> set rs \<Longrightarrow> key r \<noteq> k \<Longrightarrow> r \<in> set (upsert key k f new rs)"
  by (auto simp: upsert_def set_update_where)

lemma upsert_mem: "r \<in> set (upsert key k f new rs) \<Longrightarrow> (r \<in> set rs \<and> key r \<noteq> k) \<or> (\<exists>r0 \<in> set rs. key r0 = k \<and> r = f r0) \<or> (r = new \<and> k \<notin> key ` set rs)
    \<or> (r \<in> set rs \<and> k \<notin> key ` set rs)"
  by (auto simp: upsert_def set_update_where split: if_splits)

end
