(* ===== verification/Inventory_Model.thy ===== *)
theory Inventory_Model
  imports Postgres_Model Reconcile
begin

text \<open>
  control/internal/inventory: the nodes and the settings of the platform in Postgres, the Ansible
  inventory rendered from them, and the tables \<open>edges\<close> and \<open>queue_hosts\<close> kept in step with them
  (inventory.go); the first filling of the tables from the environment (seed.go). The collation
  of the database, the escaping of JSON outside ASCII and the printing of doubles are arguments.
\<close>

section \<open>Data\<close>

definition RoleEdge :: string where "RoleEdge = ''edge''"
definition RoleQueue :: string where "RoleQueue = ''queue''"
definition RoleData :: string where "RoleData = ''data''"

lemmas roles = RoleEdge_def RoleQueue_def RoleData_def

record Node =
  NName :: string
  Roles :: "string list"
  MgmtIP :: string
  MgmtIP6 :: string
  NState :: string
  Note :: string
  EnrolledAt :: "int option"

record Neighbor =
  NIP :: string
  RemoteAS :: int
  Family :: string

record Settings =
  Env :: string
  AnsibleUser :: string
  WaitHost :: string
  ControlHost :: string
  VIPAppV4 :: string
  VIPAppV6 :: string
  VIPWaitV4 :: string
  VIPWaitV6 :: string
  VIPGatewayV4 :: string
  VIPGatewayV6 :: string
  BGPEnabled :: bool
  BGPLocalAS :: int
  BGPNeighbors :: "Neighbor list"
  ACMEEmail :: string
  ACMEDirectory :: string
  ControlPublicURL :: string
  CookieSecure :: bool
  ImageTag :: string
  Registry :: string
  QueuePort :: int
  ControlPort :: int
  DataplanePort :: int
  ManageFirewall :: bool
  DeployFrom :: string
  RegistryCA :: string
  ExtraVars :: "(string \<times> jv) list"
  SeededFromEnv :: bool

record host_row =
  h_name :: string
  h_address :: string
  h_port :: int

record edge_url =
  g_name :: string
  g_url :: string

record inv =
  nodes :: "Node list"
  settings :: Settings
  edge_urls :: "edge_url list"
  queue_hosts :: "host_row list"

section \<open>Reading\<close>

definition LoadSettings :: "bool \<Rightarrow> inv \<Rightarrow> Settings res" where
  "LoadSettings ok s = (if ok then Inr (settings s) else Inl EDb)"

definition LoadNodes :: "(string \<Rightarrow> 'k::linorder) \<Rightarrow> bool \<Rightarrow> inv \<Rightarrow> Node list res" where
  "LoadNodes coll ok s = (if ok then Inr (sort_key (\<lambda>n. coll (NName n)) (nodes s)) else Inl EDb)"

section \<open>YAML\<close>

text \<open>\<open>json.Marshal\<close> of a string: the quote, the backslash, the control characters and the three
  characters of HTML are escaped; \<open>u\<close> is the result outside ASCII.\<close>

definition hex4 :: "nat \<Rightarrow> string" where
  "hex4 n = ''00'' @ [hex_digit (n div 16), hex_digit (n mod 16)]"

definition bs :: char where "bs = CHR 0x5C"
definition quote :: char where "quote = CHR 0x22"

definition esc_char :: "char \<Rightarrow> string" where
  "esc_char c = (let n = (of_char c :: nat) in
     if c = quote \<or> c = bs then [bs, c]
     else if n = 8 then [bs, CHR ''b''] else if n = 9 then [bs, CHR ''t''] else if n = 10 then [bs, CHR ''n'']
     else if n = 12 then [bs, CHR ''f''] else if n = 13 then [bs, CHR ''r'']
     else if n < 32 \<or> c = CHR ''<'' \<or> c = CHR ''>'' \<or> c = CHR ''&'' then [bs, CHR ''u''] @ hex4 n
     else [c])"

definition yamlStr :: "(string \<Rightarrow> string) \<Rightarrow> string \<Rightarrow> string" where
  "yamlStr u s = (if ascii s then [quote] @ concat (map esc_char s) @ [quote] else u s)"

definition show_bool :: "bool \<Rightarrow> string" where
  "show_bool b = (if b then ''true'' else ''false'')"

text \<open>Only scalars; a double that is an integer of 64 bits is printed as one.\<close>

fun yamlScalar :: "(string \<Rightarrow> string) \<Rightarrow> (rat \<Rightarrow> string) \<Rightarrow> jv \<Rightarrow> string res" where
  "yamlScalar u ff (JStr s) = Inr (yamlStr u s)"
| "yamlScalar u ff (JBool b) = Inr (show_bool b)"
| "yamlScalar u ff (JNum r) = Inr (if r = of_int (floor r) \<and> - (2 ^ 63) \<le> floor r \<and> floor r < 2 ^ 63 then show_int (floor r) else ff r)"
| "yamlScalar u ff (JInt i) = Inr (show_int i)"
| "yamlScalar u ff JNull = Inr [quote, quote]"
| "yamlScalar u ff _ = Inl (EInvalid ''scalar'')"

definition clesTriees :: "(string \<times> 'v) list \<Rightarrow> string list" where
  "clesTriees m = sort (remdups (map fst m))"

definition group :: "string \<Rightarrow> Node list \<Rightarrow> Node list" where
  "group role ns = concat (map (\<lambda>n. map (\<lambda>_. n) (filter (\<lambda>r. r = role) (Roles n))) ns)"

definition nl :: string where "nl = [CHR 0x0A]"

definition line :: "string list \<Rightarrow> string" where
  "line xs = concat xs @ nl"

fun extra_lines :: "(string \<Rightarrow> string) \<Rightarrow> (rat \<Rightarrow> string) \<Rightarrow> (string \<times> jv) list \<Rightarrow> string list \<Rightarrow> string res" where
  "extra_lines u ff m [] = Inr []"
| "extra_lines u ff m (k # ks) = (case yamlScalar u ff (the (map_of m k)) of
     Inl e \<Rightarrow> Inl e
   | Inr v \<Rightarrow> (case extra_lines u ff m ks of Inl e \<Rightarrow> Inl e
       | Inr r \<Rightarrow> Inr (line [''    '', k, '': '', v] @ r)))"

definition node_line :: "(string \<Rightarrow> string) \<Rightarrow> Node \<Rightarrow> string" where
  "node_line u n = line [''        '', NName n, '': { ansible_host: '', yamlStr u (MgmtIP n), '', mgmt_ip: '', yamlStr u (MgmtIP n),
     (if MgmtIP6 n \<noteq> [] then '', mgmt_ip6: '' @ yamlStr u (MgmtIP6 n) else []), '' }'']"

definition group_block :: "(string \<Rightarrow> string) \<Rightarrow> Node list \<Rightarrow> string \<Rightarrow> string" where
  "group_block u ns role = line [''    '', role, '':''] @
     (if group role ns = [] then line [''      hosts: {}'']
      else line [''      hosts:''] @ concat (map (node_line u) (group role ns)))"

definition draining_block :: "Node list \<Rightarrow> string" where
  "draining_block ns = ''    draining:'' @ nl @ ''      hosts:'' @
     (let ds = filter (\<lambda>n. NState n = ''draining'') ns in
      if ds = [] then '' {}'' @ nl else nl @ concat (map (\<lambda>n. line [''        '', NName n, '': {}'']) ds))"

definition neighbors_block :: "(string \<Rightarrow> string) \<Rightarrow> Neighbor list \<Rightarrow> string" where
  "neighbors_block u ns = (if ns = [] then line [''      neighbors: []'']
     else line [''      neighbors:''] @ concat (map (\<lambda>n. line [''        - { ip: '', yamlStr u (NIP n), '', remote_as: '',
        show_int (RemoteAS n), '', family: '', yamlStr u (Family n), '' }'']) ns))"

definition trim_right_nl :: "string \<Rightarrow> string" where
  "trim_right_nl s = rev (dropWhile (\<lambda>c. c = CHR 0x0A) (rev s))"

definition ea :: string where "ea = [CHR 0xC3, CHR 0xA9]"

definition ca_block :: "string \<Rightarrow> string" where
  "ca_block ca = (if ca = [] then []
     else line [''    # Certificat racine du registre, t'', ea, ''l'', ea, ''vers'', ea, '' depuis l'', [CHR 0x27], ''interface (contenu, pas un chemin :''] @
       line [''    # le fichier d'', [CHR 0x27], ''origine '', ea, ''tait sur le poste de l'', [CHR 0x27], ''op'', ea, ''rateur).''] @
       line [''    flyc_registry_ca: |-''] @
       concat (map (\<lambda>l. line [''      '', l]) (split_on (CHR 0x0A) (trim_right_nl ca))))"

definition image_line :: "string \<Rightarrow> string \<Rightarrow> string \<Rightarrow> string" where
  "image_line var reg img = line [''    '', var, '': '', [quote], reg, ''/'', img, '':{{ flyc_image_tag }}'', [quote]]"

definition vars_block :: "(string \<Rightarrow> string) \<Rightarrow> Settings \<Rightarrow> string" where
  "vars_block u s =
     line [''all:''] @ line [''  vars:''] @
     line [''    flyc_env: '', yamlStr u (Env s)] @
     line [''    ansible_user: '', yamlStr u (AnsibleUser s)] @
     line [''    ansible_become: true''] @
     line [''    flyc_wait_host: '', yamlStr u (WaitHost s)] @
     line [''    flyc_control_host: '', yamlStr u (ControlHost s)] @
     line [''    flyc_vip_app:  { v4: '', yamlStr u (VIPAppV4 s), '', v6: '', yamlStr u (VIPAppV6 s), '' }''] @
     line [''    flyc_vip_wait: { v4: '', yamlStr u (VIPWaitV4 s), '', v6: '', yamlStr u (VIPWaitV6 s), '' }''] @
     line [''    flyc_bgp:''] @
     line [''      enabled: '', show_bool (BGPEnabled s)] @
     line [''      local_as: '', show_int (BGPLocalAS s)] @
     neighbors_block u (BGPNeighbors s) @
     line [''    flyc_vip_gateway: { v4: '', yamlStr u (VIPGatewayV4 s), '', v6: '', yamlStr u (VIPGatewayV6 s), '' }''] @
     line [''    flyc_acme_email: '', yamlStr u (ACMEEmail s)] @
     line [''    flyc_acme_directory: '', yamlStr u (ACMEDirectory s)] @
     line [''    flyc_control_public_url: '', yamlStr u (ControlPublicURL s)] @
     line [''    flyc_cookie_secure: '', show_bool (CookieSecure s)] @
     line [''    flyc_image_tag: '', yamlStr u (ImageTag s)] @
     image_line ''flyc_image_queue'' (Registry s) ''flyc-queue'' @
     image_line ''flyc_image_control'' (Registry s) ''flyc-control'' @
     image_line ''flyc_image_runner'' (Registry s) ''flyc-runner'' @
     line [''    flyc_queue_port: '', show_int (QueuePort s)] @
     line [''    flyc_control_port: '', show_int (ControlPort s)] @
     line [''    flyc_dataplane_port: '', show_int (DataplanePort s)] @
     line [''    flyc_manage_firewall: '', show_bool (ManageFirewall s)] @
     line [''    flyc_deploy_from: '', yamlStr u (DeployFrom s)] @
     ca_block (RegistryCA s)"

definition incomplete :: err where "incomplete = EInvalid ''incomplete''"

text \<open>The two comment lines at the top, with the date, are the argument \<open>head\<close>.\<close>

definition Render :: "(string \<Rightarrow> string) \<Rightarrow> (rat \<Rightarrow> string) \<Rightarrow> string \<Rightarrow> Settings \<Rightarrow> Node list \<Rightarrow> string res" where
  "Render u ff head s ns =
    (if length (group RoleData ns) = 0 then Inl incomplete
     else if 1 < length (group RoleData ns) then Inl incomplete
     else case extra_lines u ff (ExtraVars s) (clesTriees (ExtraVars s)) of
        Inl e \<Rightarrow> Inl e
      | Inr ex \<Rightarrow> Inr (head @ vars_block u s @ ex @ line [''  children:''] @
          concat (map (group_block u ns) [RoleEdge, RoleQueue, RoleData]) @ draining_block ns))"

definition Generate :: "(string \<Rightarrow> string) \<Rightarrow> (rat \<Rightarrow> string) \<Rightarrow> string \<Rightarrow> (string \<Rightarrow> 'k::linorder) \<Rightarrow> (nat \<Rightarrow> bool) \<Rightarrow> inv \<Rightarrow> string res" where
  "Generate u ff head coll ok s = (case LoadSettings (ok 0) s of Inl e \<Rightarrow> Inl e
     | Inr st \<Rightarrow> (case LoadNodes coll (ok 1) s of Inl e \<Rightarrow> Inl e | Inr ns \<Rightarrow> Render u ff head st ns))"

section \<open>The load balancers and the queue hosts\<close>

definition hostPort :: "string \<Rightarrow> string" where
  "hostPort ip = (if CHR '':'' \<in> set ip \<and> \<not> prefix ''['' ip then ''['' @ ip @ '']'' else ip)"

definition base_url :: "string \<Rightarrow> int \<Rightarrow> string" where
  "base_url ip port = ''http://'' @ hostPort ip @ '':'' @ show_int port"

definition ready :: "string \<Rightarrow> Node \<Rightarrow> bool" where
  "ready role n \<longleftrightarrow> role \<in> set (Roles n) \<and> NState n = ''ready''"

definition Edges :: "(string \<Rightarrow> 'k::linorder) \<Rightarrow> (nat \<Rightarrow> bool) \<Rightarrow> inv \<Rightarrow> Edge list res" where
  "Edges coll ok s = (if \<not> ok 0 \<or> \<not> ok 1 then Inl EDb
     else Inr (map (\<lambda>n. \<lparr>EName = NName n, EURL = base_url (MgmtIP n) (DataplanePort (settings s))\<rparr>)
        (sort_key (\<lambda>n. coll (NName n)) (filter (ready RoleEdge) (nodes s)))))"

definition QueueHosts :: "(string \<Rightarrow> 'k::linorder) \<Rightarrow> (nat \<Rightarrow> bool) \<Rightarrow> inv \<Rightarrow> string list res" where
  "QueueHosts coll ok s = (if \<not> ok 0 \<or> \<not> ok 1 then Inl EDb
     else Inr (map (\<lambda>n. base_url (MgmtIP n) (QueuePort (settings s)))
        (sort_key (\<lambda>n. coll (NName n)) (filter (ready RoleQueue) (nodes s)))))"

fun put_edges :: "(nat \<Rightarrow> bool) \<Rightarrow> nat \<Rightarrow> Edge list \<Rightarrow> inv \<Rightarrow> unit res \<times> inv" where
  "put_edges ok k [] s = (Inr (), s)"
| "put_edges ok k (e # es) s = (if \<not> ok k then (Inl EDb, s)
     else put_edges ok (Suc k) es (s\<lparr>edge_urls := upsert g_name (EName e) (\<lambda>r. r\<lparr>g_url := EURL e\<rparr>)
        \<lparr>g_name = EName e, g_url = EURL e\<rparr> (edge_urls s)\<rparr>))"

definition put_host :: "int \<Rightarrow> Node \<Rightarrow> host_row list \<Rightarrow> host_row list" where
  "put_host port n hs = upsert h_name (NName n) (\<lambda>r. r\<lparr>h_address := MgmtIP n, h_port := port\<rparr>)
     \<lparr>h_name = NName n, h_address = MgmtIP n, h_port = port\<rparr> hs"

text \<open>The statements of \<open>Sync\<close> in their order: the count, the two of \<open>Edges\<close>, one per load
  balancer, the deletion, the port, and the two of the hosts.\<close>

definition Sync :: "(string \<Rightarrow> 'k::linorder) \<Rightarrow> (nat \<Rightarrow> bool) \<Rightarrow> inv \<Rightarrow> unit res \<times> inv" where
  "Sync coll ok s =
    (if \<not> ok 0 then (Inl EDb, s)
     else if nodes s = [] then (Inl incomplete, s)
     else case Edges coll (\<lambda>k. ok (1 + k)) s of Inl e \<Rightarrow> (Inl e, s)
      | Inr es \<Rightarrow>
       (case put_edges ok 3 es s of (Inl e, s1) \<Rightarrow> (Inl e, s1)
        | (Inr _, s1) \<Rightarrow>
         (let k = 3 + length es in
          if \<not> ok k then (Inl EDb, s1)
          else let s2 = s1\<lparr>edge_urls := filter (\<lambda>r. g_name r \<in> EName ` set es) (edge_urls s1)\<rparr> in
           if \<not> ok (k + 1) \<or> \<not> ok (k + 2) then (Inl EDb, s2)
           else let rs = filter (ready RoleQueue) (nodes s);
                    s3 = s2\<lparr>queue_hosts := fold (put_host (QueuePort (settings s))) rs (queue_hosts s2)\<rparr> in
             if \<not> ok (k + 3) then (Inl EDb, s3)
             else (Inr (), s3\<lparr>queue_hosts := filter (\<lambda>r. h_name r \<in> NName ` set rs) (queue_hosts s3)\<rparr>))))"

section \<open>Writing\<close>

definition default_port :: "int \<Rightarrow> int \<Rightarrow> int" where
  "default_port d p = (if p = 0 then d else p)"

definition SaveSettings :: "bool \<Rightarrow> Settings \<Rightarrow> bool \<Rightarrow> inv \<Rightarrow> Settings res \<times> inv" where
  "SaveSettings ok st seeded s =
    (let st1 = st\<lparr>AnsibleUser := (if AnsibleUser st = [] then ''flyc-deploy'' else AnsibleUser st),
                  QueuePort := default_port 8080 (QueuePort st), ControlPort := default_port 8090 (ControlPort st),
                  DataplanePort := default_port 5555 (DataplanePort st)\<rparr>
     in if \<not> ok then (Inl EDb, s)
        else (Inr st1, s\<lparr>settings := st1\<lparr>SeededFromEnv := seeded,
               Registry := (if Registry st1 = [] then Registry (settings s) else Registry st1)\<rparr>\<rparr>))"

text \<open>The constraints of the table \<open>nodes\<close>; an empty list of roles is the missing one, a null.\<close>

definition node_checks :: "Node \<Rightarrow> bool" where
  "node_checks n \<longleftrightarrow> Roles n \<noteq> [] \<and> set (Roles n) \<subseteq> {RoleEdge, RoleQueue, RoleData} \<and>
     NState n \<in> {''planned'', ''installing'', ''ready'', ''draining''}"

definition SaveNode :: "bool \<Rightarrow> Node \<Rightarrow> inv \<Rightarrow> Node res \<times> inv" where
  "SaveNode ok n s =
    (let n1 = (if NState n = [] then n\<lparr>NState := ''planned''\<rparr> else n) in
     if \<not> ok then (Inl EDb, s)
     else if \<not> node_checks n1 then (Inl check_violation, s)
     else if \<exists>m \<in> set (nodes s). NName m \<noteq> NName n1 \<and> MgmtIP m = MgmtIP n1 then (Inl unique_violation, s)
     else (Inr n1, s\<lparr>nodes := upsert NName (NName n1)
        (\<lambda>r. r\<lparr>Roles := Roles n1, MgmtIP := MgmtIP n1, MgmtIP6 := MgmtIP6 n1, NState := NState n1, Note := Note n1\<rparr>)
        (n1\<lparr>EnrolledAt := None\<rparr>) (nodes s)\<rparr>))"

section \<open>The first filling\<close>

record Seed =
  SSettings :: Settings
  SNodes :: "Node list"

definition Lire :: "string option \<Rightarrow> string \<Rightarrow> string" where
  "Lire file inline = (case file of None \<Rightarrow> inline | Some b \<Rightarrow> b)"

fun seed_nodes :: "(nat \<Rightarrow> bool) \<Rightarrow> nat \<Rightarrow> Node list \<Rightarrow> inv \<Rightarrow> unit res \<times> inv" where
  "seed_nodes ok k [] s = (Inr (), s)"
| "seed_nodes ok k (n # ns) s =
    (case SaveNode (ok k) (if NState n = [] then n\<lparr>NState := ''ready''\<rparr> else n) s of
       (Inl e, s1) \<Rightarrow> (Inl e, s1) | (Inr _, s1) \<Rightarrow> seed_nodes ok (Suc k) ns s1)"

text \<open>\<open>raw\<close> is the text without the blanks around it, \<open>parse\<close> its decoding. The comparison with a
  filled base only writes a log.\<close>

definition Apply :: "(string \<Rightarrow> Seed option) \<Rightarrow> (string \<Rightarrow> 'k::linorder) \<Rightarrow> (nat \<Rightarrow> bool) \<Rightarrow> string \<Rightarrow> inv \<Rightarrow> unit res \<times> inv" where
  "Apply parse coll ok raw s =
    (if raw = [] then (Inr (), s)
     else case parse raw of None \<Rightarrow> (Inl (EInvalid ''seed''), s)
      | Some sd \<Rightarrow>
       (if \<not> ok 0 then (Inl EDb, s)
        else if nodes s \<noteq> [] then (Inr (), s)
        else if SNodes sd = [] then (Inr (), s)
        else case SaveSettings (ok 1) (SSettings sd) True s of (Inl e, s1) \<Rightarrow> (Inl e, s1)
         | (Inr _, s1) \<Rightarrow>
          (case seed_nodes ok 2 (SNodes sd) s1 of (Inl e, s2) \<Rightarrow> (Inl e, s2)
           | (Inr _, s2) \<Rightarrow> Sync coll (\<lambda>k. ok (2 + length (SNodes sd) + k)) s2)))"

end
