(* ===== verification/Inventory_Laws.thy ===== *)
theory Inventory_Laws
  imports Inventory_Model
begin

text \<open>
  The laws of the inventory: a quoted string of the rendered file reads back as itself and nothing
  in it can close the quotes; the tables read by the data path mirror the ready nodes; the first
  filling is done once.
\<close>

section \<open>Quoting\<close>

text \<open>A reader of the double-quoted style: the escapes that \<open>yamlStr\<close> uses, up to the closing quote.\<close>

definition hexval :: "char \<Rightarrow> nat" where
  "hexval c = (let n = (of_char c :: nat) in if n < 58 then n - 48 else n - 87)"

fun read_quoted :: "string \<Rightarrow> (string \<times> string) option" where
  "read_quoted [] = None"
| "read_quoted (c # cs) =
    (if c = quote then Some ([], cs)
     else if c \<noteq> bs then map_option (\<lambda>(s, r). (c # s, r)) (read_quoted cs)
     else case cs of
        [] \<Rightarrow> None
      | d # ds \<Rightarrow>
        (if d = CHR ''u'' then
           (case ds of h1 # h2 # h3 # h4 # es \<Rightarrow> map_option (\<lambda>(s, r). (char_of (16 * hexval h3 + hexval h4) # s, r)) (read_quoted es)
             | _ \<Rightarrow> None)
         else map_option (\<lambda>(s, r). ((if d = CHR ''n'' then CHR 0x0A else if d = CHR ''t'' then CHR 0x09 else if d = CHR ''r'' then CHR 0x0D
             else if d = CHR ''b'' then CHR 0x08 else if d = CHR ''f'' then CHR 0x0C else d) # s, r)) (read_quoted ds)))"

definition read_yaml :: "string \<Rightarrow> (string \<times> string) option" where
  "read_yaml t = (case t of [] \<Rightarrow> None | c # cs \<Rightarrow> (if c = quote then read_quoted cs else None))"

lemma hexval_digits: "\<forall>n \<in> set [0..<128]. hexval (hex_digit (n div 16)) * 1 + 0 = n div 16 \<and> hexval (hex_digit (n mod 16)) = n mod 16"
  by code_simp

lemma control_chars: "char_of (8 :: nat) = CHR 0x08" "char_of (9 :: nat) = CHR 0x09" "char_of (10 :: nat) = CHR 0x0A"
  "char_of (12 :: nat) = CHR 0x0C" "char_of (13 :: nat) = CHR 0x0D"
  by code_simp+

lemma read_esc:
  assumes "(of_char c :: nat) < 128"
  shows "read_quoted (esc_char c @ t) = map_option (\<lambda>(s, r). (c # s, r)) (read_quoted t)"
proof -
  define n :: nat where "n = of_char c"
  have c: "char_of n = c" and "n \<in> set [0..<128]" using assms by (simp_all add: n_def)
  then have h: "hexval (hex_digit (n div 16)) = n div 16" "hexval (hex_digit (n mod 16)) = n mod 16"
    using hexval_digits by auto
  have h16: "char_of (16 * hexval (hex_digit (n div 16)) + hexval (hex_digit (n mod 16))) = c"
    unfolding h using c by simp
  have k: "n = k \<Longrightarrow> c = char_of k" for k using c by simp
  consider "c = quote \<or> c = bs" | "n \<in> {8, 9, 10, 12, 13}" | "c \<noteq> quote" "c \<noteq> bs" "n \<notin> {8, 9, 10, 12, 13}"
    "n < 32 \<or> c = CHR ''<'' \<or> c = CHR ''>'' \<or> c = CHR ''&''" | "c \<noteq> quote" "c \<noteq> bs" "\<not> n < 32" "c \<notin> {CHR ''<'', CHR ''>'', CHR ''&''}"
    by auto
  then show ?thesis
  proof cases
    case 1
    then show ?thesis by (auto simp: esc_char_def quote_def bs_def)
  next
    case 2
    then consider "c = CHR 0x08" | "c = CHR 0x09" | "c = CHR 0x0A" | "c = CHR 0x0C" | "c = CHR 0x0D"
      using k control_chars by auto
    then show ?thesis by cases (simp_all add: esc_char_def quote_def bs_def)
  next
    case 3
    then have "esc_char c = [bs, CHR ''u''] @ hex4 n" by (auto simp: esc_char_def n_def Let_def)
    then show ?thesis using h16 by (simp add: hex4_def quote_def bs_def)
  next
    case 4
    then have "esc_char c = [c]" by (auto simp: esc_char_def n_def Let_def)
    then show ?thesis using 4 by simp
  qed
qed

text \<open>Quoting loses nothing and cannot be escaped from: whatever the ASCII value (quotes, backslashes, line
  feeds), reading the quoted text back gives that value, and what follows it in the file is what followed.\<close>

theorem yamlStr_roundtrip:
  assumes "ascii s"
  shows "read_yaml (yamlStr u s @ t) = Some (s, t)"
proof -
  have "\<forall>c \<in> set s. (of_char c :: nat) < 128" using assms by (simp add: ascii_def list_all_iff)
  then have "read_quoted (concat (map esc_char s) @ [quote] @ t) = Some (s, t)"
    by (induction s) (simp_all add: read_esc)
  then show ?thesis using assms by (simp add: yamlStr_def read_yaml_def)
qed

theorem yamlStr_roundtrip_witness: "read_yaml (yamlStr id (''a'' @ [CHR 0x0A, quote] @ '' b: c'') @ '', x'') = Some (''a'' @ [CHR 0x0A, quote] @ '' b: c'', '', x'')"
  by (rule yamlStr_roundtrip) (simp add: ascii_def quote_def)

section \<open>The tables of the data path\<close>

lemma put_edges_ok: "(\<And>j. ok j) \<Longrightarrow> put_edges ok k es s = (Inr (), s\<lparr>edge_urls := fold (\<lambda>e rs. upsert g_name (EName e)
     (\<lambda>r. r\<lparr>g_url := EURL e\<rparr>) \<lparr>g_name = EName e, g_url = EURL e\<rparr> rs) es (edge_urls s)\<rparr>)"
  by (induction es arbitrary: k s) simp_all

text \<open>Writing rows one by one: the table then agrees with the list on its keys.\<close>

lemma upsert_val:
  assumes "r \<in> set (upsert key k f new rs)" and "key r = k" and "\<And>r. val (f r) = v" and "val new = v" and "\<And>r. key (f r) = key r"
  shows "val r = v"
proof (cases "k \<in> key ` set rs")
  case True
  then show ?thesis using assms by (auto simp: upsert_def set_update_where split: if_splits)
next
  case False
  then have "r \<notin> set rs" using assms(2) by blast
  then show ?thesis using assms False by (simp add: upsert_def)
qed

lemma fold_upsert:
  fixes key :: "'r \<Rightarrow> 'k" and val :: "'r \<Rightarrow> 'v" and ik :: "'i \<Rightarrow> 'k" and iv :: "'i \<Rightarrow> 'v"
  assumes f: "\<And>i r. key (f i r) = key r" "\<And>i r. val (f i r) = iv i"
    and new: "\<And>i. key (new i) = ik i" "\<And>i. val (new i) = iv i"
    and d: "distinct (map ik xs)"
  shows "set (map (\<lambda>r. (key r, val r)) (filter (\<lambda>r. key r \<in> ik ` set xs) (fold (\<lambda>i rs. upsert key (ik i) (f i) (new i) rs) xs rs)))
    = set (map (\<lambda>i. (ik i, iv i)) xs)"
  using d
proof (induction xs rule: rev_induct)
  case Nil
  then show ?case by simp
next
  case (snoc x xs)
  let ?t = "fold (\<lambda>i rs. upsert key (ik i) (f i) (new i) rs) xs rs"
  let ?u = "upsert key (ik x) (f x) (new x) ?t"
  have fresh: "ik x \<notin> ik ` set xs" using snoc.prems by auto
  have IH: "(\<lambda>r. (key r, val r)) ` {r \<in> set ?t. key r \<in> ik ` set xs} = (\<lambda>i. (ik i, iv i)) ` set xs"
    using snoc by auto
  have old: "{r \<in> set ?u. key r \<in> ik ` set xs} = {r \<in> set ?t. key r \<in> ik ` set xs}"
    using fresh f new by (auto simp: upsert_def set_update_where)
  have keys: "ik x \<in> key ` set ?u"
    using upsert_keys [where key = key and f = "f x" and new = "new x"] f new by blast
  have at: "r \<in> set ?u \<Longrightarrow> key r = ik x \<Longrightarrow> val r = iv x" for r
    using upsert_val [where key = key and val = val and f = "f x" and new = "new x"] f new by blast
  have "(\<lambda>r. (key r, val r)) ` {r \<in> set ?u. key r = ik x} = {(ik x, iv x)}"
    using keys at by (auto simp: image_iff)
  moreover have "{r \<in> set ?u. key r \<in> ik ` set (xs @ [x])} = {r \<in> set ?u. key r \<in> ik ` set xs} \<union> {r \<in> set ?u. key r = ik x}"
    by auto
  ultimately show ?case using IH old by (simp add: image_Un)
qed

lemma put_host_eq: "put_host port = (\<lambda>n. upsert h_name (NName n) (\<lambda>r. r\<lparr>h_address := MgmtIP n, h_port := port\<rparr>)
     \<lparr>h_name = NName n, h_address = MgmtIP n, h_port = port\<rparr>)"
  by (simp add: put_host_def fun_eq_iff)

text \<open>C12: After a synchronisation that reaches Postgres the table of the load balancers holds exactly the ready
  nodes of that role, each with the URL of its data-path API, the table of the queue hosts exactly those of
  the other, each with its address and the port of the settings; the nodes and the settings are as they were.
  With no node declared nothing changes and the caller is told.\<close>

theorem Sync_mirrors_nodes:
  assumes "\<forall>k. ok k" and "distinct (map NName (nodes s))"
  shows "case Sync coll ok s of (Inl e, s') \<Rightarrow> nodes s = [] \<and> e = incomplete \<and> s' = s
    | (Inr _, s') \<Rightarrow> nodes s \<noteq> [] \<and> nodes s' = nodes s \<and> settings s' = settings s \<and>
       set (map (\<lambda>r. (g_name r, g_url r)) (edge_urls s')) =
         {(NName n, ''http://'' @ hostPort (MgmtIP n) @ '':'' @ show_int (DataplanePort (settings s))) |n. n \<in> set (nodes s) \<and> ready RoleEdge n} \<and>
       set (map (\<lambda>r. (h_name r, (h_address r, h_port r))) (queue_hosts s')) =
         {(NName n, (MgmtIP n, QueuePort (settings s))) |n. n \<in> set (nodes s) \<and> ready RoleQueue n}"
proof (cases "nodes s = []")
  case True
  then show ?thesis using assms by (simp add: Sync_def)
next
  case False
  define es where "es = map (\<lambda>n. \<lparr>EName = NName n, EURL = base_url (MgmtIP n) (DataplanePort (settings s))\<rparr>)
        (sort_key (\<lambda>n. coll (NName n)) (filter (ready RoleEdge) (nodes s)))"
  define qs where "qs = filter (ready RoleQueue) (nodes s)"
  have okk: "ok = (\<lambda>_. True)" using assms(1) by auto
  have E: "Edges coll (\<lambda>_. True) s = Inr es" by (simp add: Edges_def es_def)
  let ?us = "fold (\<lambda>e rs. upsert g_name (EName e) (\<lambda>r. r\<lparr>g_url := EURL e\<rparr>) \<lparr>g_name = EName e, g_url = EURL e\<rparr> rs) es (edge_urls s)"
  let ?hs = "fold (put_host (QueuePort (settings s))) qs (queue_hosts s)"
  have S: "Sync coll ok s = (Inr (), s\<lparr>edge_urls := filter (\<lambda>r. g_name r \<in> EName ` set es) ?us,
      queue_hosts := filter (\<lambda>r. h_name r \<in> NName ` set qs) ?hs\<rparr>)"
    using okk False by (simp add: Sync_def E put_edges_ok qs_def Let_def)
  have dn: "distinct (map NName (sort_key k (filter P (nodes s))))" for k :: "Node \<Rightarrow> 'a" and P
    using assms(2) by (simp add: distinct_map inj_on_def)
  have "distinct (map EName es)"
    using dn [of "\<lambda>n. coll (NName n)" "ready RoleEdge"] by (simp add: es_def comp_def)
  then have 1: "set (map (\<lambda>r. (g_name r, g_url r)) (filter (\<lambda>r. g_name r \<in> EName ` set es) ?us)) = set (map (\<lambda>e. (EName e, EURL e)) es)"
    by (intro fold_upsert) simp_all
  have "distinct (map NName qs)" using assms(2) by (simp add: qs_def distinct_map inj_on_def)
  then have 2: "set (map (\<lambda>r. (h_name r, (h_address r, h_port r))) (filter (\<lambda>r. h_name r \<in> NName ` set qs) ?hs)) =
      set (map (\<lambda>n. (NName n, (MgmtIP n, QueuePort (settings s)))) qs)"
    unfolding put_host_eq by (intro fold_upsert) simp_all
  have 3: "set (map (\<lambda>e. (EName e, EURL e)) es) =
     {(NName n, ''http://'' @ hostPort (MgmtIP n) @ '':'' @ show_int (DataplanePort (settings s))) |n. n \<in> set (nodes s) \<and> ready RoleEdge n}"
    by (auto simp: es_def base_url_def)
  have 4: "set (map (\<lambda>n. (NName n, (MgmtIP n, QueuePort (settings s)))) qs) =
     {(NName n, (MgmtIP n, QueuePort (settings s))) |n. n \<in> set (nodes s) \<and> ready RoleQueue n}"
    by (auto simp: qs_def)
  show ?thesis unfolding S using False 1 2 3 4 by simp
qed

definition demo_node :: "string \<Rightarrow> string list \<Rightarrow> string \<Rightarrow> string \<Rightarrow> Node" where
  "demo_node n rs ip st = \<lparr>NName = n, Roles = rs, MgmtIP = ip, MgmtIP6 = [], NState = st, Note = [], EnrolledAt = None\<rparr>"

definition demo_settings :: Settings where
  "demo_settings = \<lparr>Env = ''prod'', AnsibleUser = ''flyc-deploy'', WaitHost = ''wait.example'', ControlHost = ''control.example'',
     VIPAppV4 = [], VIPAppV6 = [], VIPWaitV4 = [], VIPWaitV6 = [], VIPGatewayV4 = [], VIPGatewayV6 = [], BGPEnabled = False, BGPLocalAS = 0,
     BGPNeighbors = [], ACMEEmail = [], ACMEDirectory = [], ControlPublicURL = [], CookieSecure = True, ImageTag = ''latest'', Registry = [],
     QueuePort = 8080, ControlPort = 8090, DataplanePort = 5555, ManageFirewall = True, DeployFrom = [], RegistryCA = [], ExtraVars = [],
     SeededFromEnv = False\<rparr>"

definition demo_inv :: inv where
  "demo_inv = \<lparr>nodes = [demo_node ''edge-1'' [RoleEdge, RoleQueue] ''10.0.0.1'' ''ready'', demo_node ''edge-2'' [RoleEdge] ''fd00::2'' ''draining'',
       demo_node ''data-1'' [RoleData] ''10.0.0.9'' ''ready''], settings = demo_settings,
     edge_urls = [\<lparr>g_name = ''old'', g_url = ''http://10.9.9.9:5555''\<rparr>], queue_hosts = []\<rparr>"

theorem Sync_mirrors_nodes_witness:
  "\<exists>s'. Sync id (\<lambda>_. True) demo_inv = (Inr (), s') \<and> (''edge-1'', ''http://10.0.0.1:5555'') \<in> (\<lambda>r. (g_name r, g_url r)) ` set (edge_urls s')
     \<and> (\<forall>r \<in> set (edge_urls s'). g_name r \<noteq> ''old'')"
proof -
  have d: "distinct (map NName (nodes demo_inv))" and ne: "nodes demo_inv \<noteq> []" by code_simp+
  obtain q s' where S: "Sync id (\<lambda>_. True) demo_inv = (q, s')" by (metis surj_pair)
  have q: "q = Inr ()" using Sync_mirrors_nodes [of "\<lambda>_. True" demo_inv id] d ne S by (cases q) auto
  have e: "(\<lambda>r. (g_name r, g_url r)) ` set (edge_urls s') =
      {(NName n, ''http://'' @ hostPort (MgmtIP n) @ '':'' @ show_int (DataplanePort (settings demo_inv))) |n. n \<in> set (nodes demo_inv) \<and> ready RoleEdge n}"
    using Sync_mirrors_nodes [of "\<lambda>_. True" demo_inv id] d S q by auto
  let ?n = "hd (nodes demo_inv)"
  have port: "show_int 5555 = ''5555''" by code_simp
  have n: "?n \<in> set (nodes demo_inv)" "ready RoleEdge ?n" "NName ?n = ''edge-1''"
    "''http://'' @ hostPort (MgmtIP ?n) @ '':'' @ show_int (DataplanePort (settings demo_inv)) = ''http://10.0.0.1:5555''"
    using port by (simp_all add: demo_inv_def demo_node_def ready_def roles hostPort_def demo_settings_def)
  have "(NName ?n, ''http://'' @ hostPort (MgmtIP ?n) @ '':'' @ show_int (DataplanePort (settings demo_inv))) \<in> (\<lambda>r. (g_name r, g_url r)) ` set (edge_urls s')"
    unfolding e using n(1,2) by blast
  then have m: "(''edge-1'', ''http://10.0.0.1:5555'') \<in> (\<lambda>r. (g_name r, g_url r)) ` set (edge_urls s')"
    unfolding n(3,4) .
  have "\<forall>n \<in> set (nodes demo_inv). NName n \<noteq> ''old''" by (simp add: demo_inv_def demo_node_def)
  then have "\<forall>x \<in> (\<lambda>r. (g_name r, g_url r)) ` set (edge_urls s'). fst x \<noteq> ''old''"
    unfolding e by auto
  then show ?thesis using S q m by auto
qed

section \<open>The first filling\<close>

lemma SaveNode_nonempty: "SaveNode ok n s = (Inr n', s') \<Longrightarrow> nodes s' \<noteq> []"
  by (auto simp: SaveNode_def upsert_def update_where_def Let_def split: if_splits)

lemma SaveNode_keeps_nonempty: "SaveNode ok n s = (r, s') \<Longrightarrow> nodes s \<noteq> [] \<Longrightarrow> nodes s' \<noteq> []"
  by (auto simp: SaveNode_def upsert_def update_where_def Let_def split: if_splits)

lemma seed_nodes_nonempty: "seed_nodes ok k ns s = (r, s') \<Longrightarrow> nodes s \<noteq> [] \<Longrightarrow> nodes s' \<noteq> []"
  by (induction ok k ns s rule: seed_nodes.induct) (auto dest: SaveNode_keeps_nonempty split: prod.splits sum.splits)

lemma put_edges_nodes: "put_edges ok k es s = (r, s') \<Longrightarrow> nodes s' = nodes s \<and> settings s' = settings s"
  by (induction ok k es s rule: put_edges.induct) (auto split: if_splits)

lemma Sync_nodes: "Sync coll ok s = (r, s') \<Longrightarrow> nodes s' = nodes s \<and> settings s' = settings s"
  using put_edges_nodes by (fastforce simp: Sync_def Let_def split: if_splits sum.splits prod.splits)

lemma SaveSettings_nodes [simp]: "nodes (snd (SaveSettings ok st b s)) = nodes s"
  by (simp add: SaveSettings_def Let_def)

lemma Apply_nodes:
  assumes "Apply parse coll ok raw s = (Inr (), s')" and "raw \<noteq> []" and "parse raw = Some sd" and "SNodes sd \<noteq> []"
  shows "nodes s' \<noteq> []"
proof (cases "nodes s = []")
  case False
  then show ?thesis using assms by (auto simp: Apply_def split: if_splits)
next
  case True
  obtain r1 s1 where 1: "SaveSettings (ok 1) (SSettings sd) True s = (r1, s1)" by (metis surj_pair)
  obtain r2 s2 where 2: "seed_nodes ok 2 (SNodes sd) s1 = (r2, s2)" by (metis surj_pair)
  obtain n ns where n: "SNodes sd = n # ns" using assms(4) by (cases "SNodes sd") auto
  have S: "r2 = Inr ()" and Y: "Sync coll (\<lambda>k. ok (2 + length (SNodes sd) + k)) s2 = (Inr (), s')"
    using assms True 1 2 by (auto simp: Apply_def split: if_splits sum.splits prod.splits)
  have "nodes s2 \<noteq> []"
    using 2 S n by (auto dest: SaveNode_nonempty seed_nodes_nonempty split: prod.splits sum.splits)
  then show ?thesis using Sync_nodes [OF Y] by simp
qed

text \<open>The file of the first installation is applied once: an application that succeeds with a node in it
  leaves a base that every later application, of any file and with any answer of Postgres, leaves alone.\<close>

theorem Apply_once:
  assumes "Apply parse coll ok raw s = (Inr (), s')" and "raw \<noteq> []" and "parse raw = Some sd" and "SNodes sd \<noteq> []"
  shows "snd (Apply parse' coll' ok' raw' s') = s'"
  using Apply_nodes [OF assms] by (auto simp: Apply_def split: option.splits)

definition demo_seed :: "string \<Rightarrow> Seed option" where
  "demo_seed t = (if t = ''{}'' then Some \<lparr>SSettings = demo_settings, SNodes = [demo_node ''data-1'' [RoleData] ''10.0.0.9'' []]\<rparr> else None)"

definition demo_inv0 :: inv where
  "demo_inv0 = \<lparr>nodes = [], settings = demo_settings, edge_urls = [], queue_hosts = []\<rparr>"

theorem Apply_once_witness:
  "map NState (nodes (snd (Apply demo_seed id (\<lambda>_. True) ''{}'' demo_inv0))) = [''ready''] \<and>
   snd (Apply demo_seed id (\<lambda>_. True) ''{}'' (snd (Apply demo_seed id (\<lambda>_. True) ''{}'' demo_inv0))) = snd (Apply demo_seed id (\<lambda>_. True) ''{}'' demo_inv0)"
proof -
  let ?s = "snd (Apply demo_seed id (\<lambda>_. True) ''{}'' demo_inv0)"
  have 1: "map NState (nodes ?s) = [''ready'']" "fst (Apply demo_seed id (\<lambda>_. True) ''{}'' demo_inv0) = Inr ()"
    by code_simp+
  have 2: "Apply demo_seed id (\<lambda>_. True) ''{}'' demo_inv0 = (Inr (), ?s)" using 1(2) by (simp add: prod_eq_iff)
  have 3: "SNodes (the (demo_seed ''{}'')) \<noteq> []" "demo_seed ''{}'' = Some (the (demo_seed ''{}''))" by (simp_all add: demo_seed_def)
  show ?thesis using Apply_once [OF 2 _ 3(2,1), of demo_seed id "\<lambda>_. True" "''{}''"] 1(1) by simp
qed

end
