(* ===== verification/Seed_Gaps.thy ===== *)
theory Seed_Gaps
  imports Inventory_Laws
begin

text \<open>
  control/internal/inventory/seed.go when the base is already filled: \<open>signalerEcart\<close> compares it with the inventory of
  the environment and logs the differences (nodes by name, settings by field). The quoting of \<open>%q\<close> and the printing of
  fractions are arguments.
\<close>

section \<open>The settings as texts\<close>

definition neighbor_json :: "Neighbor \<Rightarrow> jv" where
  "neighbor_json n = JObj [(''ip'', JStr (NIP n)), (''remote_as'', JInt (RemoteAS n)), (''family'', JStr (Family n))]"

text \<open>The fields by their names in JSON; an empty certificate of the registry is left out.\<close>

definition settings_fields :: "Settings \<Rightarrow> (string \<times> jv) list" where
  "settings_fields s =
    [(''env'', JStr (Env s)), (''ansible_user'', JStr (AnsibleUser s)), (''wait_host'', JStr (WaitHost s)),
     (''control_host'', JStr (ControlHost s)), (''vip_app_v4'', JStr (VIPAppV4 s)), (''vip_app_v6'', JStr (VIPAppV6 s)),
     (''vip_wait_v4'', JStr (VIPWaitV4 s)), (''vip_wait_v6'', JStr (VIPWaitV6 s)),
     (''vip_gateway_v4'', JStr (VIPGatewayV4 s)), (''vip_gateway_v6'', JStr (VIPGatewayV6 s)),
     (''bgp_enabled'', JBool (BGPEnabled s)), (''bgp_local_as'', JInt (BGPLocalAS s)),
     (''bgp_neighbors'', if BGPNeighbors s = [] then JNull else JArr (map neighbor_json (BGPNeighbors s))),
     (''acme_email'', JStr (ACMEEmail s)), (''acme_directory'', JStr (ACMEDirectory s)),
     (''control_public_url'', JStr (ControlPublicURL s)), (''cookie_secure'', JBool (CookieSecure s)),
     (''image_tag'', JStr (ImageTag s)), (''registry'', JStr (Registry s)), (''queue_port'', JInt (QueuePort s)),
     (''control_port'', JInt (ControlPort s)), (''dataplane_port'', JInt (DataplanePort s)),
     (''manage_firewall'', JBool (ManageFirewall s)), (''deploy_from'', JStr (DeployFrom s))] @
    (if RegistryCA s = [] then [] else [(''registry_ca'', JStr (RegistryCA s))]) @
    [(''extra_vars'', JObj (ExtraVars s)), (''seeded_from_env'', JBool (SeededFromEnv s))]"

text \<open>\<open>fmt.Sprint\<close> of a decoded value: a number is a double, a map is printed in the order of its keys.\<close>

fun sprint :: "(rat \<Rightarrow> string) \<Rightarrow> jv \<Rightarrow> string" where
  "sprint ff JNull = ''<nil>''"
| "sprint ff (JBool b) = (if b then ''true'' else ''false'')"
| "sprint ff (JInt i) = show_int (f64_of_int i)"
| "sprint ff (JNum q) = ff q"
| "sprint ff (JStr t) = t"
| "sprint ff (JArr vs) = ''['' @ join '' '' (map (sprint ff) vs) @ '']''"
| "sprint ff (JObj fs) = ''map['' @ join '' '' (map (\<lambda>(k, t). k @ '':'' @ t)
     (sort_key fst (map (\<lambda>kv. (fst kv, sprint ff (snd kv))) fs))) @ '']''"

definition champs :: "(rat \<Rightarrow> string) \<Rightarrow> Settings \<Rightarrow> (string \<times> string) list" where
  "champs ff s = map (\<lambda>(k, v). (k, sprint ff v)) (settings_fields (s\<lparr>SeededFromEnv := False\<rparr>))"

text \<open>40 bytes and the three bytes of the ellipsis.\<close>

definition court :: "string \<Rightarrow> string" where
  "court t = (if 40 < length t then take 40 t @ [CHR 0xE2, CHR 0x80, CHR 0xA6] else t)"

section \<open>The differences\<close>

definition node_text :: "Node \<Rightarrow> string" where
  "node_text n = join ''+'' (Roles n) @ '' '' @ MgmtIP n"

definition clesUnion :: "(string \<times> 'v) list \<Rightarrow> (string \<times> 'v) list \<Rightarrow> string list" where
  "clesUnion a b = sort (remdups (map fst a @ map fst b))"

definition text_of :: "(string \<times> string) list \<Rightarrow> string \<Rightarrow> string" where
  "text_of m k = (case map_of m k of None \<Rightarrow> [] | Some v \<Rightarrow> v)"

definition node_gaps :: "(string \<Rightarrow> string) \<Rightarrow> Node list \<Rightarrow> Node list \<Rightarrow> string list" where
  "node_gaps qq base file =
    (let b = go_map (map (\<lambda>n. (NName n, node_text n)) base); f = go_map (map (\<lambda>n. (NName n, node_text n)) file)
     in concat (map (\<lambda>k. if text_of b k = text_of f k then []
          else if text_of b k = [] then [k @ '' absent de la base'']
          else if text_of f k = [] then [k @ '' absent du fichier'']
          else [k @ '' : base '' @ qq (text_of b k) @ '', fichier '' @ qq (text_of f k)]) (clesUnion b f)))"

definition ecartsReglages :: "(string \<Rightarrow> string) \<Rightarrow> (rat \<Rightarrow> string) \<Rightarrow> bool \<Rightarrow> inv \<Rightarrow> Settings \<Rightarrow> string list" where
  "ecartsReglages qq ff ok s file = (case LoadSettings ok s of Inl _ \<Rightarrow> []
     | Inr base \<Rightarrow>
        (let a = champs ff base; b = champs ff file
         in concat (map (\<lambda>k. if text_of a k \<noteq> text_of b k \<and> text_of a k \<noteq> [] \<and> text_of b k \<noteq> []
              then [k @ '' : base '' @ qq (court (text_of a k)) @ '', fichier '' @ qq (court (text_of b k))] else []) (clesUnion a b))))"

text \<open>The warning that is logged, if any.\<close>

definition signalerEcart :: "(string \<Rightarrow> string) \<Rightarrow> (rat \<Rightarrow> string) \<Rightarrow> (string \<Rightarrow> 'k::linorder) \<Rightarrow> (nat \<Rightarrow> bool) \<Rightarrow> inv \<Rightarrow> Seed \<Rightarrow> string option" where
  "signalerEcart qq ff coll ok s sd = (case LoadNodes coll (ok 0) s of Inl _ \<Rightarrow> None
     | Inr ns \<Rightarrow>
        (let gaps = node_gaps qq ns (SNodes sd) @ ecartsReglages qq ff (ok 1) s (SSettings sd)
         in if gaps = [] then None else Some (join '' ; '' gaps)))"

section \<open>When nothing is logged\<close>

lemma set_clesUnion: "set (clesUnion a b) = fst ` set a \<union> fst ` set b"
  by (simp add: clesUnion_def)

lemma text_of_outside: "k \<notin> fst ` set m \<Longrightarrow> text_of m k = []"
  by (simp add: text_of_def map_of_eq_None_iff [THEN iffD2])

lemma node_text_nonempty [simp]: "node_text n \<noteq> []"
  by (simp add: node_text_def)

lemma concat_map_Nil: "concat (map f xs) = [] \<longleftrightarrow> (\<forall>x \<in> set xs. f x = [])"
  by simp

lemma node_gaps_none: "node_gaps qq base file = [] \<longleftrightarrow>
    (\<forall>k. text_of (go_map (map (\<lambda>n. (NName n, node_text n)) base)) k = text_of (go_map (map (\<lambda>n. (NName n, node_text n)) file)) k)"
  (is "_ \<longleftrightarrow> (\<forall>k. text_of ?b k = text_of ?f k)")
proof -
  have "(if x = y then [] else if x = [] then [a] else if y = [] then [b] else [c]) = [] \<longleftrightarrow> x = y" for x y a b c :: string by simp
  then have "node_gaps qq base file = [] \<longleftrightarrow> (\<forall>k \<in> set (clesUnion ?b ?f). text_of ?b k = text_of ?f k)"
    unfolding node_gaps_def Let_def concat_map_Nil by (simp only:)
  moreover have "text_of ?b k = text_of ?f k" if "k \<notin> set (clesUnion ?b ?f)" for k
    using that by (simp add: set_clesUnion text_of_outside)
  ultimately show ?thesis by blast
qed

text \<open>The last node of a name counts, as in the map that the code fills.\<close>

lemma text_of_nodes: "text_of (go_map (map (\<lambda>n. (NName n, node_text n)) ns)) k =
    (case find (\<lambda>n. NName n = k) (rev ns) of None \<Rightarrow> [] | Some n \<Rightarrow> node_text n)"
proof -
  have "map_of (map (\<lambda>n. (NName n, node_text n)) ms) k = map_option node_text (find (\<lambda>n. NName n = k) ms)" for ms
    by (induction ms) auto
  then have "map_of (rev (map (\<lambda>n. (NName n, node_text n)) ns)) k = map_option node_text (find (\<lambda>n. NName n = k) (rev ns))"
    by (simp only: rev_map)
  then show ?thesis unfolding text_of_def go_map_props [THEN conjunct2] by (simp split: option.split)
qed

definition same_node :: "Node list \<Rightarrow> Node list \<Rightarrow> string \<Rightarrow> bool" where
  "same_node a b k \<longleftrightarrow> map_option node_text (find (\<lambda>n. NName n = k) (rev a)) = map_option node_text (find (\<lambda>n. NName n = k) (rev b))"

definition agreeing :: "(rat \<Rightarrow> string) \<Rightarrow> Settings \<Rightarrow> Settings \<Rightarrow> string \<Rightarrow> bool" where
  "agreeing ff a b k \<longleftrightarrow> text_of (champs ff a) k \<in> {[], text_of (champs ff b) k} \<or> text_of (champs ff b) k = []"

lemma node_option: "(case x of None \<Rightarrow> [] | Some n \<Rightarrow> node_text n) = (case y of None \<Rightarrow> [] | Some n \<Rightarrow> node_text n) \<longleftrightarrow>
    map_option node_text x = map_option node_text y"
  by (cases x; cases y) (simp_all add: node_text_nonempty [symmetric])

lemma node_gaps_same: "node_gaps qq base file = [] \<longleftrightarrow> (\<forall>k. same_node base file k)"
  unfolding node_gaps_none text_of_nodes same_node_def node_option ..

lemma ecartsReglages_none: "ecartsReglages qq ff True s file = [] \<longleftrightarrow> (\<forall>k. agreeing ff (settings s) file k)"
proof -
  let ?a = "champs ff (settings s)" and ?b = "champs ff file"
  have "ecartsReglages qq ff True s file = [] \<longleftrightarrow> (\<forall>k \<in> set (clesUnion ?a ?b). agreeing ff (settings s) file k)"
    by (simp add: ecartsReglages_def LoadSettings_def Let_def agreeing_def) blast
  moreover have "agreeing ff (settings s) file k" if "k \<notin> set (clesUnion ?a ?b)" for k
    using that by (simp add: set_clesUnion text_of_outside agreeing_def)
  ultimately show ?thesis by blast
qed

text \<open>The comparison of a filled base with the inventory of the environment is silent exactly when they agree: under every
  name the last node of both sides has the same roles and address, or neither side has one, and every setting prints
  the same on both sides or as nothing on one.\<close>

theorem silent_when_they_agree:
  assumes "ok 0" and "ok 1"
  shows "signalerEcart qq ff coll ok s sd = None \<longleftrightarrow>
    (\<forall>k. same_node (sort_key (\<lambda>n. coll (NName n)) (nodes s)) (SNodes sd) k) \<and> (\<forall>k. agreeing ff (settings s) (SSettings sd) k)"
  using assms node_gaps_same [of qq "sort_key (\<lambda>n. coll (NName n)) (nodes s)" "SNodes sd"] ecartsReglages_none [of qq ff s "SSettings sd"]
  by (auto simp: signalerEcart_def LoadNodes_def Let_def)

definition demo_file :: Seed where
  "demo_file = \<lparr>SSettings = demo_settings, SNodes = rev (nodes demo_inv)\<rparr>"

theorem silent_when_they_agree_witness:
  "signalerEcart id (\<lambda>_. []) id (\<lambda>_. True) demo_inv demo_file = None \<and>
   signalerEcart id (\<lambda>_. []) id (\<lambda>_. True) demo_inv (demo_file\<lparr>SNodes := tl (nodes demo_inv)\<rparr>) \<noteq> None"
proof
  let ?ns = "sort_key (\<lambda>n. id (NName n)) (nodes demo_inv)"
  have "?ns = [demo_node ''data-1'' [RoleData] ''10.0.0.9'' ''ready'', demo_node ''edge-1'' [RoleEdge, RoleQueue] ''10.0.0.1'' ''ready'',
      demo_node ''edge-2'' [RoleEdge] ''fd00::2'' ''draining'']" by code_simp
  then have "same_node ?ns (SNodes demo_file) k" for k
    by (auto simp: same_node_def demo_file_def demo_inv_def demo_node_def)
  moreover have "agreeing (\<lambda>_. []) (settings demo_inv) (SSettings demo_file) k" for k by (simp add: agreeing_def demo_file_def demo_inv_def)
  ultimately show "signalerEcart id (\<lambda>_. []) id (\<lambda>_. True) demo_inv demo_file = None"
    using silent_when_they_agree [of "\<lambda>_. True" id "\<lambda>_. []" id demo_inv demo_file] by simp
  have "\<not> same_node ?ns (tl (nodes demo_inv)) ''edge-1''" by code_simp
  then show "signalerEcart id (\<lambda>_. []) id (\<lambda>_. True) demo_inv (demo_file\<lparr>SNodes := tl (nodes demo_inv)\<rparr>) \<noteq> None"
    using silent_when_they_agree [of "\<lambda>_. True" id "\<lambda>_. []" id demo_inv "demo_file\<lparr>SNodes := tl (nodes demo_inv)\<rparr>"] by auto
qed

text \<open>A setting that the file does not carry is only passed over when it is a text: a number left out is decoded as 0, which
  prints as a digit, so an inventory without a port is reported against the port of the base.\<close>

lemma missing_port_is_reported:
  "ecartsReglages id (\<lambda>_. []) True demo_inv (demo_settings\<lparr>QueuePort := 0\<rparr>) = [''queue_port : base 8080, fichier 0'']"
  by code_simp

end
