(* ===== verification/Jobs_Queue.thy ===== *)
theory Jobs_Queue
  imports Postgres_Model
begin

text \<open>
  control/internal/jobs/jobs.go and the file protocol of runner/run.py: the table \<open>jobs\<close>, the
  exchange directory, the operations of flyc-control and the steps of the runner, as one
  transition relation. A file is named by the job and a suffix. JSON texts are arguments; \<open>io\<close>
  says which file operations succeed, \<open>ok k\<close> which statements reach Postgres.
\<close>

section \<open>Data\<close>

record Request =
  RKind :: string
  Playbook :: string
  Argv :: "string list"
  Limit :: string
  Tags :: string
  Check :: bool
  ReqVars :: "(string \<times> jv) list"
  Inventory :: string

record Job =
  JID :: string
  JKind :: string
  JStatus :: string
  JExit :: "int option"
  JDetail :: string
  JCreatedBy :: string
  JCreatedAt :: int
  JStartedAt :: "int option"
  JFinishedAt :: "int option"
  JRequest :: Request

type_synonym fname = "string \<times> string"

record jobsys =
  jobs :: "Job list"
  files :: "(fname \<times> string) list"

datatype fop = Mkdir | WriteF fname | RenameF fname | RemoveF fname | ReadF fname

type_synonym io = "fop \<Rightarrow> bool"

definition Done :: "Job \<Rightarrow> bool" where
  "Done j \<longleftrightarrow> JStatus j = ''succeeded'' \<or> JStatus j = ''failed'' \<or> JStatus j = ''interrupted''"

definition active_job :: "Job \<Rightarrow> bool" where
  "active_job j \<longleftrightarrow> JStatus j = ''pending'' \<or> JStatus j = ''running''"

definition has_file :: "jobsys \<Rightarrow> fname \<Rightarrow> bool" where
  "has_file s f \<longleftrightarrow> map_of (files s) f \<noteq> None"

section \<open>Operations of flyc-control\<close>

text \<open>What a query returns of a row: the request without its inventory.\<close>

definition scan_job :: "Job \<Rightarrow> Job" where
  "scan_job j = j\<lparr>JRequest := (JRequest j)\<lparr>Inventory := []\<rparr>\<rparr>"

definition Get :: "bool \<Rightarrow> string \<Rightarrow> jobsys \<Rightarrow> Job res" where
  "Get ok i s = (if \<not> ok then Inl EDb
     else case filter (\<lambda>j. JID j = i) (jobs s) of [] \<Rightarrow> Inl no_rows | j # _ \<Rightarrow> Inr (scan_job j))"

definition List_jobs :: "bool \<Rightarrow> int \<Rightarrow> jobsys \<Rightarrow> Job list res" where
  "List_jobs ok limit s = (if \<not> ok then Inl EDb
     else let n = (if limit \<le> 0 \<or> 200 < limit then 50 else limit)
          in Inr (map scan_job (take (nat n) (sort_key (\<lambda>j. - JCreatedAt j) (jobs s)))))"

text \<open>The request is written to a temporary file and renamed: the runner never reads half of one.\<close>

definition write_req :: "(Request \<Rightarrow> string) \<Rightarrow> io \<Rightarrow> string \<Rightarrow> Request \<Rightarrow> jobsys \<Rightarrow> unit res \<times> jobsys" where
  "write_req json io i req s =
    (if \<not> io Mkdir then (Inl (EInvalid ''mkdir''), s)
     else if \<not> io (WriteF (i, ''.request.tmp'')) then (Inl (EInvalid ''write''), s)
     else let s1 = s\<lparr>files := AList.update (i, ''.request.tmp'') (json req) (files s)\<rparr> in
       if \<not> io (RenameF (i, ''.request.json'')) then (Inl (EInvalid ''rename''), s1)
       else (Inr (), s1\<lparr>files := AList.update (i, ''.request.json'') (json req) (AList.delete (i, ''.request.tmp'') (files s1))\<rparr>))"

definition ErrBusy :: err where "ErrBusy = EInvalid ''busy''"

text \<open>The partial unique index of the table refuses a second active job; \<open>fresh\<close> is the identifier
  that Postgres draws.\<close>

definition Submit :: "(Request \<Rightarrow> string) \<Rightarrow> io \<Rightarrow> (nat \<Rightarrow> bool) \<Rightarrow> string \<Rightarrow> int \<Rightarrow> string \<Rightarrow> Request \<Rightarrow> string \<Rightarrow> jobsys \<Rightarrow>
    Job res \<times> jobsys" where
  "Submit json io ok fresh now kind req by s =
    (if \<not> ok 0 then (Inl EDb, s)
     else if list_ex active_job (jobs s) \<or> fresh \<in> JID ` set (jobs s) then (Inl ErrBusy, s)
     else let s1 = s\<lparr>jobs := jobs s @ [\<lparr>JID = fresh, JKind = kind, JStatus = ''pending'', JExit = None, JDetail = [],
                JCreatedBy = by, JCreatedAt = now, JStartedAt = None, JFinishedAt = None, JRequest = req\<rparr>]\<rparr> in
       (case write_req json io fresh req s1 of
          (Inl e, s2) \<Rightarrow> (Inl e, if ok 1 then s2\<lparr>jobs := filter (\<lambda>j. JID j \<noteq> fresh) (jobs s2)\<rparr> else s2)
        | (Inr _, s2) \<Rightarrow> (Get (ok 1) fresh s2, s2)))"

definition cleanup :: "io \<Rightarrow> string \<Rightarrow> jobsys \<Rightarrow> jobsys" where
  "cleanup io i s = fold (\<lambda>x s. if io (RemoveF (i, x)) then s\<lparr>files := AList.delete (i, x) (files s)\<rparr> else s)
     [''.request.json'', ''.claim'', ''.result.json''] s"

definition set_running :: "int \<Rightarrow> string \<Rightarrow> Job list \<Rightarrow> Job list" where
  "set_running now i = update_where (\<lambda>j. JID j = i)
     (\<lambda>j. j\<lparr>JStatus := ''running'', JStartedAt := (case JStartedAt j of None \<Rightarrow> Some now | Some t \<Rightarrow> Some t)\<rparr>)"

definition status_of_rc :: "int \<Rightarrow> string" where
  "status_of_rc rc = (if rc = 75 then ''interrupted'' else if rc \<noteq> 0 then ''failed'' else ''succeeded'')"

definition set_done :: "int \<Rightarrow> string \<Rightarrow> int \<Rightarrow> string \<Rightarrow> Job list \<Rightarrow> Job list" where
  "set_done now i rc detail = update_where (\<lambda>j. JID j = i)
     (\<lambda>j. j\<lparr>JStatus := status_of_rc rc, JExit := Some rc, JDetail := detail,
            JStartedAt := (case JStartedAt j of None \<Rightarrow> Some now | Some t \<Rightarrow> Some t), JFinishedAt := Some now\<rparr>)"

text \<open>\<open>parse\<close> decodes a result file into the return code and the detail.\<close>

definition refresh_job :: "(string \<Rightarrow> (int \<times> string) option) \<Rightarrow> io \<Rightarrow> (nat \<Rightarrow> bool) \<Rightarrow> int \<Rightarrow> Job \<Rightarrow> jobsys \<Rightarrow> jobsys" where
  "refresh_job parse io ok now j s =
    (let s1 = (if JStatus j = ''pending'' \<and> io (ReadF (JID j, ''.claim'')) \<and> has_file s (JID j, ''.claim'') \<and> ok 0
               then s\<lparr>jobs := set_running now (JID j) (jobs s)\<rparr> else s)
     in if \<not> io (ReadF (JID j, ''.result.json'')) then s1
        else case map_of (files s1) (JID j, ''.result.json'') of None \<Rightarrow> s1
         | Some txt \<Rightarrow> (case parse txt of None \<Rightarrow> s1
            | Some (rc, detail) \<Rightarrow>
               (if \<not> ok 1 then s1
                else cleanup io (JID j) (s1\<lparr>jobs := set_done now (JID j) rc detail (jobs s1)\<rparr>))))"

definition refresh :: "(string \<Rightarrow> (int \<times> string) option) \<Rightarrow> io \<Rightarrow> (nat \<Rightarrow> nat \<Rightarrow> bool) \<Rightarrow> int \<Rightarrow> jobsys \<Rightarrow> jobsys" where
  "refresh parse io ok now s =
    (if \<not> ok 0 0 then s
     else fold (\<lambda>(k, j) s. refresh_job parse io (ok (Suc k)) now (scan_job j) s)
       (enumerate 0 (filter active_job (jobs s))) s)"

section \<open>Steps of the runner\<close>

text \<open>\<open>pending\<close> lists the requests without a result; \<open>claim\<close> creates the file exclusively.\<close>

definition runner_claim :: "string \<Rightarrow> string \<Rightarrow> jobsys \<Rightarrow> jobsys option" where
  "runner_claim stamp i s =
    (if has_file s (i, ''.request.json'') \<and> \<not> has_file s (i, ''.result.json'') \<and> \<not> has_file s (i, ''.claim'')
     then Some (s\<lparr>files := AList.update (i, ''.claim'') stamp (files s)\<rparr>) else None)"

definition runner_log :: "string \<Rightarrow> string \<Rightarrow> jobsys \<Rightarrow> jobsys" where
  "runner_log i txt s = s\<lparr>files := AList.update (i, ''.log'')
     ((case map_of (files s) (i, ''.log'') of None \<Rightarrow> [] | Some l \<Rightarrow> l) @ txt) (files s)\<rparr>"

definition runner_result :: "string \<Rightarrow> string \<Rightarrow> jobsys \<Rightarrow> jobsys" where
  "runner_result i txt s = s\<lparr>files := AList.update (i, ''.result.json'') txt (files s)\<rparr>"

section \<open>Following the log\<close>

text \<open>
  One turn of \<open>Tail\<close> sees the log as it is then, up to 16 KiB from the position; at its end it
  looks the job up. \<open>seen\<close> is a turn: the log when it is read, whether the job is done when it
  is looked up after that, whether the client left.
\<close>

record seen =
  log_at :: string
  done_at :: bool
  gone :: bool

datatype tail_end = Finished | Cancelled | Following

fun Tail :: "seen list \<Rightarrow> nat \<Rightarrow> string list \<Rightarrow> tail_end \<times> string list" where
  "Tail [] pos out = (Following, out)"
| "Tail (x # xs) pos out =
    (let chunk = take 16384 (drop pos (log_at x)) in
     if chunk \<noteq> [] then Tail xs (pos + length chunk) (out @ [chunk])
     else if done_at x then (Finished, out)
     else if gone x then (Cancelled, out)
     else Tail xs pos out)"

text \<open>\<open>sseWriter\<close>: the bytes kept and one event per complete line.\<close>

fun sse_lines :: "string \<Rightarrow> string \<Rightarrow> string list \<times> string" where
  "sse_lines acc [] = ([], acc)"
| "sse_lines acc (c # cs) = (if c = CHR 0x0A then (case sse_lines [] cs of (ls, r) \<Rightarrow> (acc # ls, r))
     else sse_lines (acc @ [c]) cs)"

definition sse_write :: "string \<Rightarrow> string \<Rightarrow> string list \<times> string" where
  "sse_write rest p = sse_lines [] (rest @ p)"

fun sse_all :: "string \<Rightarrow> string list \<Rightarrow> string list \<times> string" where
  "sse_all rest [] = ([], rest)"
| "sse_all rest (p # ps) = (case sse_write rest p of (ls, r) \<Rightarrow> (case sse_all r ps of (ls', r') \<Rightarrow> (ls @ ls', r')))"

section \<open>The life of the jobs\<close>

text \<open>
  The ghost list holds the identifiers that the runner has claimed, hence executed. Any file operation may fail, and
  the clock and the answers of Postgres are arbitrary; \<open>A\<close> says which failures a life is allowed to have. A cleanup
  retires a job when it does not remove its result while it fails to remove its request.
\<close>

definition reliable :: "io \<Rightarrow> bool" where
  "reliable io \<longleftrightarrow> (\<forall>f. io (RemoveF f))"

definition retires :: "io \<Rightarrow> bool" where
  "retires io \<longleftrightarrow> (\<forall>i. io (RemoveF (i, ''.result.json'')) \<longrightarrow> io (RemoveF (i, ''.request.json'')))"

inductive jstep :: "(io \<Rightarrow> bool) \<Rightarrow> jobsys \<times> string list \<Rightarrow> jobsys \<times> string list \<Rightarrow> bool" for A where
  submit: "A io \<Longrightarrow> Submit json io ok fresh now kind req by s = (r, s') \<Longrightarrow> jstep A (s, ex) (s', ex)"
| refresh: "A io \<Longrightarrow> jstep A (s, ex) (refresh parse io ok now s, ex)"
| claim: "runner_claim stamp i s = Some s' \<Longrightarrow> jstep A (s, ex) (s', ex @ [i])"
| log: "has_file s (i, ''.claim'') \<Longrightarrow> jstep A (s, ex) (runner_log i txt s, ex)"
| result: "has_file s (i, ''.claim'') \<Longrightarrow> jstep A (s, ex) (runner_result i txt s, ex)"

inductive_cases jstepE: "jstep A (s, ex) (s', ex')"

definition init_jobs :: "jobsys \<times> string list" where
  "init_jobs = (\<lparr>jobs = [], files = []\<rparr>, [])"

end
