(* ===== verification/Jobs_Laws.thy ===== *)
theory Jobs_Laws
  imports Jobs_Queue
begin

text \<open>
  The laws of the jobs: one invariant over the steps of flyc-control and of the runner, from which
  the three promises of the package follow (one active job at a time, no job executed twice, a
  finished job never changes), and the equivalence of the event writer with its one-shot form.
\<close>

section \<open>Files\<close>

lemma has_update [simp]: "has_file (s\<lparr>files := AList.update k v fs\<rparr>) f \<longleftrightarrow> f = k \<or> has_file (s\<lparr>files := fs\<rparr>) f"
  by (simp add: has_file_def update_conv')

lemma has_delete [simp]: "has_file (s\<lparr>files := AList.delete k fs\<rparr>) f \<longleftrightarrow> f \<noteq> k \<and> has_file (s\<lparr>files := fs\<rparr>) f"
  by (simp add: has_file_def delete_conv')

lemma has_frame [simp]: "has_file (s\<lparr>jobs := js\<rparr>) = has_file s" "has_file (s\<lparr>files := files s\<rparr>) = has_file s"
  by (simp_all add: has_file_def fun_eq_iff)

lemma jobs_cleanup [simp]: "jobs (cleanup io i s) = jobs s"
  by (simp add: cleanup_def)

lemma cleanup_removes:
  "has_file (cleanup io i s) f \<longleftrightarrow> has_file s f \<and>
    \<not> (f \<in> {(i, ''.request.json''), (i, ''.claim''), (i, ''.result.json'')} \<and> io (RemoveF f))"
  by (auto simp: cleanup_def)

lemma cleanup_has:
  assumes "reliable io"
  shows "has_file (cleanup io i s) f \<longleftrightarrow> has_file s f \<and> f \<notin> {(i, ''.request.json''), (i, ''.claim''), (i, ''.result.json'')}"
  using assms by (auto simp: cleanup_removes reliable_def)

lemma write_req_jobs: "write_req json io i req s = (r, s') \<Longrightarrow> jobs s' = jobs s"
  by (auto simp: write_req_def Let_def split: if_splits)

lemma write_req_files:
  assumes "write_req json io i req s = (r, s')" and "f \<noteq> (i, ''.request.json'')" and "f \<noteq> (i, ''.request.tmp'')"
  shows "has_file s' f \<longleftrightarrow> has_file s f"
  using assms by (auto simp: write_req_def Let_def split: if_splits)

lemma write_req_failed:
  "write_req json io i req s = (Inl e, s') \<Longrightarrow> has_file s' (i, ''.request.json'') \<longleftrightarrow> has_file s (i, ''.request.json'')"
  by (auto simp: write_req_def Let_def split: if_splits)

section \<open>The invariant\<close>

text \<open>What holds of every life, and with \<open>once\<close> what holds when every cleanup retires its job: a request that is there
  has a claim or a result, or it is that of an active job that was never claimed.\<close>

definition jinv :: "bool \<Rightarrow> jobsys \<times> string list \<Rightarrow> bool" where
  "jinv once = (\<lambda>(s, ex). distinct (map JID (jobs s)) \<and> length (filter active_job (jobs s)) \<le> 1 \<and> set ex \<subseteq> JID ` set (jobs s) \<and>
     (\<forall>i. has_file s (i, ''.claim'') \<longrightarrow> i \<in> JID ` set (jobs s)) \<and>
     (\<forall>i. has_file s (i, ''.request.json'') \<longrightarrow> i \<in> JID ` set (jobs s)) \<and>
     (once \<longrightarrow> distinct ex \<and> (\<forall>i. has_file s (i, ''.request.json'') \<longrightarrow> has_file s (i, ''.claim'') \<or> has_file s (i, ''.result.json'') \<or>
        ((\<exists>j \<in> set (jobs s). JID j = i \<and> active_job j) \<and> i \<notin> set ex))))"

lemma jinvI:
  assumes "distinct (map JID (jobs s))" and "length (filter active_job (jobs s)) \<le> 1" and "set ex \<subseteq> JID ` set (jobs s)"
    and "\<And>i. has_file s (i, ''.claim'') \<Longrightarrow> i \<in> JID ` set (jobs s)"
    and "\<And>i. has_file s (i, ''.request.json'') \<Longrightarrow> i \<in> JID ` set (jobs s)"
    and "once \<Longrightarrow> distinct ex"
    and "\<And>i. once \<Longrightarrow> has_file s (i, ''.request.json'') \<Longrightarrow> \<not> has_file s (i, ''.claim'') \<Longrightarrow> \<not> has_file s (i, ''.result.json'') \<Longrightarrow>
      (\<exists>j \<in> set (jobs s). JID j = i \<and> active_job j) \<and> i \<notin> set ex"
  shows "jinv once (s, ex)"
  using assms by (auto simp: jinv_def)

lemma jinvD:
  assumes "jinv once (s, ex)"
  shows "distinct (map JID (jobs s))" and "length (filter active_job (jobs s)) \<le> 1" and "set ex \<subseteq> JID ` set (jobs s)"
    and "\<And>i. has_file s (i, ''.claim'') \<Longrightarrow> i \<in> JID ` set (jobs s)"
    and "\<And>i. has_file s (i, ''.request.json'') \<Longrightarrow> i \<in> JID ` set (jobs s)"
    and "once \<Longrightarrow> distinct ex"
    and "\<And>i. once \<Longrightarrow> has_file s (i, ''.request.json'') \<Longrightarrow> \<not> has_file s (i, ''.claim'') \<Longrightarrow> \<not> has_file s (i, ''.result.json'') \<Longrightarrow>
      (\<exists>j \<in> set (jobs s). JID j = i \<and> active_job j) \<and> i \<notin> set ex"
  using assms by (auto simp: jinv_def)

lemma jinv_init: "jinv once init_jobs"
  by (simp add: jinv_def init_jobs_def has_file_def)

lemma Done_not_active: "Done j \<Longrightarrow> \<not> active_job j"
  by (auto simp: Done_def active_job_def)

text \<open>What an operation may do of the rows: keep every finished one.\<close>

lemma filter_none: "\<not> list_ex P xs \<Longrightarrow> filter P xs = []"
  by (auto simp: list_ex_iff filter_empty_conv)

lemma Submit_cases:
  assumes "Submit json io ok fresh now kind req by s = (r, s')"
  obtains (same) "s' = s"
  | (tried) j s1 q where "\<not> list_ex active_job (jobs s)" and "fresh \<notin> JID ` set (jobs s)" and "JID j = fresh" and "active_job j"
      and "write_req json io fresh req (s\<lparr>jobs := jobs s @ [j]\<rparr>) = (q, s1)"
      and "(\<exists>e. q = Inl e \<and> (s' = s1 \<or> s' = s1\<lparr>jobs := jobs s\<rparr>)) \<or> (q = Inr () \<and> s' = s1)"
proof (cases "\<not> ok 0 \<or> list_ex active_job (jobs s) \<or> fresh \<in> JID ` set (jobs s)")
  case True
  then show thesis using assms same by (auto simp: Submit_def split: if_splits)
next
  case False
  let ?j = "\<lparr>JID = fresh, JKind = kind, JStatus = ''pending'', JExit = None, JDetail = [],
                JCreatedBy = by, JCreatedAt = now, JStartedAt = None, JFinishedAt = None, JRequest = req\<rparr>"
  obtain q s1 where w: "write_req json io fresh req (s\<lparr>jobs := jobs s @ [?j]\<rparr>) = (q, s1)"
    by (metis surj_pair)
  have js: "jobs s1 = jobs s @ [?j]"
    using write_req_jobs [OF w] by simp
  have "filter (\<lambda>j. JID j \<noteq> fresh) (jobs s1) = jobs s"
    using False js by (auto simp: filter_id_conv)
  then have "(\<exists>e. q = Inl e \<and> (s' = s1 \<or> s' = s1\<lparr>jobs := jobs s\<rparr>)) \<or> (q = Inr () \<and> s' = s1)"
    using assms False w by (cases q) (auto simp: Submit_def Let_def split: if_splits)
  moreover have "active_job ?j" by (simp add: active_job_def)
  ultimately show thesis using tried [of ?j q s1] False w by simp
qed

lemma Submit_inv:
  assumes I: "jinv once (s, ex)" and S: "Submit json io ok fresh now kind req by s = (r, s')"
  shows "jinv once (s', ex)"
  using S
proof (cases rule: Submit_cases)
  case same
  then show ?thesis using I by simp
next
  case (tried j s1 q)
  have js: "jobs s1 = jobs s @ [j]"
    using write_req_jobs [OF tried(5)] by simp
  have none: "filter active_job (jobs s) = []"
    using tried(1) by (rule filter_none)
  have c: "has_file s1 (i, x) \<longleftrightarrow> has_file s (i, x)" if "i \<noteq> fresh \<or> x \<notin> {''.request.json'', ''.request.tmp''}" for i x
    using write_req_files [OF tried(5), of "(i, x)"] that by auto
  have no: "\<not> has_file s (fresh, ''.request.json'')" using jinvD(5) [OF I, of fresh] tried(2) by blast
  have inl: "\<not> has_file s1 (fresh, ''.request.json'')" if "q = Inl e" for e
    using write_req_failed [of json io fresh req "s\<lparr>jobs := jobs s @ [j]\<rparr>" e s1] tried(5) no that by simp
  have big: "jinv once (s1, ex)"
  proof (rule jinvI)
    show "set ex \<subseteq> JID ` set (jobs s1)" using jinvD(3) [OF I] js by auto
    show "i \<in> JID ` set (jobs s1)" if "has_file s1 (i, ''.claim'')" for i
      using jinvD(4) [OF I, of i] c [of i "''.claim''"] that js by auto
    show "i \<in> JID ` set (jobs s1)" if "has_file s1 (i, ''.request.json'')" for i
      using jinvD(5) [OF I, of i] c [of i "''.request.json''"] that js tried(3) by (cases "i = fresh") auto
    show "(\<exists>k \<in> set (jobs s1). JID k = i \<and> active_job k) \<and> i \<notin> set ex"
      if "once" "has_file s1 (i, ''.request.json'')" "\<not> has_file s1 (i, ''.claim'')" "\<not> has_file s1 (i, ''.result.json'')" for i
    proof (cases "i = fresh")
      case True
      then show ?thesis using js tried(2,3,4) jinvD(3) [OF I] by auto
    next
      case False
      then show ?thesis using jinvD(7) [OF I that(1), of i] that c [of i] js by auto
    qed
  qed (use jinvD(1,2,6) [OF I] js none tried(2,3) in auto)
  have small: "jinv once (s1\<lparr>jobs := jobs s\<rparr>, ex)" if e: "q = Inl e" for e
  proof (rule jinvI)
    have r: "has_file s1 (i, ''.request.json'') \<longleftrightarrow> has_file s (i, ''.request.json'')" for i
      using inl [OF e] no c [of i "''.request.json''"] by (cases "i = fresh") auto
    show "i \<in> JID ` set (jobs (s1\<lparr>jobs := jobs s\<rparr>))" if "has_file (s1\<lparr>jobs := jobs s\<rparr>) (i, ''.request.json'')" for i
      using jinvD(5) [OF I, of i] that r by simp
    show "(\<exists>k \<in> set (jobs (s1\<lparr>jobs := jobs s\<rparr>)). JID k = i \<and> active_job k) \<and> i \<notin> set ex"
      if "once" "has_file (s1\<lparr>jobs := jobs s\<rparr>) (i, ''.request.json'')" "\<not> has_file (s1\<lparr>jobs := jobs s\<rparr>) (i, ''.claim'')"
        "\<not> has_file (s1\<lparr>jobs := jobs s\<rparr>) (i, ''.result.json'')" for i
      using jinvD(7) [OF I that(1), of i] that r c [of i] by auto
  qed (use jinvD(1-4,6) [OF I] c in auto)
  show ?thesis using tried(6) big small by auto
qed

section \<open>Reading the results\<close>

lemma update_where_JID [simp]: "map JID (set_running now i js) = map JID js" "map JID (set_done now i rc d js) = map JID js"
  by (simp_all add: set_running_def set_done_def update_where_keys)

lemma set_running_set: "j' \<in> set (set_running now i js) \<Longrightarrow> (j' \<in> set js \<and> JID j' \<noteq> i) \<or> (JID j' = i \<and> active_job j')"
  by (auto simp: set_running_def update_where_def active_job_def)

lemma set_done_set: "j' \<in> set (set_done now i rc d js) \<Longrightarrow> (j' \<in> set js \<and> JID j' \<noteq> i) \<or> (JID j' = i \<and> Done j')"
  by (auto simp: set_done_def update_where_def Done_def status_of_rc_def split: if_splits)

lemma keeps_others:
  "j' \<in> set js \<Longrightarrow> JID j' \<noteq> i \<Longrightarrow> j' \<in> set (set_running now i js)"
  "j' \<in> set js \<Longrightarrow> JID j' \<noteq> i \<Longrightarrow> j' \<in> set (set_done now i rc d js)"
  by (auto simp: set_running_def set_done_def update_where_def)

text \<open>The job of the row that is active, when there is one.\<close>

lemma one_active:
  assumes "length (filter P xs) \<le> 1" and "x \<in> set xs" and "P x"
  shows "filter P xs = [x]"
proof (cases "filter P xs")
  case Nil
  then show ?thesis using assms(2,3) by (auto simp: filter_empty_conv)
next
  case (Cons y ys)
  moreover have "x \<in> set (filter P xs)" using assms(2,3) by simp
  ultimately show ?thesis using assms(1) by auto
qed

lemma refresh_cases:
  assumes "length (filter active_job (jobs s)) \<le> 1"
  obtains (idle) "refresh parse io ok now s = s"
  | (one) j where "j \<in> set (jobs s)" "active_job j" "refresh parse io ok now s = refresh_job parse io (ok 1) now (scan_job j) s"
proof (cases "filter active_job (jobs s)")
  case Nil
  then show thesis using idle by (simp add: refresh_def)
next
  case (Cons j js)
  then have "js = []" using assms by simp
  have "j \<in> set (filter active_job (jobs s))" unfolding Cons by simp
  then have "j \<in> set (jobs s)" "active_job j" by auto
  then show thesis using one idle Cons \<open>js = []\<close> by (cases "ok 0 0") (auto simp: refresh_def)
qed

text \<open>A job that is read either stays active, its files untouched, or ends, its files removed.\<close>

lemma refresh_job_cases:
  obtains (same) "refresh_job parse io ok now j s = s"
  | (running) "refresh_job parse io ok now j s = s\<lparr>jobs := set_running now (JID j) (jobs s)\<rparr>"
  | (ended) s1 rc d where "s1 = s \<or> s1 = s\<lparr>jobs := set_running now (JID j) (jobs s)\<rparr>" and "has_file s (JID j, ''.result.json'')"
      and "refresh_job parse io ok now j s = cleanup io (JID j) (s1\<lparr>jobs := set_done now (JID j) rc d (jobs s1)\<rparr>)"
proof -
  define s1 where "s1 = (if JStatus j = ''pending'' \<and> io (ReadF (JID j, ''.claim'')) \<and> has_file s (JID j, ''.claim'') \<and> ok 0
               then s\<lparr>jobs := set_running now (JID j) (jobs s)\<rparr> else s)"
  have s1: "s1 = s \<or> s1 = s\<lparr>jobs := set_running now (JID j) (jobs s)\<rparr>"
    by (simp add: s1_def)
  have f: "has_file s (JID j, ''.result.json'') \<longleftrightarrow> map_of (files s1) (JID j, ''.result.json'') \<noteq> None"
    by (simp add: has_file_def s1_def)
  have "refresh_job parse io ok now j s = s1 \<or> (has_file s (JID j, ''.result.json'') \<and>
      (\<exists>rc d. refresh_job parse io ok now j s = cleanup io (JID j) (s1\<lparr>jobs := set_done now (JID j) rc d (jobs s1)\<rparr>)))"
    unfolding refresh_job_def Let_def s1_def [symmetric] f by (auto split: option.splits)
  then show thesis using s1 same running ended by metis
qed

lemma JID_scan_job [simp]: "JID (scan_job j) = JID j"
  by (simp add: scan_job_def)

lemma set_running_mem: "j \<in> set js \<Longrightarrow> \<exists>x \<in> set (set_running now (JID j) js). JID x = JID j \<and> active_job x"
  by (rule bexI [of _ "j\<lparr>JStatus := ''running'', JStartedAt := (case JStartedAt j of None \<Rightarrow> Some now | Some t \<Rightarrow> Some t)\<rparr>"])
     (auto simp: set_running_def set_update_where active_job_def image_iff)

lemma JID_image [simp]: "JID ` set (set_running now i js) = JID ` set js" "JID ` set (set_done now i rc d js) = JID ` set js"
  by (metis list.set_map update_where_JID)+

lemma length_filter_map: "length (filter P xs) = length (filter id (map P xs))"
  by (simp add: filter_map comp_def)

lemma active_running:
  assumes "distinct (map JID js)" and "length (filter active_job js) \<le> 1" and "j \<in> set js" and "JID j = i" and "active_job j"
  shows "length (filter active_job (set_running now i js)) \<le> 1"
proof -
  have o: "active_job x \<Longrightarrow> x = j" if "x \<in> set js" for x
    using arg_cong [OF one_active [OF assms(2,3,5)], of set] that by auto
  have e: "active_job (x\<lparr>JStatus := ''running'', JStartedAt := t\<rparr>) = active_job x" if "x \<in> set js" "JID x = i" for x t
  proof (cases "x = j")
    case True
    then show ?thesis using assms(5) by (simp add: active_job_def)
  next
    case False
    then show ?thesis using assms(1,3,4) that by (auto simp: distinct_map inj_on_def)
  qed
  then have "map active_job (set_running now i js) = map active_job js"
    unfolding set_running_def update_where_def by (simp del: map_eq_conv add: list.map_comp comp_def cong: map_cong if_cong)
  then have "length (filter active_job (set_running now i js)) = length (filter active_job js)"
    by (metis length_filter_map)
  then show ?thesis using assms(2) by simp
qed

lemma set_done_after:
  assumes "x \<in> set (set_done now i rc d js)" and "js = js0 \<or> js = set_running now i js0" and "active_job x"
  shows "x \<in> set js0 \<and> JID x \<noteq> i"
  using set_done_set [OF assms(1)] set_running_set [of x now i js0] assms(2,3) Done_not_active by blast

lemma refresh_inv:
  assumes I: "jinv once (s, ex)" and R: "once \<Longrightarrow> retires io"
  shows "jinv once (refresh parse io ok now s, ex)"
proof -
  note D = jinvD(1) [OF I] and L = jinvD(2) [OF I]
  show ?thesis
  proof (rule refresh_cases [OF L, of parse io ok now])
    assume "refresh parse io ok now s = s"
    then show ?thesis using I by simp
  next
    fix j
    assume j: "j \<in> set (jobs s)" "active_job j" and e: "refresh parse io ok now s = refresh_job parse io (ok 1) now (scan_job j) s"
    have same: "x = j" if "x \<in> set (jobs s)" "active_job x" for x
      using arg_cong [OF one_active [OF L j], of set] that by auto
    let ?run = "s\<lparr>jobs := set_running now (JID j) (jobs s)\<rparr>"
    have run: "jinv once (?run, ex)"
    proof (rule jinvI)
      show "length (filter active_job (jobs ?run)) \<le> 1"
        using active_running [OF D L j(1) refl j(2)] by simp
      show "(\<exists>x \<in> set (jobs ?run). JID x = i \<and> active_job x) \<and> i \<notin> set ex"
        if "once" "has_file ?run (i, ''.request.json'')" "\<not> has_file ?run (i, ''.claim'')" "\<not> has_file ?run (i, ''.result.json'')" for i
        using jinvD(7) [OF I that(1), of i] that same set_running_mem [OF j(1)] by auto
    qed (use jinvD [OF I] in auto)
    have fin: "jinv once (cleanup io (JID j) (t\<lparr>jobs := set_done now (JID j) rc d (jobs t)\<rparr>), ex)" (is "jinv once (?u, ex)")
      if t: "t = s \<or> t = ?run" and res: "has_file s (JID j, ''.result.json'')" for t rc d
    proof (rule jinvI)
      have ids: "map JID (jobs t) = map JID (jobs s)" and has: "has_file t f \<longleftrightarrow> has_file s f" for f using t by auto
      then have idset: "JID ` set (jobs t) = JID ` set (jobs s)" by (metis list.set_map)
      have idu: "JID ` set (jobs ?u) = JID ` set (jobs s)" using idset by simp
      show "(\<exists>x \<in> set (jobs ?u). JID x = i \<and> active_job x) \<and> i \<notin> set ex"
        if o: "once" and f: "has_file ?u (i, ''.request.json'')" "\<not> has_file ?u (i, ''.claim'')" "\<not> has_file ?u (i, ''.result.json'')" for i
      proof (cases "i = JID j")
        case True
        then show ?thesis using f res R [OF o] by (auto simp: cleanup_removes has retires_def)
      next
        case False
        then show ?thesis using f jinvD(7) [OF I o, of i] same by (auto simp: cleanup_removes has)
      qed
      have "\<not> active_job x" if x: "x \<in> set (jobs ?u)" for x
        using set_done_after [of x now "JID j" rc d "jobs t" "jobs s"] x t same by fastforce
      then have "filter active_job (jobs ?u) = []" by (simp add: filter_empty_conv)
      then show "length (filter active_job (jobs ?u)) \<le> 1" by simp
      show "i \<in> JID ` set (jobs ?u)" if "has_file ?u (i, ''.claim'')" for i
        using idu jinvD(4) [OF I, of i] that by (auto simp: cleanup_removes has)
      show "i \<in> JID ` set (jobs ?u)" if "has_file ?u (i, ''.request.json'')" for i
        using idu jinvD(5) [OF I, of i] that by (auto simp: cleanup_removes has)
      show "set ex \<subseteq> JID ` set (jobs ?u)" using idu jinvD(3) [OF I] by simp
      show "distinct (map JID (jobs ?u))" using ids D by simp
    qed (rule jinvD(6) [OF I])
    show ?thesis
      unfolding e
      by (rule refresh_job_cases [of parse io "ok 1" now "scan_job j" s]) (use I run fin in auto)
  qed
qed

section \<open>Every step\<close>

lemma jstep_inv:
  assumes "jstep A x y" and "jinv once x" and R: "\<And>io. once \<Longrightarrow> A io \<Longrightarrow> retires io"
  shows "jinv once y"
  using assms(1)
proof cases
  case submit
  then show ?thesis using Submit_inv assms(2) by blast
next
  case (refresh io s ex parse oks t)
  then show ?thesis using refresh_inv assms(2) R by blast
next
  case (claim stamp i s s' ex)
  have g: "has_file s (i, ''.request.json'')" "\<not> has_file s (i, ''.claim'')" "\<not> has_file s (i, ''.result.json'')"
    and s': "s' = s\<lparr>files := AList.update (i, ''.claim'') stamp (files s)\<rparr>"
    using claim(3) by (auto simp: runner_claim_def split: if_splits)
  have I: "jinv once (s, ex)" using assms(2) claim(1) by simp
  have new: "once \<Longrightarrow> i \<notin> set ex" using g jinvD(7) [OF I] by blast
  have "i \<in> JID ` set (jobs s)" using jinvD(5) [OF I g(1)] .
  then have "jinv once (s', ex @ [i])"
    by (intro jinvI) (use jinvD [OF I] new s' in auto)
  then show ?thesis using claim(2) by simp
next
  case (log s i ex l)
  have I: "jinv once (s, ex)" using assms(2) log(1) by simp
  show ?thesis unfolding log(2) runner_log_def by (rule jinvI) (use jinvD [OF I] in auto)
next
  case (result s i ex l)
  have I: "jinv once (s, ex)" using assms(2) result(1) by simp
  show ?thesis unfolding result(2) runner_result_def by (rule jinvI) (use jinvD [OF I] in auto)
qed

lemma jreach_inv: "(jstep A)\<^sup>*\<^sup>* x y \<Longrightarrow> jinv once x \<Longrightarrow> (\<And>io. once \<Longrightarrow> A io \<Longrightarrow> retires io) \<Longrightarrow> jinv once y"
  by (induction rule: rtranclp_induct) (auto intro: jstep_inv)

lemma jreach_base: "(jstep A)\<^sup>*\<^sup>* init_jobs y \<Longrightarrow> jinv False y"
  by (rule jreach_inv [OF _ jinv_init]) simp_all

section \<open>What the package promises\<close>

text \<open>C6: Whatever flyc-control and the runner do, in any order, with any answer of Postgres and any failure of the file
  operations, at most one job is pending or running. And in a life in which no cleanup removes the result of a job
  while it fails to remove its request, no job is executed twice, and a request that the runner may still take is that
  of the active job. (The code drops the errors of the removals; the lemma \<open>job_executed_twice\<close> is a life in which the
  removal of the request fails alone.)\<close>

theorem jobs_run_once:
  assumes "(jstep A)\<^sup>*\<^sup>* init_jobs (s, ex)"
  shows "length (filter active_job (jobs s)) \<le> 1 \<and>
    ((\<forall>io. A io \<longrightarrow> retires io) \<longrightarrow> distinct ex \<and>
      (\<forall>i. runner_claim stamp i s \<noteq> None \<longrightarrow> i \<notin> set ex \<and> (\<exists>j \<in> set (jobs s). JID j = i \<and> active_job j)))"
proof (intro conjI impI allI)
  show "length (filter active_job (jobs s)) \<le> 1" by (rule jinvD(2) [OF jreach_base [OF assms]])
  assume R: "\<forall>io. A io \<longrightarrow> retires io"
  have I: "jinv True (s, ex)" by (rule jreach_inv [OF assms jinv_init]) (use R in simp)
  show "distinct ex" by (rule jinvD(6) [OF I]) simp
  fix i assume c: "runner_claim stamp i s \<noteq> None"
  have g: "has_file s (i, ''.request.json'')" "\<not> has_file s (i, ''.claim'')" "\<not> has_file s (i, ''.result.json'')"
    using c by (auto simp: runner_claim_def split: if_splits)
  show "i \<notin> set ex" "\<exists>j \<in> set (jobs s). JID j = i \<and> active_job j" using jinvD(7) [OF I TrueI g] by simp_all
qed

definition demo_io :: io where "demo_io = (\<lambda>_. True)"

definition demo_req :: Request where
  "demo_req = \<lparr>RKind = ''playbook'', Playbook = ''site.yml'', Argv = [], Limit = [], Tags = [], Check = False, ReqVars = [], Inventory = ''all:''\<rparr>"

definition demo_parse :: "string \<Rightarrow> (int \<times> string) option" where
  "demo_parse b = (if b = ''75'' then Some (75, ''runner interrompu'') else if b = ''0'' then Some (0, []) else None)"

definition demo1 :: jobsys where "demo1 = snd (Submit (\<lambda>_. ''{}'') demo_io (\<lambda>_. True) ''j1'' 10 ''deploy'' demo_req ''me'' (fst init_jobs))"
definition demo2 :: jobsys where "demo2 = the (runner_claim ''12:00'' ''j1'' demo1)"
definition demo3 :: jobsys where "demo3 = runner_result ''j1'' ''75'' demo2"
definition demo4 :: jobsys where "demo4 = refresh demo_parse demo_io (\<lambda>_ _. True) 20 demo3"

lemma demo_reliable: "reliable demo_io"
  by (simp add: reliable_def demo_io_def)

lemma demo_retires: "retires demo_io"
  by (simp add: retires_def demo_io_def)

lemma demo_files:
  "has_file demo1 (''j1'', ''.request.json'')" "\<not> has_file demo1 (''j1'', ''.claim'')" "\<not> has_file demo1 (''j1'', ''.result.json'')"
  "has_file demo2 (''j1'', ''.claim'')"
  "map JStatus (jobs demo1) = [''pending'']" "map JStatus (jobs demo4) = [''interrupted'']" "map JID (jobs demo4) = [''j1'']"
  by code_simp+

lemma demo_claims: "runner_claim ''12:00'' ''j1'' demo1 = Some demo2"
  using demo_files by (simp add: demo2_def runner_claim_def)

lemma demo_step1: "A demo_io \<Longrightarrow> jstep A init_jobs (demo1, [])"
  unfolding init_jobs_def
  by (rule jstep.submit [where io = demo_io]) (simp_all add: demo1_def init_jobs_def prod_eq_iff)

lemma demo_step2: "jstep A (demo1, []) (demo2, [''j1''])"
  using jstep.claim [OF demo_claims, of A "[]"] by simp

lemma demo_step3: "jstep A (demo2, ex) (demo3, ex)"
  unfolding demo3_def by (rule jstep.result [OF demo_files(4)])

lemma demo_reach3:
  assumes "A demo_io"
  shows "(jstep A)\<^sup>*\<^sup>* init_jobs (demo1, [])" and "(jstep A)\<^sup>*\<^sup>* init_jobs (demo3, [''j1''])"
  using demo_step1 [of A, OF assms] demo_step2 [of A] demo_step3 [of A] by (meson rtranclp.rtrancl_into_rtrancl rtranclp.rtrancl_refl)+

lemma demo_reach:
  assumes "A demo_io"
  shows "(jstep A)\<^sup>*\<^sup>* init_jobs (demo4, [''j1''])"
  unfolding demo4_def by (rule rtranclp.rtrancl_into_rtrancl [OF demo_reach3(2) jstep.refresh]) (rule assms)+

theorem jobs_run_once_witness: "(jstep retires)\<^sup>*\<^sup>* init_jobs (demo1, []) \<and> runner_claim ''12:00'' ''j1'' demo1 \<noteq> None \<and>
    (\<exists>j \<in> set (jobs demo1). JID j = ''j1'' \<and> active_job j)"
  using jobs_run_once [OF demo_reach3(1) [of retires, OF demo_retires], of "''12:00''"] demo_reach3(1) [of retires, OF demo_retires] demo_claims
  by auto

text \<open>A cleanup that removes everything but the request: the runner takes the job again.\<close>

definition stuck_io :: io where "stuck_io f \<longleftrightarrow> f \<noteq> RemoveF (''j1'', ''.request.json'')"

definition demo5 :: jobsys where "demo5 = refresh demo_parse stuck_io (\<lambda>_ _. True) 20 demo3"

lemma demo5_files:
  "has_file demo5 (''j1'', ''.request.json'')" "\<not> has_file demo5 (''j1'', ''.claim'')" "\<not> has_file demo5 (''j1'', ''.result.json'')"
  "map JStatus (jobs demo5) = [''interrupted'']"
  by code_simp+

lemma job_executed_twice:
  "\<exists>s. (jstep (\<lambda>_. True))\<^sup>*\<^sup>* init_jobs (s, [''j1'', ''j1'']) \<and> map JStatus (jobs s) = [''interrupted'']"
proof -
  obtain s where c: "runner_claim ''12:01'' ''j1'' demo5 = Some s" and j: "jobs s = jobs demo5"
    using demo5_files by (simp add: runner_claim_def)
  have "(jstep (\<lambda>_. True))\<^sup>*\<^sup>* init_jobs (demo5, [''j1''])"
    unfolding demo5_def by (rule rtranclp.rtrancl_into_rtrancl [OF demo_reach3(2) jstep.refresh]) simp_all
  from rtranclp.rtrancl_into_rtrancl [OF this jstep.claim [OF c]] have "(jstep (\<lambda>_. True))\<^sup>*\<^sup>* init_jobs (s, [''j1'', ''j1''])" by simp
  then show ?thesis using demo5_files(4) j by auto
qed

lemma Done_kept_refresh:
  assumes I: "jinv once (s, ex)" and j: "j \<in> set (jobs s)" "Done j"
  shows "j \<in> set (jobs (refresh parse io ok now s))"
proof (rule refresh_cases [OF jinvD(2) [OF I], of parse io ok now])
  assume "refresh parse io ok now s = s"
  then show ?thesis using j by simp
next
  fix x
  assume x: "x \<in> set (jobs s)" "active_job x" and e: "refresh parse io ok now s = refresh_job parse io (ok 1) now (scan_job x) s"
  have "JID j \<noteq> JID x"
    using x j Done_not_active [of j] jinvD(1) [OF I] by (auto simp: distinct_map inj_on_def)
  then show ?thesis
    unfolding e by (rule_tac refresh_job_cases [of parse io "ok 1" now "scan_job x" s]) (use j keeps_others in auto)
qed

text \<open>A job that is finished never changes again: its row stays as it is under every step.\<close>

theorem finished_jobs_are_final:
  assumes R: "(jstep A)\<^sup>*\<^sup>* init_jobs (s, ex)" and S: "jstep A (s, ex) (s', ex')" and j: "j \<in> set (jobs s)" "Done j"
  shows "j \<in> set (jobs s')"
  using S
proof cases
  case (submit io json ok fresh now kind req _ r)
  show ?thesis
    using submit(3) by (cases rule: Submit_cases) (use j write_req_jobs in fastforce)+
next
  case (refresh io parse oks t)
  then show ?thesis using Done_kept_refresh [OF jreach_base [OF R] j] by simp
next
  case (claim stamp i)
  then show ?thesis using j by (auto simp: runner_claim_def split: if_splits)
qed (use j in \<open>auto simp: runner_log_def runner_result_def\<close>)

theorem finished_jobs_are_final_witness:
  "Done (hd (jobs demo4)) \<and> hd (jobs demo4) \<in> set (jobs (refresh demo_parse demo_io (\<lambda>_ _. True) 30 demo4))"
proof -
  have d: "Done (hd (jobs demo4))" and m: "hd (jobs demo4) \<in> set (jobs demo4)"
    by code_simp+
  show ?thesis
    using finished_jobs_are_final [OF demo_reach [of retires, OF demo_retires] jstep.refresh [of retires, OF demo_retires] m d] d by blast
qed

text \<open>A job whose result is there ends at the next turn that reaches Postgres, with the status of its
  return code (75 is an interruption, any other but 0 a failure), and its files are gone.\<close>

theorem refresh_ends_the_job:
  assumes "(jstep A)\<^sup>*\<^sup>* init_jobs (s, ex)" and "reliable io" and "\<forall>f. io (ReadF f)" and "\<forall>k n. ok k n"
    and "j \<in> set (jobs s)" and "active_job j" and "map_of (files s) (JID j, ''.result.json'') = Some txt" and "parse txt = Some (rc, d)"
  shows "(\<exists>j' \<in> set (jobs (refresh parse io ok now s)). JID j' = JID j \<and> JExit j' = Some rc \<and> JDetail j' = d \<and> JFinishedAt j' = Some now \<and>
      JStatus j' = (if rc = 0 then ''succeeded'' else if rc = 75 then ''interrupted'' else ''failed'')) \<and>
    \<not> has_file (refresh parse io ok now s) (JID j, ''.request.json'')"
proof -
  have L: "length (filter active_job (jobs s)) \<le> 1"
    using jinvD(2) [OF jreach_base [OF assms(1)]] .
  define s1 where "s1 = (if JStatus j = ''pending'' \<and> has_file s (JID j, ''.claim'') then s\<lparr>jobs := set_running now (JID j) (jobs s)\<rparr> else s)"
  have "refresh parse io ok now s = refresh_job parse io (ok 1) now (scan_job j) s"
    using one_active [OF L assms(5,6)] assms(4) by (simp add: refresh_def)
  also have "\<dots> = cleanup io (JID j) (s1\<lparr>jobs := set_done now (JID j) rc d (jobs s1)\<rparr>)"
    using assms(3,4,7,8) by (auto simp: refresh_job_def s1_def scan_job_def)
  finally have e: "refresh parse io ok now s = cleanup io (JID j) (s1\<lparr>jobs := set_done now (JID j) rc d (jobs s1)\<rparr>)" .
  have "JID j \<in> JID ` set (jobs s1)" using assms(5) by (auto simp: s1_def)
  then obtain x where x: "x \<in> set (jobs s1)" "JID x = JID j" by auto
  let ?x = "x\<lparr>JStatus := status_of_rc rc, JExit := Some rc, JDetail := d,
            JStartedAt := (case JStartedAt x of None \<Rightarrow> Some now | Some t \<Rightarrow> Some t), JFinishedAt := Some now\<rparr>"
  have "?x \<in> set (set_done now (JID j) rc d (jobs s1))"
    using x by (auto simp: set_done_def update_where_def image_iff)
  then have "\<exists>j' \<in> set (jobs (refresh parse io ok now s)). JID j' = JID j \<and> JExit j' = Some rc \<and> JDetail j' = d \<and> JFinishedAt j' = Some now \<and>
      JStatus j' = (if rc = 0 then ''succeeded'' else if rc = 75 then ''interrupted'' else ''failed'')"
    unfolding e jobs_cleanup using x(2) by (intro bexI [of _ ?x]) (simp_all add: status_of_rc_def)
  moreover have "\<not> has_file (refresh parse io ok now s) (JID j, ''.request.json'')"
    unfolding e cleanup_has [OF assms(2)] by simp
  ultimately show ?thesis by blast
qed

theorem refresh_ends_the_job_witness:
  "\<exists>j' \<in> set (jobs (refresh demo_parse demo_io (\<lambda>_ _. True) 20 demo3)). JStatus j' = ''interrupted'' \<and> JExit j' = Some 75"
proof -
  have r: "(jstep retires)\<^sup>*\<^sup>* init_jobs (demo3, [''j1''])" by (rule demo_reach3(2)) (rule demo_retires)
  have j: "hd (jobs demo3) \<in> set (jobs demo3)" "active_job (hd (jobs demo3))"
    "map_of (files demo3) (JID (hd (jobs demo3)), ''.result.json'') = Some ''75''" "demo_parse ''75'' = Some (75, ''runner interrompu'')"
    by code_simp+
  have io: "\<forall>f. demo_io (ReadF f)" by (simp add: demo_io_def)
  have okt: "\<forall>(k::nat) (n::nat). True" by simp
  show ?thesis
    using refresh_ends_the_job [of retires demo3 "[''j1'']" demo_io "\<lambda>_ _. True" "hd (jobs demo3)" "''75''" demo_parse 75 "''runner interrompu''" 20,
      OF r demo_reliable io okt j] by auto
qed

section \<open>Following the log\<close>

lemma sse_lines_acc: "sse_lines acc p = (case sse_lines [] p of (ls, r) \<Rightarrow>
    (case ls of [] \<Rightarrow> ([], acc @ r) | l # ls' \<Rightarrow> ((acc @ l) # ls', r)))"
proof (induction p arbitrary: acc)
  case Nil
  then show ?case by simp
next
  case (Cons c p)
  show ?case using Cons.IH [of "acc @ [c]"] Cons.IH [of "[c]"] by (auto split: prod.splits list.splits)
qed

lemma sse_lines_append: "sse_lines acc (p @ q) = (case sse_lines acc p of (ls, r) \<Rightarrow>
    (case sse_lines r q of (ls', r') \<Rightarrow> (ls @ ls', r')))"
  by (induction p arbitrary: acc) (auto split: prod.splits)

lemma sse_lines_no_nl: "CHR 0x0A \<notin> set p \<Longrightarrow> sse_lines acc p = ([], acc @ p)"
  by (induction p arbitrary: acc) auto

lemma sse_lines_rest: "sse_lines acc p = (ls, r) \<Longrightarrow> CHR 0x0A \<notin> set acc \<Longrightarrow> CHR 0x0A \<notin> set r"
  by (induction p arbitrary: acc ls) (auto split: prod.splits if_splits)

lemma sse_write_rest:
  assumes "CHR 0x0A \<notin> set rest"
  shows "sse_write rest p = sse_lines rest p"
  using assms by (simp add: sse_write_def sse_lines_append sse_lines_no_nl split: prod.splits)

text \<open>The events that an operator receives do not depend on how the log was cut: writing it in any
  pieces sends the lines, and keeps the rest, of writing it at once.\<close>

theorem sse_in_pieces:
  assumes "CHR 0x0A \<notin> set rest"
  shows "sse_all rest ps = sse_write rest (concat ps)"
  using assms
proof (induction ps arbitrary: rest)
  case Nil
  then show ?case by (simp add: sse_write_rest)
next
  case (Cons p ps)
  obtain ls r where e: "sse_lines rest p = (ls, r)" by (metis surj_pair)
  have n: "CHR 0x0A \<notin> set r" by (rule sse_lines_rest [OF e Cons.prems])
  show ?case
    using Cons.IH [OF n] by (simp add: sse_write_rest Cons.prems n e sse_lines_append split: prod.splits)
qed

theorem sse_in_pieces_witness: "sse_all [] [''a'', ''b'' @ [CHR 0x0A] @ ''c'', [CHR 0x0A]] = ([''ab'', ''c''], [])"
proof -
  have "CHR 0x0A \<notin> set []" by simp
  from sse_in_pieces [OF this, of "[''a'', ''b'' @ [CHR 0x0A] @ ''c'', [CHR 0x0A]]"] show ?thesis
    by (simp add: sse_write_def)
qed

text \<open>The log only grows while it is followed.\<close>

fun growing :: "string \<Rightarrow> seen list \<Rightarrow> bool" where
  "growing l [] = True"
| "growing l (x # xs) = (prefix l (log_at x) \<and> growing (log_at x) xs)"

lemma growing_last: "growing l xs \<Longrightarrow> xs \<noteq> [] \<Longrightarrow> prefix l (log_at (last xs))"
  by (induction xs arbitrary: l) (auto intro: prefix_order.trans)

lemma Tail_prefix_lemma:
  assumes "prefix (concat out) l" and "pos = length (concat out)" and "growing l xs" and "Tail xs pos out = (e, out')"
  shows "prefix (concat out') (if xs = [] then l else log_at (last xs))"
  using assms
proof (induction xs pos out arbitrary: l rule: Tail.induct)
  case (2 x xs pos out)
  have p: "prefix (concat out) (log_at x)" "growing (log_at x) xs"
    using 2(3,5) prefix_order.trans by auto
  have p': "prefix (concat out) (if xs = [] then log_at x else log_at (last xs))"
    using growing_last [OF p(2)] p(1) prefix_order.trans by auto
  let ?c = "take 16384 (drop pos (log_at x))"
  show ?case
  proof (cases "?c = []")
    case False
    have "concat (out @ [?c]) = take (pos + 16384) (log_at x)"
      using p(1) 2(4) by (auto simp: prefix_def take_add)
    then have "prefix (concat (out @ [?c])) (log_at x)" by (simp add: take_is_prefix)
    moreover have "pos + length ?c = length (concat (out @ [?c]))" using 2(4) by simp
    moreover have "Tail xs (pos + length ?c) (out @ [?c]) = (e, out')"
      using 2(6) False by (simp add: Let_def)
    ultimately show ?thesis using 2(1) [OF refl False, of "log_at x"] p(2) by (cases "xs = []") auto
  next
    case True
    then show ?thesis using 2(2) [OF refl _ _ _ p(1) 2(4) p(2)] 2(6) p' by (auto simp: Let_def split: if_splits)
  qed
qed simp

text \<open>What is sent of a log that grows is a prefix of it: no byte is invented, doubled or out of order,
  however the reads are cut.\<close>

theorem Tail_sends_a_prefix:
  assumes "growing [] xs" and "xs \<noteq> []"
  shows "prefix (concat (snd (Tail xs 0 []))) (log_at (last xs))"
  using Tail_prefix_lemma [of "[]" "[]" 0 xs] assms by (cases "Tail xs 0 []") simp

text \<open>The end may be missing: the runner writes a line and its result between the read that finds the end of the
  file and the look at the job.\<close>

lemma Tail_loses_the_end:
  "Tail [\<lparr>log_at = ''ok'', done_at = False, gone = False\<rparr>, \<lparr>log_at = ''ok'', done_at = True, gone = False\<rparr>,
         \<lparr>log_at = ''ok failed'', done_at = True, gone = False\<rparr>] 0 [] = (Finished, [''ok''])"
  by code_simp

theorem Tail_sends_a_prefix_witness:
  "prefix (concat (snd (Tail [\<lparr>log_at = ''ok'', done_at = False, gone = False\<rparr>, \<lparr>log_at = ''ok failed'', done_at = False, gone = False\<rparr>] 0 []))) ''ok failed''"
  using Tail_sends_a_prefix [of "[\<lparr>log_at = ''ok'', done_at = False, gone = False\<rparr>, \<lparr>log_at = ''ok failed'', done_at = False, gone = False\<rparr>]"]
  by simp

end
