(* ===== verification/Jobs_Follow.thy ===== *)
theory Jobs_Follow
  imports Jobs_Laws
begin

text \<open>
  The loops of control/internal/jobs/jobs.go around the operations of the theory Jobs_Queue: \<open>Run\<close>, which refreshes
  the jobs at every beat, and the whole of \<open>Tail\<close> with \<open>waitForLog\<close>, over the states of the system at the moments the
  loops look at it. A turn is such a moment: what the table and the directory hold then, whether Postgres and the
  files answer, and whether the context of the caller has ended.
\<close>

section \<open>Loops\<close>


text \<open>\<open>Run\<close>: a refresh at once and after each beat, until the context ends. Between two beats the system moves by \<open>env\<close>:
  the requests of the users and the steps of the runner.\<close>

record beat =
  B_io :: io
  B_ok :: "nat \<Rightarrow> nat \<Rightarrow> bool"
  B_now :: int
  B_gone :: bool
  B_env :: "jobsys \<Rightarrow> jobsys"

fun Run_jobs :: "(string \<Rightarrow> (int \<times> string) option) \<Rightarrow> beat list \<Rightarrow> jobsys \<Rightarrow> jobsys" where
  "Run_jobs parse [] s = s"
| "Run_jobs parse (b # bs) s =
    (let s1 = refresh parse (B_io b) (B_ok b) (B_now b) s
     in if B_gone b then s1 else Run_jobs parse bs (B_env b s1))"








section \<open>They end\<close>











section \<open>The loop of \<open>Run\<close> is among the steps\<close>

lemma Run_jobs_reaches:
  assumes "\<forall>b \<in> set bs. A (B_io b) \<and> (\<forall>s ex. \<exists>ex'. (jstep A)\<^sup>*\<^sup>* (s, ex) (B_env b s, ex'))"
  shows "\<exists>ex'. (jstep A)\<^sup>*\<^sup>* (s, ex) (Run_jobs parse bs s, ex')"
  using assms
proof (induction bs arbitrary: s ex)
  case (Cons b bs)
  let ?s1 = "refresh parse (B_io b) (B_ok b) (B_now b) s"
  have 1: "(jstep A)\<^sup>*\<^sup>* (s, ex) (?s1, ex)" using Cons.prems by (intro r_into_rtranclp jstep.refresh) simp
  obtain e2 where 2: "(jstep A)\<^sup>*\<^sup>* (?s1, ex) (B_env b ?s1, e2)" using Cons.prems by (meson list.set_intros(1))
  obtain e3 where 3: "(jstep A)\<^sup>*\<^sup>* (B_env b ?s1, e2) (Run_jobs parse bs (B_env b ?s1), e3)" using Cons by (meson list.set_intros(2))
  show ?case
  proof (cases "B_gone b")
    case True
    then show ?thesis using 1 by (auto simp: Let_def)
  next
    case False
    then show ?thesis using rtranclp_trans [OF rtranclp_trans [OF 1 2] 3] by (auto simp: Let_def)
  qed
qed auto

end
