(* ===== verification/Control_Db.thy ===== *)
theory Control_Db
  imports Inventory_Model Jobs_Queue Pass_Token
begin

text \<open>
  The state that the HTTP handlers of flyc-control share: the tables of Postgres, the running
  reconciler, the signing key in memory; and what they take from outside as one record: the clock,
  the randomness, the identifiers that Postgres draws, the hash functions, the collation, the
  answers of Postgres. The times are seconds. In a JSON answer the order of the keys and the
  formatting of the times are left out.
\<close>

section \<open>The outside\<close>

record 'k sys =
  S_uni :: "string \<Rightarrow> string"
  S_sha :: "string \<Rightarrow> string"
  S_coll :: "string \<Rightarrow> 'k"
  S_uuid :: "string \<Rightarrow> nat option"
  S_utext :: "nat \<Rightarrow> string"
  S_now :: int
  S_ok :: "nat \<Rightarrow> bool"
  S_rand :: "nat \<Rightarrow> string"
  S_id :: "nat \<Rightarrow> nat"
  S_stamp :: string

text \<open>The statements of a handler are numbered from 0; \<open>skip\<close> is the view of the code that runs
  after \<open>n\<close> of them.\<close>

definition skip :: "nat \<Rightarrow> 'k sys \<Rightarrow> 'k sys" where
  "skip n E = E\<lparr>S_ok := \<lambda>k. S_ok E (n + k)\<rparr>"

lemma skip_simps [simp]:
  "S_uni (skip n E) = S_uni E" "S_sha (skip n E) = S_sha E" "S_coll (skip n E) = S_coll E" "S_uuid (skip n E) = S_uuid E" "S_utext (skip n E) = S_utext E"
  "S_now (skip n E) = S_now E" "S_rand (skip n E) = S_rand E" "S_id (skip n E) = S_id E" "S_stamp (skip n E) = S_stamp E"
  "S_ok (skip n E) k = S_ok E (n + k)"
  by (simp_all add: skip_def)

record request =
  Rmethod :: string
  Rpath :: "string \<Rightarrow> string"
  Rhdr :: "string \<Rightarrow> string"
  Rcookie :: "string option"
  Rremote :: string

definition RandomToken :: "string \<Rightarrow> string" where
  "RandomToken b = b64 b"

section \<open>Tables\<close>

record user_row =
  u_id :: nat
  u_email :: string
  u_hash :: "string option"
  u_oidc :: "string option"
  u_secret :: "string option"
  u_admin :: bool
  u_created :: int
  u_login :: "int option"
  u_must :: bool
  u_name :: string
  u_totp :: bool

record member_row =
  m_tenant :: nat
  m_user :: nat
  m_role :: string

record apikey_row =
  a_id :: nat
  a_tenant :: "nat option"
  a_name :: string
  a_hash :: string
  a_created :: int
  a_used :: "int option"

record session_row =
  n_id :: string
  n_user :: nat
  n_expires :: int
  n_ip :: string
  n_agent :: string

record oidc_row =
  o_state :: string
  o_nonce :: string
  o_redirect :: string
  o_created :: int

record enroll_row =
  w_id :: nat
  w_hash :: string
  w_roles :: "string list"
  w_by :: string
  w_created :: int
  w_expires :: int
  w_used :: "int option"
  w_host :: string
  w_ip :: string
  w_ip6 :: string

record account_row =
  x_directory :: string
  x_email :: string
  x_key_enc :: string
  x_reg :: string

record challenge_row =
  y_token :: string
  y_auth :: string
  y_fqdn :: string

record audit_row =
  l_tenant :: "nat option"
  l_action :: string
  l_diff :: jv

record signing_key =
  Y_kid :: string
  Y_private :: string
  Y_public :: string

record ctl =
  db :: tables
  cinv :: inv
  cjobs :: jobsys
  users :: "user_row list"
  members :: "member_row list"
  api_keys :: "apikey_row list"
  sessions :: "session_row list"
  oidc_states :: "oidc_row list"
  enroll_tokens :: "enroll_row list"
  acme_accounts :: "account_row list"
  challenges :: "challenge_row list"
  audit_log :: "audit_row list"
  cpg :: pg
  rec :: Reconciler
  signing :: signing_key

abbreviation set_db :: "(tables \<Rightarrow> tables) \<Rightarrow> ctl \<Rightarrow> ctl" where
  "set_db f s \<equiv> s\<lparr>db := f (db s)\<rparr>"

section \<open>Principals\<close>

record User =
  UID :: nat
  Email :: string
  DisplayName :: string
  PlatformAdmin :: bool
  TOTPEnabled :: bool
  MustChangePassword :: bool

record principal =
  keyID :: "nat option"
  tenantID :: "nat option"
  tenant :: string
  platform_p :: bool
  role :: string
  user :: "User option"
  session_p :: bool

definition nobody :: principal where
  "nobody = \<lparr>keyID = None, tenantID = None, tenant = [], platform_p = False, role = [], user = None, session_p = False\<rparr>"

definition roleRank :: "string \<Rightarrow> int" where
  "roleRank r = (if r = ''viewer'' then 1 else if r = ''operator'' then 2 else if r = ''admin'' then 3
     else if r = ''owner'' then 4 else 0)"

definition allows :: "principal \<Rightarrow> string \<Rightarrow> bool" where
  "allows p minRole = (if \<not> session_p p \<or> platform_p p then True else roleRank minRole \<le> roleRank (role p))"

definition HashKey :: "(string \<Rightarrow> string) \<Rightarrow> string \<Rightarrow> string" where
  "HashKey sha k = hex (sha k)"

definition NewKey :: "string \<Rightarrow> string" where
  "NewKey b = ''flyc_'' @ hex b"

type_synonym 'k handler = "'k sys \<Rightarrow> request \<Rightarrow> principal \<Rightarrow> ctl \<Rightarrow> resp \<times> ctl"

text \<open>\<open>audit\<close>: a row that Postgres refuses is lost without a word.\<close>

definition audit :: "bool \<Rightarrow> principal \<Rightarrow> string \<Rightarrow> jv \<Rightarrow> ctl \<Rightarrow> ctl" where
  "audit ok p action diff s = (if ok
     then s\<lparr>audit_log := audit_log s @ [\<lparr>l_tenant = tenantID p, l_action = action, l_diff = diff\<rparr>]\<rparr> else s)"

lemma audit_frame [simp]:
  "db (audit ok p a d s) = db s" "cinv (audit ok p a d s) = cinv s" "cjobs (audit ok p a d s) = cjobs s"
  "users (audit ok p a d s) = users s" "members (audit ok p a d s) = members s" "api_keys (audit ok p a d s) = api_keys s"
  "sessions (audit ok p a d s) = sessions s" "oidc_states (audit ok p a d s) = oidc_states s"
  "enroll_tokens (audit ok p a d s) = enroll_tokens s" "acme_accounts (audit ok p a d s) = acme_accounts s" "challenges (audit ok p a d s) = challenges s"
  "cpg (audit ok p a d s) = cpg s" "rec (audit ok p a d s) = rec s" "signing (audit ok p a d s) = signing s"
  by (simp_all add: audit_def)

definition find_tenant :: "string \<Rightarrow> ctl \<Rightarrow> tenant_row option" where
  "find_tenant slug s = find (\<lambda>t. t_slug t = slug) (tenants (db s))"

definition tenant_by_id :: "nat \<Rightarrow> ctl \<Rightarrow> tenant_row option" where
  "tenant_by_id i s = find_by t_id i (tenants (db s))"

definition NoContent :: resp where
  "NoContent = \<lparr>code = 204, cookies = [], headers = [], body = NoBody\<rparr>"

lemma NoContent_code [simp]: "code NoContent = 204"
  by (simp add: NoContent_def)

definition jopt :: "('a \<Rightarrow> jv) \<Rightarrow> 'a option \<Rightarrow> jv" where
  "jopt f x = (case x of None \<Rightarrow> JNull | Some a \<Rightarrow> f a)"

section \<open>Lookups\<close>

lemma map_filter_mem: "y \<in> set (List.map_filter f xs) \<longleftrightarrow> (\<exists>x \<in> set xs. f x = Some y)"
  by (force simp: List.map_filter_def)

lemma find_mem: "find P xs = Some x \<Longrightarrow> x \<in> set xs \<and> P x"
  by (auto simp: find_Some_iff)

end
