(* ===== verification/Control_Auth.thy ===== *)
theory Control_Auth
  imports Control_Db
begin

text \<open>
  Who may call what: control/internal/auth/session.go (the sessions of the interface) and the
  authentication of control/internal/api (\<open>authenticate\<close> of api.go, \<open>authenticateSession\<close> of
  session.go, the three wrappers that every route goes through). The statements are numbered in
  the order of the code.
\<close>

section \<open>Sessions\<close>

definition CookieName :: string where "CookieName = ''flyc_session''"
definition SessionTTL :: int where "SessionTTL = 12 * 3600"
definition sessionSlid :: int where "sessionSlid = 30 * 60"

definition hashToken :: "(string \<Rightarrow> string) \<Rightarrow> string \<Rightarrow> string" where
  "hashToken sha t = hex (sha t)"

definition user_of :: "user_row \<Rightarrow> User" where
  "user_of u = \<lparr>UID = u_id u, Email = u_email u, DisplayName = u_name u, PlatformAdmin = u_admin u,
     TOTPEnabled = u_totp u, MustChangePassword = u_must u\<rparr>"

text \<open>\<open>Create\<close> returns the value of the cookie; the address is the header \<open>X-Real-IP\<close> or that of the peer.\<close>

definition Sess_Create :: "'k sys \<Rightarrow> request \<Rightarrow> nat \<Rightarrow> ctl \<Rightarrow> string res \<times> ctl" where
  "Sess_Create E rq i s =
    (let tok = RandomToken (S_rand E 0);
         ip = (if Rhdr rq ''X-Real-IP'' = [] then Rremote rq else Rhdr rq ''X-Real-IP'');
         ua = take 200 (Rhdr rq ''User-Agent'');
         h = hashToken (S_sha E) tok
     in if \<not> S_ok E 0 then (Inl EDb, s)
        else if h \<in> n_id ` set (sessions s) then (Inl unique_violation, s)
        else if i \<notin> u_id ` set (users s) then (Inl foreign_key_violation, s)
        else let s1 = s\<lparr>sessions := sessions s @ [\<lparr>n_id = h, n_user = i, n_expires = S_now E + SessionTTL, n_ip = ip, n_agent = ua\<rparr>]\<rparr>
             in (Inr tok, if S_ok E 1 then s1\<lparr>users := update_where (\<lambda>u. u_id u = i) (\<lambda>u. u\<lparr>u_login := Some (S_now E)\<rparr>) (users s1)\<rparr> else s1))"

text \<open>The join of the session that is still valid with its user.\<close>

definition live_session :: "int \<Rightarrow> string \<Rightarrow> ctl \<Rightarrow> (session_row \<times> user_row) option" where
  "live_session now h s = (case find (\<lambda>x. n_id x = h \<and> now < n_expires x) (sessions s) of
     None \<Rightarrow> None
   | Some x \<Rightarrow> map_option (\<lambda>u. (x, u)) (find (\<lambda>u. u_id u = n_user x) (users s)))"

definition Sess_Current :: "'k sys \<Rightarrow> request \<Rightarrow> ctl \<Rightarrow> User option res \<times> ctl" where
  "Sess_Current E rq s = (case Rcookie rq of None \<Rightarrow> (Inr None, s) | Some c \<Rightarrow>
     (if c = [] then (Inr None, s)
      else if \<not> S_ok E 0 then (Inl EDb, s)
      else case live_session (S_now E) (hashToken (S_sha E) c) s of
         None \<Rightarrow> (Inr None, s)
       | Some (x, u) \<Rightarrow> (Inr (Some (user_of u)),
           if n_expires x - S_now E < SessionTTL - sessionSlid \<and> S_ok E 1
           then s\<lparr>sessions := update_where (\<lambda>y. n_id y = n_id x) (\<lambda>y. y\<lparr>n_expires := S_now E + SessionTTL\<rparr>) (sessions s)\<rparr> else s)))"

definition Sess_Destroy :: "'k sys \<Rightarrow> request \<Rightarrow> ctl \<Rightarrow> ctl" where
  "Sess_Destroy E rq s = (case Rcookie rq of None \<Rightarrow> s
     | Some c \<Rightarrow> (if S_ok E 0 then s\<lparr>sessions := filter (\<lambda>x. n_id x \<noteq> hashToken (S_sha E) c) (sessions s)\<rparr> else s))"

definition Sess_DestroyAll :: "bool \<Rightarrow> nat \<Rightarrow> ctl \<Rightarrow> ctl" where
  "Sess_DestroyAll ok i s = (if ok then s\<lparr>sessions := filter (\<lambda>x. n_user x \<noteq> i) (sessions s)\<rparr> else s)"

definition Sess_Purge :: "'k sys \<Rightarrow> ctl \<Rightarrow> ctl" where
  "Sess_Purge E s =
    (let s1 = (if S_ok E 0 then s\<lparr>sessions := filter (\<lambda>x. \<not> n_expires x < S_now E) (sessions s)\<rparr> else s)
     in if S_ok E 1 then s1\<lparr>oidc_states := filter (\<lambda>o'. \<not> o_created o' < S_now E - 15 * 60) (oidc_states s1)\<rparr> else s1)"

section \<open>Authentication\<close>

definition auth_err :: "string \<Rightarrow> err" where "auth_err w = EInvalid w"

text \<open>The memberships of a user with the slug of the tenant, in the order of the slugs.\<close>

definition memberships :: "(string \<Rightarrow> 'k::linorder) \<Rightarrow> nat \<Rightarrow> ctl \<Rightarrow> (tenant_row \<times> member_row) list" where
  "memberships coll i s = sort_key (\<lambda>(t, m). coll (t_slug t))
     (List.map_filter (\<lambda>m. map_option (\<lambda>t. (t, m)) (tenant_by_id (m_tenant m) s)) (filter (\<lambda>m. m_user m = i) (members s)))"

text \<open>What is left once the session is found: the header against forgery, the tenant that is asked for or, for a
  user without the platform, the first of its memberships.\<close>

definition on_tenant :: "bool \<Rightarrow> string \<Rightarrow> ctl \<Rightarrow> principal \<Rightarrow> principal res" where
  "on_tenant ok slug s p =
    (if slug = [] then Inr p
     else if \<not> ok then Inl (auth_err ''tenant'')
     else case find_tenant slug s of None \<Rightarrow> Inl (auth_err ''tenant'')
      | Some t \<Rightarrow> Inr (p\<lparr>tenantID := Some (t_id t), tenant := t_slug t\<rparr>))"

definition on_membership :: "string \<Rightarrow> (tenant_row \<times> member_row) list \<Rightarrow> principal \<Rightarrow> principal res" where
  "on_membership slug ms p = (case filter (\<lambda>(t, m). slug = [] \<or> t_slug t = slug) ms of
     [] \<Rightarrow> (if slug \<noteq> [] then Inl (auth_err ''member'') else Inr p)
   | (t, m) # _ \<Rightarrow> Inr (p\<lparr>tenantID := Some (t_id t), tenant := t_slug t, role := m_role m\<rparr>))"

definition session_principal :: "'k::linorder sys \<Rightarrow> request \<Rightarrow> User \<Rightarrow> ctl \<Rightarrow> principal res" where
  "session_principal E rq u s =
    (let p = nobody\<lparr>user := Some u, session_p := True, platform_p := PlatformAdmin u\<rparr>; slug = Rhdr rq ''X-Flyc-Tenant'' in
     if Rmethod rq \<noteq> ''GET'' \<and> Rhdr rq ''X-Requested-With'' \<noteq> ''flyc'' then Inl (auth_err ''csrf'')
     else if PlatformAdmin u then on_tenant (S_ok E 2) slug s (p\<lparr>role := ''owner''\<rparr>)
     else if \<not> S_ok E 2 then Inl EDb
     else on_membership slug (memberships (S_coll E) (UID u) s) p)"

definition authenticateSession :: "'k::linorder sys \<Rightarrow> request \<Rightarrow> ctl \<Rightarrow> principal res \<times> ctl" where
  "authenticateSession E rq s = (case Sess_Current E rq s of (r, s1) \<Rightarrow>
     ((case r of Inl e \<Rightarrow> Inl e
       | Inr v \<Rightarrow> (case v of None \<Rightarrow> Inl (auth_err ''session'') | Some u \<Rightarrow> session_principal E rq u s1)), s1))"

definition find_key :: "string \<Rightarrow> ctl \<Rightarrow> apikey_row option" where
  "find_key h s = find (\<lambda>k. a_hash k = h) (api_keys s)"

definition key_principal :: "'k sys \<Rightarrow> request \<Rightarrow> apikey_row \<Rightarrow> ctl \<Rightarrow> principal res" where
  "key_principal E rq k s = (let p = nobody\<lparr>keyID := Some (a_id k)\<rparr> in
     case a_tenant k of
       None \<Rightarrow> on_tenant (S_ok E 2) (Rhdr rq ''X-Flyc-Tenant'') s (p\<lparr>platform_p := True\<rparr>)
     | Some i \<Rightarrow> Inr (p\<lparr>tenantID := Some i, tenant := (case tenant_by_id i s of None \<Rightarrow> [] | Some t \<Rightarrow> t_slug t)\<rparr>))"

definition touch_key :: "'k sys \<Rightarrow> apikey_row \<Rightarrow> ctl \<Rightarrow> ctl" where
  "touch_key E k s = (if S_ok E 1
     then s\<lparr>api_keys := update_where (\<lambda>x. a_id x = a_id k) (\<lambda>x. x\<lparr>a_used := Some (S_now E)\<rparr>) (api_keys s)\<rparr> else s)"

definition bearer_key :: "'k sys \<Rightarrow> request \<Rightarrow> string" where
  "bearer_key E rq = HashKey (S_sha E) (trim_space (S_uni E) (drop 7 (Rhdr rq ''Authorization'')))"

definition authenticate :: "'k::linorder sys \<Rightarrow> request \<Rightarrow> ctl \<Rightarrow> principal res \<times> ctl" where
  "authenticate E rq s =
    (if \<not> prefix ''Bearer '' (Rhdr rq ''Authorization'') then authenticateSession E rq s
     else if \<not> S_ok E 0 then (Inl (auth_err ''key''), s)
     else case find_key (bearer_key E rq) s of None \<Rightarrow> (Inl (auth_err ''key''), s)
      | Some k \<Rightarrow> (key_principal E rq k (touch_key E k s), touch_key E k s))"

text \<open>The wrappers. A handler runs after the three statements of the authentication.\<close>

definition platform :: "('k::linorder) handler \<Rightarrow> 'k sys \<Rightarrow> request \<Rightarrow> ctl \<Rightarrow> resp \<times> ctl" where
  "platform h E rq s = (case authenticate E rq s of
     (Inl e, s1) \<Rightarrow> (HErr 401 ''unauthorized'', s1)
   | (Inr p, s1) \<Rightarrow> (if \<not> platform_p p then (HErr 403 ''forbidden'', s1) else h (skip 3 E) rq p s1))"

definition tenant_route :: "string \<Rightarrow> ('k::linorder) handler \<Rightarrow> 'k sys \<Rightarrow> request \<Rightarrow> ctl \<Rightarrow> resp \<times> ctl" where
  "tenant_route minRole h E rq s = (case authenticate E rq s of
     (Inl e, s1) \<Rightarrow> (HErr 401 ''unauthorized'', s1)
   | (Inr p, s1) \<Rightarrow>
      (if tenantID p = None then (HErr 400 ''no_tenant'', s1)
       else if \<not> allows p minRole then (HErr 403 ''forbidden'', s1)
       else h (skip 3 E) rq p s1))"

definition session_route :: "('k::linorder) handler \<Rightarrow> 'k sys \<Rightarrow> request \<Rightarrow> ctl \<Rightarrow> resp \<times> ctl" where
  "session_route h E rq s = (case authenticateSession E rq s of
     (Inl e, s1) \<Rightarrow> (HErr 401 ''unauthorized'', s1)
   | (Inr p, s1) \<Rightarrow> h (skip 3 E) rq p s1)"

definition me :: "'k::linorder sys \<Rightarrow> request \<Rightarrow> ctl \<Rightarrow> resp \<times> ctl" where
  "me E rq s = (case authenticate E rq s of
     (Inl e, s1) \<Rightarrow> (HErr 401 ''unauthorized'', s1)
   | (Inr p, s1) \<Rightarrow> (JSON 200 (JObj [(''platform'', JBool (platform_p p)), (''tenant'', JStr (tenant p)), (''role'', JStr (role p)),
        (''session'', JBool (session_p p))]), s1))"

definition decode :: "'i option \<Rightarrow> ('i \<Rightarrow> ctl \<Rightarrow> resp \<times> ctl) \<Rightarrow> ctl \<Rightarrow> resp \<times> ctl" where
  "decode i f s = (case i of None \<Rightarrow> (HErr 400 ''bad_json'', s) | Some x \<Rightarrow> f x s)"

end
