(* ===== verification/Tenant_Api.thy ===== *)
theory Tenant_Api
  imports Control_Auth
begin

text \<open>
  The routes of a tenant (control/internal/api/tenant.go): its domains, its backends, its rooms,
  the state of a room, the calls to flyc-queue and the verification of a pass. Every statement is
  bound to the tenant of the principal; the constraints of the tables are written out where an
  insertion meets them.
\<close>

definition tid :: "principal \<Rightarrow> nat" where
  "tid p = (case tenantID p of None \<Rightarrow> 0 | Some t \<Rightarrow> t)"

section \<open>Domains\<close>

definition label_edge :: "char \<Rightarrow> bool" where "label_edge c \<longleftrightarrow> slug_char c"

text \<open>A label of \<open>fqdnRe\<close>: letters and digits at both ends, at most 63 characters; the last one
  letters only, at least two.\<close>

definition label_ok :: "string \<Rightarrow> bool" where
  "label_ok l \<longleftrightarrow> l \<noteq> [] \<and> length l \<le> 63 \<and> label_edge (hd l) \<and> label_edge (List.last l) \<and> list_all (\<lambda>c. slug_char c \<or> c = CHR ''-'') l"

definition letter :: "char \<Rightarrow> bool" where
  "letter c \<longleftrightarrow> 97 \<le> (of_char c :: nat) \<and> (of_char c :: nat) \<le> 122"

definition fqdnRe :: "string \<Rightarrow> bool" where
  "fqdnRe s = (let ls = split_on (CHR ''.'') s in
     2 \<le> length ls \<and> list_all label_ok (butlast ls) \<and> (let t = List.last ls in list_all letter t \<and> 2 \<le> length t \<and> length t \<le> 63))"

definition trim_dot :: "string \<Rightarrow> string" where
  "trim_dot s = (if s \<noteq> [] \<and> List.last s = CHR ''.'' then butlast s else s)"

definition find_domain :: "nat \<Rightarrow> string \<Rightarrow> tables \<Rightarrow> domain_row option" where
  "find_domain t f d = find (\<lambda>x. d_tenant x = t \<and> d_fqdn x = f) (domains d)"

definition insert_domain :: "bool \<Rightarrow> nat \<Rightarrow> nat \<Rightarrow> int \<Rightarrow> string \<Rightarrow> string \<Rightarrow> string \<Rightarrow> tables \<Rightarrow> unit res \<times> tables" where
  "insert_domain ok fresh t now f mode tls d =
    (if \<not> ok then (Inl EDb, d)
     else if mode \<notin> {''dns'', ''iframe''} \<or> tls \<notin> {''auto'', ''none''} then (Inl check_violation, d)
     else if f \<in> d_fqdn ` set (domains d) then (Inl unique_violation, d)
     else (Inr (), d\<lparr>domains := domains d @ [\<lparr>d_id = fresh, d_fqdn = f, d_mode = mode, d_tenant = t, d_tls = tls, d_created = now\<rparr>]\<rparr>))"

definition domain_json :: "string \<Rightarrow> string \<Rightarrow> string \<Rightarrow> jv" where
  "domain_json f mode tls = JObj [(''fqdn'', JStr f), (''mode'', JStr mode), (''tls'', JStr tls)]"

definition createDomain :: "(string \<times> string \<times> string) option \<Rightarrow> 'k handler" where
  "createDomain i E rq p = decode i (\<lambda>(f0, m0, t0) s.
    (let f = to_lower (S_uni E) (trim_dot (trim_space (S_uni E) f0)) in
     if \<not> fqdnRe f then (HErr 400 ''invalid'', s)
     else let mode = (if m0 = [] then ''dns'' else m0); tls = (if t0 = [] then ''auto'' else t0) in
       case insert_domain (S_ok E 0) (S_id E 0) (tid p) (S_now E) f mode tls (db s) of
         (Inl e, d) \<Rightarrow> (dbErr e, s\<lparr>db := d\<rparr>)
       | (Inr _, d) \<Rightarrow> (JSON 201 (domain_json f mode tls), audit (S_ok E 1) p ''domain.create'' (domain_json f mode tls) (s\<lparr>db := d\<rparr>))))"

text \<open>Deleting a domain takes its certificate with it and unties its room.\<close>

definition drop_domain :: "domain_row \<Rightarrow> tables \<Rightarrow> tables" where
  "drop_domain x d = d\<lparr>domains := filter (\<lambda>y. d_id y \<noteq> d_id x) (domains d),
     certificates := filter (\<lambda>c. c_fqdn c \<noteq> d_fqdn x) (certificates d),
     rooms_t := map (\<lambda>r. if r_domain r = Some (d_id x) then r\<lparr>r_domain := None\<rparr> else r) (rooms_t d)\<rparr>"

definition kicked :: "ctl \<Rightarrow> ctl" where
  "kicked s = s\<lparr>rec := Kick (rec s)\<rparr>"

definition deleteDomain :: "'k handler" where
  "deleteDomain E rq p s =
    (if \<not> S_ok E 0 then (dbErr EDb, s)
     else case find_domain (tid p) (to_lower (S_uni E) (Rpath rq ''fqdn'')) (db s) of
        None \<Rightarrow> (HErr 404 ''not_found'', s)
      | Some x \<Rightarrow> (NoContent, kicked (audit (S_ok E 1) p ''domain.delete'' (JStr (Rpath rq ''fqdn'')) (set_db (drop_domain x) s))))"

definition cert_of :: "domain_row \<Rightarrow> tables \<Rightarrow> cert_row option" where
  "cert_of x d = find (\<lambda>c. c_fqdn c = d_fqdn x) (certificates d)"

definition jstr_opt :: "string option \<Rightarrow> string" where
  "jstr_opt x = (case x of None \<Rightarrow> [] | Some t \<Rightarrow> t)"

definition listDomains :: "('k::linorder) handler" where
  "listDomains E rq p s = (if \<not> S_ok E 0 then (dbErr EDb, s)
     else (JSON 200 (JArr (map (\<lambda>x. (let c = cert_of x (db s) in
        JObj [(''fqdn'', JStr (d_fqdn x)), (''mode'', JStr (d_mode x)), (''tls'', JStr (d_tls x)), (''created_at'', JInt (d_created x)),
          (''certificate'', JObj [(''status'', JStr (case c of None \<Rightarrow> ''none'' | Some y \<Rightarrow> c_status y)),
             (''not_after'', jopt JInt (case c of None \<Rightarrow> None | Some y \<Rightarrow> c_not_after y)),
             (''last_error'', JStr (case c of None \<Rightarrow> [] | Some y \<Rightarrow> jstr_opt (c_last_error y)))]),
          (''room'', jopt (\<lambda>r. JStr (r_slug r)) (find (\<lambda>r. r_domain r = Some (d_id x)) (rooms_t (db s))))]))
        (sort_key (\<lambda>x. S_coll E (d_fqdn x)) (filter (\<lambda>x. d_tenant x = tid p) (domains (db s)))))), s))"

definition domainCert :: "'k handler" where
  "domainCert E rq p s =
    (if \<not> S_ok E 0 then (dbErr EDb, s)
     else case find_domain (tid p) (to_lower (S_uni E) (Rpath rq ''fqdn'')) (db s) of
        None \<Rightarrow> (dbErr no_rows, s)
      | Some x \<Rightarrow> (let c = cert_of x (db s) in
          (JSON 200 (JObj [(''status'', JStr (case c of None \<Rightarrow> ''none'' | Some y \<Rightarrow> c_status y)),
             (''issuer'', JStr (case c of None \<Rightarrow> [] | Some y \<Rightarrow> jstr_opt (c_issuer y))),
             (''not_before'', jopt JInt (case c of None \<Rightarrow> None | Some y \<Rightarrow> c_not_before y)),
             (''not_after'', jopt JInt (case c of None \<Rightarrow> None | Some y \<Rightarrow> c_not_after y)),
             (''last_error'', JStr (case c of None \<Rightarrow> [] | Some y \<Rightarrow> jstr_opt (c_last_error y))),
             (''last_attempt_at'', jopt JInt (case c of None \<Rightarrow> None | Some y \<Rightarrow> c_last_attempt y))]), s)))"

text \<open>The emission itself runs in the background, after the answer.\<close>

definition renewCert :: "bool \<Rightarrow> 'k handler" where
  "renewCert acme E rq p s =
    (if \<not> S_ok E 0 then (dbErr EDb, s)
     else case find_domain (tid p) (to_lower (S_uni E) (Rpath rq ''fqdn'')) (db s) of
        None \<Rightarrow> (dbErr no_rows, s)
      | Some x \<Rightarrow> (if \<not> acme then (HErr 409 ''acme_disabled'', s) else (JSON 202 (JObj [(''status'', JStr ''requested'')]), s)))"

section \<open>Backends\<close>

record serverIn =
  VName :: string
  VAddress :: string
  VPort :: int
  VWeight :: "int option"
  VMaxconn :: "int option"

record backendIn =
  BkName :: string
  BkBalance :: string
  BkCheck :: string
  BkServers :: "serverIn list"

definition server_row_of :: "nat \<Rightarrow> nat \<Rightarrow> serverIn \<Rightarrow> server_row" where
  "server_row_of b i v = \<lparr>s_backend = b, s_name = (if VName v = [] then ''srv'' @ show_nat (i + 1) else VName v), s_address = VAddress v,
     s_port = VPort v, s_weight = (case VWeight v of None \<Rightarrow> 100 | Some w \<Rightarrow> w), s_maxconn = (case VMaxconn v of None \<Rightarrow> 0 | Some m \<Rightarrow> m)\<rparr>"

definition server_checks :: "server_row \<Rightarrow> bool" where
  "server_checks r \<longleftrightarrow> slugRe (s_name r) \<and> 1 \<le> s_port r \<and> s_port r \<le> 65535 \<and> 0 \<le> s_weight r \<and> s_weight r \<le> 256"

text \<open>The loop of insertions: the \<open>i\<close>-th server is statement \<open>k + i\<close>.\<close>

fun insert_servers :: "(nat \<Rightarrow> bool) \<Rightarrow> nat \<Rightarrow> nat \<Rightarrow> nat \<Rightarrow> serverIn list \<Rightarrow> server_row list \<Rightarrow> server_row list res" where
  "insert_servers ok k b i [] rs = Inr rs"
| "insert_servers ok k b i (v # vs) rs =
    (let r = server_row_of b i v in
     if \<not> ok k then Inl EDb
     else if \<not> server_checks r then Inl check_violation
     else if \<exists>x \<in> set rs. s_backend x = b \<and> s_name x = s_name r then Inl unique_violation
     else insert_servers ok (Suc k) b (Suc i) vs (rs @ [r]))"

definition find_backend :: "nat \<Rightarrow> string \<Rightarrow> tables \<Rightarrow> backend_row option" where
  "find_backend t n d = find (\<lambda>b. b_tenant b = t \<and> b_name b = n) (backends d)"

text \<open>The transaction: the row of the backend, the deletion of its servers, their insertion. What it gives
  is the committed tables, or an error and the rollback.\<close>

definition backend_tx :: "(nat \<Rightarrow> bool) \<Rightarrow> nat \<Rightarrow> nat \<Rightarrow> backendIn \<Rightarrow> tables \<Rightarrow> tables res" where
  "backend_tx ok fresh t i d =
    (if \<not> ok 0 \<or> \<not> ok 1 then Inl EDb
     else if BkBalance i \<notin> {''roundrobin'', ''leastconn'', ''source''} then Inl check_violation
     else let old = find_backend t (BkName i) d;
              b = (case old of None \<Rightarrow> fresh | Some x \<Rightarrow> b_id x);
              bs = (case old of None \<Rightarrow> backends d @ [\<lparr>b_id = fresh, b_tenant = t, b_name = BkName i, b_balance = BkBalance i, b_check = BkCheck i\<rparr>]
                    | Some x \<Rightarrow> update_where (\<lambda>y. b_id y = b_id x) (\<lambda>y. y\<lparr>b_balance := BkBalance i, b_check := BkCheck i\<rparr>) (backends d))
          in if \<not> ok 2 then Inl EDb
             else case insert_servers ok 3 b 0 (BkServers i) (filter (\<lambda>r. s_backend r \<noteq> b) (servers d)) of
                Inl e \<Rightarrow> Inl e
              | Inr rs \<Rightarrow> (if \<not> ok (3 + length (BkServers i)) then Inl EDb else Inr (d\<lparr>backends := bs, servers := rs\<rparr>)))"

definition upsertBackend :: "(backendIn \<Rightarrow> jv) \<Rightarrow> backendIn option \<Rightarrow> 'k handler" where
  "upsertBackend js i E rq p = decode i (\<lambda>i0 s.
    (let i1 = (if Rpath rq ''name'' \<noteq> [] then i0\<lparr>BkName := Rpath rq ''name''\<rparr> else i0) in
     if \<not> slugRe (BkName i1) then (HErr 400 ''invalid'', s)
     else let i2 = i1\<lparr>BkBalance := (if BkBalance i1 = [] then ''roundrobin'' else BkBalance i1),
                      BkCheck := (if BkCheck i1 = [] then ''/'' else BkCheck i1)\<rparr> in
       if BkServers i2 = [] then (HErr 400 ''invalid'', s)
       else case backend_tx (S_ok E) (S_id E 0) (tid p) i2 (db s) of
          Inl e \<Rightarrow> (dbErr e, s)
        | Inr d \<Rightarrow> (JSON 200 (JObj [(''name'', JStr (BkName i2)), (''haproxy_name'', JStr (BackendName (tenant p) (BkName i2))),
               (''servers'', JInt (int (length (BkServers i2))))]),
             kicked (audit (S_ok E (4 + length (BkServers i2))) p ''backend.upsert'' (js i2) (s\<lparr>db := d\<rparr>)))))"

definition drop_backend :: "backend_row \<Rightarrow> tables \<Rightarrow> tables" where
  "drop_backend b d = d\<lparr>backends := filter (\<lambda>y. b_id y \<noteq> b_id b) (backends d), servers := filter (\<lambda>r. s_backend r \<noteq> b_id b) (servers d),
     rooms_t := map (\<lambda>r. if r_backend r = Some (b_id b) then r\<lparr>r_backend := None\<rparr> else r) (rooms_t d)\<rparr>"

definition deleteBackend :: "'k handler" where
  "deleteBackend E rq p s =
    (if \<not> S_ok E 0 then (dbErr EDb, s)
     else case find_backend (tid p) (Rpath rq ''name'') (db s) of None \<Rightarrow> (HErr 404 ''not_found'', s)
      | Some b \<Rightarrow> (NoContent, kicked (audit (S_ok E 1) p ''backend.delete'' (JStr (Rpath rq ''name'')) (set_db (drop_backend b) s))))"

text \<open>One more query per backend; when it is refused the list of the servers is empty.\<close>

definition listBackends :: "('k::linorder) handler" where
  "listBackends E rq p s = (if \<not> S_ok E 0 then (dbErr EDb, s)
     else (JSON 200 (JArr (map (\<lambda>(k, b). JObj [(''name'', JStr (b_name b)), (''balance'', JStr (b_balance b)), (''check_path'', JStr (b_check b)),
         (''haproxy_name'', JStr (BackendName (tenant p) (b_name b))),
         (''servers'', JArr (if \<not> S_ok E (Suc k) then [] else map (\<lambda>r. JObj [(''name'', JStr (s_name r)), (''address'', JStr (s_address r)),
             (''port'', JInt (s_port r)), (''weight'', JInt (s_weight r)), (''maxconn'', JInt (s_maxconn r))])
           (sort_key (\<lambda>r. S_coll E (s_name r)) (filter (\<lambda>r. s_backend r = b_id b) (servers (db s))))))])
        (enumerate 0 (sort_key (\<lambda>b. S_coll E (b_name b)) (filter (\<lambda>b. b_tenant b = tid p) (backends (db s))))))), s))"

end
