(* ===== verification/Room_Api.thy ===== *)
theory Room_Api
  imports Tenant_Api
begin

text \<open>
  The rooms of a tenant (control/internal/api/tenant.go, from \<open>roomIn\<close> on): their rows, the switch of
  their state, the calls to flyc-queue, the verification of a pass. \<open>once\<close> is the synchronous pass of the
  reconciler over the tables (\<open>Once\<close> of the theory Reconcile, whose other arguments the server holds).
\<close>

section \<open>Rows\<close>

record roomIn =
  ISlug :: string
  ITitle :: string
  IDomain :: string
  IBackend :: string
  IState :: string
  IRate :: rat
  IMaxActive :: int
  IWaveS :: int
  IPassTTLS :: int
  IOpensAt :: "string option"
  ITheme :: "(string \<times> string) list"
  IAutoOn :: int
  IAutoOff :: int

definition find_room :: "nat \<Rightarrow> string \<Rightarrow> tables \<Rightarrow> room_row option" where
  "find_room t sl d = find (\<lambda>r. r_tenant r = t \<and> r_slug r = sl) (rooms_t d)"

text \<open>The values that the handler fills in.\<close>

definition room_defaults :: "roomIn \<Rightarrow> roomIn" where
  "room_defaults i = i\<lparr>IState := (if IState i = [] then ''open'' else IState i), IRate := (if IRate i \<le> 0 then 10 else IRate i),
     IWaveS := (if IWaveS i \<le> 0 then 30 else IWaveS i), IPassTTLS := (if IPassTTLS i \<le> 0 then 1200 else IPassTTLS i)\<rparr>"

definition theme_keys :: "string list" where
  "theme_keys = [''accent'', ''logo_url'', ''message'', ''lang'']"

definition clean_theme :: "roomIn \<Rightarrow> roomIn" where
  "clean_theme i = i\<lparr>ITheme := filter (\<lambda>kv. fst kv \<in> set theme_keys) (ITheme i)\<rparr>"

definition auto_ok :: "roomIn \<Rightarrow> bool" where
  "auto_ok i \<longleftrightarrow> \<not> (IState i = ''auto'' \<and> (IAutoOn i \<le> 0 \<or> IAutoOff i < 0 \<or> IAutoOn i \<le> IAutoOff i))"

definition int4 :: "int \<Rightarrow> bool" where
  "int4 x \<longleftrightarrow> - (2 ^ 31) \<le> x \<and> x < 2 ^ 31"

text \<open>The upsert of the row: the integers of 32 bits, the check on the state, the domain that only one room
  may have. In mode \<open>auto\<close> an existing room keeps its effective state.\<close>

definition save_room :: "bool \<Rightarrow> nat \<Rightarrow> int \<Rightarrow> nat \<Rightarrow> roomIn \<Rightarrow> nat option \<Rightarrow> nat option \<Rightarrow> int option \<Rightarrow> tables \<Rightarrow> unit res \<times> tables" where
  "save_room ok fresh now t i dom_id bk_id opens d =
    (let eff = (if IState i = ''auto'' then ''open'' else IState i);
         new = \<lparr>r_id = fresh, r_tenant = t, r_slug = ISlug i, r_title = ITitle i, r_domain = dom_id, r_backend = bk_id, r_state = IState i,
                r_effective = eff, r_rate = IRate i, r_max_active = IMaxActive i, r_wave_s = IWaveS i, r_pass_ttl_s = IPassTTLS i,
                r_opens_at = opens, r_theme = Some (ITheme i), r_auto_on = IAutoOn i, r_auto_off = IAutoOff i, r_updated = now\<rparr>
     in if \<not> ok \<or> \<not> int4 (IWaveS i) \<or> \<not> int4 (IPassTTLS i) \<or> \<not> int4 (IAutoOn i) \<or> \<not> int4 (IAutoOff i) then (Inl EDb, d)
        else if IState i \<notin> {''open'', ''queue'', ''closed'', ''auto''} then (Inl check_violation, d)
        else if dom_id \<noteq> None \<and> (\<exists>r \<in> set (rooms_t d). r_domain r = dom_id \<and> (r_tenant r, r_slug r) \<noteq> (t, ISlug i)) then (Inl unique_violation, d)
        else (Inr (), d\<lparr>rooms_t := upsert (\<lambda>r. (r_tenant r, r_slug r)) (t, ISlug i)
           (\<lambda>r. new\<lparr>r_id := r_id r, r_tenant := r_tenant r, r_slug := r_slug r,
                    r_effective := (if IState i = ''auto'' then r_effective r else IState i)\<rparr>) new (rooms_t d)\<rparr>))"

definition room_id :: "principal \<Rightarrow> string \<Rightarrow> string" where
  "room_id p sl = tenant p @ ''.'' @ sl"

definition upsertRoom :: "(string \<Rightarrow> int option) \<Rightarrow> (roomIn \<Rightarrow> jv) \<Rightarrow> roomIn option \<Rightarrow> 'k handler" where
  "upsertRoom rfc js i E rq p = decode i (\<lambda>i0 s.
    (let i1 = (if Rpath rq ''slug'' \<noteq> [] then i0\<lparr>ISlug := Rpath rq ''slug''\<rparr> else i0) in
     if \<not> slugRe (ISlug i1) then (HErr 400 ''invalid'', s)
     else
      let i2 = room_defaults i1;
          dm = (if IDomain i2 = [] then None else find_domain (tid p) (to_lower (S_uni E) (IDomain i2)) (db s));
          bk = (if IBackend i2 = [] then None else find_backend (tid p) (IBackend i2) (db s));
          op = (case IOpensAt i2 of None \<Rightarrow> None | Some t \<Rightarrow> if t = [] then None else Some t)
      in if IDomain i2 \<noteq> [] \<and> (\<not> S_ok E 0 \<or> dm = None) then (HErr 400 ''invalid_domain'', s)
         else if IBackend i2 \<noteq> [] \<and> (\<not> S_ok E 1 \<or> bk = None) then (HErr 400 ''invalid_backend'', s)
         else if op \<noteq> None \<and> rfc (the op) = None then (HErr 400 ''invalid'', s)
         else let i3 = clean_theme i2 in
           if \<not> auto_ok i3 then (HErr 400 ''invalid'', s)
           else case save_room (S_ok E 2) (S_id E 0) (S_now E) (tid p) i3 (map_option d_id dm) (map_option b_id bk)
                       (case op of None \<Rightarrow> None | Some t \<Rightarrow> rfc t) (db s) of
              (Inl e, d) \<Rightarrow> (dbErr e, s\<lparr>db := d\<rparr>)
            | (Inr _, d) \<Rightarrow> (JSON 200 (JObj [(''id'', JStr (room_id p (ISlug i3))), (''state'', JStr (IState i3))]),
                kicked (audit (S_ok E 3) p ''room.upsert'' (js i3) (s\<lparr>db := d\<rparr>)))))"

definition deleteRoom :: "'k handler" where
  "deleteRoom E rq p s =
    (if \<not> S_ok E 0 then (dbErr EDb, s)
     else case find_room (tid p) (Rpath rq ''slug'') (db s) of None \<Rightarrow> (HErr 404 ''not_found'', s)
      | Some r \<Rightarrow> (NoContent, kicked (audit (S_ok E 1) p ''room.delete'' (JStr (Rpath rq ''slug''))
            (set_db (\<lambda>d. d\<lparr>rooms_t := filter (\<lambda>x. \<not> (r_tenant x = tid p \<and> r_slug x = Rpath rq ''slug'')) (rooms_t d)\<rparr>) s))))"

definition room_json :: "principal \<Rightarrow> tables \<Rightarrow> room_row \<Rightarrow> jv" where
  "room_json p d r = JObj [(''slug'', JStr (r_slug r)), (''id'', JStr (room_id p (r_slug r))), (''title'', JStr (r_title r)), (''state'', JStr (r_state r)),
     (''effective_state'', JStr (r_effective r)), (''auto_on'', JInt (r_auto_on r)), (''auto_off'', JInt (r_auto_off r)), (''rate'', JNum (r_rate r)),
     (''max_active'', JInt (r_max_active r)), (''wave_s'', JInt (r_wave_s r)), (''pass_ttl_s'', JInt (r_pass_ttl_s r)),
     (''opens_at'', jopt JInt (r_opens_at r)),
     (''domain'', jopt (\<lambda>x. JStr (d_fqdn x)) (case r_domain r of None \<Rightarrow> None | Some i \<Rightarrow> find_by d_id i (domains d))),
     (''backend'', jopt (\<lambda>b. JStr (b_name b)) (case r_backend r of None \<Rightarrow> None | Some i \<Rightarrow> find_by b_id i (backends d))),
     (''updated_at'', JInt (r_updated r)),
     (''theme'', JObj (case r_theme r of None \<Rightarrow> [] | Some th \<Rightarrow> map (\<lambda>(k, v). (k, JStr v)) th))]"

definition listRooms :: "('k::linorder) handler" where
  "listRooms E rq p s = (if \<not> S_ok E 0 then (dbErr EDb, s)
     else (JSON 200 (JArr (map (room_json p (db s)) (sort_key (\<lambda>r. S_coll E (r_slug r)) (filter (\<lambda>r. r_tenant r = tid p) (rooms_t (db s)))))), s))"

section \<open>State\<close>

text \<open>The update in mode \<open>auto\<close> only asks for \<open>auto_on > 0\<close>.\<close>

definition run_once :: "(tables \<Rightarrow> Reconciler \<times> pg \<Rightarrow> Reconciler \<times> pg) \<Rightarrow> ctl \<Rightarrow> ctl" where
  "run_once once s = (case once (db s) (rec s, cpg s) of (r, g) \<Rightarrow> s\<lparr>rec := r, cpg := g\<rparr>)"

definition roomState :: "(tables \<Rightarrow> Reconciler \<times> pg \<Rightarrow> Reconciler \<times> pg) \<Rightarrow> string option \<Rightarrow> 'k handler" where
  "roomState once i E rq p = decode i (\<lambda>st s.
    (let sl = Rpath rq ''slug''; mine = (\<lambda>r. r_tenant r = tid p \<and> r_slug r = sl) in
     if st \<notin> {''open'', ''queue'', ''closed'', ''auto''} then (HErr 400 ''invalid'', s)
     else if \<not> S_ok E 0 then (dbErr EDb, s)
     else if st = ''auto'' \<and> \<not> list_ex (\<lambda>r. mine r \<and> 0 < r_auto_on r) (rooms_t (db s)) then (HErr 400 ''invalid'', s)
     else if st \<noteq> ''auto'' \<and> \<not> list_ex mine (rooms_t (db s)) then (HErr 404 ''not_found'', s)
     else
      let s1 = set_db (\<lambda>d. d\<lparr>rooms_t := (if st = ''auto''
               then update_where (\<lambda>r. mine r \<and> 0 < r_auto_on r) (\<lambda>r. r\<lparr>r_state := ''auto'', r_updated := S_now E\<rparr>) (rooms_t d)
               else update_where mine (\<lambda>r. r\<lparr>r_state := st, r_effective := st, r_updated := S_now E\<rparr>) (rooms_t d))\<rparr>) s
      in (JSON 200 (JObj [(''id'', JStr (room_id p sl)), (''state'', JStr st)]),
          run_once once (audit (S_ok E 1) p ''room.state'' (JObj [(''slug'', JStr sl), (''state'', JStr st)]) s1))))"

section \<open>Calls to flyc-queue\<close>

text \<open>\<open>WriteHeader\<close> panics on a status under 100: the server closes the connection without an answer.\<close>

definition aborted :: resp where
  "aborted = \<lparr>code = 0, cookies = [], headers = [], body = NoBody\<rparr>"

definition relay :: "int \<Rightarrow> string \<Rightarrow> resp" where
  "relay c b = (if c < 100 \<or> 999 < c then aborted
     else \<lparr>code = c, cookies = [], headers = [(''Content-Type'', ''application/json'')], body = Raw b\<rparr>)"

definition roomStats :: "'w network \<Rightarrow> request \<Rightarrow> principal \<Rightarrow> ctl \<Rightarrow> 'w \<Rightarrow> resp \<times> 'w" where
  "roomStats http rq p s w = (case Call http (queue_c (rec s)) ''GET'' (''/internal/rooms/'' @ room_id p (Rpath rq ''slug'')) w of
     (Inl e, w1) \<Rightarrow> (HErr 503 ''queue_unreachable'', w1)
   | (Inr (c, b), w1) \<Rightarrow> (relay c b, w1))"

definition roomFlush :: "'w network \<Rightarrow> 'k sys \<Rightarrow> request \<Rightarrow> principal \<Rightarrow> ctl \<Rightarrow> 'w \<Rightarrow> resp \<times> ctl \<times> 'w" where
  "roomFlush http E rq p s w = (case Call http (queue_c (rec s)) ''POST'' (''/internal/rooms/'' @ room_id p (Rpath rq ''slug'') @ ''/flush'') w of
     (Inl e, w1) \<Rightarrow> (HErr 503 ''queue_unreachable'', s, w1)
   | (Inr (c, b), w1) \<Rightarrow> (relay c b, audit (S_ok E 0) p ''room.flush'' (JStr (Rpath rq ''slug'')) s, w1))"

section \<open>Passes\<close>

definition pass_keys :: "int \<Rightarrow> tables \<Rightarrow> string list" where
  "pass_keys now d = map k_public (filter (\<lambda>k. k_active k \<or> (case k_retired k of None \<Rightarrow> False | Some t \<Rightarrow> now - 24 * 3600 < t)) (signing_keys d))"

fun first_valid :: "(string \<Rightarrow> Payload res) \<Rightarrow> string list \<Rightarrow> err option \<Rightarrow> Payload option \<times> err option" where
  "first_valid v [] e = (None, e)"
| "first_valid v (k # ks) e = (case v k of Inr c \<Rightarrow> (Some c, e) | Inl e' \<Rightarrow> first_valid v ks (Some e'))"

definition reason :: "err option \<Rightarrow> string" where
  "reason e = (case e of Some (EInvalid t) \<Rightarrow> t | _ \<Rightarrow> ''pass invalide'')"

definition refused :: "string \<Rightarrow> jv" where
  "refused why = JObj [(''valid'', JBool False), (''reason'', JStr why)]"

definition verifyPass :: "lib \<Rightarrow> crypto \<Rightarrow> (string \<times> string) option \<Rightarrow> 'k handler" where
  "verifyPass L C i E rq p = decode i (\<lambda>(token, host) s.
    (if \<not> S_ok E 0 then (dbErr EDb, s)
     else case first_valid (\<lambda>pem. Verify L C pem token (to_lower (S_uni E) host) (S_now E)) (pass_keys (S_now E) (db s)) None of
        (None, e) \<Rightarrow> (JSON 200 (refused (reason e)), s)
      | (Some c, _) \<Rightarrow>
         (if \<not> S_ok E 1 \<or> \<not> list_ex (\<lambda>x. d_tenant x = tid p \<and> d_fqdn x = PDom c) (domains (db s)) \<or> \<not> prefix (tenant p @ ''.'') (Rm c)
          then (JSON 200 (refused ''autre tenant''), s)
          else (JSON 200 (JObj [(''valid'', JBool True), (''sub'', JStr (Sub c)), (''dom'', JStr (PDom c)), (''room'', JStr (Rm c)),
                 (''exp'', JInt (PExp c)), (''kid'', JStr (Kid c))]), s))))"

end
