(* ===== verification/Bootstrap_Model.thy ===== *)
theory Bootstrap_Model
  imports Control_Db
begin

text \<open>
  control/internal/bootstrap/bootstrap.go: what the first start creates (the signing key, the first
  administrator, the first platform key), the rotation of the signing key and its JWK. AES-GCM, the
  keys of the curve, argon2 and the PEM format are arguments, as one record; the files of the data
  directory are a list of names and contents.
\<close>

section \<open>The outside\<close>

record keylib =
  K_pair :: "string \<Rightarrow> (string \<times> string) option"
  K_coords :: "string \<Rightarrow> (nat \<times> nat) option"
  K_seal :: "string \<Rightarrow> string \<Rightarrow> string \<Rightarrow> string"
  K_open :: "string \<Rightarrow> string \<Rightarrow> string \<Rightarrow> string option"
  K_argon :: "string \<Rightarrow> string \<Rightarrow> string"
  K_b64 :: "string \<Rightarrow> string option"
  K_std :: "string \<Rightarrow> string"
  K_month :: string
  K_mkdir :: bool
  K_write :: "string \<Rightarrow> bool"

type_synonym disk = "(string \<times> string) list"

section \<open>Encryption with the master key\<close>

definition encrypt :: "keylib \<Rightarrow> string \<Rightarrow> string \<Rightarrow> string \<Rightarrow> string res" where
  "encrypt L key nonce plain = (if length key \<notin> {16, 24, 32} then Inl (EInvalid ''aes'') else Inr (nonce @ K_seal L key nonce plain))"

definition decrypt :: "keylib \<Rightarrow> string \<Rightarrow> string \<Rightarrow> string res" where
  "decrypt L key enc =
    (if length key \<notin> {16, 24, 32} then Inl (EInvalid ''aes'')
     else if length enc < 12 then Inl (EInvalid ''truncated'')
     else case K_open L key (take 12 enc) (drop 12 enc) of None \<Rightarrow> Inl (EInvalid ''gcm'') | Some t \<Rightarrow> Inr t)"

text \<open>control/internal/crypt/crypt.go: the same for the secrets of the users.\<close>

definition Parse_key :: "keylib \<Rightarrow> string \<Rightarrow> string res" where
  "Parse_key L b = (case K_b64 L b of None \<Rightarrow> Inl (EInvalid ''master'')
     | Some k \<Rightarrow> (if length k \<noteq> 32 then Inl (EInvalid ''master'') else Inr k))"

definition Seal :: "keylib \<Rightarrow> string \<Rightarrow> string \<Rightarrow> string \<Rightarrow> string res" where
  "Seal L key nonce plain = (if length key \<notin> {16, 24, 32} then Inl (EInvalid ''aes'') else Inr (nonce @ K_seal L key nonce plain))"

definition Unseal :: "keylib \<Rightarrow> string \<Rightarrow> string \<Rightarrow> string res" where
  "Unseal L key enc =
    (if length key \<notin> {16, 24, 32} then Inl (EInvalid ''aes'')
     else if length enc < 12 then Inl (EInvalid ''truncated'')
     else case K_open L key (take 12 enc) (drop 12 enc) of None \<Rightarrow> Inl (EInvalid ''gcm'') | Some t \<Rightarrow> Inr t)"

section \<open>Keys\<close>

text \<open>\<open>build\<close>: the key in memory and its JWK. A coordinate over 32 bytes is a panic of \<open>FillBytes\<close>.\<close>

definition jwk_of :: "string \<Rightarrow> nat \<times> nat \<Rightarrow> jv" where
  "jwk_of i xy = JObj [(''kty'', JStr ''EC''), (''crv'', JStr ''P-256''), (''alg'', JStr ''ES256''), (''use'', JStr ''sig''), (''kid'', JStr i),
     (''x'', JStr (b64 (be_bytes 32 (fst xy)))), (''y'', JStr (b64 (be_bytes 32 (snd xy))))]"

definition build_key :: "keylib \<Rightarrow> string \<Rightarrow> string \<Rightarrow> string \<Rightarrow> (signing_key \<times> jv) res" where
  "build_key L i priv pub = (case K_coords L pub of None \<Rightarrow> Inl (EInvalid ''pem'')
     | Some (x, y) \<Rightarrow> (if 2 ^ 256 \<le> x \<or> 2 ^ 256 \<le> y then Inl (EPanic ''FillBytes'')
         else Inr (\<lparr>Y_kid = i, Y_private = priv, Y_public = pub\<rparr>, jwk_of i (x, y))))"

definition JWK :: "keylib \<Rightarrow> string \<Rightarrow> string \<Rightarrow> jv res" where
  "JWK L i pub = (case build_key L i [] pub of Inl e \<Rightarrow> Inl e | Inr (_, j) \<Rightarrow> Inr j)"

definition randHex :: "nat \<Rightarrow> string \<Rightarrow> string" where
  "randHex n b = hex (take n b)"

definition new_key_row :: "string \<Rightarrow> string \<Rightarrow> string \<Rightarrow> int \<Rightarrow> key_row" where
  "new_key_row i enc pub now = \<lparr>k_public = pub, k_active = True, k_created = now, k_retired = None, k_kid = i, k_private = enc\<rparr>"

definition active_key :: "tables \<Rightarrow> key_row option" where
  "active_key d = (case sort_key (\<lambda>k. - k_created k) (filter k_active (signing_keys d)) of [] \<Rightarrow> None | k # _ \<Rightarrow> Some k)"

text \<open>The draws: the pair, the nonce of the encryption, the identifier.\<close>

definition ensureSigningKey :: "keylib \<Rightarrow> 'k sys \<Rightarrow> string \<Rightarrow> ctl \<Rightarrow> signing_key res \<times> ctl" where
  "ensureSigningKey L E master s =
    (if \<not> S_ok E 0 then (Inl EDb, s)
     else case active_key (db s) of
        Some k \<Rightarrow> (case decrypt L master (k_private k) of
            Inl e \<Rightarrow> (Inl e, s)
          | Inr priv \<Rightarrow> (case build_key L (k_kid k) priv (k_public k) of Inl e \<Rightarrow> (Inl e, s) | Inr (y, _) \<Rightarrow> (Inr y, s)))
      | None \<Rightarrow> (case K_pair L (S_rand E 0) of
            None \<Rightarrow> (Inl (EInvalid ''key''), s)
          | Some (priv, pub) \<Rightarrow>
             (let i = K_month L @ ''-'' @ randHex 3 (S_rand E 1) in
              case encrypt L master (take 12 (S_rand E 2)) priv of
                Inl e \<Rightarrow> (Inl e, s)
              | Inr enc \<Rightarrow>
                 (if \<not> S_ok E 1 then (Inl EDb, s)
                  else if i \<in> k_kid ` set (signing_keys (db s)) then (Inl unique_violation, s)
                  else let s1 = set_db (\<lambda>d. d\<lparr>signing_keys := signing_keys d @ [new_key_row i enc pub (S_now E)]\<rparr>) s
                       in case build_key L i priv pub of Inl e \<Rightarrow> (Inl e, s1) | Inr (y, _) \<Rightarrow> (Inr y, s1)))))"

text \<open>The two statements of the rotation are one transaction: the begin, the update, the insertion and the
  commit must all reach Postgres.\<close>

definition retire :: "int \<Rightarrow> key_row list \<Rightarrow> key_row list" where
  "retire now = update_where k_active (\<lambda>k. k\<lparr>k_active := False, k_retired := Some now\<rparr>)"

definition RotateSigningKey :: "keylib \<Rightarrow> 'k sys \<Rightarrow> string \<Rightarrow> ctl \<Rightarrow> signing_key res \<times> ctl" where
  "RotateSigningKey L E master s =
    (case K_pair L (S_rand E 0) of None \<Rightarrow> (Inl (EInvalid ''key''), s)
     | Some (priv, pub) \<Rightarrow>
        (let i = K_month L @ ''-'' @ randHex 3 (S_rand E 1) in
         case encrypt L master (take 12 (S_rand E 2)) priv of Inl e \<Rightarrow> (Inl e, s)
         | Inr enc \<Rightarrow>
            (if \<not> S_ok E 0 \<or> \<not> S_ok E 1 \<or> \<not> S_ok E 2 then (Inl EDb, s)
             else if i \<in> k_kid ` set (signing_keys (db s)) then (Inl unique_violation, s)
             else if \<not> S_ok E 3 then (Inl EDb, s)
             else let s1 = set_db (\<lambda>d. d\<lparr>signing_keys := retire (S_now E) (signing_keys d) @ [new_key_row i enc pub (S_now E)]\<rparr>) s
                  in case build_key L i priv pub of Inl e \<Rightarrow> (Inl e, s1) | Inr (y, _) \<Rightarrow> (Inr y, s1))))"

section \<open>The first start\<close>

definition HashPassword :: "keylib \<Rightarrow> string \<Rightarrow> string \<Rightarrow> string" where
  "HashPassword L salt password = ''$argon2id$v=19$m=65536,t=3,p=2$'' @ K_std L salt @ ''$'' @ K_std L (K_argon L salt password)"

text \<open>The file is written before the row; it is removed when the row is refused. Here it holds the secret
  only, its other lines are left out.\<close>

definition ensureAdmin :: "keylib \<Rightarrow> 'k sys \<Rightarrow> ctl \<Rightarrow> disk \<Rightarrow> unit res \<times> ctl \<times> disk" where
  "ensureAdmin L E s d =
    (if \<not> S_ok E 0 then (Inl EDb, s, d)
     else if users s \<noteq> [] then (Inr (), s, d)
     else let password = randHex 12 (S_rand E 3); f = ''initial-admin-password.txt'' in
       if \<not> K_mkdir L then (Inl (EInvalid ''mkdir''), s, d)
       else if \<not> K_write L f then (Inl (EInvalid ''write''), s, d)
       else let d1 = AList.update f password d in
         if \<not> S_ok E 1 then (Inl EDb, s, AList.delete f d1)
         else (Inr (), s\<lparr>users := [\<lparr>u_id = S_id E 0, u_email = ''admin@localhost'', u_hash = Some (HashPassword L (take 16 (S_rand E 4)) password),
                u_oidc = None, u_secret = None, u_admin = True, u_created = S_now E, u_login = None, u_must = False, u_name = [], u_totp = False\<rparr>]\<rparr>, d1))"

definition ensurePlatformKey :: "'k sys \<Rightarrow> keylib \<Rightarrow> ctl \<Rightarrow> disk \<Rightarrow> unit res \<times> ctl \<times> disk" where
  "ensurePlatformKey E L s d =
    (if \<not> S_ok E 0 then (Inl EDb, s, d)
     else if \<exists>k \<in> set (api_keys s). a_tenant k = None then (Inr (), s, d)
     else let key = ''flyc_'' @ randHex 20 (S_rand E 5); f = ''initial-platform-api-key.txt'' in
       if \<not> K_write L f then (Inl (EInvalid ''write''), s, d)
       else let d1 = AList.update f key d in
         if \<not> S_ok E 1 then (Inl EDb, s, AList.delete f d1)
         else if hex (S_sha E key) \<in> a_hash ` set (api_keys s) then (Inl unique_violation, s, AList.delete f d1)
         else (Inr (), s\<lparr>api_keys := api_keys s @ [\<lparr>a_id = S_id E 1, a_tenant = None, a_name = ''initial-platform'',
                a_hash = hex (S_sha E key), a_created = S_now E, a_used = None\<rparr>]\<rparr>, d1))"

definition Run_bootstrap :: "keylib \<Rightarrow> 'k sys \<Rightarrow> string \<Rightarrow> ctl \<Rightarrow> disk \<Rightarrow> signing_key res \<times> ctl \<times> disk" where
  "Run_bootstrap L E masterB64 s d = (case K_b64 L masterB64 of None \<Rightarrow> (Inl (EInvalid ''master''), s, d)
     | Some master \<Rightarrow>
      (if length master \<noteq> 32 then (Inl (EInvalid ''master''), s, d)
       else case ensureSigningKey L E master s of (Inl e, s1) \<Rightarrow> (Inl e, s1, d)
        | (Inr y, s1) \<Rightarrow> (case ensureAdmin L (skip 2 E) s1 d of (Inl e, s2, d2) \<Rightarrow> (Inl e, s2, d2)
           | (Inr _, s2, d2) \<Rightarrow> (case ensurePlatformKey (skip 4 E) L s2 d2 of (Inl e, s3, d3) \<Rightarrow> (Inl e, s3, d3)
              | (Inr _, s3, d3) \<Rightarrow> (Inr y, s3, d3)))))"

end
