(* ===== verification/Platform_Api.thy ===== *)
theory Platform_Api
  imports Control_Auth Bootstrap_Model
begin

text \<open>
  The routes of the platform: the tenants, their keys, the load balancers and the queue hosts
  (control/internal/api/api.go), the nodes and the settings (inventory.go), the jobs (jobs.go). The
  decoded body of a request is an argument, \<open>None\<close> when it is not JSON of the expected type.
\<close>

section \<open>Tenants and keys\<close>

definition insert_key :: "bool \<Rightarrow> 'k sys \<Rightarrow> nat \<Rightarrow> nat \<Rightarrow> string \<Rightarrow> string \<Rightarrow> ctl \<Rightarrow> unit res \<times> ctl" where
  "insert_key ok E fresh t name h s =
    (if \<not> ok then (Inl EDb, s)
     else if h \<in> a_hash ` set (api_keys s) then (Inl unique_violation, s)
     else if t \<notin> t_id ` set (tenants (db s)) then (Inl foreign_key_violation, s)
     else (Inr (), s\<lparr>api_keys := api_keys s @ [\<lparr>a_id = fresh, a_tenant = Some t, a_name = name, a_hash = h,
             a_created = S_now E, a_used = None\<rparr>]\<rparr>))"

text \<open>The constraint of the table wants a slug of two characters.\<close>

definition insert_tenant :: "bool \<Rightarrow> 'k sys \<Rightarrow> nat \<Rightarrow> string \<Rightarrow> string \<Rightarrow> ctl \<Rightarrow> nat res \<times> ctl" where
  "insert_tenant ok E fresh slug name s =
    (if \<not> ok then (Inl EDb, s)
     else if \<not> slugRe slug \<or> length slug < 2 then (Inl check_violation, s)
     else if slug \<in> t_slug ` set (tenants (db s)) then (Inl unique_violation, s)
     else (Inr fresh, set_db (\<lambda>d. d\<lparr>tenants := tenants d @ [\<lparr>t_id = fresh, t_slug = slug, t_name = name, t_created = S_now E\<rparr>]\<rparr>) s))"

definition createTenant :: "(string \<times> string) option \<Rightarrow> 'k handler" where
  "createTenant i E rq p = decode i (\<lambda>(slug, nm) s.
    (if \<not> slugRe slug then (HErr 400 ''invalid'', s)
     else let name = (if nm = [] then slug else nm) in
       case insert_tenant (S_ok E 0) E (S_id E 0) slug name s of (Inl e, s1) \<Rightarrow> (dbErr e, s1)
       | (Inr t, s1) \<Rightarrow>
          (let key = NewKey (S_rand E 0) in
           case insert_key (S_ok E 1) E (S_id E 1) t ''initial'' (HashKey (S_sha E) key) s1 of (Inl e, s2) \<Rightarrow> (dbErr e, s2)
           | (Inr _, s2) \<Rightarrow>
              (JSON 201 (JObj [(''id'', JStr (S_utext E t)), (''slug'', JStr slug), (''name'', JStr name), (''api_key'', JStr key)]),
               audit (S_ok E 2) p ''tenant.create'' (JObj [(''slug'', JStr slug), (''name'', JStr name)]) s2))))"

definition listTenants :: "('k::linorder) handler" where
  "listTenants E rq p s = (if \<not> S_ok E 0 then (dbErr EDb, s)
     else (JSON 200 (JArr (map (\<lambda>t. JObj [(''slug'', JStr (t_slug t)), (''name'', JStr (t_name t)), (''created_at'', JInt (t_created t)),
        (''rooms'', JInt (int (length (filter (\<lambda>r. r_tenant r = t_id t) (rooms_t (db s)))))),
        (''domains'', JInt (int (length (filter (\<lambda>x. d_tenant x = t_id t) (domains (db s))))))])
        (sort_key (\<lambda>t. S_coll E (t_slug t)) (tenants (db s))))), s))"

definition key_name :: "'k sys \<Rightarrow> string \<Rightarrow> string" where
  "key_name E nm = (if nm = [] then ''key-'' @ S_stamp E else nm)"

text \<open>A body that does not decode leaves the name empty.\<close>

definition createTenantKey :: "string \<Rightarrow> 'k handler" where
  "createTenantKey nm E rq p s =
    (let name = key_name E nm; slug = Rpath rq ''slug'' in
     if \<not> S_ok E 0 then (dbErr EDb, s)
     else case find_tenant slug s of None \<Rightarrow> (dbErr no_rows, s)
      | Some t \<Rightarrow>
         (let key = NewKey (S_rand E 0) in
          case insert_key (S_ok E 1) E (S_id E 0) (t_id t) name (HashKey (S_sha E) key) s of (Inl e, s1) \<Rightarrow> (dbErr e, s1)
          | (Inr _, s1) \<Rightarrow> (JSON 201 (JObj [(''name'', JStr name), (''api_key'', JStr key)]),
              audit (S_ok E 2) p ''apikey.create'' (JObj [(''tenant'', JStr slug), (''name'', JStr name)]) s1)))"

section \<open>Load balancers and queue hosts\<close>

definition listEdges :: "('k::linorder) handler" where
  "listEdges E rq p s = (if \<not> S_ok E 0 then (dbErr EDb, s)
     else (JSON 200 (JArr (map (\<lambda>g.
        (let x = find (\<lambda>r. e_name r = g_name g) (edge_rows (cpg s));
             cfg = (case x of None \<Rightarrow> [] | Some r \<Rightarrow> (case e_config r of None \<Rightarrow> [] | Some h \<Rightarrow> h));
             des = (case x of None \<Rightarrow> [] | Some r \<Rightarrow> (case e_desired r of None \<Rightarrow> [] | Some h \<Rightarrow> h))
         in JObj [(''name'', JStr (g_name g)), (''dataplane_url'', JStr (g_url g)),
              (''last_push_status'', JStr (case x of None \<Rightarrow> [] | Some r \<Rightarrow> (case e_status r of None \<Rightarrow> [] | Some t \<Rightarrow> t))),
              (''in_sync'', JBool (cfg \<noteq> [] \<and> cfg = des))]))
        (sort_key (\<lambda>g. S_coll E (g_name g)) (edge_urls (cinv s))))), s))"

definition deleteEdge :: "'k handler" where
  "deleteEdge E rq p s =
    (let name = Rpath rq ''name'' in
     if name \<in> set (EdgeNames (rec s)) then (HErr 409 ''still_configured'', s)
     else if \<not> S_ok E 0 then (dbErr EDb, s)
     else if name \<notin> g_name ` set (edge_urls (cinv s)) then (HErr 404 ''not_found'', s)
     else (JSON 200 (JObj [(''deleted'', JStr name)]),
       audit (S_ok E 1) p ''edge.delete'' (JObj [(''name'', JStr name)])
         (s\<lparr>cinv := (cinv s)\<lparr>edge_urls := filter (\<lambda>g. g_name g \<noteq> name) (edge_urls (cinv s))\<rparr>,
             cpg := (cpg s)\<lparr>edge_rows := filter (\<lambda>r. e_name r \<noteq> name) (edge_rows (cpg s))\<rparr>\<rparr>)))"

definition deleteQueueHost :: "'k handler" where
  "deleteQueueHost E rq p s =
    (let name = Rpath rq ''name'' in
     if \<not> S_ok E 0 then (dbErr EDb, s)
     else case find (\<lambda>h. h_name h = name) (queue_hosts (cinv s)) of None \<Rightarrow> (HErr 404 ''not_found'', s)
      | Some h \<Rightarrow>
         (if ''http://'' @ h_address h @ '':'' @ show_int (h_port h) \<in> set (Hosts (queue_c (rec s))) then (HErr 409 ''still_configured'', s)
          else if \<not> S_ok E 1 then (dbErr EDb, s)
          else (JSON 200 (JObj [(''deleted'', JStr name)]),
             audit (S_ok E 2) p ''queuehost.delete'' (JObj [(''name'', JStr name)])
               (s\<lparr>cinv := (cinv s)\<lparr>queue_hosts := filter (\<lambda>h. h_name h \<noteq> name) (queue_hosts (cinv s))\<rparr>\<rparr>))))"

section \<open>Keys of the passes\<close>

definition jwks :: "keylib \<Rightarrow> 'k sys \<Rightarrow> ctl \<Rightarrow> jv" where
  "jwks L E s = JObj [(''keys'', JArr (if \<not> S_ok E 0 then []
     else List.map_filter (\<lambda>k. case JWK L (k_kid k) (k_public k) of Inl _ \<Rightarrow> None | Inr j \<Rightarrow> Some j)
       (sort_key (\<lambda>k. \<not> k_active k) (sort_key (\<lambda>k. - k_created k)
         (filter (\<lambda>k. k_active k \<or> (case k_retired k of None \<Rightarrow> False | Some t \<Rightarrow> S_now E - 24 * 3600 < t)) (signing_keys (db s)))))))]"

definition pass_pem :: "ctl \<Rightarrow> resp" where
  "pass_pem s = \<lparr>code = 200, cookies = [], headers = [(''Content-Type'', ''application/x-pem-file''), (''X-Flyc-Kid'', Y_kid (signing s))],
     body = Raw (Y_public (signing s))\<rparr>"

definition signing_key_route :: "string \<Rightarrow> request \<Rightarrow> ctl \<Rightarrow> resp" where
  "signing_key_route internal rq s = (if Rhdr rq ''Authorization'' \<noteq> ''Bearer '' @ internal then HErr 401 ''unauthorized''
     else JSON 200 (JObj [(''kid'', JStr (Y_kid (signing s))), (''private_pem'', JStr (Y_private (signing s))),
            (''public_pem'', JStr (Y_public (signing s)))]))"

definition SetSigning :: "signing_key \<Rightarrow> ctl \<Rightarrow> ctl" where
  "SetSigning y s = s\<lparr>signing := y\<rparr>"

definition rotateSigningKey :: "keylib \<Rightarrow> string \<Rightarrow> 'k handler" where
  "rotateSigningKey L master E rq p s = (case RotateSigningKey L E master s of
     (Inl e, s1) \<Rightarrow> (HErr 500 ''rotate'', s1)
   | (Inr y, s1) \<Rightarrow>
      (let s2 = SetSigning y (audit (S_ok E 4) p ''keys.rotate'' (JObj [(''kid'', JStr (Y_kid y))]) s1)
       in (JSON 200 (JObj [(''kid'', JStr (Y_kid y)), (''status'', JStr ''rotated'')]), s2\<lparr>rec := Kick (rec s2)\<rparr>)))"

definition listSigningKeys :: "'k handler" where
  "listSigningKeys E rq p s = (if \<not> S_ok E 0 then (dbErr EDb, s)
     else (JSON 200 (JArr (map (\<lambda>k. JObj [(''kid'', JStr (k_kid k)), (''active'', JBool (k_active k)), (''created_at'', JInt (k_created k)),
        (''retired_at'', jopt JInt (k_retired k)),
        (''accepted'', JBool (k_active k \<or> (case k_retired k of None \<Rightarrow> False | Some t \<Rightarrow> S_now E - t < 24 * 3600)))])
        (sort_key (\<lambda>k. - k_created k) (signing_keys (db s))))), s))"

section \<open>Nodes and settings\<close>

definition porte :: "string list \<Rightarrow> string \<Rightarrow> bool" where
  "porte roles r = list_ex (\<lambda>x. x = r) roles"

definition name_char :: "char \<Rightarrow> bool" where
  "name_char c \<longleftrightarrow> slug_char c \<or> c = CHR ''.'' \<or> c = CHR ''_'' \<or> c = CHR ''-''"

text \<open>The regular expression \<open>^[a-z0-9][a-z0-9._-]{0,62}$\<close>.\<close>

definition nomNode :: "string \<Rightarrow> bool" where
  "nomNode s = (case s of [] \<Rightarrow> False | c # cs \<Rightarrow> slug_char c \<and> list_all name_char cs \<and> length cs \<le> 62)"

text \<open>\<open>ip\<close> is \<open>net.ParseIP\<close>: whether the text is an address of IPv4 (\<open>To4\<close> is not nil).\<close>

fun roles_ok :: "string list \<Rightarrow> string list \<Rightarrow> bool" where
  "roles_ok vus [] = True"
| "roles_ok vus (r # rs) = (r \<in> {RoleEdge, RoleQueue, RoleData} \<and> r \<notin> set vus \<and> roles_ok (r # vus) rs)"

definition valideNode :: "(string \<Rightarrow> bool option) \<Rightarrow> Node \<Rightarrow> bool" where
  "valideNode ip n \<longleftrightarrow> nomNode (NName n) \<and> Roles n \<noteq> [] \<and> roles_ok [] (Roles n) \<and> ip (MgmtIP n) \<noteq> None \<and>
     (MgmtIP6 n \<noteq> [] \<longrightarrow> ip (MgmtIP6 n) = Some False)"

definition node_json :: "Node \<Rightarrow> jv" where
  "node_json n = JObj ([(''name'', JStr (NName n)), (''roles'', JArr (map JStr (Roles n))), (''mgmt_ip'', JStr (MgmtIP n))] @
     str_field ''mgmt_ip6'' (MgmtIP6 n) @ [(''state'', JStr (NState n))] @ str_field ''note'' (Note n) @ opt_field ''enrolled_at'' (EnrolledAt n))"

definition listNodes :: "('k::linorder) handler" where
  "listNodes E rq p s = (case LoadNodes (S_coll E) (S_ok E 0) (cinv s) of Inl e \<Rightarrow> (dbErr e, s)
     | Inr ns \<Rightarrow> (JSON 200 (JArr (map node_json ns)), s))"

definition kick_rec :: "ctl \<Rightarrow> ctl" where
  "kick_rec s = s\<lparr>rec := Kick (rec s)\<rparr>"

text \<open>A count that fails leaves 0 and lets a second data host through.\<close>

definition createNode :: "(string \<Rightarrow> bool option) \<Rightarrow> Node option \<Rightarrow> 'k handler" where
  "createNode ip i E rq p = decode i (\<lambda>n s.
    (if \<not> valideNode ip n then (HErr 400 ''invalid'', s)
     else if porte (Roles n) RoleData \<and> S_ok E 0 \<and> 0 < length (filter (\<lambda>m. RoleData \<in> set (Roles m)) (nodes (cinv s)))
     then (HErr 409 ''conflict'', s)
     else let n1 = (if NState n = [] then n\<lparr>NState := ''planned''\<rparr> else n) in
       case SaveNode (S_ok E 1) n1 (cinv s) of
         (Inl e, v) \<Rightarrow> (dbErr e, s\<lparr>cinv := v\<rparr>)
       | (Inr n2, v) \<Rightarrow> (JSON 201 (node_json n2), kick_rec (audit (S_ok E 2) p ''node.create'' (node_json n2) (s\<lparr>cinv := v\<rparr>)))))"

record nodePatch =
  PMgmtIP :: "string option"
  PMgmtIP6 :: "string option"
  PState :: "string option"
  PNote :: "string option"

definition patched :: "nodePatch \<Rightarrow> Node \<Rightarrow> Node" where
  "patched i n = n\<lparr>MgmtIP := (case PMgmtIP i of None \<Rightarrow> MgmtIP n | Some x \<Rightarrow> x),
     MgmtIP6 := (case PMgmtIP6 i of None \<Rightarrow> MgmtIP6 n | Some x \<Rightarrow> x),
     NState := (case PState i of None \<Rightarrow> NState n | Some x \<Rightarrow> x), Note := (case PNote i of None \<Rightarrow> Note n | Some x \<Rightarrow> x)\<rparr>"

definition patchNode :: "(string \<Rightarrow> bool option) \<Rightarrow> nodePatch option \<Rightarrow> ('k::linorder) handler" where
  "patchNode ip i E rq p s = (case LoadNodes (S_coll E) (S_ok E 0) (cinv s) of Inl e \<Rightarrow> (dbErr e, s)
     | Inr ns \<Rightarrow> (case filter (\<lambda>n. NName n = Rpath rq ''name'') ns of
         [] \<Rightarrow> (HErr 404 ''not_found'', s)
       | cs \<Rightarrow> decode i (\<lambda>x s.
           (let n = patched x (List.last cs) in
            if \<not> valideNode ip n then (HErr 400 ''invalid'', s)
            else case SaveNode (S_ok E 1) n (cinv s) of
               (Inl e, v) \<Rightarrow> (dbErr e, s\<lparr>cinv := v\<rparr>)
             | (Inr n2, v) \<Rightarrow> (JSON 200 (node_json n2), kick_rec (audit (S_ok E 2) p ''node.update'' (node_json n2) (s\<lparr>cinv := v\<rparr>))))) s))"

definition deleteNode :: "'k handler" where
  "deleteNode E rq p s =
    (let name = Rpath rq ''name'' in
     if \<not> S_ok E 0 then (dbErr EDb, s)
     else case find (\<lambda>n. NName n = name) (nodes (cinv s)) of None \<Rightarrow> (dbErr no_rows, s)
      | Some n \<Rightarrow>
         (if porte (Roles n) RoleData then (HErr 409 ''still_configured'', s)
          else if NState n = ''ready'' then (HErr 409 ''still_configured'', s)
          else if \<not> S_ok E 1 then (dbErr EDb, s)
          else (NoContent, kick_rec (audit (S_ok E 2) p ''node.delete'' (JObj [(''name'', JStr name), (''roles'', JArr (map JStr (Roles n)))])
                 (s\<lparr>cinv := (cinv s)\<lparr>nodes := filter (\<lambda>m. NName m \<noteq> name) (nodes (cinv s))\<rparr>\<rparr>)))))"

text \<open>The body is decoded over the current settings: \<open>i\<close> says what that gives.\<close>

definition putSettings :: "(Settings \<Rightarrow> Settings option) \<Rightarrow> (Settings \<Rightarrow> jv) \<Rightarrow> 'k handler" where
  "putSettings i js E rq p s = (case LoadSettings (S_ok E 0) (cinv s) of Inl e \<Rightarrow> (dbErr e, s)
     | Inr cur \<Rightarrow> decode (i cur) (\<lambda>st s. (case SaveSettings (S_ok E 1) st False (cinv s) of
          (Inl e, v) \<Rightarrow> (dbErr e, s\<lparr>cinv := v\<rparr>)
        | (Inr st1, v) \<Rightarrow> (JSON 200 (js st1), kick_rec (audit (S_ok E 2) p ''settings.update'' (js st1) (s\<lparr>cinv := v\<rparr>))))) s)"

definition getSettings :: "(Settings \<Rightarrow> jv) \<Rightarrow> 'k handler" where
  "getSettings js E rq p s = (case LoadSettings (S_ok E 0) (cinv s) of Inl e \<Rightarrow> (dbErr e, s) | Inr st \<Rightarrow> (JSON 200 (js st), s))"

definition gen_err :: "err \<Rightarrow> resp" where
  "gen_err e = (if e = incomplete then HErr 409 ''incomplete'' else dbErr e)"

definition getInventory :: "(rat \<Rightarrow> string) \<Rightarrow> string \<Rightarrow> ('k::linorder) handler" where
  "getInventory ff head E rq p s = (case Generate (S_uni E) ff head (S_coll E) (S_ok E) (cinv s) of
     Inl e \<Rightarrow> (gen_err e, s)
   | Inr y \<Rightarrow> (\<lparr>code = 200, cookies = [], headers = [(''Content-Type'', ''text/yaml; charset=utf-8'')], body = Raw y\<rparr>, s))"

section \<open>Jobs\<close>

definition actor :: "'k sys \<Rightarrow> principal \<Rightarrow> string" where
  "actor E p = (case user p of Some u \<Rightarrow> Email u
     | None \<Rightarrow> (case keyID p of Some k \<Rightarrow> ''cl'' @ ea @ '' '' @ S_utext E k | None \<Rightarrow> ''inconnu''))"

text \<open>\<open>jm\<close> says whether a runner is configured, \<open>json\<close> prints a request for it.\<close>

definition createJob :: "bool \<Rightarrow> (rat \<Rightarrow> string) \<Rightarrow> string \<Rightarrow> (Request \<Rightarrow> string) \<Rightarrow> io \<Rightarrow> string \<Rightarrow> (Job \<Rightarrow> jv) \<Rightarrow> (string \<times> Request) option \<Rightarrow>
    ('k::linorder) handler" where
  "createJob jm ff head json io fresh jj i E rq p s =
    (if \<not> jm then (HErr 503 ''no_runner'', s)
     else decode i (\<lambda>(kind, req) s.
       (if kind = [] then (HErr 400 ''invalid'', s)
        else case (if Inventory req = [] then map_sum id (\<lambda>y. req\<lparr>Inventory := y\<rparr>) (Generate (S_uni E) ff head (S_coll E) (S_ok E) (cinv s))
                   else Inr req) of
           Inl e \<Rightarrow> (gen_err e, s)
         | Inr req1 \<Rightarrow>
            (case Submit json io (\<lambda>k. S_ok E (2 + k)) fresh (S_now E) kind req1 (actor E p) (cjobs s) of
               (Inl e, v) \<Rightarrow> ((if e = ErrBusy then HErr 409 ''busy'' else HErr 500 ''job''), s\<lparr>cjobs := v\<rparr>)
             | (Inr j, v) \<Rightarrow> (JSON 201 (jj j), audit (S_ok E 4) p ''job.create'' (JObj [(''id'', JStr (JID j)), (''kind'', JStr kind)]) (s\<lparr>cjobs := v\<rparr>))))) s)"

definition listJobs :: "bool \<Rightarrow> int \<Rightarrow> (Job \<Rightarrow> jv) \<Rightarrow> 'k handler" where
  "listJobs jm limit jj E rq p s = (if \<not> jm then (JSON 200 (JArr []), s)
     else case List_jobs (S_ok E 0) limit (cjobs s) of Inl e \<Rightarrow> (dbErr e, s) | Inr js \<Rightarrow> (JSON 200 (JArr (map jj js)), s))"

definition getJob :: "bool \<Rightarrow> (Job \<Rightarrow> jv) \<Rightarrow> 'k handler" where
  "getJob jm jj E rq p s = (if \<not> jm then (HErr 404 ''not_found'', s)
     else case Get (S_ok E 0) (Rpath rq ''id'') (cjobs s) of
        Inl e \<Rightarrow> ((if e = no_rows then HErr 404 ''not_found'' else dbErr e), s)
      | Inr j \<Rightarrow> (JSON 200 (jj j), s))"

text \<open>The log of a job as events: one per complete line, then the end. \<open>xs\<close> is what the turns of \<open>Tail\<close>
  see; the client that left receives nothing more.\<close>

definition jobLog :: "bool \<Rightarrow> seen list \<Rightarrow> 'k handler" where
  "jobLog jm xs E rq p s =
    (if \<not> jm then (HErr 404 ''not_found'', s)
     else case Get (S_ok E 0) (Rpath rq ''id'') (cjobs s) of Inl e \<Rightarrow> (HErr 404 ''not_found'', s)
      | Inr j \<Rightarrow> (\<lparr>code = 200, cookies = [], headers = [(''Content-Type'', ''text/event-stream''), (''Cache-Control'', ''no-store''),
             (''X-Accel-Buffering'', ''no'')],
           body = Events (map (\<lambda>l. (''data'', JStr l)) (fst (sse_all [] (snd (Tail xs 0 [])))) @ [(''end'', JObj [])])\<rparr>, s))"

end
