(* ===== verification/Totp.thy ===== *)
theory Totp
  imports Flyc_Prelude
begin

text \<open>
  control/internal/auth/totp.go: the codes of six digits. The library (otp, otp/totp) and the encoder of PNG images are
  arguments: a key is what \<open>Secret\<close> and \<open>URL\<close> say of it, or the text that it was read from.
\<close>

record otp_lib =
  T_generate :: "string \<Rightarrow> string \<Rightarrow> (string \<times> string) option"
  T_validate :: "string \<Rightarrow> string \<Rightarrow> bool"
  T_key :: "string \<Rightarrow> string option"
  T_image :: "string \<Rightarrow> nat \<Rightarrow> nat \<Rightarrow> string option"
  T_png :: "string \<Rightarrow> string option"

definition TOTPGenerate :: "otp_lib \<Rightarrow> string \<Rightarrow> string \<Rightarrow> (string \<times> string) option" where
  "TOTPGenerate T issuer account = (case T_generate T issuer account of None \<Rightarrow> None | Some (secret, url) \<Rightarrow> Some (secret, url))"

text \<open>The library takes the code first.\<close>

definition TOTPValidate :: "otp_lib \<Rightarrow> string \<Rightarrow> string \<Rightarrow> bool" where
  "TOTPValidate T secret cd = T_validate T cd secret"

definition TOTPQRPNG :: "otp_lib \<Rightarrow> string \<Rightarrow> string option" where
  "TOTPQRPNG T url = (case T_key T url of None \<Rightarrow> None
     | Some k \<Rightarrow> (case T_image T k 220 220 of None \<Rightarrow> None
        | Some img \<Rightarrow> (case T_png T img of None \<Rightarrow> None | Some b \<Rightarrow> Some b)))"

end
