(* ===== verification/Account_Api.thy ===== *)
theory Account_Api
  imports Platform_Api Totp
begin

text \<open>
  The accounts: control/internal/auth (passwords, TOTP, OIDC) and the routes of
  control/internal/api/session.go (the two ways to connect, the account, the users, the members, the keys
  of a tenant). argon2, the scanner of the parameters, the library of TOTP and the verified ID token of the
  OIDC provider are arguments. \<open>lower\<close> of Postgres is the folding of Go.
\<close>

section \<open>Passwords\<close>

definition std_char :: "char \<Rightarrow> char" where
  "std_char c = (if c = CHR ''-'' then CHR ''+'' else if c = CHR ''_'' then CHR ''/'' else c)"

definition url_char :: "char \<Rightarrow> char" where
  "url_char c = (if c = CHR ''+'' then CHR ''-'' else if c = CHR ''/'' then CHR ''_'' else c)"

text \<open>\<open>RawStdEncoding\<close>: the other alphabet of base64.\<close>

definition std64 :: "string \<Rightarrow> string" where
  "std64 s = map std_char (b64 s)"

definition DecodeStd :: "string \<Rightarrow> string option" where
  "DecodeStd s = (if CHR ''-'' \<in> set s \<or> CHR ''_'' \<in> set s then None else DecodeString (map url_char s))"

record authlib =
  A_argon :: "string \<Rightarrow> string \<Rightarrow> nat \<Rightarrow> nat \<Rightarrow> nat \<Rightarrow> nat \<Rightarrow> string"
  A_scan :: "string \<Rightarrow> (nat \<times> nat \<times> nat) option"
  A_otp :: otp_lib

text \<open>Memory, rounds and threads of the new hashes.\<close>

definition Hash_Password :: "authlib \<Rightarrow> string \<Rightarrow> string \<Rightarrow> string" where
  "Hash_Password A salt pw = ''$argon2id$v=19$m=65536,t=3,p=2$'' @ std64 salt @ ''$'' @ std64 (A_argon A pw salt 3 65536 2 32)"

text \<open>The library panics without a round or without a thread.\<close>

definition VerifyPassword :: "authlib \<Rightarrow> string \<Rightarrow> string \<Rightarrow> bool res" where
  "VerifyPassword A h pw = (case split_on (CHR ''$'') h of
     [_, alg, _, par, sa, ke] \<Rightarrow>
       (if alg \<noteq> ''argon2id'' then Inr False
        else case A_scan A par of None \<Rightarrow> Inr False
         | Some (m, t, p) \<Rightarrow> (case DecodeStd sa of None \<Rightarrow> Inr False
           | Some salt \<Rightarrow> (case DecodeStd ke of None \<Rightarrow> Inr False
             | Some want \<Rightarrow> (if t = 0 \<or> p = 0 then Inl (EPanic ''argon2'')
                 else Inr (A_argon A pw salt t m p (length want) = want)))))
   | _ \<Rightarrow> Inr False)"

text \<open>Only \<open>Hash_Password\<close> writes the stored hashes, so the panic is not met; here it counts as a refusal.\<close>

definition good_password :: "authlib \<Rightarrow> string \<Rightarrow> string \<Rightarrow> bool" where
  "good_password A h pw \<longleftrightarrow> VerifyPassword A h pw = Inr True"

definition CheckPasswordPolicy :: "string \<Rightarrow> bool" where
  "CheckPasswordPolicy pw \<longleftrightarrow> 12 \<le> length pw \<and> length pw \<le> 200"

section \<open>OIDC\<close>

record id_token =
  I_subject :: string
  I_nonce :: string
  I_email :: string
  I_verified :: bool
  I_name :: string
  I_preferred :: string

record OIDC =
  O_enabled :: bool
  O_admins :: "string list"
  O_auth :: "string \<Rightarrow> string \<Rightarrow> string"
  O_token :: "string \<Rightarrow> id_token option"

record Oidc_claims =
  OSubject :: string
  OEmail :: string
  OName :: string

definition admin_emails :: "(string \<Rightarrow> string) \<Rightarrow> string \<Rightarrow> string list" where
  "admin_emails u s = filter (\<lambda>e. e \<noteq> []) (map (\<lambda>e. to_lower u (trim_space u e)) (split_on (CHR '','') s))"

definition Exchange :: "(string \<Rightarrow> string) \<Rightarrow> OIDC \<Rightarrow> string \<Rightarrow> string \<Rightarrow> Oidc_claims res" where
  "Exchange u O' cd nonce = (case O_token O' cd of None \<Rightarrow> Inl (EInvalid ''exchange'')
     | Some t \<Rightarrow> (if I_nonce t \<noteq> nonce then Inl (EInvalid ''nonce'')
         else if I_email t = [] then Inl (EInvalid ''email'')
         else Inr \<lparr>OSubject = I_subject t, OEmail = to_lower u (I_email t), OName = (if I_name t = [] then I_preferred t else I_name t)\<rparr>))"

section \<open>Connecting\<close>

definition user_by_email :: "(string \<Rightarrow> string) \<Rightarrow> string \<Rightarrow> ctl \<Rightarrow> user_row option" where
  "user_by_email u e s = find (\<lambda>x. to_lower u (u_email x) = e) (users s)"

definition hash_of :: "user_row \<Rightarrow> string" where
  "hash_of x = (case u_hash x of None \<Rightarrow> [] | Some h \<Rightarrow> h)"

definition with_cookie :: "string \<Rightarrow> resp \<Rightarrow> resp" where
  "with_cookie tok r = r\<lparr>cookies := [(CookieName, tok)]\<rparr>"

definition bad_credentials :: resp where
  "bad_credentials = HErr 401 ''bad_credentials''"

definition login :: "authlib \<Rightarrow> keylib \<Rightarrow> string \<Rightarrow> (string \<times> string \<times> string) option \<Rightarrow> 'k sys \<Rightarrow> request \<Rightarrow> ctl \<Rightarrow> resp \<times> ctl" where
  "login A L master i E rq = decode i (\<lambda>(em0, pw, otp) s.
    (let em = to_lower (S_uni E) (trim_space (S_uni E) em0) in
     case (if S_ok E 0 then user_by_email (S_uni E) em s else None) of
       None \<Rightarrow> (bad_credentials, s)
     | Some x \<Rightarrow>
        (if hash_of x = [] then (bad_credentials, s)
         else if \<not> good_password A (hash_of x) pw then (bad_credentials, s)
         else if u_totp x \<and> otp = [] then (JSON 428 (JObj [(''error'', JStr ''totp_required'')]), s)
         else if u_totp x \<and> (case Unseal L master (case u_secret x of None \<Rightarrow> [] | Some c \<Rightarrow> c) of Inl _ \<Rightarrow> True
                   | Inr secret \<Rightarrow> \<not> TOTPValidate (A_otp A) secret (trim_space (S_uni E) otp)) then (HErr 401 ''bad_totp'', s)
         else case Sess_Create (skip 1 E) rq (u_id x) s of
            (Inl e, s1) \<Rightarrow> (HErr 500 ''session'', s1)
          | (Inr tok, s1) \<Rightarrow> (with_cookie tok (JSON 200 (JObj [(''status'', JStr ''ok''), (''must_change_password'', JBool (u_must x))])),
               audit (S_ok E 3) nobody ''auth.login'' (JObj [(''email'', JStr em)]) s1))))"

definition logout :: "'k sys \<Rightarrow> request \<Rightarrow> ctl \<Rightarrow> resp \<times> ctl" where
  "logout E rq s = (with_cookie [] (JSON 200 (JObj [(''status'', JStr ''logged_out'')])), Sess_Destroy E rq s)"

definition oidcStart :: "OIDC \<Rightarrow> string \<Rightarrow> 'k sys \<Rightarrow> ctl \<Rightarrow> resp \<times> ctl" where
  "oidcStart O' redirect E s =
    (if \<not> O_enabled O' then (HErr 404 ''oidc_disabled'', s)
     else let st = RandomToken (S_rand E 0); nonce = RandomToken (S_rand E 1);
              red = (if prefix ''/'' redirect then redirect else ''/'')
          in if \<not> S_ok E 0 then (HErr 500 ''db'', s)
             else if st \<in> o_state ` set (oidc_states s) then (HErr 500 ''db'', s)
             else (Redirect (O_auth O' st nonce) 302,
               s\<lparr>oidc_states := oidc_states s @ [\<lparr>o_state = st, o_nonce = nonce, o_redirect = red, o_created = S_now E\<rparr>]\<rparr>))"

definition new_oidc_user :: "OIDC \<Rightarrow> 'k sys \<Rightarrow> Oidc_claims \<Rightarrow> user_row" where
  "new_oidc_user O' E c = \<lparr>u_id = S_id E 0, u_email = OEmail c, u_hash = None, u_oidc = Some (OSubject c), u_secret = None,
     u_admin = (OEmail c \<in> set (O_admins O')), u_created = S_now E, u_login = None, u_must = False, u_name = OName c, u_totp = False\<rparr>"

definition link_oidc :: "Oidc_claims \<Rightarrow> user_row \<Rightarrow> user_row" where
  "link_oidc c x = x\<lparr>u_oidc := Some (OSubject c), u_name := (if u_name x = [] then OName c else u_name x)\<rparr>"

text \<open>The user of the claims, by the subject or by the address; a new one otherwise. The errors of the two
  updates are dropped.\<close>

definition oidc_user :: "OIDC \<Rightarrow> 'k sys \<Rightarrow> Oidc_claims \<Rightarrow> ctl \<Rightarrow> nat res \<times> ctl" where
  "oidc_user O' E c s =
    (if \<not> S_ok E 1 then (Inl EDb, s)
     else case find (\<lambda>x. u_oidc x = Some (OSubject c) \<or> to_lower (S_uni E) (u_email x) = OEmail c) (users s) of
        None \<Rightarrow> (if \<not> S_ok E 2 then (Inl EDb, s)
          else (Inr (S_id E 0), s\<lparr>users := users s @ [new_oidc_user O' E c]\<rparr>))
      | Some x \<Rightarrow>
         (let s1 = (if S_ok E 2 \<and> \<not> (\<exists>y \<in> set (users s). u_id y \<noteq> u_id x \<and> u_oidc y = Some (OSubject c))
                    then s\<lparr>users := update_where (\<lambda>y. u_id y = u_id x) (link_oidc c) (users s)\<rparr> else s);
              s2 = (if OEmail c \<in> set (O_admins O') \<and> S_ok E 3
                    then s1\<lparr>users := update_where (\<lambda>y. u_id y = u_id x) (\<lambda>y. y\<lparr>u_admin := True\<rparr>) (users s1)\<rparr> else s1)
          in (Inr (u_id x), s2)))"

text \<open>Back to the page of the login, with a message in UTF-8.\<close>

definition login_error :: "string \<Rightarrow> resp" where
  "login_error msg = Redirect (''/#/login?error='' @ QueryEscape msg) 302"

definition oidcCallback :: "OIDC \<Rightarrow> string \<Rightarrow> string \<Rightarrow> 'k sys \<Rightarrow> request \<Rightarrow> ctl \<Rightarrow> resp \<times> ctl" where
  "oidcCallback O' st cd E rq s =
    (if \<not> O_enabled O' then (HErr 404 ''oidc_disabled'', s)
     else case (if S_ok E 0 then find (\<lambda>x. o_state x = st \<and> S_now E - 15 * 60 < o_created x) (oidc_states s) else None) of
        None \<Rightarrow> (login_error ([CHR 0xC3, CHR 0xA9] @ ''tat OIDC invalide ou expir'' @ [CHR 0xC3, CHR 0xA9]), s)
      | Some o' \<Rightarrow>
         (let s1 = s\<lparr>oidc_states := filter (\<lambda>x. o_state x \<noteq> st) (oidc_states s)\<rparr> in
          case Exchange (S_uni E) O' cd (o_nonce o') of
            Inl e \<Rightarrow> (login_error (''connexion OIDC refus'' @ [CHR 0xC3, CHR 0xA9, CHR ''e'']), s1)
          | Inr c \<Rightarrow> (case oidc_user O' E c s1 of
              (Inl e, s2) \<Rightarrow> (HErr 500 ''db'', s2)
            | (Inr i, s2) \<Rightarrow> (case Sess_Create (skip 4 E) rq i s2 of
                (Inl e, s3) \<Rightarrow> (HErr 500 ''session'', s3)
              | (Inr tok, s3) \<Rightarrow> (with_cookie tok (Redirect (o_redirect o') 302),
                   audit (S_ok E 6) nobody ''auth.oidc'' (JObj [(''email'', JStr (OEmail c))]) s3)))))"

section \<open>The account\<close>

definition me_user :: "principal \<Rightarrow> User" where
  "me_user p = the (user p)"

definition find_user :: "nat \<Rightarrow> ctl \<Rightarrow> user_row option" where
  "find_user i s = find (\<lambda>x. u_id x = i) (users s)"

definition update_user :: "nat \<Rightarrow> (user_row \<Rightarrow> user_row) \<Rightarrow> ctl \<Rightarrow> ctl" where
  "update_user i f s = s\<lparr>users := update_where (\<lambda>x. u_id x = i) f (users s)\<rparr>"

definition account :: "('k::linorder) handler" where
  "account E rq p s = (if \<not> S_ok E 0 then (dbErr EDb, s)
     else (JSON 200 (JObj [(''email'', JStr (Email (me_user p))), (''display_name'', JStr (DisplayName (me_user p))),
        (''platform_admin'', JBool (PlatformAdmin (me_user p))), (''totp_enabled'', JBool (TOTPEnabled (me_user p))),
        (''must_change_password'', JBool (MustChangePassword (me_user p))),
        (''memberships'', JArr (map (\<lambda>(t, m). JObj [(''tenant'', JStr (t_slug t)), (''name'', JStr (t_name t)), (''role'', JStr (m_role m))])
           (memberships (S_coll E) (UID (me_user p)) s)))]), s))"

text \<open>The stored hash of a user; the error of the query is dropped, and then no password is asked for.\<close>

definition stored_hash :: "bool \<Rightarrow> nat \<Rightarrow> ctl \<Rightarrow> string" where
  "stored_hash ok i s = (if ok then (case find_user i s of None \<Rightarrow> [] | Some x \<Rightarrow> hash_of x) else [])"

definition changePassword :: "authlib \<Rightarrow> (string \<times> string) option \<Rightarrow> 'k handler" where
  "changePassword A i E rq p = decode i (\<lambda>(cur, new) s.
    (let u = UID (me_user p); h = stored_hash (S_ok E 0) u s in
     if h \<noteq> [] \<and> \<not> good_password A h cur then (bad_credentials, s)
     else if \<not> CheckPasswordPolicy new then (HErr 400 ''weak_password'', s)
     else if \<not> S_ok E 1 then (dbErr EDb, s)
     else
      let s1 = update_user u (\<lambda>x. x\<lparr>u_hash := Some (Hash_Password A (take 16 (S_rand E 1)) new), u_must := False\<rparr>) s;
          s2 = Sess_DestroyAll (S_ok E 2) u s1;
          (r, s3) = Sess_Create (skip 3 E) rq u s2;
          ans = JSON 200 (JObj [(''status'', JStr ''changed'')])
      in ((case r of Inl _ \<Rightarrow> ans | Inr tok \<Rightarrow> with_cookie tok ans), audit (S_ok E 5) p ''account.password'' JNull s3)))"

definition totpSetup :: "authlib \<Rightarrow> keylib \<Rightarrow> string \<Rightarrow> string \<Rightarrow> 'k handler" where
  "totpSetup A L master issuer E rq p s = (case TOTPGenerate (A_otp A) issuer (Email (me_user p)) of None \<Rightarrow> (HErr 500 ''totp'', s)
     | Some (secret, url) \<Rightarrow> (case Seal L master (take 12 (S_rand E 0)) secret of Inl e \<Rightarrow> (HErr 500 ''crypt'', s)
       | Inr enc \<Rightarrow> (if \<not> S_ok E 0 then (dbErr EDb, s)
           else (JSON 200 (JObj [(''secret'', JStr secret), (''otpauth_url'', JStr url)]),
                 update_user (UID (me_user p)) (\<lambda>x. x\<lparr>u_secret := Some enc, u_totp := False\<rparr>) s))))"

definition secret_of :: "bool \<Rightarrow> nat \<Rightarrow> ctl \<Rightarrow> string option" where
  "secret_of ok i s = (if \<not> ok then None else case find_user i s of None \<Rightarrow> None
     | Some x \<Rightarrow> (case u_secret x of None \<Rightarrow> None | Some e \<Rightarrow> if e = [] then None else Some e))"

definition totpEnable :: "authlib \<Rightarrow> keylib \<Rightarrow> string \<Rightarrow> string option \<Rightarrow> 'k handler" where
  "totpEnable A L master i E rq p = decode i (\<lambda>cd s.
    (case secret_of (S_ok E 0) (UID (me_user p)) s of None \<Rightarrow> (HErr 404 ''no_totp'', s)
     | Some enc \<Rightarrow>
        (if (case Unseal L master enc of Inl _ \<Rightarrow> True | Inr secret \<Rightarrow> \<not> TOTPValidate (A_otp A) secret (trim_space (S_uni E) cd)) then (HErr 400 ''bad_totp'', s)
         else (JSON 200 (JObj [(''status'', JStr ''enabled'')]), audit (S_ok E 2) p ''account.totp_enabled'' JNull
                (if S_ok E 1 then update_user (UID (me_user p)) (\<lambda>x. x\<lparr>u_totp := True\<rparr>) s else s)))))"

definition totpDisable :: "authlib \<Rightarrow> string option \<Rightarrow> 'k handler" where
  "totpDisable A i E rq p = decode i (\<lambda>pw s.
    (let u = UID (me_user p); h = stored_hash (S_ok E 0) u s in
     if h \<noteq> [] \<and> \<not> good_password A h pw then (bad_credentials, s)
     else (JSON 200 (JObj [(''status'', JStr ''disabled'')]), audit (S_ok E 2) p ''account.totp_disabled'' JNull
            (if S_ok E 1 then update_user u (\<lambda>x. x\<lparr>u_totp := False, u_secret := None\<rparr>) s else s))))"

section \<open>Users\<close>

definition insert_user :: "bool \<Rightarrow> (string \<Rightarrow> string) \<Rightarrow> user_row \<Rightarrow> ctl \<Rightarrow> unit res \<times> ctl" where
  "insert_user ok u x s = (if \<not> ok then (Inl EDb, s)
     else if to_lower u (u_email x) \<in> (\<lambda>y. to_lower u (u_email y)) ` set (users s) then (Inl unique_violation, s)
     else (Inr (), s\<lparr>users := users s @ [x]\<rparr>))"

text \<open>An unknown tenant inserts no row, and that is not an error.\<close>

definition insert_member :: "bool \<Rightarrow> string \<Rightarrow> nat \<Rightarrow> string \<Rightarrow> ctl \<Rightarrow> unit res \<times> ctl" where
  "insert_member ok slug u r s = (if \<not> ok then (Inl EDb, s)
     else case find_tenant slug s of None \<Rightarrow> (Inr (), s)
      | Some t \<Rightarrow> (if roleRank r = 0 then (Inl check_violation, s)
          else if \<exists>m \<in> set (members s). m_tenant m = t_id t \<and> m_user m = u then (Inl unique_violation, s)
          else (Inr (), s\<lparr>members := members s @ [\<lparr>m_tenant = t_id t, m_user = u, m_role = r\<rparr>]\<rparr>)))"

record userIn =
  NEmail :: string
  NPassword :: string
  NDisplay :: string
  NAdmin :: bool
  NTenant :: string
  NRole :: string

definition initial_password :: "'k sys \<Rightarrow> string \<Rightarrow> string" where
  "initial_password E pw = (if pw = [] then take 16 (RandomToken (S_rand E 0)) else pw)"

definition createUser :: "authlib \<Rightarrow> userIn option \<Rightarrow> 'k handler" where
  "createUser A i E rq p = decode i (\<lambda>x s.
    (let em = to_lower (S_uni E) (trim_space (S_uni E) (NEmail x)); pw = initial_password E (NPassword x) in
     if CHR ''@'' \<notin> set em then (HErr 400 ''invalid'', s)
     else if \<not> CheckPasswordPolicy pw then (HErr 400 ''weak_password'', s)
     else case insert_user (S_ok E 0) (S_uni E) \<lparr>u_id = S_id E 0, u_email = em, u_hash = Some (Hash_Password A (take 16 (S_rand E 1)) pw), u_oidc = None,
               u_secret = None, u_admin = NAdmin x, u_created = S_now E, u_login = None, u_must = True, u_name = NDisplay x, u_totp = False\<rparr> s of
        (Inl e, s1) \<Rightarrow> (dbErr e, s1)
      | (Inr _, s1) \<Rightarrow>
         (let r = (if NTenant x \<noteq> [] \<and> NRole x = [] then ''operator'' else NRole x) in
          case (if NTenant x \<noteq> [] then insert_member (S_ok E 1) (NTenant x) (S_id E 0) r s1 else (Inr (), s1)) of
            (Inl e, s2) \<Rightarrow> (dbErr e, s2)
          | (Inr _, s2) \<Rightarrow> (JSON 201 (JObj [(''id'', JStr (S_utext E (S_id E 0))), (''email'', JStr em), (''initial_password'', JStr pw)]),
              audit (S_ok E 2) p ''user.create'' (JObj [(''email'', JStr em), (''platform_admin'', JBool (NAdmin x)), (''tenant'', JStr (NTenant x)),
                 (''role'', JStr r)]) s2))))"

text \<open>The rows of a user in the other tables go with it.\<close>

definition drop_user :: "nat \<Rightarrow> ctl \<Rightarrow> ctl" where
  "drop_user i s = s\<lparr>users := filter (\<lambda>x. u_id x \<noteq> i) (users s), members := filter (\<lambda>m. m_user m \<noteq> i) (members s),
     sessions := filter (\<lambda>x. n_user x \<noteq> i) (sessions s)\<rparr>"

definition deleteUser :: "'k handler" where
  "deleteUser E rq p s =
    (let t = Rpath rq ''id'' in
     if (case user p of None \<Rightarrow> False | Some u \<Rightarrow> S_utext E (UID u) = t) then (HErr 400 ''self'', s)
     else if \<not> S_ok E 0 then (dbErr EDb, s)
     else case S_uuid E t of None \<Rightarrow> (dbErr invalid_text, s)
      | Some i \<Rightarrow> (if find_user i s = None then (HErr 404 ''not_found'', s)
          else (NoContent, audit (S_ok E 1) p ''user.delete'' (JStr t) (drop_user i s))))"

text \<open>A body that does not decode leaves the password empty.\<close>

definition resetUserPassword :: "authlib \<Rightarrow> string \<Rightarrow> 'k handler" where
  "resetUserPassword A pw0 E rq p s =
    (let pw = initial_password E pw0; t = Rpath rq ''id'' in
     if \<not> CheckPasswordPolicy pw then (HErr 400 ''weak_password'', s)
     else if \<not> S_ok E 0 then (dbErr EDb, s)
     else case S_uuid E t of None \<Rightarrow> (dbErr invalid_text, s)
      | Some i \<Rightarrow> (if find_user i s = None then (HErr 404 ''not_found'', s)
          else (JSON 200 (JObj [(''initial_password'', JStr pw)]), audit (S_ok E 2) p ''user.password_reset'' (JStr t)
             (Sess_DestroyAll (S_ok E 1) i (update_user i (\<lambda>x. x\<lparr>u_hash := Some (Hash_Password A (take 16 (S_rand E 1)) pw), u_must := True,
                 u_totp := False, u_secret := None\<rparr>) s)))))"

definition listUsers :: "('k::linorder) handler" where
  "listUsers E rq p s = (if \<not> S_ok E 0 then (dbErr EDb, s)
     else (JSON 200 (JArr (map (\<lambda>x. JObj [(''id'', JStr (S_utext E (u_id x))), (''email'', JStr (u_email x)), (''display_name'', JStr (u_name x)),
          (''platform_admin'', JBool (u_admin x)), (''totp_enabled'', JBool (u_totp x)), (''oidc'', JBool (u_oidc x \<noteq> None)),
          (''created_at'', JInt (u_created x)), (''last_login_at'', jopt JInt (u_login x)),
          (''memberships'', JStr (join '','' (map (\<lambda>(t, m). t_slug t @ '':'' @ m_role m) (memberships (S_coll E) (u_id x) s))))])
        (sort_key (\<lambda>x. S_coll E (u_email x)) (users s)))), s))"

section \<open>Members\<close>

definition putMember :: "(string \<times> string) option \<Rightarrow> 'k handler" where
  "putMember i E rq p = decode i (\<lambda>(em, r) s.
    (if roleRank r = 0 then (HErr 400 ''invalid'', s)
     else if \<not> S_ok E 0 then (dbErr EDb, s)
     else case (find_tenant (Rpath rq ''slug'') s, user_by_email (S_uni E) (to_lower (S_uni E) em) s) of
        (Some t, Some x) \<Rightarrow> (JSON 200 (JObj [(''email'', JStr em), (''role'', JStr r)]),
           audit (S_ok E 1) p ''member.put'' (JObj [(''tenant'', JStr (Rpath rq ''slug'')), (''email'', JStr em), (''role'', JStr r)])
             (s\<lparr>members := upsert (\<lambda>m. (m_tenant m, m_user m)) (t_id t, u_id x) (\<lambda>m. m\<lparr>m_role := r\<rparr>)
                 \<lparr>m_tenant = t_id t, m_user = u_id x, m_role = r\<rparr> (members s)\<rparr>))
      | _ \<Rightarrow> (HErr 404 ''not_found'', s)))"

definition deleteMember :: "'k handler" where
  "deleteMember E rq p s =
    (if \<not> S_ok E 0 then (dbErr EDb, s)
     else (NoContent, audit (S_ok E 1) p ''member.delete'' (JObj [(''tenant'', JStr (Rpath rq ''slug'')), (''email'', JStr (Rpath rq ''email''))])
       (case (find_tenant (Rpath rq ''slug'') s, user_by_email (S_uni E) (to_lower (S_uni E) (Rpath rq ''email'')) s) of
          (Some t, Some x) \<Rightarrow> s\<lparr>members := filter (\<lambda>m. \<not> (m_tenant m = t_id t \<and> m_user m = u_id x)) (members s)\<rparr>
        | _ \<Rightarrow> s)))"

definition listMembers :: "('k::linorder) handler" where
  "listMembers E rq p s = (if \<not> S_ok E 0 then (dbErr EDb, s)
     else (JSON 200 (JArr (case find_tenant (Rpath rq ''slug'') s of None \<Rightarrow> []
        | Some t \<Rightarrow> map (\<lambda>(x, m). JObj [(''email'', JStr (u_email x)), (''display_name'', JStr (u_name x)), (''role'', JStr (m_role m))])
            (sort_key (\<lambda>(x, m). S_coll E (u_email x)) (List.map_filter (\<lambda>m. map_option (\<lambda>x. (x, m)) (find_user (m_user m) s))
               (filter (\<lambda>m. m_tenant m = t_id t) (members s)))))), s))"

section \<open>Keys of a tenant\<close>

definition listKeysFor :: "bool \<Rightarrow> ('k sys) \<Rightarrow> nat \<Rightarrow> ctl \<Rightarrow> resp" where
  "listKeysFor ok E t s = (if \<not> ok then dbErr EDb
     else JSON 200 (JArr (map (\<lambda>k. JObj [(''id'', JStr (S_utext E (a_id k))), (''name'', JStr (a_name k)), (''created_at'', JInt (a_created k)),
        (''last_used_at'', jopt JInt (a_used k))]) (sort_key a_created (filter (\<lambda>k. a_tenant k = Some t) (api_keys s))))))"

definition listTenantKeys :: "'k handler" where
  "listTenantKeys E rq p s = (listKeysFor (S_ok E 0) E (the (tenantID p)) s, s)"

definition listTenantKeysPlatform :: "'k handler" where
  "listTenantKeysPlatform E rq p s = (if \<not> S_ok E 0 then (dbErr EDb, s)
     else case find_tenant (Rpath rq ''slug'') s of None \<Rightarrow> (dbErr no_rows, s) | Some t \<Rightarrow> (listKeysFor (S_ok E 1) E (t_id t) s, s))"

definition createOwnTenantKey :: "string \<Rightarrow> 'k handler" where
  "createOwnTenantKey nm E rq p s =
    (let name = key_name E nm; key = NewKey (S_rand E 0) in
     case insert_key (S_ok E 0) E (S_id E 0) (the (tenantID p)) name (HashKey (S_sha E) key) s of (Inl e, s1) \<Rightarrow> (dbErr e, s1)
     | (Inr _, s1) \<Rightarrow> (JSON 201 (JObj [(''name'', JStr name), (''api_key'', JStr key)]),
         audit (S_ok E 1) p ''apikey.create'' (JObj [(''name'', JStr name)]) s1))"

definition deleteTenantKey :: "'k handler" where
  "deleteTenantKey E rq p s =
    (if \<not> S_ok E 0 then (dbErr EDb, s)
     else case S_uuid E (Rpath rq ''id'') of None \<Rightarrow> (dbErr invalid_text, s)
      | Some i \<Rightarrow> (if \<not> (\<exists>k \<in> set (api_keys s). a_id k = i \<and> a_tenant k = tenantID p) then (HErr 404 ''not_found'', s)
          else (NoContent, audit (S_ok E 1) p ''apikey.delete'' (JStr (Rpath rq ''id''))
            (s\<lparr>api_keys := filter (\<lambda>k. \<not> (a_id k = i \<and> a_tenant k = tenantID p)) (api_keys s)\<rparr>))))"

end
