(* ===== verification/Auth_Laws.thy ===== *)
theory Auth_Laws
  imports Account_Api
begin

text \<open>
  The laws of the authentication: where the rights of a principal come from, what a route without
  the right does, how a session ends; and the round trip of the password hashes.
\<close>

section \<open>Frames\<close>

text \<open>Authenticating only touches the expiry of sessions and the last use of keys.\<close>

definition same_rights :: "ctl \<Rightarrow> ctl \<Rightarrow> bool" where
  "same_rights s s' \<longleftrightarrow> db s' = db s \<and> cinv s' = cinv s \<and> cjobs s' = cjobs s \<and> users s' = users s \<and> members s' = members s \<and>
     oidc_states s' = oidc_states s \<and> enroll_tokens s' = enroll_tokens s \<and> acme_accounts s' = acme_accounts s \<and> challenges s' = challenges s \<and>
     audit_log s' = audit_log s \<and> cpg s' = cpg s \<and> rec s' = rec s \<and> signing s' = signing s \<and>
     map (\<lambda>x. (n_id x, n_user x)) (sessions s') = map (\<lambda>x. (n_id x, n_user x)) (sessions s) \<and>
     map (\<lambda>k. (a_id k, a_tenant k, a_hash k)) (api_keys s') = map (\<lambda>k. (a_id k, a_tenant k, a_hash k)) (api_keys s)"

lemma same_rights_refl [simp]: "same_rights s s"
  by (simp add: same_rights_def)

lemma map_update_where: "(\<And>x. g (f x) = g x) \<Longrightarrow> map g (update_where P f xs) = map g xs"
  by (simp add: update_where_def)

lemma Current_same: "Sess_Current E rq s = (r, s') \<Longrightarrow> same_rights s s'"
  by (auto simp: Sess_Current_def same_rights_def map_update_where split: option.splits if_splits)

lemma authenticateSession_same: "same_rights s (snd (authenticateSession E rq s))"
  by (auto simp: authenticateSession_def Current_same split: prod.split)

lemma touch_key_same: "same_rights s (touch_key E k s)"
  by (simp add: touch_key_def same_rights_def map_update_where)

lemma authenticate_same: "same_rights s (snd (authenticate E rq s))"
  by (simp add: authenticate_def authenticateSession_same touch_key_same split: option.split)

section \<open>Where the rights come from\<close>

lemma live_sessionD:
  assumes "live_session now h s = Some (x, u)"
  shows "x \<in> set (sessions s)" "n_id x = h" "now < n_expires x" "u \<in> set (users s)" "u_id u = n_user x"
  using assms by (auto simp: live_session_def find_Some_iff split: option.splits)

lemma CurrentD:
  assumes "Sess_Current E rq s = (Inr (Some v), s')"
  obtains c x u where "Rcookie rq = Some c" "c \<noteq> []" "live_session (S_now E) (hashToken (S_sha E) c) s = Some (x, u)" "v = user_of u"
  using assms by (auto simp: Sess_Current_def split: option.splits if_splits)

lemma membershipsD: "(t, m) \<in> set (memberships coll i s) \<Longrightarrow> m \<in> set (members s) \<and> m_user m = i \<and> m_tenant m = t_id t \<and> t \<in> set (tenants (db s))"
  by (auto simp: memberships_def map_filter_mem tenant_by_id_def find_by_def dest: find_mem)

definition session_rights :: "'k sys \<Rightarrow> request \<Rightarrow> ctl \<Rightarrow> principal \<Rightarrow> bool" where
  "session_rights E rq s p \<longleftrightarrow> session_p p \<and> (\<exists>c x u. Rcookie rq = Some c \<and> x \<in> set (sessions s) \<and> n_id x = hashToken (S_sha E) c \<and>
     S_now E < n_expires x \<and> u \<in> set (users s) \<and> u_id u = n_user x \<and> user p = Some (user_of u) \<and> platform_p p = u_admin u \<and>
     (Rmethod rq \<noteq> ''GET'' \<longrightarrow> Rhdr rq ''X-Requested-With'' = ''flyc'') \<and>
     (\<forall>t. tenantID p = Some t \<longrightarrow> u_admin u \<or> (\<exists>m \<in> set (members s). m_user m = u_id u \<and> m_tenant m = t \<and> m_role m = role p)))"

definition key_rights :: "'k sys \<Rightarrow> request \<Rightarrow> ctl \<Rightarrow> principal \<Rightarrow> bool" where
  "key_rights E rq s p \<longleftrightarrow> \<not> session_p p \<and> (\<exists>k \<in> set (api_keys s).
     a_hash k = hex (S_sha E (trim_space (S_uni E) (drop 7 (Rhdr rq ''Authorization'')))) \<and> keyID p = Some (a_id k) \<and>
     (platform_p p \<longleftrightarrow> a_tenant k = None) \<and> (\<forall>t. a_tenant k = Some t \<longrightarrow> tenantID p = Some t))"

lemma on_tenant_Inr: "on_tenant ok slug s p = Inr q \<Longrightarrow> q = p \<or> (\<exists>t n. q = p\<lparr>tenantID := Some t, tenant := n\<rparr>)"
  by (auto simp: on_tenant_def split: if_splits option.splits)

lemma on_membership_Inr:
  assumes "on_membership slug ms p = Inr q"
  shows "q = p \<or> (\<exists>t m. (t, m) \<in> set ms \<and> q = p\<lparr>tenantID := Some (t_id t), tenant := t_slug t, role := m_role m\<rparr>)"
proof (cases "filter (\<lambda>(t, m). slug = [] \<or> t_slug t = slug) ms")
  case Nil
  then show ?thesis using assms by (simp add: on_membership_def split: if_splits)
next
  case (Cons a as)
  obtain t m where a: "a = (t, m)" by (metis surj_pair)
  have "a \<in> set (filter (\<lambda>(t, m). slug = [] \<or> t_slug t = slug) ms)" unfolding Cons by simp
  then have "(t, m) \<in> set ms" by (simp add: a)
  then show ?thesis using assms Cons a by (auto simp: on_membership_def)
qed

lemma session_principal_Inr:
  assumes "session_principal E rq v s = Inr p"
  shows "session_p p \<and> user p = Some v \<and> platform_p p = PlatformAdmin v \<and>
    (Rmethod rq \<noteq> ''GET'' \<longrightarrow> Rhdr rq ''X-Requested-With'' = ''flyc'') \<and>
    (\<forall>t. tenantID p = Some t \<longrightarrow> PlatformAdmin v \<or> (\<exists>m \<in> set (members s). m_user m = UID v \<and> m_tenant m = t \<and> m_role m = role p))"
proof -
  have csrf: "Rmethod rq \<noteq> ''GET'' \<longrightarrow> Rhdr rq ''X-Requested-With'' = ''flyc''"
    using assms by (auto simp: session_principal_def Let_def split: if_splits)
  show ?thesis
  proof (cases "PlatformAdmin v")
    case True
    then have "on_tenant (S_ok E 2) (Rhdr rq ''X-Flyc-Tenant'') s (nobody\<lparr>user := Some v, session_p := True, platform_p := True, role := ''owner''\<rparr>) = Inr p"
      using assms csrf by (auto simp: session_principal_def Let_def)
    from on_tenant_Inr [OF this] csrf True show ?thesis by auto
  next
    case False
    then have "on_membership (Rhdr rq ''X-Flyc-Tenant'') (memberships (S_coll E) (UID v) s) (nobody\<lparr>user := Some v, session_p := True, platform_p := False\<rparr>) = Inr p"
      using assms csrf by (auto simp: session_principal_def Let_def split: if_splits)
    from on_membership_Inr [OF this] csrf False show ?thesis by (auto simp: nobody_def dest!: membershipsD)
  qed
qed

lemma authenticateSession_rights:
  assumes "authenticateSession E rq s = (Inr p, s')"
  shows "session_rights E rq s p"
proof -
  obtain v where c: "Sess_Current E rq s = (Inr (Some v), s')" and sp: "session_principal E rq v s' = Inr p"
    using assms by (auto simp: authenticateSession_def split: prod.splits sum.splits option.splits)
  obtain ck x u where u: "Rcookie rq = Some ck" "live_session (S_now E) (hashToken (S_sha E) ck) s = Some (x, u)" "v = user_of u"
    using CurrentD [OF c] by metis
  have sd: "members s' = members s" using Current_same [OF c] by (simp add: same_rights_def)
  have f: "UID v = u_id u" "PlatformAdmin v = u_admin u" by (simp_all add: u(3) user_of_def)
  show ?thesis
    unfolding session_rights_def
    by (intro conjI exI [of _ ck] exI [of _ x] exI [of _ u]) (use session_principal_Inr [OF sp] u live_sessionD [OF u(2)] f sd in auto)
qed

lemma key_principal_Inr:
  assumes "key_principal E rq k s = Inr p"
  shows "\<not> session_p p \<and> keyID p = Some (a_id k) \<and> (platform_p p \<longleftrightarrow> a_tenant k = None) \<and> (\<forall>t. a_tenant k = Some t \<longrightarrow> tenantID p = Some t)"
proof (cases "a_tenant k")
  case None
  then have "on_tenant (S_ok E 2) (Rhdr rq ''X-Flyc-Tenant'') s (nobody\<lparr>keyID := Some (a_id k), platform_p := True\<rparr>) = Inr p"
    using assms by (simp add: key_principal_def Let_def)
  from on_tenant_Inr [OF this] None show ?thesis by (auto simp: nobody_def)
next
  case (Some t)
  then show ?thesis using assms by (auto simp: key_principal_def nobody_def)
qed

text \<open>C2: A request that is authenticated has its rights from a row: either the API key of its header, of the
  platform exactly when the key has no tenant and otherwise bound to the tenant of the key, or an unexpired
  session whose user has the right itself (the platform for its administrators only, a tenant through a
  membership and with the role of that membership), and then a request that may change something carries the
  header against forgery.\<close>

theorem authenticate_sound:
  assumes "authenticate E rq s = (Inr p, s')"
  shows "session_rights E rq s p \<or> key_rights E rq s p"
proof (cases "prefix ''Bearer '' (Rhdr rq ''Authorization'')")
  case False
  then have "authenticateSession E rq s = (Inr p, s')" using assms by (simp add: authenticate_def)
  then show ?thesis using authenticateSession_rights by blast
next
  case True
  then obtain k where k: "find_key (bearer_key E rq) s = Some k" and p: "key_principal E rq k (touch_key E k s) = Inr p"
    using assms by (auto simp: authenticate_def split: if_splits option.splits)
  have "k \<in> set (api_keys s)" "a_hash k = bearer_key E rq" using k by (auto simp: find_key_def dest: find_mem)
  then show ?thesis using key_principal_Inr [OF p] by (auto simp: key_rights_def bearer_key_def HashKey_def)
qed

definition demo_sys :: "string sys" where
  "demo_sys = \<lparr>S_uni = id, S_sha = id, S_coll = id, S_uuid = (\<lambda>t. if t = ''7'' then Some 7 else None), S_utext = show_nat, S_now = 1000,
     S_ok = (\<lambda>_. True), S_rand = (\<lambda>_. ''rrr''), S_id = (\<lambda>k. 50 + k), S_stamp = ''20250101''\<rparr>"

definition demo_user :: user_row where
  "demo_user = \<lparr>u_id = 7, u_email = ''op@acme.fr'', u_hash = None, u_oidc = None, u_secret = None, u_admin = False, u_created = 0, u_login = None,
     u_must = False, u_name = ''Op'', u_totp = False\<rparr>"

definition demo_ctl :: ctl where
  "demo_ctl = \<lparr>db = demo_db, cinv = \<lparr>nodes = [], settings = undefined, edge_urls = [], queue_hosts = []\<rparr>, cjobs = \<lparr>jobs = [], files = []\<rparr>,
     users = [demo_user], members = [\<lparr>m_tenant = 1, m_user = 7, m_role = ''viewer''\<rparr>],
     api_keys = [\<lparr>a_id = 3, a_tenant = None, a_name = ''root'', a_hash = hex ''k'', a_created = 0, a_used = None\<rparr>],
     sessions = [\<lparr>n_id = hex ''tok'', n_user = 7, n_expires = 2000, n_ip = [], n_agent = []\<rparr>],
     oidc_states = [], enroll_tokens = [], acme_accounts = [], challenges = [], audit_log = [], cpg = \<lparr>edge_rows = [], queue_error = None\<rparr>, rec = New_reconciler (New_queue_client [] []),
     signing = \<lparr>Y_kid = ''k1'', Y_private = [], Y_public = ''pub''\<rparr>\<rparr>"

definition demo_request :: "string \<Rightarrow> request" where
  "demo_request m = \<lparr>Rmethod = m, Rpath = (\<lambda>_. []), Rhdr = (\<lambda>_. []), Rcookie = Some ''tok'', Rremote = ''10.0.0.1''\<rparr>"

definition demo_principal :: principal where
  "demo_principal = nobody\<lparr>tenantID := Some 1, tenant := ''acme'', role := ''viewer'', user := Some (user_of demo_user), session_p := True\<rparr>"

lemma demo_auth: "fst (authenticate demo_sys (demo_request ''GET'') demo_ctl) = Inr demo_principal"
  by (simp add: authenticate_def authenticateSession_def Sess_Current_def live_session_def demo_request_def demo_sys_def demo_ctl_def demo_user_def
      hashToken_def session_principal_def on_membership_def memberships_def tenant_by_id_def find_by_def demo_db_def user_of_def demo_principal_def nobody_def
      List.map_filter_simps)

theorem authenticate_sound_witness: "session_rights demo_sys (demo_request ''GET'') demo_ctl demo_principal"
proof -
  obtain s' where a: "authenticate demo_sys (demo_request ''GET'') demo_ctl = (Inr demo_principal, s')"
    using demo_auth by (metis fst_conv surj_pair)
  have "\<not> key_rights demo_sys (demo_request ''GET'') demo_ctl demo_principal"
    by (simp add: key_rights_def demo_principal_def)
  then show ?thesis using authenticate_sound [OF a] by blast
qed

section \<open>The gates\<close>

text \<open>A handler behind the gate of a tenant only ever runs for a principal that has a tenant and the role:
  for any other request the answer is a 400, 401 or 403 and the rights, the tables and the jobs are as before,
  whatever the handler would have done.\<close>

theorem tenant_gate:
  "(\<exists>p s1. authenticate E rq s = (Inr p, s1) \<and> tenantID p \<noteq> None \<and> allows p minRole \<and>
      tenant_route minRole h E rq s = h (skip 3 E) rq p s1) \<or>
   (code (fst (tenant_route minRole h E rq s)) \<in> {400, 401, 403} \<and> same_rights s (snd (tenant_route minRole h E rq s)))"
  using authenticate_same [of s E rq]
  by (cases "authenticate E rq s") (auto simp: tenant_route_def split: sum.splits)

text \<open>The same for the gate of the platform: the handler runs for a key of the platform or the session of an
  administrator, and otherwise the answer is a 401 or a 403 and nothing but bookkeeping has changed.\<close>

theorem platform_gate:
  "(\<exists>p s1. authenticate E rq s = (Inr p, s1) \<and> platform h E rq s = h (skip 3 E) rq p s1 \<and>
      ((\<exists>k \<in> set (api_keys s). a_hash k = bearer_key E rq \<and> a_tenant k = None) \<or> (\<exists>u \<in> set (users s). user p = Some (user_of u) \<and> u_admin u))) \<or>
   (code (fst (platform h E rq s)) \<in> {401, 403} \<and> same_rights s (snd (platform h E rq s)))"
proof -
  obtain r s1 where a: "authenticate E rq s = (r, s1)" by (metis surj_pair)
  have sr: "same_rights s s1" using authenticate_same [of s E rq] a by simp
  show ?thesis
  proof (cases r)
    case (Inl e)
    then show ?thesis using a sr by (simp add: platform_def)
  next
    case (Inr p)
    have "platform_p p \<Longrightarrow> (\<exists>k \<in> set (api_keys s). a_hash k = bearer_key E rq \<and> a_tenant k = None) \<or> (\<exists>u \<in> set (users s). user p = Some (user_of u) \<and> u_admin u)"
      using authenticate_sound [OF a [unfolded Inr]] by (auto simp: session_rights_def key_rights_def bearer_key_def HashKey_def)
    then show ?thesis using a sr Inr by (cases "platform_p p") (simp_all add: platform_def)
  qed
qed

section \<open>The end of a session\<close>

lemma no_session: "(\<And>x. x \<in> set (sessions s) \<Longrightarrow> n_id x \<noteq> h) \<Longrightarrow> live_session now h s = None"
  by (auto simp: live_session_def split: option.splits dest: find_mem)

lemma refused_without_session:
  assumes "Rcookie rq = Some c" and "\<And>x. x \<in> set (sessions s) \<Longrightarrow> n_id x \<noteq> hashToken (S_sha E) c"
  shows "\<exists>e. fst (authenticateSession E rq s) = Inl e"
  using no_session [of s "hashToken (S_sha E) c" "S_now E"] assms by (auto simp: authenticateSession_def Sess_Current_def)

lemma Sess_Create_sessions:
  assumes "Sess_Create E rq i s = (r, s')"
  shows "sessions s' = sessions s \<or> (\<exists>x. sessions s' = sessions s @ [x] \<and> n_id x = hashToken (S_sha E) (RandomToken (S_rand E 0)))"
  using assms by (auto simp: Sess_Create_def Let_def split: if_splits)

lemma update_user_sessions [simp]: "sessions (update_user i f s) = sessions s"
  by (simp add: update_user_def)

text \<open>C26: After a change of password that was answered with 200: when the statement that deletes the sessions reached
  Postgres, every session of the user has ended, that is, no token but the one handed out with the answer opens a
  session of that user afterwards, at any time and for any request; and when that statement failed, whose error the
  code drops, every session is still there.\<close>

theorem changePassword_ends_sessions:
  assumes "changePassword A (Some (cur, new)) E rq p s = (r, s')" and "code r = 200"
  shows "(S_ok E 2 \<and> authenticateSession E' rq' s' = (Inr p', s2) \<and> Rcookie rq' = Some c \<and> S_sha E' = S_sha E \<and>
      hashToken (S_sha E) c \<noteq> hashToken (S_sha E) (RandomToken (S_rand E 0)) \<longrightarrow>
      user p' \<noteq> None \<and> UID (the (user p')) \<noteq> UID (me_user p)) \<and>
    (\<not> S_ok E 2 \<longrightarrow> set (sessions s) \<subseteq> set (sessions s'))"
proof -
  let ?i = "UID (me_user p)"
  define s1 where "s1 = update_user ?i (\<lambda>x. x\<lparr>u_hash := Some (Hash_Password A (take 16 (S_rand E 1)) new), u_must := False\<rparr>) s"
  define s0 where "s0 = Sess_DestroyAll (S_ok E 2) ?i s1"
  obtain q s3 where q: "Sess_Create (skip 3 E) rq ?i s0 = (q, s3)" by (metis surj_pair)
  have "s' = audit (S_ok E 5) p ''account.password'' JNull s3"
    using assms(1,2) q by (auto simp: changePassword_def decode_def Let_def s0_def s1_def bad_credentials_def dbErr_def split: if_splits)
  then have e: "sessions s' = sessions s3" by simp
  have ended: "user p' \<noteq> None \<and> UID (the (user p')) \<noteq> ?i"
    if ok: "S_ok E 2" and a: "authenticateSession E' rq' s' = (Inr p', s2)" and c: "Rcookie rq' = Some c" "S_sha E' = S_sha E"
      "hashToken (S_sha E) c \<noteq> hashToken (S_sha E) (RandomToken (S_rand E 0))"
  proof -
    have f: "\<And>x. x \<in> set (sessions s0) \<Longrightarrow> n_user x \<noteq> ?i" using ok by (simp add: s0_def Sess_DestroyAll_def)
    have out: "n_user x \<noteq> ?i" if "x \<in> set (sessions s')" "n_id x = hashToken (S_sha E) c" for x
      using Sess_Create_sessions [OF q] f that c(3) unfolding e by auto
    have "session_rights E' rq' s' p'" using authenticateSession_rights [OF a] .
    then show ?thesis using out c(1,2) by (auto simp: session_rights_def user_of_def)
  qed
  have "set (sessions s) \<subseteq> set (sessions s')" if "\<not> S_ok E 2"
  proof -
    have "sessions s0 = sessions s" using that by (simp add: s0_def s1_def Sess_DestroyAll_def)
    then show ?thesis using Sess_Create_sessions [OF q] unfolding e by auto
  qed
  with ended show ?thesis by blast
qed

section \<open>Passwords\<close>

lemma b64_chars: "c \<in> set (b64 s) \<Longrightarrow> c \<noteq> CHR ''+'' \<and> c \<noteq> CHR ''/'' \<and> c \<noteq> CHR ''$''"
  using b64_alphabet [of c s] by (auto simp: b64_val_def)

lemma DecodeStd_std64: "DecodeStd (std64 s) = Some s"
proof -
  have "url_char (std_char c) = c" if "c \<in> set (b64 s)" for c
    using b64_chars [OF that] by (auto simp: url_char_def std_char_def)
  then have m: "map url_char (std64 s) = b64 s" by (simp add: std64_def map_idI)
  have "CHR ''-'' \<notin> set (std64 s)" "CHR ''_'' \<notin> set (std64 s)"
    by (auto simp: std64_def std_char_def)
  then show ?thesis using m by (simp add: DecodeStd_def DecodeString_b64)
qed

lemma std64_no_dollar: "CHR ''$'' \<notin> set (std64 s)"
  using b64_chars [of "CHR ''$''" s] by (auto simp: std64_def std_char_def split: if_splits)

text \<open>A password opens the account whose hash was made from it, whatever the salt; another password opens
  it only when argon2 gives both the same key. The hash is a text of six fields that survives its parsing.\<close>

theorem VerifyPassword_hash:
  assumes "A_scan A ''m=65536,t=3,p=2'' = Some (65536, 3, 2)" and "\<And>pw salt t m p n. length (A_argon A pw salt t m p n) = n"
  shows "VerifyPassword A (Hash_Password A salt pw) pw' = Inr (A_argon A pw' salt 3 65536 2 32 = A_argon A pw salt 3 65536 2 32)"
proof -
  let ?k = "A_argon A pw salt 3 65536 2 32"
  have fields: "split_on (CHR ''$'') (Hash_Password A salt pw) = [[], ''argon2id'', ''v=19'', ''m=65536,t=3,p=2'', std64 salt, std64 ?k]"
  proof -
    have "Hash_Password A salt pw = join [CHR ''$''] [[], ''argon2id'', ''v=19'', ''m=65536,t=3,p=2'', std64 salt, std64 ?k]"
      by (simp add: Hash_Password_def)
    moreover have "split_on (CHR ''$'') (join [CHR ''$''] [[], ''argon2id'', ''v=19'', ''m=65536,t=3,p=2'', std64 salt, std64 ?k]) =
        [[], ''argon2id'', ''v=19'', ''m=65536,t=3,p=2'', std64 salt, std64 ?k]"
      by (rule split_on_join) (simp_all add: std64_no_dollar)
    ultimately show ?thesis by simp
  qed
  show ?thesis
    using assms(1) assms(2) [of pw salt 3 65536 2 32] by (simp add: VerifyPassword_def fields DecodeStd_std64)
qed

definition demo_authlib :: authlib where
  "demo_authlib = \<lparr>A_argon = (\<lambda>pw salt t m p n. take n (pw @ replicate n (CHR ''.''))), A_scan = (\<lambda>_. Some (65536, 3, 2)), 
     A_otp = \<lparr>T_generate = (\<lambda>i a. Some (''JBSWY3DPEHPK3PXP'', ''otpauth://totp/'' @ i)), T_validate = (\<lambda>cd secret. cd = ''123456''),
       T_key = Some, T_image = (\<lambda>k _ _. Some k), T_png = Some\<rparr>\<rparr>"

theorem VerifyPassword_hash_witness:
  "VerifyPassword demo_authlib (Hash_Password demo_authlib ''salt'' ''correct horse'') ''correct horse'' = Inr True \<and>
   VerifyPassword demo_authlib (Hash_Password demo_authlib ''salt'' ''correct horse'') ''battery staple'' = Inr False"
proof -
  have h: "A_scan demo_authlib ''m=65536,t=3,p=2'' = Some (65536, 3, 2)" "\<And>pw salt t m p n. length (A_argon demo_authlib pw salt t m p n) = n"
    by (simp_all add: demo_authlib_def)
  have "A_argon demo_authlib ''battery staple'' ''salt'' 3 65536 2 32 \<noteq> A_argon demo_authlib ''correct horse'' ''salt'' 3 65536 2 32"
    by (auto simp: demo_authlib_def take_Cons' dest!: arg_cong [of _ _ hd])
  then show ?thesis
    using VerifyPassword_hash [OF h, of "''salt''" "''correct horse''"] by simp
qed

definition demo_change :: "resp \<times> ctl" where
  "demo_change = changePassword demo_authlib (Some ([], ''correct horse battery'')) demo_sys (demo_request ''POST'') demo_principal demo_ctl"

theorem changePassword_ends_sessions_witness:
  "code (fst demo_change) = 200 \<and> fst (authenticateSession demo_sys (demo_request ''GET'') (snd demo_change)) \<in> range Inl"
proof -
  obtain r s' where d: "demo_change = (r, s')" by (metis surj_pair)
  have c: "code r = 200" and nodemo: "\<And>x. x \<in> set (users s') \<Longrightarrow> u_id x = 7"
    using d by (auto simp: demo_change_def changePassword_def decode_def Let_def demo_principal_def me_user_def user_of_def demo_user_def demo_ctl_def
      stored_hash_def find_user_def demo_sys_def hash_of_def update_user_def Sess_DestroyAll_def CheckPasswordPolicy_def with_cookie_def
      Sess_Create_def set_update_where split: prod.splits sum.splits if_splits)
  obtain q s2 where a: "authenticateSession demo_sys (demo_request ''GET'') s' = (q, s2)" by (metis surj_pair)
  have t: "S_ok demo_sys 2" "Rcookie (demo_request ''GET'') = Some ''tok''"
    by (simp_all add: demo_sys_def demo_request_def)
  have "length (hashToken id ''tok'') \<noteq> length (hashToken id (RandomToken ''rrr''))"
    by (simp add: hashToken_def hex_length RandomToken_def b64_def)
  then have ne: "hashToken (S_sha demo_sys) ''tok'' \<noteq> hashToken (S_sha demo_sys) (RandomToken (S_rand demo_sys 0))"
    by (auto simp: demo_sys_def)
  have "\<not> (\<exists>p'. q = Inr p')"
  proof
    assume "\<exists>p'. q = Inr p'"
    then obtain p' where q: "q = Inr p'" by blast
    have "user p' \<noteq> None \<and> UID (the (user p')) \<noteq> UID (me_user demo_principal)"
      using changePassword_ends_sessions [OF d [unfolded demo_change_def] c, of demo_sys "demo_request ''GET''" p' s2 "''tok''"] t a ne
      by (simp add: q)
    moreover have "UID (me_user demo_principal) = 7" by (simp add: demo_principal_def me_user_def user_of_def demo_user_def)
    ultimately show False
      using authenticateSession_rights [OF a [unfolded q]] nodemo by (auto simp: session_rights_def user_of_def)
  qed
  then have "fst (authenticateSession demo_sys (demo_request ''GET'') s') \<in> range Inl" using a by (cases q) auto
  then show ?thesis using c by (simp add: d)
qed

end
