(* ===== verification/Tenant_Laws.thy ===== *)
theory Tenant_Laws
  imports Room_Api Auth_Laws
begin

text \<open>
  The laws of the tenants: the tables stay consistent (every room points to a domain and a backend
  of its own tenant), and what one tenant does is never seen by another. The contract of a handler
  is the locale \<open>tenant_handler\<close>; every handler that writes the tables is an instance.
\<close>

section \<open>The contract\<close>

definition tinv :: "tables \<Rightarrow> bool" where
  "tinv d \<longleftrightarrow> distinct (map d_id (domains d)) \<and> distinct (map b_id (backends d)) \<and>
     (\<forall>r \<in> set (rooms_t d). \<forall>i. r_domain r = Some i \<longrightarrow> (\<exists>x \<in> set (domains d). d_id x = i \<and> d_tenant x = r_tenant r)) \<and>
     (\<forall>r \<in> set (rooms_t d). \<forall>i. r_backend r = Some i \<longrightarrow> (\<exists>b \<in> set (backends d). b_id b = i \<and> b_tenant b = r_tenant r)) \<and>
     s_backend ` set (servers d) \<subseteq> b_id ` set (backends d)"

definition backend_ids :: "nat \<Rightarrow> tables \<Rightarrow> nat set" where
  "backend_ids u d = b_id ` {b \<in> set (backends d). b_tenant b = u}"

definition view :: "nat \<Rightarrow> tables \<Rightarrow> domain_row list \<times> backend_row list \<times> server_row list \<times> room_row list" where
  "view u d = (filter (\<lambda>x. d_tenant x = u) (domains d), filter (\<lambda>b. b_tenant b = u) (backends d),
     filter (\<lambda>r. s_backend r \<in> b_id ` set (filter (\<lambda>b. b_tenant b = u) (backends d))) (servers d), filter (\<lambda>r. r_tenant r = u) (rooms_t d))"

definition fresh_id :: "nat \<Rightarrow> tables \<Rightarrow> bool" where
  "fresh_id i d \<longleftrightarrow> i \<notin> d_id ` set (domains d) \<and> i \<notin> b_id ` set (backends d)"

lemma tinvD:
  assumes "tinv d"
  shows "distinct (map d_id (domains d))" "distinct (map b_id (backends d))"
    "\<And>r i. r \<in> set (rooms_t d) \<Longrightarrow> r_domain r = Some i \<Longrightarrow> \<exists>x \<in> set (domains d). d_id x = i \<and> d_tenant x = r_tenant r"
    "\<And>r i. r \<in> set (rooms_t d) \<Longrightarrow> r_backend r = Some i \<Longrightarrow> \<exists>b \<in> set (backends d). b_id b = i \<and> b_tenant b = r_tenant r"
    "\<And>r. r \<in> set (servers d) \<Longrightarrow> s_backend r \<in> b_id ` set (backends d)"
  using assms by (auto simp: tinv_def)

lemma tinvI:
  assumes "distinct (map d_id (domains d))" "distinct (map b_id (backends d))"
    "\<And>r i. r \<in> set (rooms_t d) \<Longrightarrow> r_domain r = Some i \<Longrightarrow> \<exists>x \<in> set (domains d). d_id x = i \<and> d_tenant x = r_tenant r"
    "\<And>r i. r \<in> set (rooms_t d) \<Longrightarrow> r_backend r = Some i \<Longrightarrow> \<exists>b \<in> set (backends d). b_id b = i \<and> b_tenant b = r_tenant r"
    "\<And>r. r \<in> set (servers d) \<Longrightarrow> s_backend r \<in> b_id ` set (backends d)"
  shows "tinv d"
  using assms by (auto simp: tinv_def)

text \<open>What an operation of the tenant \<open>t\<close> on the tables must do.\<close>

definition apart :: "nat \<Rightarrow> tables \<Rightarrow> tables \<Rightarrow> bool" where
  "apart t d d' \<longleftrightarrow> tinv d' \<and> (\<forall>u. u \<noteq> t \<longrightarrow> view u d' = view u d)"

lemma apart_refl: "tinv d \<Longrightarrow> apart t d d"
  by (simp add: apart_def)

locale tenant_handler =
  fixes h :: "'k sys \<Rightarrow> request \<Rightarrow> principal \<Rightarrow> ctl \<Rightarrow> resp \<times> ctl"
  assumes own: "tinv (db s) \<Longrightarrow> fresh_id (S_id E 0) (db s) \<Longrightarrow> tenantID p = Some t \<Longrightarrow> apart t (db s) (db (snd (h E rq p s)))"
begin

lemma keeps: "tinv (db s) \<Longrightarrow> fresh_id (S_id E 0) (db s) \<Longrightarrow> tenantID p = Some t \<Longrightarrow> tinv (db (snd (h E rq p s)))"
  using own by (simp add: apart_def)

lemma unseen: "tinv (db s) \<Longrightarrow> fresh_id (S_id E 0) (db s) \<Longrightarrow> tenantID p = Some t \<Longrightarrow> u \<noteq> t \<Longrightarrow> view u (db (snd (h E rq p s))) = view u (db s)"
  using own by (simp add: apart_def)

end

section \<open>Domains\<close>

lemma kicked_db [simp]: "db (kicked s) = db s"
  by (simp add: kicked_def)

lemma filter_append_none: "\<not> P x \<Longrightarrow> filter P (xs @ [x]) = filter P xs"
  by simp

lemma find_domainD: "find_domain t f d = Some x \<Longrightarrow> x \<in> set (domains d) \<and> d_tenant x = t \<and> d_fqdn x = f"
  by (auto simp: find_domain_def dest!: find_mem)

lemma find_backendD: "find_backend t n d = Some b \<Longrightarrow> b \<in> set (backends d) \<and> b_tenant b = t \<and> b_name b = n"
  by (auto simp: find_backend_def dest!: find_mem)

lemma tid_Some: "tenantID p = Some t \<Longrightarrow> tid p = t"
  by (simp add: tid_def)

lemma insert_domain_apart:
  assumes I: "tinv d" and F: "fresh_id i d" and r: "insert_domain ok i t now f m tls d = (r, d')"
  shows "apart t d d'"
proof (cases r)
  case (Inl e)
  then show ?thesis using r apart_refl [OF I] by (auto simp: insert_domain_def split: if_splits)
next
  case (Inr x)
  then have d': "d' = d\<lparr>domains := domains d @ [\<lparr>d_id = i, d_fqdn = f, d_mode = m, d_tenant = t, d_tls = tls, d_created = now\<rparr>]\<rparr>"
    using r by (auto simp: insert_domain_def split: if_splits)
  have "tinv d'" unfolding d' by (rule tinvI) (use tinvD [OF I] F in \<open>fastforce simp: fresh_id_def\<close>)+
  then show ?thesis by (simp add: apart_def view_def d')
qed

interpretation create_domain: tenant_handler "createDomain i" for i
proof
  fix s :: ctl and E :: "'a sys" and p :: principal and rq :: request and t
  assume a: "tinv (db s)" "fresh_id (S_id E 0) (db s)" "tenantID p = Some t"
  show "apart t (db s) (db (snd (createDomain i E rq p s)))"
    using insert_domain_apart [OF a(1,2)] apart_refl [OF a(1)] tid_Some [OF a(3)]
    by (auto simp: createDomain_def decode_def Let_def split: option.splits prod.splits sum.splits)
qed

lemma filter_map_same:
  assumes "\<And>r. r \<in> set rs \<Longrightarrow> P (f r) = P r" and "\<And>r. r \<in> set rs \<Longrightarrow> P r \<Longrightarrow> f r = r"
  shows "filter P (map f rs) = filter P rs"
  using assms by (induction rs) auto

lemma filter_keep: "(\<And>x. x \<in> set xs \<Longrightarrow> P x \<Longrightarrow> Q x) \<Longrightarrow> filter P (filter Q xs) = filter P xs"
  by (induction xs) auto

lemma distinct_key: "distinct (map f xs) \<Longrightarrow> x \<in> set xs \<Longrightarrow> y \<in> set xs \<Longrightarrow> f x = f y \<Longrightarrow> x = y"
  by (auto simp: distinct_map inj_on_def)

lemma distinct_map_filter': "distinct (map f xs) \<Longrightarrow> distinct (map f (filter P xs))"
  by (simp add: distinct_map inj_on_def)

lemma drop_domain_apart:
  assumes I: "tinv d" and x: "x \<in> set (domains d)" "d_tenant x = t"
  shows "apart t d (drop_domain x d)"
proof -
  let ?f = "\<lambda>r. if r_domain r = Some (d_id x) then r\<lparr>r_domain := None\<rparr> else r"
  have uniq: "y = x" if "y \<in> set (domains d)" "d_id y = d_id x" for y
    using distinct_key [OF tinvD(1) [OF I] that(1) x(1) that(2)] .
  have "tinv (drop_domain x d)"
  proof (rule tinvI)
    show "distinct (map d_id (domains (drop_domain x d)))"
      using distinct_map_filter' [OF tinvD(1) [OF I]] by (simp add: drop_domain_def)
    fix r i
    assume "r \<in> set (rooms_t (drop_domain x d))" "r_domain r = Some i"
    then have "r \<in> set (rooms_t d)" "i \<noteq> d_id x" "r_domain r = Some i" by (auto simp: drop_domain_def split: if_splits)
    then show "\<exists>y \<in> set (domains (drop_domain x d)). d_id y = i \<and> d_tenant y = r_tenant r"
      using tinvD(3) [OF I, of r i] by (auto simp: drop_domain_def)
  next
    fix r i
    assume "r \<in> set (rooms_t (drop_domain x d))" "r_backend r = Some i"
    then obtain r0 where "r0 \<in> set (rooms_t d)" "r_backend r0 = Some i" "r_tenant r0 = r_tenant r"
      by (auto simp: drop_domain_def split: if_splits)
    then show "\<exists>b \<in> set (backends (drop_domain x d)). b_id b = i \<and> b_tenant b = r_tenant r"
      using tinvD(4) [OF I, of r0 i] by (auto simp: drop_domain_def)
  qed (use tinvD [OF I] in \<open>auto simp: drop_domain_def\<close>)
  moreover have "view u (drop_domain x d) = view u d" if "u \<noteq> t" for u
  proof -
    have "filter (\<lambda>y. d_tenant y = u) (filter (\<lambda>y. d_id y \<noteq> d_id x) (domains d)) = filter (\<lambda>y. d_tenant y = u) (domains d)"
      by (rule filter_keep) (use uniq x(2) that in auto)
    moreover have "filter (\<lambda>r. r_tenant r = u) (map ?f (rooms_t d)) = filter (\<lambda>r. r_tenant r = u) (rooms_t d)"
    proof (rule filter_map_same)
      fix r
      assume r: "r \<in> set (rooms_t d)" "r_tenant r = u"
      have "r_domain r \<noteq> Some (d_id x)"
      proof
        assume "r_domain r = Some (d_id x)"
        then obtain y where "y \<in> set (domains d)" "d_id y = d_id x" "d_tenant y = u" using tinvD(3) [OF I r(1)] r(2) by auto
        then show False using uniq x(2) that by auto
      qed
      then show "?f r = r" by simp
    qed simp
    ultimately show ?thesis by (simp add: view_def drop_domain_def)
  qed
  ultimately show ?thesis by (simp add: apart_def)
qed

interpretation delete_domain: tenant_handler deleteDomain
proof
  fix s :: ctl and E :: "'a sys" and p :: principal and rq :: request and t
  assume a: "tinv (db s)" "fresh_id (S_id E 0) (db s)" "tenantID p = Some t"
  show "apart t (db s) (db (snd (deleteDomain E rq p s)))"
    using drop_domain_apart [OF a(1)] apart_refl [OF a(1)] tid_Some [OF a(3)]
    by (auto simp: deleteDomain_def dest!: find_domainD split: option.splits)
qed

section \<open>Backends\<close>

lemma insert_servers_mem:
  "insert_servers ok k b i vs rs = Inr rs' \<Longrightarrow> \<exists>new. rs' = rs @ new \<and> (\<forall>r \<in> set new. s_backend r = b)"
proof (induction ok k b i vs rs rule: insert_servers.induct)
  case (2 ok k b i v vs rs)
  then obtain new where "rs' = (rs @ [server_row_of b i v]) @ new" "\<forall>r \<in> set new. s_backend r = b"
    by (auto simp: Let_def split: if_splits)
  then show ?case by (intro exI [of _ "server_row_of b i v # new"]) (simp add: server_row_of_def)
qed simp

lemma backend_tx_apart:
  assumes I: "tinv d" and F: "fresh_id i d" and tx: "backend_tx ok i t x d = Inr d'"
  shows "apart t d d'"
proof -
  define old where "old = find_backend t (BkName x) d"
  define b where "b = (case old of None \<Rightarrow> i | Some y \<Rightarrow> b_id y)"
  define bs where "bs = (case old of None \<Rightarrow> backends d @ [\<lparr>b_id = i, b_tenant = t, b_name = BkName x, b_balance = BkBalance x, b_check = BkCheck x\<rparr>]
      | Some y \<Rightarrow> update_where (\<lambda>z. b_id z = b_id y) (\<lambda>z. z\<lparr>b_balance := BkBalance x, b_check := BkCheck x\<rparr>) (backends d))"
  obtain rs where rs: "insert_servers ok 3 b 0 (BkServers x) (filter (\<lambda>r. s_backend r \<noteq> b) (servers d)) = Inr rs" and d': "d' = d\<lparr>backends := bs, servers := rs\<rparr>"
    using tx by (auto simp: backend_tx_def Let_def old_def [symmetric] b_def bs_def split: if_splits sum.splits)
  obtain new where new: "rs = filter (\<lambda>r. s_backend r \<noteq> b) (servers d) @ new" "\<forall>r \<in> set new. s_backend r = b"
    using insert_servers_mem [OF rs] by blast
  have old: "old = Some y \<Longrightarrow> y \<in> set (backends d) \<and> b_tenant y = t" for y
    using find_backendD by (auto simp: old_def)
  have keys: "map (\<lambda>z. (b_id z, b_tenant z)) bs = map (\<lambda>z. (b_id z, b_tenant z)) (backends d) @ (if old = None then [(i, t)] else [])"
    by (auto simp: bs_def update_where_def split: option.split)
  have kset: "(\<lambda>z. (b_id z, b_tenant z)) ` set bs = (\<lambda>z. (b_id z, b_tenant z)) ` set (backends d) \<union> (if old = None then {(i, t)} else {})"
    using arg_cong [OF keys, of set] by (cases old) simp_all
  have ids: "map b_id bs = map b_id (backends d) @ (if old = None then [i] else [])"
    using arg_cong [OF keys, of "map fst"] by (simp add: comp_def split: if_splits)
  have bt: "(b, t) \<in> (\<lambda>z. (b_id z, b_tenant z)) ` set bs"
    unfolding kset b_def using old by (cases old) force+
  have "tinv d'"
  proof (rule tinvI)
    show "distinct (map b_id (backends d'))" using ids tinvD(2) [OF I] F by (auto simp: d' fresh_id_def)
    show "\<exists>y \<in> set (backends d'). b_id y = j \<and> b_tenant y = r_tenant r" if r: "r \<in> set (rooms_t d')" "r_backend r = Some j" for r j
    proof -
      have "(j, r_tenant r) \<in> (\<lambda>z. (b_id z, b_tenant z)) ` set (backends d)" using tinvD(4) [OF I, of r j] r by (force simp: d')
      then have "(j, r_tenant r) \<in> (\<lambda>z. (b_id z, b_tenant z)) ` set bs" unfolding kset by blast
      then show ?thesis by (auto simp: d')
    qed
    show "s_backend r \<in> b_id ` set (backends d')" if r: "r \<in> set (servers d')" for r
    proof (cases "r \<in> set (servers d)")
      case True
      then have "s_backend r \<in> set (map b_id bs)" using tinvD(5) [OF I] unfolding ids by auto
      then show ?thesis by (simp add: d')
    next
      case False
      then have "s_backend r = b" using r new by (auto simp: d')
      then show ?thesis using bt by (force simp: d')
    qed
  qed (use tinvD [OF I] in \<open>auto simp: d'\<close>)
  moreover have "view u d' = view u d" if "u \<noteq> t" for u
  proof -
    have fb: "filter (\<lambda>z. b_tenant z = u) bs = filter (\<lambda>z. b_tenant z = u) (backends d)"
    proof (cases old)
      case None
      then show ?thesis using that by (simp add: bs_def)
    next
      case (Some y)
      have "b_tenant z \<noteq> u" if "z \<in> set (backends d)" "b_id z = b_id y" for z
        using distinct_key [OF tinvD(2) [OF I] that(1) _ that(2)] old [OF Some] \<open>u \<noteq> t\<close> by auto
      then show ?thesis unfolding bs_def Some update_where_def option.case by (intro filter_map_same) auto
    qed
    have nb: "b \<notin> b_id ` set (filter (\<lambda>z. b_tenant z = u) (backends d))"
    proof (cases old)
      case None
      then show ?thesis using F by (auto simp: b_def fresh_id_def)
    next
      case (Some y)
      have "b_id z \<noteq> b_id y" if "z \<in> set (backends d)" "b_tenant z = u" for z
        using distinct_key [OF tinvD(2) [OF I] that(1), of y] old [OF Some] that(2) \<open>u \<noteq> t\<close> by auto
      then show ?thesis by (simp add: b_def Some image_iff) metis
    qed
    let ?P = "\<lambda>r. s_backend r \<in> b_id ` set (filter (\<lambda>z. b_tenant z = u) (backends d))"
    have "filter ?P new = []" using new(2) nb by (auto simp: filter_empty_conv)
    moreover have "filter ?P (filter (\<lambda>r. s_backend r \<noteq> b) (servers d)) = filter ?P (servers d)"
      by (rule filter_keep) (use nb in auto)
    ultimately have "filter ?P rs = filter ?P (servers d)" unfolding new(1) by (simp del: set_filter filter_filter)
    then show ?thesis unfolding view_def d' by (simp add: fb del: set_filter filter_filter)
  qed
  ultimately show ?thesis by (simp add: apart_def)
qed

interpretation upsert_backend: tenant_handler "upsertBackend js i" for js i
proof
  fix s :: ctl and E :: "'a sys" and p :: principal and rq :: request and t
  assume a: "tinv (db s)" "fresh_id (S_id E 0) (db s)" "tenantID p = Some t"
  show "apart t (db s) (db (snd (upsertBackend js i E rq p s)))"
  proof (cases i)
    case None
    then show ?thesis using apart_refl [OF a(1)] by (simp add: upsertBackend_def decode_def)
  next
    case (Some i0)
    define i1 where "i1 = (if Rpath rq ''name'' \<noteq> [] then i0\<lparr>BkName := Rpath rq ''name''\<rparr> else i0)"
    define i2 where "i2 = i1\<lparr>BkBalance := (if BkBalance i1 = [] then ''roundrobin'' else BkBalance i1), BkCheck := (if BkCheck i1 = [] then ''/'' else BkCheck i1)\<rparr>"
    have e: "upsertBackend js i E rq p s = (if \<not> slugRe (BkName i1) then (HErr 400 ''invalid'', s)
        else if BkServers i2 = [] then (HErr 400 ''invalid'', s)
        else case backend_tx (S_ok E) (S_id E 0) t i2 (db s) of Inl e \<Rightarrow> (dbErr e, s)
          | Inr d \<Rightarrow> (JSON 200 (JObj [(''name'', JStr (BkName i2)), (''haproxy_name'', JStr (BackendName (tenant p) (BkName i2))),
               (''servers'', JInt (int (length (BkServers i2))))]),
             kicked (audit (S_ok E (4 + length (BkServers i2))) p ''backend.upsert'' (js i2) (s\<lparr>db := d\<rparr>))))"
      unfolding upsertBackend_def decode_def Some option.case Let_def i1_def [symmetric] i2_def [symmetric] tid_Some [OF a(3)] ..
    show ?thesis
      using apart_refl [OF a(1)] backend_tx_apart [OF a(1,2)] unfolding e by (simp split: sum.split)
  qed
qed

lemma drop_backend_apart:
  assumes I: "tinv d" and b: "b \<in> set (backends d)" "b_tenant b = t"
  shows "apart t d (drop_backend b d)"
proof -
  let ?f = "\<lambda>r. if r_backend r = Some (b_id b) then r\<lparr>r_backend := None\<rparr> else r"
  have uniq: "y = b" if "y \<in> set (backends d)" "b_id y = b_id b" for y
    using distinct_key [OF tinvD(2) [OF I] that(1) b(1) that(2)] .
  have "tinv (drop_backend b d)"
  proof (rule tinvI)
    show "distinct (map b_id (backends (drop_backend b d)))"
      using distinct_map_filter' [OF tinvD(2) [OF I]] by (simp add: drop_backend_def)
    fix r i
    assume "r \<in> set (rooms_t (drop_backend b d))" "r_domain r = Some i"
    then obtain r0 where "r0 \<in> set (rooms_t d)" "r_domain r0 = Some i" "r_tenant r0 = r_tenant r"
      by (auto simp: drop_backend_def split: if_splits)
    then show "\<exists>y \<in> set (domains (drop_backend b d)). d_id y = i \<and> d_tenant y = r_tenant r"
      using tinvD(3) [OF I, of r0 i] by (auto simp: drop_backend_def)
  next
    fix r i
    assume "r \<in> set (rooms_t (drop_backend b d))" "r_backend r = Some i"
    then have "r \<in> set (rooms_t d)" "i \<noteq> b_id b" "r_backend r = Some i" by (auto simp: drop_backend_def split: if_splits)
    then show "\<exists>y \<in> set (backends (drop_backend b d)). b_id y = i \<and> b_tenant y = r_tenant r"
      using tinvD(4) [OF I, of r i] by (auto simp: drop_backend_def)
  next
    fix r
    assume "r \<in> set (servers (drop_backend b d))"
    then have "r \<in> set (servers d)" "s_backend r \<noteq> b_id b" by (auto simp: drop_backend_def)
    then show "s_backend r \<in> b_id ` set (backends (drop_backend b d))"
      using tinvD(5) [OF I, of r] by (auto simp: drop_backend_def)
  qed (use tinvD [OF I] in \<open>auto simp: drop_backend_def\<close>)
  moreover have "view u (drop_backend b d) = view u d" if "u \<noteq> t" for u
  proof -
    have fb: "filter (\<lambda>y. b_tenant y = u) (filter (\<lambda>y. b_id y \<noteq> b_id b) (backends d)) = filter (\<lambda>y. b_tenant y = u) (backends d)"
      by (rule filter_keep) (use uniq b(2) that in auto)
    have nb: "b_id b \<notin> b_id ` set (filter (\<lambda>y. b_tenant y = u) (backends d))"
      using uniq b(2) that by auto
    have fs: "filter (\<lambda>r. s_backend r \<in> b_id ` set (filter (\<lambda>y. b_tenant y = u) (backends d))) (filter (\<lambda>r. s_backend r \<noteq> b_id b) (servers d)) =
        filter (\<lambda>r. s_backend r \<in> b_id ` set (filter (\<lambda>y. b_tenant y = u) (backends d))) (servers d)"
      by (rule filter_keep) (use nb in auto)
    have "filter (\<lambda>r. r_tenant r = u) (map ?f (rooms_t d)) = filter (\<lambda>r. r_tenant r = u) (rooms_t d)"
    proof (rule filter_map_same)
      fix r
      assume r: "r \<in> set (rooms_t d)" "r_tenant r = u"
      have "r_backend r \<noteq> Some (b_id b)"
      proof
        assume "r_backend r = Some (b_id b)"
        then obtain y where "y \<in> set (backends d)" "b_id y = b_id b" "b_tenant y = u" using tinvD(4) [OF I r(1)] r(2) by auto
        then show False using uniq b(2) that by auto
      qed
      then show "?f r = r" by simp
    qed simp
    then show ?thesis unfolding view_def drop_backend_def by (simp add: fb fs del: set_filter filter_filter)
  qed
  ultimately show ?thesis by (simp add: apart_def)
qed

interpretation delete_backend: tenant_handler deleteBackend
proof
  fix s :: ctl and E :: "'a sys" and p :: principal and rq :: request and t
  assume a: "tinv (db s)" "fresh_id (S_id E 0) (db s)" "tenantID p = Some t"
  show "apart t (db s) (db (snd (deleteBackend E rq p s)))"
    using drop_backend_apart [OF a(1)] apart_refl [OF a(1)] tid_Some [OF a(3)]
    by (auto simp: deleteBackend_def dest!: find_backendD split: option.splits)
qed

section \<open>Rooms\<close>

text \<open>A change of the rooms that only concerns the tenant \<open>t\<close>.\<close>

lemma rooms_apart:
  assumes I: "tinv d"
    and o: "\<And>u. u \<noteq> t \<Longrightarrow> filter (\<lambda>r. r_tenant r = u) rs = filter (\<lambda>r. r_tenant r = u) (rooms_t d)"
    and dm: "\<And>r i. r \<in> set rs \<Longrightarrow> r_tenant r = t \<Longrightarrow> r_domain r = Some i \<Longrightarrow> \<exists>x \<in> set (domains d). d_id x = i \<and> d_tenant x = t"
    and bk: "\<And>r i. r \<in> set rs \<Longrightarrow> r_tenant r = t \<Longrightarrow> r_backend r = Some i \<Longrightarrow> \<exists>b \<in> set (backends d). b_id b = i \<and> b_tenant b = t"
  shows "apart t d (d\<lparr>rooms_t := rs\<rparr>)"
proof -
  have mem: "r \<in> set (rooms_t d)" if r: "r \<in> set rs" "r_tenant r \<noteq> t" for r
  proof -
    have "r \<in> set (filter (\<lambda>x. r_tenant x = r_tenant r) rs)" using r(1) by simp
    then show ?thesis unfolding o [OF r(2)] by simp
  qed
  have "tinv (d\<lparr>rooms_t := rs\<rparr>)"
  proof (rule tinvI)
    fix r i
    assume "r \<in> set (rooms_t (d\<lparr>rooms_t := rs\<rparr>))" "r_domain r = Some i"
    then show "\<exists>x \<in> set (domains (d\<lparr>rooms_t := rs\<rparr>)). d_id x = i \<and> d_tenant x = r_tenant r"
      using dm [of r i] mem [of r] tinvD(3) [OF I, of r i] by (cases "r_tenant r = t") simp_all
  next
    fix r i
    assume "r \<in> set (rooms_t (d\<lparr>rooms_t := rs\<rparr>))" "r_backend r = Some i"
    then show "\<exists>b \<in> set (backends (d\<lparr>rooms_t := rs\<rparr>)). b_id b = i \<and> b_tenant b = r_tenant r"
      using bk [of r i] mem [of r] tinvD(4) [OF I, of r i] by (cases "r_tenant r = t") simp_all
  qed (use tinvD [OF I] in auto)
  then show ?thesis using o by (simp add: apart_def view_def)
qed

lemma save_room_apart:
  assumes I: "tinv d" and r: "save_room ok f now t i dm bk op d = (r, d')"
    and dm: "\<And>j. dm = Some j \<Longrightarrow> \<exists>x \<in> set (domains d). d_id x = j \<and> d_tenant x = t"
    and bk: "\<And>j. bk = Some j \<Longrightarrow> \<exists>b \<in> set (backends d). b_id b = j \<and> b_tenant b = t"
  shows "apart t d d'"
proof (cases r)
  case (Inl e)
  then show ?thesis using r apart_refl [OF I] by (auto simp: save_room_def Let_def split: if_splits)
next
  case (Inr x)
  define k :: "room_row \<Rightarrow> nat \<times> string" where "k = (\<lambda>r. (r_tenant r, r_slug r))"
  obtain g new where e: "d' = d\<lparr>rooms_t := upsert k (t, ISlug i) g new (rooms_t d)\<rparr>"
    and g: "\<And>r. k (g r) = k r" "\<And>r. r_domain (g r) = dm" "\<And>r. r_backend (g r) = bk"
    and new: "k new = (t, ISlug i)" "r_domain new = dm" "r_backend new = bk"
    using r Inr by (auto simp: save_room_def Let_def k_def split: if_splits)
  have gt: "r_tenant (g r) = r_tenant r" for r using g(1) [of r] by (simp add: k_def)
  have nt: "r_tenant new = t" using new(1) by (simp add: k_def)
  let ?rs = "upsert k (t, ISlug i) g new (rooms_t d)"
  have o: "filter (\<lambda>r. r_tenant r = u) ?rs = filter (\<lambda>r. r_tenant r = u) (rooms_t d)" if "u \<noteq> t" for u
  proof (cases "(t, ISlug i) \<in> k ` set (rooms_t d)")
    case True
    then show ?thesis unfolding upsert_def update_where_def
      by (simp, intro filter_map_same) (use gt that in \<open>auto simp: k_def\<close>)
  next
    case False
    then show ?thesis using nt that by (simp add: upsert_def)
  qed
  have m: "r \<in> set (rooms_t d) \<or> (r_domain r = dm \<and> r_backend r = bk)" if "r \<in> set ?rs" for r
    using that new g by (auto simp: upsert_def set_update_where split: if_splits)
  show ?thesis unfolding e
  proof (rule rooms_apart [OF I o])
    fix r j
    assume "r \<in> set ?rs" "r_tenant r = t" "r_domain r = Some j"
    then show "\<exists>x \<in> set (domains d). d_id x = j \<and> d_tenant x = t" using m [of r] dm tinvD(3) [OF I, of r j] by auto
  next
    fix r j
    assume "r \<in> set ?rs" "r_tenant r = t" "r_backend r = Some j"
    then show "\<exists>b \<in> set (backends d). b_id b = j \<and> b_tenant b = t" using m [of r] bk tinvD(4) [OF I, of r j] by auto
  qed
qed

interpretation delete_room: tenant_handler deleteRoom
proof
  fix s :: ctl and E :: "'a sys" and p :: principal and rq :: request and t
  assume a: "tinv (db s)" "fresh_id (S_id E 0) (db s)" "tenantID p = Some t"
  let ?rs = "filter (\<lambda>x. \<not> (r_tenant x = t \<and> r_slug x = Rpath rq ''slug'')) (rooms_t (db s))"
  have "apart t (db s) (db s\<lparr>rooms_t := ?rs\<rparr>)"
    by (rule rooms_apart [OF a(1)]) (use tinvD(3,4) [OF a(1)] in \<open>auto simp del: filter_filter intro!: filter_keep\<close>)
  then show "apart t (db s) (db (snd (deleteRoom E rq p s)))"
    using apart_refl [OF a(1)] tid_Some [OF a(3)] by (simp add: deleteRoom_def split: option.split)
qed

lemma upsertRoom_db:
  assumes "upsertRoom rfc js (Some i0) E rq p s = (r, s')"
  shows "db s' = db s \<or> (\<exists>ok i dm bk op q. save_room ok (S_id E 0) (S_now E) (tid p) i dm bk op (db s) = (q, db s') \<and>
     (\<forall>j. dm = Some j \<longrightarrow> (\<exists>f x. find_domain (tid p) f (db s) = Some x \<and> d_id x = j)) \<and>
     (\<forall>j. bk = Some j \<longrightarrow> (\<exists>n b. find_backend (tid p) n (db s) = Some b \<and> b_id b = j)))"
proof -
  define i1 where "i1 = (if Rpath rq ''slug'' \<noteq> [] then i0\<lparr>ISlug := Rpath rq ''slug''\<rparr> else i0)"
  define i2 where "i2 = room_defaults i1"
  define dm where "dm = (if IDomain i2 = [] then None else find_domain (tid p) (to_lower (S_uni E) (IDomain i2)) (db s))"
  define bk where "bk = (if IBackend i2 = [] then None else find_backend (tid p) (IBackend i2) (db s))"
  define op where "op = (case IOpensAt i2 of None \<Rightarrow> None | Some t \<Rightarrow> if t = [] then None else Some t)"
  obtain q d where q: "save_room (S_ok E 2) (S_id E 0) (S_now E) (tid p) (clean_theme i2) (map_option d_id dm) (map_option b_id bk)
      (case op of None \<Rightarrow> None | Some t \<Rightarrow> rfc t) (db s) = (q, d)" by (metis surj_pair)
  have "db s' = db s \<or> db s' = d"
    using assms unfolding upsertRoom_def decode_def option.case Let_def i1_def [symmetric] i2_def [symmetric] dm_def [symmetric] bk_def [symmetric]
      op_def [symmetric] q prod.case
    by (auto split: if_splits sum.splits)
  moreover have "\<forall>j. map_option d_id dm = Some j \<longrightarrow> (\<exists>f x. find_domain (tid p) f (db s) = Some x \<and> d_id x = j)"
    by (auto simp: dm_def)
  moreover have "\<forall>j. map_option b_id bk = Some j \<longrightarrow> (\<exists>n b. find_backend (tid p) n (db s) = Some b \<and> b_id b = j)"
    by (auto simp: bk_def)
  ultimately show ?thesis using q by blast
qed

interpretation upsert_room: tenant_handler "upsertRoom rfc js i" for rfc js i
proof
  fix s :: ctl and E :: "'a sys" and p :: principal and rq :: request and t
  assume a: "tinv (db s)" "fresh_id (S_id E 0) (db s)" "tenantID p = Some t"
  show "apart t (db s) (db (snd (upsertRoom rfc js i E rq p s)))"
  proof (cases i)
    case None
    then show ?thesis using apart_refl [OF a(1)] by (simp add: upsertRoom_def decode_def)
  next
    case (Some i0)
    obtain r s' where e: "upsertRoom rfc js (Some i0) E rq p s = (r, s')" by (metis surj_pair)
    show ?thesis
      using upsertRoom_db [OF e]
    proof (elim disjE exE conjE)
      assume "db s' = db s"
      then show ?thesis using apart_refl [OF a(1)] by (simp add: Some e)
    next
      fix ok x dm bk op q
      assume q: "save_room ok (S_id E 0) (S_now E) (tid p) x dm bk op (db s) = (q, db s')"
        and dm: "\<forall>j. dm = Some j \<longrightarrow> (\<exists>f x. find_domain (tid p) f (db s) = Some x \<and> d_id x = j)"
        and bk: "\<forall>j. bk = Some j \<longrightarrow> (\<exists>n b. find_backend (tid p) n (db s) = Some b \<and> b_id b = j)"
      have "apart t (db s) (db s')"
      proof (rule save_room_apart [OF a(1) q [unfolded tid_Some [OF a(3)]]])
        show "\<exists>x \<in> set (domains (db s)). d_id x = j \<and> d_tenant x = t" if "dm = Some j" for j
          using dm that tid_Some [OF a(3)] find_domainD by blast
        show "\<exists>b \<in> set (backends (db s)). b_id b = j \<and> b_tenant b = t" if "bk = Some j" for j
          using bk that tid_Some [OF a(3)] find_backendD by blast
      qed
      then show ?thesis by (simp add: Some e)
    qed
  qed
qed

lemma run_once_db [simp]: "db (run_once once s) = db s"
  by (simp add: run_once_def split: prod.split)

lemma update_rooms_apart:
  assumes I: "tinv d" and P: "\<And>r. P r \<Longrightarrow> r_tenant r = t"
    and f: "\<And>r. r_tenant (f r) = r_tenant r" "\<And>r. r_domain (f r) = r_domain r" "\<And>r. r_backend (f r) = r_backend r"
  shows "apart t d (d\<lparr>rooms_t := update_where P f (rooms_t d)\<rparr>)"
proof (rule rooms_apart [OF I])
  fix u :: nat
  assume "u \<noteq> t"
  then show "filter (\<lambda>r. r_tenant r = u) (update_where P f (rooms_t d)) = filter (\<lambda>r. r_tenant r = u) (rooms_t d)"
    unfolding update_where_def by (intro filter_map_same) (use P f(1) in auto)
next
  fix r i
  assume "r \<in> set (update_where P f (rooms_t d))" "r_tenant r = t" "r_domain r = Some i"
  then obtain r0 where "r0 \<in> set (rooms_t d)" "r_tenant r0 = t" "r_domain r0 = Some i"
    using f(1,2) by (auto simp: set_update_where split: if_splits)
  then show "\<exists>x \<in> set (domains d). d_id x = i \<and> d_tenant x = t" using tinvD(3) [OF I, of r0 i] by simp
next
  fix r i
  assume "r \<in> set (update_where P f (rooms_t d))" "r_tenant r = t" "r_backend r = Some i"
  then obtain r0 where "r0 \<in> set (rooms_t d)" "r_tenant r0 = t" "r_backend r0 = Some i"
    using f(1,3) by (auto simp: set_update_where split: if_splits)
  then show "\<exists>b \<in> set (backends d). b_id b = i \<and> b_tenant b = t" using tinvD(4) [OF I, of r0 i] by simp
qed

interpretation room_state: tenant_handler "roomState once i" for once i
proof
  fix s :: ctl and E :: "'a sys" and p :: principal and rq :: request and t
  assume a: "tinv (db s)" "fresh_id (S_id E 0) (db s)" "tenantID p = Some t"
  let ?mine = "\<lambda>r. r_tenant r = t \<and> r_slug r = Rpath rq ''slug''"
  have 1: "apart t (db s) (db s\<lparr>rooms_t := update_where (\<lambda>r. ?mine r \<and> 0 < r_auto_on r) (\<lambda>r. r\<lparr>r_state := ''auto'', r_updated := S_now E\<rparr>) (rooms_t (db s))\<rparr>)"
    by (rule update_rooms_apart [OF a(1)]) auto
  have 2: "apart t (db s) (db s\<lparr>rooms_t := update_where ?mine (\<lambda>r. r\<lparr>r_state := st, r_effective := st, r_updated := S_now E\<rparr>) (rooms_t (db s))\<rparr>)" for st
    by (rule update_rooms_apart [OF a(1)]) auto
  show "apart t (db s) (db (snd (roomState once i E rq p s)))"
  proof (cases i)
    case None
    then show ?thesis using apart_refl [OF a(1)] by (simp add: roomState_def decode_def)
  next
    case (Some st)
    then show ?thesis
      unfolding roomState_def decode_def Some option.case Let_def tid_Some [OF a(3)]
      using 1 2 apart_refl [OF a(1)] by (cases "st = ''auto''") simp_all
  qed
qed

section \<open>Any sequence of requests\<close>

text \<open>The requests of the tenants that write the tables, and the handler that the routes give each.\<close>

datatype call =
    CreateDomain "(string \<times> string \<times> string) option"
  | DeleteDomain
  | UpsertBackend "backendIn option"
  | DeleteBackend
  | UpsertRoom "roomIn option"
  | DeleteRoom
  | RoomState "string option"

fun routed :: "(string \<Rightarrow> int option) \<Rightarrow> (backendIn \<Rightarrow> jv) \<Rightarrow> (roomIn \<Rightarrow> jv) \<Rightarrow> (tables \<Rightarrow> Reconciler \<times> pg \<Rightarrow> Reconciler \<times> pg) \<Rightarrow> call \<Rightarrow> 'k handler" where
  "routed rfc bj rj once (CreateDomain i) = createDomain i"
| "routed rfc bj rj once DeleteDomain = deleteDomain"
| "routed rfc bj rj once (UpsertBackend i) = upsertBackend bj i"
| "routed rfc bj rj once DeleteBackend = deleteBackend"
| "routed rfc bj rj once (UpsertRoom i) = upsertRoom rfc rj i"
| "routed rfc bj rj once DeleteRoom = deleteRoom"
| "routed rfc bj rj once (RoomState i) = roomState once i"

text \<open>A request of the tenant \<open>t\<close>; Postgres draws an identifier that no row has.\<close>

inductive served :: "nat \<Rightarrow> ctl \<Rightarrow> ctl \<Rightarrow> bool" where
  served: "tenantID p = Some t \<Longrightarrow> fresh_id (S_id E 0) (db s) \<Longrightarrow> served t s (snd (routed rfc bj rj once c (E :: string sys) rq p s))"

inductive_cases servedE: "served t s s'"

lemma served_apart:
  assumes "served t s s'" and "tinv (db s)"
  shows "apart t (db s) (db s')"
  using assms(1)
proof (rule servedE)
  fix p and E :: "string sys" and rfc bj rj once c and rq :: request
  assume e: "s' = snd (routed rfc bj rj once c E rq p s)" and h: "tenantID p = Some t" "fresh_id (S_id E 0) (db s)"
  show ?thesis unfolding e
    using create_domain.own [OF assms(2) h(2,1)] delete_domain.own [OF assms(2) h(2,1)] upsert_backend.own [OF assms(2) h(2,1)]
      delete_backend.own [OF assms(2) h(2,1)] upsert_room.own [OF assms(2) h(2,1)] delete_room.own [OF assms(2) h(2,1)] room_state.own [OF assms(2) h(2,1)]
    by (cases c) simp_all
qed

text \<open>Whatever the other tenants ask for, in any order and with any answers of Postgres, a tenant keeps its
  domains, its backends with their servers, and its rooms, unchanged and in the same order; and the tables stay
  consistent: a room only ever points to a domain and a backend of its own tenant.\<close>

theorem tenants_are_apart:
  assumes "(\<lambda>a b. \<exists>t. t \<noteq> u \<and> served t a b)\<^sup>*\<^sup>* s s'" and "tinv (db s)"
  shows "view u (db s') = view u (db s) \<and> tinv (db s')"
  using assms
proof (induction rule: rtranclp_induct)
  case (step a b)
  then obtain t where "t \<noteq> u" "served t a b" by blast
  then show ?case using step served_apart [of t a b] by (auto simp: apart_def)
qed simp

definition other_request :: request where
  "other_request = \<lparr>Rmethod = ''DELETE'', Rpath = (\<lambda>k. if k = ''slug'' then ''sale'' else if k = ''fqdn'' then ''shop.fr'' else []),
     Rhdr = (\<lambda>_. []), Rcookie = None, Rremote = []\<rparr>"

definition other_call :: "call \<Rightarrow> ctl \<Rightarrow> ctl" where
  "other_call c s = snd (routed (\<lambda>_. None) (\<lambda>_. JNull) (\<lambda>_. JNull) (\<lambda>_. id) c demo_sys other_request (nobody\<lparr>tenantID := Some 2, tenant := ''evil''\<rparr>) s)"

lemma demo_tinv: "tinv demo_db"
  by (rule tinvI) (auto simp: demo_db_def)

theorem tenants_are_apart_witness:
  "view 1 (db (other_call DeleteDomain (other_call DeleteRoom demo_ctl))) = view 1 demo_db \<and> map r_slug (rooms_t (db (other_call DeleteRoom demo_ctl))) = [''sale'']"
proof -
  have I: "tinv (db demo_ctl)" by (simp add: demo_ctl_def demo_tinv)
  have f: "fresh_id (S_id demo_sys 0) (db demo_ctl)" by (simp add: fresh_id_def demo_sys_def demo_ctl_def demo_db_def)
  have 1: "served 2 demo_ctl (other_call DeleteRoom demo_ctl)" unfolding other_call_def by (rule served [OF _ f]) simp
  have same: "db (other_call DeleteRoom demo_ctl) = db demo_ctl"
    by (simp add: other_call_def deleteRoom_def find_room_def demo_sys_def other_request_def tid_def demo_ctl_def demo_db_def)
  then have 2: "served 2 (other_call DeleteRoom demo_ctl) (other_call DeleteDomain (other_call DeleteRoom demo_ctl))"
    using f unfolding other_call_def by (intro served) simp_all
  have r: "(\<lambda>a b. \<exists>t. t \<noteq> 1 \<and> served t a b)\<^sup>*\<^sup>* demo_ctl (other_call DeleteDomain (other_call DeleteRoom demo_ctl))"
  proof (rule rtranclp.rtrancl_into_rtrancl [OF r_into_rtranclp])
    show "\<exists>t. t \<noteq> (1::nat) \<and> served t demo_ctl (other_call DeleteRoom demo_ctl)"
      by (rule exI [of _ 2]) (simp add: 1)
    show "\<exists>t. t \<noteq> (1::nat) \<and> served t (other_call DeleteRoom demo_ctl) (other_call DeleteDomain (other_call DeleteRoom demo_ctl))"
      by (rule exI [of _ 2]) (simp add: 2)
  qed
  have "map r_slug (rooms_t (db demo_ctl)) = [''sale'']" by (simp add: demo_ctl_def demo_db_def)
  moreover have "db demo_ctl = demo_db" by (simp add: demo_ctl_def)
  ultimately show ?thesis using tenants_are_apart [OF r I] same by simp
qed

end
