(* ===== verification/Control_Laws.thy ===== *)
theory Control_Laws
  imports Tenant_Laws
begin

text \<open>
  Laws of the control plane across its components: the verification of passes and the rotation of
  their key, the first start, the table of the nodes; and the executions that show where the code
  does less than it says.
\<close>

section \<open>Passes\<close>

lemma Verify_payload:
  assumes "Verify L C pem tok h now = Inr c" and "Verify L C pem' tok h' now' = Inr c'"
  shows "c = c'"
  using assms by (auto simp: Verify_def split: option.splits list.splits if_splits)

lemma first_valid_Some: "first_valid v ks e = (Some c, e') \<Longrightarrow> \<exists>k \<in> set ks. v k = Inr c"
  by (induction v ks e rule: first_valid.induct) (auto split: sum.splits)

lemma first_valid_ex: "k \<in> set ks \<Longrightarrow> v k = Inr c \<Longrightarrow> \<exists>c' e'. first_valid v ks e = (Some c', e')"
proof (induction v ks e rule: first_valid.induct)
  case (2 v x ks e)
  then show ?case by (cases "v x") auto
qed simp

definition accepted_key :: "int \<Rightarrow> key_row \<Rightarrow> bool" where
  "accepted_key now k \<longleftrightarrow> k_active k \<or> (\<exists>t. k_retired k = Some t \<and> now - 24 * 3600 < t)"

lemma pass_keys_mem: "pem \<in> set (pass_keys now d) \<longleftrightarrow> (\<exists>k \<in> set (signing_keys d). accepted_key now k \<and> k_public k = pem)"
  by (auto simp: pass_keys_def accepted_key_def image_iff split: option.splits)

definition valid_pass :: "Payload \<Rightarrow> jv" where
  "valid_pass c = JObj [(''valid'', JBool True), (''sub'', JStr (Sub c)), (''dom'', JStr (PDom c)), (''room'', JStr (Rm c)),
     (''exp'', JInt (PExp c)), (''kid'', JStr (Kid c))]"

text \<open>C7: The server says that a pass is valid only when a key that is active, or was retired less than a day
  ago, verifies it; the domain of the pass is one of the tenant that asks, its room is of that tenant, and it
  has not expired. The answer holds the claims that were signed.\<close>

theorem verifyPass_sound:
  assumes "verifyPass L C (Some (tok, host)) E rq p s = (JSON 200 (JObj ((''valid'', JBool True) # fs)), s')"
  shows "\<exists>c. \<exists>k \<in> set (signing_keys (db s)). accepted_key (S_now E) k \<and> Verify L C (k_public k) tok (to_lower (S_uni E) host) (S_now E) = Inr c \<and>
      JObj ((''valid'', JBool True) # fs) = valid_pass c \<and> S_now E < PExp c \<and>
      (\<exists>x \<in> set (domains (db s)). d_tenant x = tid p \<and> d_fqdn x = PDom c) \<and> (\<exists>r. Rm c = tenant p @ ''.'' @ r)"
proof -
  let ?v = "\<lambda>pem. Verify L C pem tok (to_lower (S_uni E) host) (S_now E)"
  obtain o' e where f: "first_valid ?v (pass_keys (S_now E) (db s)) None = (o', e)" by (metis surj_pair)
  obtain c where c: "o' = Some c" and g: "list_ex (\<lambda>x. d_tenant x = tid p \<and> d_fqdn x = PDom c) (domains (db s))" "prefix (tenant p @ ''.'') (Rm c)"
    and v: "JObj ((''valid'', JBool True) # fs) = valid_pass c"
    using assms f by (cases o') (auto simp: verifyPass_def decode_def dbErr_def HErr_def JSON_def Error_def refused_def valid_pass_def split: if_splits)
  obtain pem where pem: "pem \<in> set (pass_keys (S_now E) (db s))" "?v pem = Inr c"
    using first_valid_Some [of ?v] f c by blast
  have "S_now E < PExp c" using pem(2) by (auto simp: Verify_def split: option.splits list.splits if_splits)
  then show ?thesis using pem g v by (auto simp: pass_keys_mem list_ex_iff prefix_def)
qed

section \<open>Rotation\<close>

lemma RotateSigningKeyD:
  assumes "RotateSigningKey K E master s = (Inr y, s')"
  obtains enc where "db s' = (db s)\<lparr>signing_keys := retire (S_now E) (signing_keys (db s)) @ [new_key_row (Y_kid y) enc (Y_public y) (S_now E)]\<rparr>"
  using assms by (auto simp: RotateSigningKey_def build_key_def Let_def split: option.splits sum.splits if_splits prod.splits)

text \<open>C9: A rotation leaves one active key, the new one, and no visitor loses a pass: what an active key
  verified before is still said to be valid with the same claims during the day that follows.\<close>

theorem rotation_keeps_passes:
  assumes R: "RotateSigningKey K E master s = (Inr y, s')"
    and k: "k \<in> set (signing_keys (db s))" "k_active k" "Verify L C (k_public k) tok (to_lower (S_uni E') host) (S_now E') = Inr c"
    and soon: "S_now E' < S_now E + 24 * 3600"
    and ok: "S_ok E' 0" "S_ok E' 1"
    and mine: "\<exists>x \<in> set (domains (db s)). d_tenant x = tid p \<and> d_fqdn x = PDom c" "prefix (tenant p @ ''.'') (Rm c)"
  shows "verifyPass L C (Some (tok, host)) E' rq p s' = (JSON 200 (valid_pass c), s') \<and>
    map k_kid (filter k_active (signing_keys (db s'))) = [Y_kid y]"
proof -
  obtain enc where d: "db s' = (db s)\<lparr>signing_keys := retire (S_now E) (signing_keys (db s)) @ [new_key_row (Y_kid y) enc (Y_public y) (S_now E)]\<rparr>"
    using RotateSigningKeyD [OF R] .
  let ?v = "\<lambda>pem. Verify L C pem tok (to_lower (S_uni E') host) (S_now E')"
  have "k_public k \<in> set (pass_keys (S_now E') (db s'))"
    unfolding pass_keys_mem
    by (rule bexI [of _ "k\<lparr>k_active := False, k_retired := Some (S_now E)\<rparr>"])
       (use k soon in \<open>auto simp: d accepted_key_def retire_def set_update_where image_iff\<close>)
  then obtain c' e' where f: "first_valid ?v (pass_keys (S_now E') (db s')) None = (Some c', e')"
    using first_valid_ex [of "k_public k" _ ?v c] k(3) by blast
  then obtain pem where "?v pem = Inr c'" using first_valid_Some [OF f] by blast
  then have "c' = c" using Verify_payload k(3) by blast
  then have "verifyPass L C (Some (tok, host)) E' rq p s' = (JSON 200 (valid_pass c), s')"
    using f ok mine by (auto simp: verifyPass_def decode_def d valid_pass_def list_ex_iff)
  moreover have "filter k_active (retire (S_now E) ks) = []" for ks
    by (auto simp: retire_def set_update_where filter_empty_conv)
  then have "map k_kid (filter k_active (signing_keys (db s'))) = [Y_kid y]" by (simp add: d new_key_row_def)
  ultimately show ?thesis by blast
qed

definition demo_keylib :: keylib where
  "demo_keylib = \<lparr>K_pair = (\<lambda>_. Some (''priv'', ''pub2'')), K_coords = (\<lambda>_. Some (1, 2)), K_seal = (\<lambda>k n t. t), K_open = (\<lambda>k n t. Some t),
     K_argon = (\<lambda>s p. p), K_b64 = Some, K_std = id, K_month = ''2025-01'', K_mkdir = True, K_write = (\<lambda>_. True)\<rparr>"

definition demo_master :: string where "demo_master = replicate 32 (CHR ''m'')"

definition demo_key :: key_row where
  "demo_key = \<lparr>k_public = ''pub'', k_active = True, k_created = 0, k_retired = None, k_kid = ''k1'', k_private = []\<rparr>"

definition demo_ctl_key :: ctl where
  "demo_ctl_key = demo_ctl\<lparr>db := demo_db\<lparr>signing_keys := [demo_key], domains := [\<lparr>d_id = 3, d_fqdn = ''shop.fr'', d_mode = ''dns'', d_tenant = 1,
     d_tls = ''auto'', d_created = 0\<rparr>]\<rparr>\<rparr>"

definition demo_acme :: principal where
  "demo_acme = nobody\<lparr>tenantID := Some 1, tenant := ''acme''\<rparr>"

definition later :: "string sys" where "later = demo_sys\<lparr>S_now := 1760000100\<rparr>"
definition rotating :: "string sys" where "rotating = demo_sys\<lparr>S_now := 1760000000\<rparr>"

definition demo_pass :: Payload where
  "demo_pass = claims_payload demo_lib ''k1'' demo_claims 1760000000 []"

lemma demo_verify: "\<exists>tok. Verify demo_lib demo_crypto ''pub'' tok ''shop.fr'' 1760000100 = Inr demo_pass"
proof -
  have "(case Mint demo_lib demo_crypto ''pem'' ''k1'' demo_claims 1760000000 [] [] of
      Inl _ \<Rightarrow> False | Inr tok \<Rightarrow> (case Verify demo_lib demo_crypto ''pub'' tok ''shop.fr'' 1760000100 of
        Inl _ \<Rightarrow> False | Inr _ \<Rightarrow> True))" by code_simp
  then obtain tok c where v: "Verify demo_lib demo_crypto ''pub'' tok ''shop.fr'' 1760000100 = Inr c" by (auto split: sum.splits)
  have "c = demo_pass"
    using v by (auto simp: Verify_def demo_crypto_def demo_pass_def split: option.splits list.splits if_splits)
  then show ?thesis using v by blast
qed

lemma demo_payload: "PDom demo_pass = ''shop.fr''" "Rm demo_pass = ''acme.sale''"
  by code_simp+

lemma demo_later: "to_lower (S_uni later) ''shop.fr'' = ''shop.fr''" "S_now later = 1760000100" "S_ok later = (\<lambda>_. True)"
  by (simp_all add: to_lower_def later_def demo_sys_def ascii_def lower_char_def)

lemma demo_rotates: "\<exists>y s'. RotateSigningKey demo_keylib rotating demo_master demo_ctl_key = (Inr y, s')"
  by (simp add: RotateSigningKey_def demo_keylib_def encrypt_def demo_master_def rotating_def demo_sys_def demo_ctl_key_def demo_ctl_def demo_key_def
      build_key_def randHex_def Let_def)

theorem rotation_keeps_passes_witness:
  "\<exists>tok y s'. RotateSigningKey demo_keylib rotating demo_master demo_ctl_key = (Inr y, s') \<and>
     verifyPass demo_lib demo_crypto (Some (tok, ''shop.fr'')) later (demo_request ''POST'') demo_acme s' = (JSON 200 (valid_pass demo_pass), s')"
proof -
  obtain tok where v: "Verify demo_lib demo_crypto ''pub'' tok ''shop.fr'' 1760000100 = Inr demo_pass"
    using demo_verify by blast
  obtain y s' where R: "RotateSigningKey demo_keylib rotating demo_master demo_ctl_key = (Inr y, s')" using demo_rotates by blast
  have "verifyPass demo_lib demo_crypto (Some (tok, ''shop.fr'')) later (demo_request ''POST'') demo_acme s' =
       (JSON 200 (valid_pass demo_pass), s') \<and> map k_kid (filter k_active (signing_keys (db s'))) = [Y_kid y]"
  proof (rule rotation_keeps_passes [OF R, of demo_key])
    show "Verify demo_lib demo_crypto (k_public demo_key) tok (to_lower (S_uni later) ''shop.fr'') (S_now later) = Inr demo_pass"
      unfolding demo_later using v by (simp add: demo_key_def)
  qed (simp_all add: demo_ctl_key_def demo_key_def demo_later rotating_def demo_sys_def demo_acme_def tid_def demo_payload)
  then show ?thesis using R by blast
qed

theorem verifyPass_sound_witness:
  "\<exists>tok fs. verifyPass demo_lib demo_crypto (Some (tok, ''shop.fr'')) later (demo_request ''POST'') demo_acme demo_ctl_key =
      (JSON 200 (JObj ((''valid'', JBool True) # fs)), demo_ctl_key) \<and>
    (\<exists>k \<in> set (signing_keys (db demo_ctl_key)). accepted_key 1760000100 k \<and> (\<exists>c. Verify demo_lib demo_crypto (k_public k) tok ''shop.fr'' 1760000100 = Inr c))"
proof -
  obtain tok where v: "Verify demo_lib demo_crypto ''pub'' tok ''shop.fr'' 1760000100 = Inr demo_pass"
    using demo_verify by blast
  have k: "pass_keys 1760000100 (db demo_ctl_key) = [''pub'']" by (simp add: pass_keys_def demo_ctl_key_def demo_key_def)
  have d: "list_ex (\<lambda>x. d_tenant x = tid demo_acme \<and> d_fqdn x = ''shop.fr'') (domains (db demo_ctl_key))" "tenant demo_acme = ''acme''"
    by (simp_all add: demo_ctl_key_def demo_acme_def tid_def)
  have "verifyPass demo_lib demo_crypto (Some (tok, ''shop.fr'')) later (demo_request ''POST'') demo_acme demo_ctl_key =
      (JSON 200 (valid_pass demo_pass), demo_ctl_key)"
    by (simp add: verifyPass_def decode_def demo_later k v d demo_payload valid_pass_def)
  then obtain fs where fs: "verifyPass demo_lib demo_crypto (Some (tok, ''shop.fr'')) later (demo_request ''POST'') demo_acme demo_ctl_key =
      (JSON 200 (JObj ((''valid'', JBool True) # fs)), demo_ctl_key)"
    unfolding valid_pass_def by blast
  show ?thesis using verifyPass_sound [OF fs, unfolded demo_later] fs by blast
qed

section \<open>The first start\<close>

text \<open>What the start relies on of AES-GCM: a text that was sealed opens again.\<close>

definition gcm_ok :: "keylib \<Rightarrow> string \<Rightarrow> bool" where
  "gcm_ok K key \<longleftrightarrow> (\<forall>n t. K_open K key n (K_seal K key n t) = Some t)"

lemma decrypt_encrypt:
  assumes "gcm_ok K key" and "length n = 12" and "encrypt K key n t = Inr e"
  shows "decrypt K key e = Inr t"
  using assms by (auto simp: encrypt_def decrypt_def gcm_ok_def split: if_splits)

lemma active_key_append: "active_key d = None \<Longrightarrow> k_active k \<Longrightarrow> active_key (d\<lparr>signing_keys := signing_keys d @ [k]\<rparr>) = Some k"
proof -
  assume n: "active_key d = None" and k: "k_active k"
  have "filter k_active (signing_keys d) = []"
  proof (rule ccontr)
    assume "filter k_active (signing_keys d) \<noteq> []"
    then have "sort_key (\<lambda>k. - k_created k) (filter k_active (signing_keys d)) \<noteq> []"
      by (metis length_0_conv length_sort)
    then show False using n by (auto simp: active_key_def split: list.splits)
  qed
  then show ?thesis using k by (simp add: active_key_def)
qed

lemma ensureSigningKey_again:
  assumes E: "ensureSigningKey K E master s = (Inr y, s')" and "gcm_ok K master" and "12 \<le> length (S_rand E 2)" and "S_ok E' 0"
  shows "ensureSigningKey K E' master s' = (Inr y, s')"
proof (cases "active_key (db s)")
  case (Some k)
  then have "s' = s" using E by (auto simp: ensureSigningKey_def split: if_splits sum.splits prod.splits)
  then show ?thesis using E Some assms(4) by (auto simp: ensureSigningKey_def split: if_splits sum.splits prod.splits)
next
  case None
  define i where "i = K_month K @ ''-'' @ randHex 3 (S_rand E 1)"
  obtain priv pub enc j where e: "K_pair K (S_rand E 0) = Some (priv, pub)" "encrypt K master (take 12 (S_rand E 2)) priv = Inr enc"
    and s': "s' = set_db (\<lambda>d. d\<lparr>signing_keys := signing_keys d @ [new_key_row i enc pub (S_now E)]\<rparr>) s" and b: "build_key K i priv pub = Inr (y, j)"
    using E None unfolding ensureSigningKey_def Let_def i_def [symmetric]
    by (auto split: if_splits option.splits sum.splits prod.splits)
  have d: "decrypt K master enc = Inr priv"
    by (rule decrypt_encrypt [OF assms(2) _ e(2)]) (use assms(3) in simp)
  have "active_key (db s') = Some (new_key_row i enc pub (S_now E))"
    using active_key_append [OF None, of "new_key_row i enc pub (S_now E)"] by (simp add: s' new_key_row_def)
  then show ?thesis using assms(4) d b by (simp add: ensureSigningKey_def new_key_row_def)
qed

lemma ensureSigningKey_active:
  assumes "ensureSigningKey K E master s = (Inr y, s')"
  shows "\<exists>k. active_key (db s') = Some k"
proof (cases "active_key (db s)")
  case (Some k)
  then show ?thesis using assms by (auto simp: ensureSigningKey_def split: if_splits sum.splits prod.splits)
next
  case None
  then obtain i enc pub where "db s' = (db s)\<lparr>signing_keys := signing_keys (db s) @ [new_key_row i enc pub (S_now E)]\<rparr>"
    using assms unfolding ensureSigningKey_def Let_def by (auto split: if_splits option.splits sum.splits prod.splits)
  then show ?thesis using active_key_append [OF None, of "new_key_row i enc pub (S_now E)"] by (simp add: new_key_row_def)
qed

lemma ensureAdmin_done: "ensureAdmin K E s d = (Inr u, s', d') \<Longrightarrow> users s' \<noteq> [] \<and> db s' = db s"
  by (auto simp: ensureAdmin_def Let_def split: if_splits)

lemma ensurePlatformKey_done:
  "ensurePlatformKey E K s d = (Inr u, s', d') \<Longrightarrow> (\<exists>k \<in> set (api_keys s'). a_tenant k = None) \<and> users s' = users s \<and> db s' = db s"
  by (auto simp: ensurePlatformKey_def Let_def split: if_splits)

text \<open>A state with the same users, keys and tables as one that a start left: another start changes nothing.\<close>

lemma Run_bootstrap_again:
  assumes R: "Run_bootstrap K E b64key s d = (Inr y, s1, d1)" and g: "\<And>master. gcm_ok K master" and n: "12 \<le> length (S_rand E 2)"
    and ok: "\<And>k. S_ok E' k" and same: "db s' = db s1" "users s' = users s1" "api_keys s' = api_keys s1"
  shows "Run_bootstrap K E' b64key s' d' = (Inr y, s', d')"
proof -
  obtain master where m: "K_b64 K b64key = Some master" "length master = 32"
    using R by (auto simp: Run_bootstrap_def split: option.splits if_splits)
  obtain t1 where 1: "ensureSigningKey K E master s = (Inr y, t1)"
    using R m by (auto simp: Run_bootstrap_def split: sum.splits prod.splits)
  obtain u2 t2 d2 where 2: "ensureAdmin K (skip 2 E) t1 d = (Inr u2, t2, d2)"
    using R m 1 by (auto simp: Run_bootstrap_def split: sum.splits prod.splits)
  obtain u3 where 3: "ensurePlatformKey (skip 4 E) K t2 d2 = (Inr u3, s1, d1)"
    using R m 1 2 by (auto simp: Run_bootstrap_def split: sum.splits prod.splits)
  have a: "ensureSigningKey K E' master t1 = (Inr y, t1)"
    by (rule ensureSigningKey_again [OF 1 g n ok])
  have "db s' = db t1" using ensureAdmin_done [OF 2] ensurePlatformKey_done [OF 3] same by simp
  moreover obtain k where "active_key (db t1) = Some k" using ensureSigningKey_active [OF 1] by blast
  ultimately have a': "ensureSigningKey K E' master s' = (Inr y, s')"
    using a ok by (auto simp: ensureSigningKey_def split: sum.splits prod.splits if_splits)
  have u: "users s' \<noteq> []" using ensureAdmin_done [OF 2] ensurePlatformKey_done [OF 3] same by simp
  have k: "\<exists>k \<in> set (api_keys s'). a_tenant k = None" using ensurePlatformKey_done [OF 3] same by simp
  have "ensureAdmin K (skip 2 E') s' d' = (Inr (), s', d')" using u ok by (simp add: ensureAdmin_def)
  moreover have "ensurePlatformKey (skip 4 E') K s' d' = (Inr (), s', d')" using k ok by (simp add: ensurePlatformKey_def)
  ultimately show ?thesis using m a' by (simp add: Run_bootstrap_def)
qed

text \<open>Starting again changes nothing: after a start that succeeded, another one on the same master key gives
  the same signing key, creates no account and no key, and writes no file.\<close>

theorem Run_bootstrap_idempotent:
  assumes R: "Run_bootstrap K E b64key s d = (Inr y, s', d')" and g: "\<And>master. gcm_ok K master" and n: "12 \<le> length (S_rand E 2)"
    and ok: "\<And>k. S_ok E' k"
  shows "Run_bootstrap K E' b64key s' d' = (Inr y, s', d')"
  by (rule Run_bootstrap_again [OF R g n ok]) simp_all

definition demo_ctl0 :: ctl where
  "demo_ctl0 = demo_ctl\<lparr>users := [], members := [], sessions := [], api_keys := []\<rparr>"

definition boot_sys :: "string sys" where
  "boot_sys = demo_sys\<lparr>S_rand := \<lambda>_. replicate 20 (CHR ''r'')\<rparr>"

lemma boot_runs: "\<exists>y s' d'. Run_bootstrap demo_keylib boot_sys demo_master demo_ctl0 [] = (Inr y, s', d') \<and> map fst d' = [''initial-admin-password.txt'', ''initial-platform-api-key.txt'']"
  by (simp add: Run_bootstrap_def ensureSigningKey_def ensureAdmin_def ensurePlatformKey_def active_key_def demo_keylib_def demo_master_def demo_ctl0_def
      boot_sys_def demo_sys_def demo_ctl_def demo_db_def encrypt_def build_key_def Let_def)

theorem Run_bootstrap_idempotent_witness:
  "\<exists>y s' d'. Run_bootstrap demo_keylib boot_sys demo_master demo_ctl0 [] = (Inr y, s', d') \<and> length d' = 2 \<and>
     Run_bootstrap demo_keylib boot_sys demo_master s' d' = (Inr y, s', d')"
proof -
  obtain y s' d' where R: "Run_bootstrap demo_keylib boot_sys demo_master demo_ctl0 [] = (Inr y, s', d')"
    and d: "map fst d' = [''initial-admin-password.txt'', ''initial-platform-api-key.txt'']" by (metis boot_runs)
  have "Run_bootstrap demo_keylib boot_sys demo_master s' d' = (Inr y, s', d')"
    by (rule Run_bootstrap_idempotent [OF R]) (simp_all add: gcm_ok_def demo_keylib_def boot_sys_def demo_sys_def)
  moreover have "length d' = 2" using arg_cong [OF d, of length] by simp
  ultimately show ?thesis using R by blast
qed

section \<open>Executions that the code does not expect\<close>

text \<open>Without a host of flyc-queue, \<open>Call\<close> answers status 0 and no error, and the handler panics when it writes it.\<close>

lemma roomStats_without_host: "hosts (queue_c (rec s)) = [] \<Longrightarrow> roomStats http rq p s w = (aborted, w)"
  by (simp add: roomStats_def Call_def Hosts_def relay_def)

text \<open>The thresholds are only checked on a room that is saved in mode \<open>auto\<close>: saved in another mode they can be
  inverted, and the switch to \<open>auto\<close> then accepts them.\<close>

lemma roomState_inverted_thresholds:
  "code (fst (roomState (\<lambda>_. id) (Some ''auto'') demo_sys other_request demo_acme
     (demo_ctl\<lparr>db := demo_db\<lparr>rooms_t := map (\<lambda>r. r\<lparr>r_auto_on := 5, r_auto_off := 10\<rparr>) (rooms_t demo_db)\<rparr>\<rparr>))) = 200"
  by (simp add: roomState_def decode_def demo_sys_def other_request_def demo_acme_def tid_def demo_ctl_def demo_db_def Let_def)

text \<open>The first administrator is not asked to change the password.\<close>

lemma ensureAdmin_keeps_password: "users s = [] \<Longrightarrow> ensureAdmin K E s d = (Inr u, s', d') \<Longrightarrow> map u_must (users s') = [False]"
  by (auto simp: ensureAdmin_def Let_def split: if_splits)

text \<open>A session is prolonged as soon as half an hour of it has passed, not when half an hour is left.\<close>

lemma Current_prolongs_early:
  "map n_expires (sessions (snd (Sess_Current (demo_sys\<lparr>S_now := 1801\<rparr>) (demo_request ''GET'')
     (demo_ctl\<lparr>sessions := [\<lparr>n_id = hex ''tok'', n_user = 7, n_expires = SessionTTL, n_ip = [], n_agent = []\<rparr>]\<rparr>)))) = [1801 + SessionTTL]"
  by (simp add: Sess_Current_def demo_request_def demo_sys_def demo_ctl_def demo_user_def hashToken_def live_session_def SessionTTL_def sessionSlid_def
      update_where_def)

text \<open>Asking for a new TOTP secret switches the second factor off, without the password that \<open>totpDisable\<close> wants.\<close>

lemma totpSetup_switches_off:
  assumes "totpSetup A L master iss E rq p s = (r, s')" and "code r = 200" and "x \<in> set (users s')" and "u_id x = UID (me_user p)"
  shows "\<not> u_totp x"
  using assms by (auto simp: totpSetup_def update_user_def set_update_where HErr_def dbErr_def Error_def JSON_def split: option.splits sum.splits if_splits)

text \<open>An address that the provider has not verified counts like any other.\<close>

lemma Exchange_unverified:
  "O_token O' = (\<lambda>_. Some t) \<Longrightarrow> Exchange u O' cd n = Exchange u (O'\<lparr>O_token := \<lambda>_. Some (t\<lparr>I_verified := False\<rparr>)\<rparr>) cd n"
  by (simp add: Exchange_def)

text \<open>A redirection to another host starts with a slash too.\<close>

lemma oidcStart_other_host:
  "map o_redirect (oidc_states (snd (oidcStart \<lparr>O_enabled = True, O_admins = [], O_auth = \<lambda>_ _. [], O_token = \<lambda>_. None\<rparr> ''//evil.example'' demo_sys demo_ctl)))
    = [''//evil.example'']"
  by (simp add: oidcStart_def Let_def demo_sys_def demo_ctl_def)

end
