(* ===== verification/Login_Laws.thy ===== *)
theory Login_Laws
  imports Control_Laws
begin

text \<open>
  What it takes to open a session with a password: \<open>login\<close> of control/internal/api/session.go over \<open>VerifyPassword\<close>
  and \<open>TOTPValidate\<close>.
\<close>

lemma Sess_Create_opens:
  assumes "Sess_Create E rq i s = (r, s')"
  shows "case r of Inl e \<Rightarrow> sessions s' = sessions s | Inr tok \<Rightarrow> (\<exists>n. sessions s' = sessions s @ [n] \<and> n_user n = i \<and>
     n_id n = hashToken (S_sha E) tok \<and> n_expires n = S_now E + SessionTTL)"
  using assms by (auto simp: Sess_Create_def Let_def split: if_splits)

definition opens_with_code :: "authlib \<Rightarrow> keylib \<Rightarrow> string \<Rightarrow> user_row \<Rightarrow> string \<Rightarrow> bool" where
  "opens_with_code A L master x cd \<longleftrightarrow>
     (case Unseal L master (case u_secret x of None \<Rightarrow> [] | Some c \<Rightarrow> c) of Inl _ \<Rightarrow> False | Inr secret \<Rightarrow> TOTPValidate (A_otp A) secret cd)"

text \<open>C15: A session is opened by the login only for a user of that address who has a password, when the password that was sent
  verifies against the stored hash and, for a user with a second factor, the code that was sent is valid for the secret
  that the master key opens. It is then one session more, of that user, under the hash of the token in the cookie.\<close>

theorem login_needs_every_factor:
  assumes "login A L master (Some (em, pw, otp)) E rq s = (r, s')" and "sessions s' \<noteq> sessions s"
  shows "\<exists>x n tok. x \<in> set (users s) \<and> to_lower (S_uni E) (u_email x) = to_lower (S_uni E) (trim_space (S_uni E) em) \<and>
    hash_of x \<noteq> [] \<and> VerifyPassword A (hash_of x) pw = Inr True \<and>
    \<not> (u_totp x \<and> \<not> opens_with_code A L master x (trim_space (S_uni E) otp)) \<and>
    sessions s' = sessions s @ [n] \<and> n_user n = u_id x \<and> n_id n = hashToken (S_sha E) tok \<and>
    code r = 200 \<and> cookies r = [(CookieName, tok)]"
proof -
  let ?em = "to_lower (S_uni E) (trim_space (S_uni E) em)"
  obtain x where ok: "S_ok E 0" and x: "user_by_email (S_uni E) ?em s = Some x"
    using assms by (auto simp: login_def decode_def Let_def split: if_splits option.splits)
  have mem: "x \<in> set (users s)" "to_lower (S_uni E) (u_email x) = ?em"
    using find_mem [OF x [unfolded user_by_email_def]] by simp_all
  obtain q s1 where q: "Sess_Create (skip 1 E) rq (u_id x) s = (q, s1)" by (metis surj_pair)
  have pass: "hash_of x \<noteq> []" "good_password A (hash_of x) pw"
    "\<not> (u_totp x \<and> \<not> opens_with_code A L master x (trim_space (S_uni E) otp))"
    using assms ok x by (auto simp: login_def decode_def Let_def opens_with_code_def split: if_splits sum.splits)
  have "\<exists>tok. q = Inr tok \<and> r = with_cookie tok (JSON 200 (JObj [(''status'', JStr ''ok''), (''must_change_password'', JBool (u_must x))])) \<and>
      sessions s' = sessions s1"
    using assms ok x q Sess_Create_opens [OF q]
    by (auto simp: login_def decode_def Let_def split: if_splits sum.splits)
  then obtain tok where t: "q = Inr tok" "sessions s' = sessions s1" and r: "code r = 200" "cookies r = [(CookieName, tok)]"
    by (auto simp: with_cookie_def)
  obtain n where "sessions s1 = sessions s @ [n]" "n_user n = u_id x" "n_id n = hashToken (S_sha E) tok"
    using Sess_Create_opens [OF q] t(1) by (auto simp: skip_def)
  then show ?thesis using mem pass t r by (auto simp: good_password_def)
qed

definition demo_two_factors :: user_row where
  "demo_two_factors = demo_user\<lparr>u_hash := Some (Hash_Password demo_authlib ''salt'' ''correct horse''), u_totp := True,
     u_secret := Some (replicate 12 (CHR ''n'') @ ''JBSWY3DPEHPK3PXP'')\<rparr>"

definition demo_login :: "string \<Rightarrow> resp \<times> ctl" where
  "demo_login cd = login demo_authlib demo_keylib demo_master (Some (''op@acme.fr'', ''correct horse'', cd)) demo_sys (demo_request ''POST'')
     (demo_ctl\<lparr>users := [demo_two_factors]\<rparr>)"

text \<open>With the password and the code a session is opened; another code opens none.\<close>

theorem login_needs_every_factor_witness:
  "code (fst (demo_login ''123456'')) = 200 \<and> length (sessions (snd (demo_login ''123456''))) = 2 \<and>
   sessions (snd (demo_login ''000000'')) = sessions demo_ctl"
proof -
  have h: "A_scan demo_authlib ''m=65536,t=3,p=2'' = Some (65536, 3, 2)" "\<And>pw salt t m p n. length (A_argon demo_authlib pw salt t m p n) = n"
    by (simp_all add: demo_authlib_def)
  have pw: "VerifyPassword demo_authlib (Hash_Password demo_authlib ''salt'' ''correct horse'') ''correct horse'' = Inr True"
    using VerifyPassword_hash [OF h] by simp
  have ne: "Hash_Password A a b \<noteq> []" for A a b by (simp add: Hash_Password_def)
  have sec: "Unseal demo_keylib demo_master (replicate 12 (CHR ''n'') @ ''JBSWY3DPEHPK3PXP'') = Inr ''JBSWY3DPEHPK3PXP''"
    by (simp add: Unseal_def demo_keylib_def demo_master_def)
  have em: "to_lower id (trim_space id ''op@acme.fr'') = ''op@acme.fr''" "to_lower id ''op@acme.fr'' = ''op@acme.fr''"
    "trim_space id ''123456'' = ''123456''" "trim_space id ''000000'' = ''000000''" by code_simp+
  have hash: "hex ''tok'' \<noteq> hashToken id (RandomToken ''rrr'')" by code_simp
  have f: "S_ok demo_sys = (\<lambda>_. True)" "S_uni demo_sys = id" "S_sha demo_sys = id" "S_rand demo_sys = (\<lambda>_. ''rrr'')" by (simp_all add: demo_sys_def)
  have u: "u_email demo_two_factors = ''op@acme.fr''" "hash_of demo_two_factors = Hash_Password demo_authlib ''salt'' ''correct horse''"
    "u_totp demo_two_factors" "u_secret demo_two_factors = Some (replicate 12 (CHR ''n'') @ ''JBSWY3DPEHPK3PXP'')" "u_id demo_two_factors = 7"
    by (simp_all add: demo_two_factors_def demo_user_def hash_of_def)
  have otp: "TOTPValidate (A_otp demo_authlib) t cd \<longleftrightarrow> cd = ''123456''" for t cd by (simp add: TOTPValidate_def demo_authlib_def)
  obtain r s' where l: "demo_login ''123456'' = (r, s')" by (metis surj_pair)
  have "sessions s' \<noteq> sessions (demo_ctl\<lparr>users := [demo_two_factors]\<rparr>)"
    using l hash by (auto simp: demo_login_def login_def decode_def Let_def f user_by_email_def em u ne good_password_def pw sec otp Sess_Create_def demo_ctl_def
        split: if_splits)
  from login_needs_every_factor [OF l [unfolded demo_login_def] this]
  have good: "code r = 200 \<and> length (sessions s') = 2" by (auto simp: demo_ctl_def)
  have "sessions (snd (demo_login ''000000'')) = sessions demo_ctl"
    by (simp add: demo_login_def login_def decode_def Let_def f user_by_email_def em u ne good_password_def pw sec otp)
  then show ?thesis using good l by simp
qed

end
