(* ===== verification/Node_Laws.thy ===== *)
theory Node_Laws
  imports Auth_Laws
begin

text \<open>
  The laws of the nodes: the routes that write them keep the table one from which an inventory can
  be rendered (names and addresses unique, known roles and states, at most one data host); and the
  executions in which the guards of the routes are not enough.
\<close>

section \<open>The invariant\<close>

definition is_data :: "Node \<Rightarrow> bool" where
  "is_data n \<longleftrightarrow> RoleData \<in> set (Roles n)"

definition node_inv :: "inv \<Rightarrow> bool" where
  "node_inv v \<longleftrightarrow> distinct (map NName (nodes v)) \<and> distinct (map MgmtIP (nodes v)) \<and> (\<forall>n \<in> set (nodes v). node_checks n) \<and>
     length (filter is_data (nodes v)) \<le> 1"

lemma node_invI:
  assumes "distinct (map NName (nodes v))" "distinct (map MgmtIP (nodes v))" "\<And>n. n \<in> set (nodes v) \<Longrightarrow> node_checks n" "length (filter is_data (nodes v)) \<le> 1"
  shows "node_inv v"
  using assms by (simp add: node_inv_def)

lemma node_invD:
  assumes "node_inv v"
  shows "distinct (map NName (nodes v))" "distinct (map MgmtIP (nodes v))" "\<And>n. n \<in> set (nodes v) \<Longrightarrow> node_checks n" "length (filter is_data (nodes v)) \<le> 1"
  using assms by (auto simp: node_inv_def)

definition saved :: "Node \<Rightarrow> Node" where
  "saved n = (if NState n = [] then n\<lparr>NState := ''planned''\<rparr> else n)"

definition written :: "Node \<Rightarrow> Node \<Rightarrow> Node" where
  "written n r = r\<lparr>Roles := Roles n, MgmtIP := MgmtIP n, MgmtIP6 := MgmtIP6 n, NState := NState n, Note := Note n\<rparr>"

lemma SaveNode_cases:
  assumes "SaveNode ok n v = (r, v')"
  obtains (refused) "v' = v"
  | (wrote) "v' = v\<lparr>nodes := upsert NName (NName n) (written (saved n)) ((saved n)\<lparr>EnrolledAt := None\<rparr>) (nodes v)\<rparr>"
      "node_checks (saved n)" "\<And>m. m \<in> set (nodes v) \<Longrightarrow> NName m \<noteq> NName n \<Longrightarrow> MgmtIP m \<noteq> MgmtIP n"
proof -
  have k: "NName (saved n) = NName n" "MgmtIP (saved n) = MgmtIP n" by (simp_all add: saved_def)
  have w: "written (saved n) = (\<lambda>r. r\<lparr>Roles := Roles (saved n), MgmtIP := MgmtIP (saved n), MgmtIP6 := MgmtIP6 (saved n),
      NState := NState (saved n), Note := Note (saved n)\<rparr>)"
    by (simp add: written_def fun_eq_iff)
  have e: "SaveNode ok n v = (if \<not> ok then (Inl EDb, v) else if \<not> node_checks (saved n) then (Inl check_violation, v)
     else if \<exists>m \<in> set (nodes v). NName m \<noteq> NName n \<and> MgmtIP m = MgmtIP n then (Inl unique_violation, v)
     else (Inr (saved n), v\<lparr>nodes := upsert NName (NName n) (written (saved n)) ((saved n)\<lparr>EnrolledAt := None\<rparr>) (nodes v)\<rparr>))"
    unfolding SaveNode_def Let_def saved_def [symmetric] w k ..
  show thesis using assms refused wrote unfolding e by (auto split: if_splits)
qed

lemma written_simps [simp]: "NName (written n r) = NName r" "MgmtIP (written n r) = MgmtIP n" "Roles (written n r) = Roles n" "NState (written n r) = NState n"
  by (simp_all add: written_def)

lemma upsert_split:
  assumes "distinct (map key xs)" and "k \<in> key ` set xs"
  obtains a r b where "xs = a @ r # b" "key r = k" "upsert key k f new xs = a @ f r # b" "k \<notin> key ` set (a @ b)"
proof -
  from assms(2) obtain r where "r \<in> set xs" "key r = k" by auto
  then obtain a b where x: "xs = a @ r # b" by (metis split_list)
  have n: "k \<notin> key ` set (a @ b)" using assms(1) x \<open>key r = k\<close> by auto
  then have "update_where (\<lambda>x. key x = k) f a = a" "update_where (\<lambda>x. key x = k) f b = b"
    by (auto simp: update_where_def intro!: map_idI)
  then show thesis using that [of a r b] x \<open>key r = k\<close> n assms(2) by (simp add: upsert_def update_where_def)
qed

text \<open>What a write keeps, when it does not add a data host.\<close>

lemma SaveNode_inv:
  assumes I: "node_inv v" and S: "SaveNode ok n v = (r, v')"
    and data: "is_data n \<Longrightarrow> filter is_data (nodes v) = [] \<or> (\<exists>m \<in> set (nodes v). NName m = NName n \<and> is_data m)"
  shows "node_inv v'"
  using S
proof (cases rule: SaveNode_cases)
  case refused
  then show ?thesis using I by simp
next
  case wrote
  let ?n = "saved n"
  have k: "NName ?n = NName n" "MgmtIP ?n = MgmtIP n" "Roles ?n = Roles n" by (simp_all add: saved_def)
  have chk: "node_checks (?n\<lparr>EnrolledAt := None\<rparr>)" "node_checks (written ?n m)" for m
    using wrote(2) by (simp_all add: node_checks_def)
  show ?thesis
  proof (cases "NName n \<in> NName ` set (nodes v)")
    case True
    obtain a m b where x: "nodes v = a @ m # b" "NName m = NName n" "nodes v' = a @ written ?n m # b" "NName n \<notin> NName ` set (a @ b)"
      using upsert_split [OF node_invD(1) [OF I] True, of "written ?n" "?n\<lparr>EnrolledAt := None\<rparr>"] wrote(1) by auto
    show ?thesis
    proof (rule node_invI)
      show "distinct (map NName (nodes v'))" using node_invD(1) [OF I] by (simp add: x)
      have "MgmtIP y \<noteq> MgmtIP n" if y: "y \<in> set (a @ b)" for y
      proof -
        have "NName y \<noteq> NName n" using x(4) y by (metis imageI)
        then show ?thesis using wrote(3) [of y] x(1) y by auto
      qed
      then have "MgmtIP n \<notin> MgmtIP ` set (a @ b)" by (metis imageE)
      then show "distinct (map MgmtIP (nodes v'))" using node_invD(2) [OF I] by (auto simp: x(1,3) k)
      show "node_checks y" if "y \<in> set (nodes v')" for y using that node_invD(3) [OF I, of y] chk by (auto simp: x)
      have o: "y = m" if y: "y \<in> set (nodes v)" "NName y = NName n" for y
      proof -
        have "y \<notin> set (a @ b)" using x(4) y(2) by (metis imageI)
        then show ?thesis using y(1) x(1) by auto
      qed
      have "length (filter is_data (nodes v)) = length (filter is_data (a @ b)) + (if is_data m then 1 else 0)" by (simp add: x)
      moreover have "length (filter is_data (nodes v')) = length (filter is_data (a @ b)) + (if is_data n then 1 else 0)"
        by (simp add: x is_data_def k)
      ultimately show "length (filter is_data (nodes v')) \<le> 1" using node_invD(4) [OF I] data o by (auto split: if_splits)
    qed
  next
    case False
    then have x: "nodes v' = nodes v @ [?n\<lparr>EnrolledAt := None\<rparr>]" using wrote(1) by (simp add: upsert_def)
    show ?thesis
    proof (rule node_invI)
      show "distinct (map NName (nodes v'))" using node_invD(1) [OF I] False by (auto simp: x k)
      have "MgmtIP y \<noteq> MgmtIP n" if y: "y \<in> set (nodes v)" for y
        using wrote(3) [OF y] False y by (metis imageI)
      then have "MgmtIP n \<notin> MgmtIP ` set (nodes v)" by (metis imageE)
      then show "distinct (map MgmtIP (nodes v'))" using node_invD(2) [OF I] by (auto simp: x k)
      show "node_checks y" if "y \<in> set (nodes v')" for y using that node_invD(3) [OF I, of y] chk by (auto simp: x)
      have "is_data n \<Longrightarrow> filter is_data (nodes v) = []" using data False by (metis imageI)
      then show "length (filter is_data (nodes v')) \<le> 1" using node_invD(4) [OF I] by (auto simp: x is_data_def k)
    qed
  qed
qed

lemma kick_rec_cinv [simp]: "cinv (kick_rec s) = cinv s"
  by (simp add: kick_rec_def)

lemma createNode_inv:
  assumes I: "node_inv (cinv s)" and ok: "S_ok E 0"
  shows "node_inv (cinv (snd (createNode ip i E rq p s)))"
proof (cases i)
  case None
  then show ?thesis using I by (simp add: createNode_def decode_def)
next
  case (Some n)
  let ?n1 = "if NState n = [] then n\<lparr>NState := ''planned''\<rparr> else n"
  obtain r v where S: "SaveNode (S_ok E 1) ?n1 (cinv s) = (r, v)" by (metis surj_pair)
  show ?thesis
  proof (cases "\<not> valideNode ip n \<or> (porte (Roles n) RoleData \<and> 0 < length (filter (\<lambda>m. RoleData \<in> set (Roles m)) (nodes (cinv s))))")
    case True
    then show ?thesis using I ok by (auto simp: createNode_def decode_def Some)
  next
    case False
    have f: "is_data n \<Longrightarrow> filter is_data (nodes (cinv s)) = []"
      using False by (auto simp: is_data_def [abs_def] porte_def list_ex_iff)
    have d: "is_data ?n1 = is_data n" "NName ?n1 = NName n" by (simp_all add: is_data_def)
    have "node_inv v" using SaveNode_inv [OF I S] f d by blast
    then show ?thesis using I S by (auto simp: createNode_def decode_def Some Let_def split: sum.split)
  qed
qed

lemma patchNode_inv:
  assumes I: "node_inv (cinv s)"
  shows "node_inv (cinv (snd (patchNode ip i E rq p s)))"
proof (cases "LoadNodes (S_coll E) (S_ok E 0) (cinv s)")
  case (Inl e)
  then show ?thesis using I by (simp add: patchNode_def)
next
  case (Inr ns)
  then have ns: "set ns = set (nodes (cinv s))" by (auto simp: LoadNodes_def split: if_splits)
  let ?cs = "filter (\<lambda>n. NName n = Rpath rq ''name'') ns"
  show ?thesis
  proof (cases ?cs)
    case Nil
    then show ?thesis using I Inr by (simp add: patchNode_def)
  next
    case (Cons c cs)
    have "List.last (c # cs) \<in> set (c # cs)" by (rule last_in_set) simp
    moreover have "set (c # cs) \<subseteq> set ns" unfolding Cons [symmetric] by (rule filter_is_subset)
    ultimately have m: "List.last (c # cs) \<in> set (nodes (cinv s))" unfolding ns by (rule rev_subsetD)
    show ?thesis
    proof (cases i)
      case None
      then show ?thesis using I Inr Cons by (simp add: patchNode_def decode_def)
    next
      case (Some x)
      let ?n = "patched x (List.last (c # cs))"
      obtain r v where S: "SaveNode (S_ok E 1) ?n (cinv s) = (r, v)" by (metis surj_pair)
      have d: "NName ?n = NName (List.last (c # cs))" "is_data ?n = is_data (List.last (c # cs))" by (simp_all add: patched_def is_data_def)
      have "node_inv v" by (rule SaveNode_inv [OF I S]) (use m d in auto)
      have "cinv (snd (patchNode ip i E rq p s)) \<in> {cinv s, v}"
        unfolding patchNode_def Inr sum.case Cons list.case Some decode_def option.case Let_def S prod.case
        by (cases "valideNode ip ?n"; cases r) (simp_all del: last.simps)
      then show ?thesis using I \<open>node_inv v\<close> by auto
    qed
  qed
qed

lemma deleteNode_inv:
  assumes I: "node_inv (cinv s)"
  shows "node_inv (cinv (snd (deleteNode E rq p s)))"
proof -
  have "node_inv ((cinv s)\<lparr>nodes := filter P (nodes (cinv s))\<rparr>)" for P
  proof (rule node_invI)
    have "filter is_data (filter P ns) = filter P (filter is_data ns)" for ns by (induction ns) auto
    then have "length (filter is_data (filter P (nodes (cinv s)))) \<le> length (filter is_data (nodes (cinv s)))"
      by (simp only: length_filter_le)
    then show "length (filter is_data (nodes ((cinv s)\<lparr>nodes := filter P (nodes (cinv s))\<rparr>))) \<le> 1"
      using node_invD(4) [OF I] by simp
  qed (use node_invD [OF I] in \<open>auto simp: distinct_map inj_on_def\<close>)
  then show ?thesis using I by (auto simp: deleteNode_def Let_def split: option.split)
qed

datatype node_call = Create "Node option" | Patch "nodePatch option" | Remove

fun node_route :: "(string \<Rightarrow> bool option) \<Rightarrow> node_call \<Rightarrow> ('k::linorder) handler" where
  "node_route ip (Create i) = createNode ip i"
| "node_route ip (Patch i) = patchNode ip i"
| "node_route ip Remove = deleteNode"

text \<open>C38: Provided that the count of the data hosts reaches Postgres, the routes of the nodes keep the table renderable:
  unique names and addresses, known roles and states, and at most one data host. (When the count fails, the code drops
  the error and accepts a second data host: the lemma \<open>createNode_second_data_host\<close>.)\<close>

theorem node_routes_inv:
  assumes "node_inv (cinv s)" and "S_ok E 0"
  shows "node_inv (cinv (snd (node_route ip c E rq p s)))"
  using createNode_inv [OF assms] patchNode_inv [OF assms(1)] deleteNode_inv [OF assms(1)] by (cases c) simp_all

text \<open>When the count fails it counts 0, and a second data host is accepted.\<close>

definition any_ip :: "string \<Rightarrow> bool option" where "any_ip = (\<lambda>_. Some True)"

definition demo_data :: "string \<Rightarrow> string \<Rightarrow> string list \<Rightarrow> Node" where
  "demo_data n ip rs = \<lparr>NName = n, Roles = rs, MgmtIP = ip, MgmtIP6 = [], NState = ''ready'', Note = [], EnrolledAt = None\<rparr>"

definition demo_nodes :: ctl where
  "demo_nodes = demo_ctl\<lparr>cinv := (cinv demo_ctl)\<lparr>nodes := [demo_data ''d1'' ''10.0.0.9'' [RoleData]]\<rparr>\<rparr>"

theorem node_routes_inv_witness:
  "node_inv (cinv demo_nodes) \<and> node_inv (cinv (snd (node_route any_ip (Create (Some (demo_data ''d2'' ''10.0.0.8'' [RoleData]))) demo_sys (demo_request ''POST'') nobody demo_nodes)))"
proof -
  have I: "node_inv (cinv demo_nodes)" by (simp add: node_inv_def demo_nodes_def demo_data_def node_checks_def is_data_def roles)
  have ok: "S_ok demo_sys 0" by (simp add: demo_sys_def)
  show ?thesis using node_routes_inv [OF I ok] I by blast
qed

lemma createNode_second_data_host:
  "length (filter is_data (nodes (cinv (snd (createNode any_ip (Some (demo_data ''d2'' ''10.0.0.8'' [RoleData])) (demo_sys\<lparr>S_ok := \<lambda>k. k \<noteq> 0\<rparr>)
      (demo_request ''POST'') nobody demo_nodes))))) = 2"
  by (simp add: createNode_def decode_def valideNode_def any_ip_def demo_data_def demo_nodes_def demo_sys_def SaveNode_def node_checks_def roles upsert_def
      nomNode_def name_char_def slug_char_def is_digit_def is_data_def Let_def porte_def)

text \<open>Creating a node under the name of the data host, which the deletion refuses, takes that role away from it.\<close>

lemma createNode_overwrites:
  "nodes (cinv (snd (createNode any_ip (Some (demo_data ''d1'' ''10.0.0.9'' [RoleEdge])) demo_sys (demo_request ''POST'') nobody demo_nodes)))
    = [demo_data ''d1'' ''10.0.0.9'' [RoleEdge]]"
  by (simp add: createNode_def decode_def valideNode_def any_ip_def demo_data_def demo_nodes_def demo_sys_def SaveNode_def node_checks_def roles upsert_def
      update_where_def nomNode_def name_char_def slug_char_def is_digit_def Let_def porte_def)

section \<open>Other executions\<close>

text \<open>A role that does not exist is refused after the account was made: the caller is told of an error and never
  receives the password, and trying again meets the account.\<close>

definition demo_user_in :: userIn where
  "demo_user_in = \<lparr>NEmail = ''new@acme.fr'', NPassword = ''correct horse'', NDisplay = [], NAdmin = False, NTenant = ''acme'', NRole = ''boss''\<rparr>"

lemma createUser_keeps_half:
  "code (fst (createUser demo_authlib (Some demo_user_in) demo_sys (demo_request ''POST'') nobody demo_ctl)) = 400 \<and>
   length (users (snd (createUser demo_authlib (Some demo_user_in) demo_sys (demo_request ''POST'') nobody demo_ctl))) = 2"
proof -
  have t: "to_lower (S_uni demo_sys) (trim_space (S_uni demo_sys) ''new@acme.fr'') = ''new@acme.fr''" "to_lower (S_uni demo_sys) ''new@acme.fr'' = ''new@acme.fr''"
    "to_lower (S_uni demo_sys) ''op@acme.fr'' = ''op@acme.fr''"
    by (simp_all add: to_lower_def trim_space_def demo_sys_def ascii_def lower_char_def is_space_def)
  have l: "CheckPasswordPolicy (initial_password demo_sys ''correct horse'')"
    by (simp add: CheckPasswordPolicy_def initial_password_def)
  show ?thesis
    using t l by (simp add: createUser_def decode_def demo_user_in_def insert_user_def insert_member_def find_tenant_def demo_ctl_def demo_db_def demo_user_def
      roleRank_def Let_def dbErr_def pg_errors demo_sys_def)
qed

end
