(* ===== verification/Enroll_Api.thy ===== *)
theory Enroll_Api
  imports Platform_Api
begin

text \<open>
  Enrolling a bare machine (control/internal/api/enroll.go): the tokens that an operator creates, the
  script that a machine fetches with one, the announcement that uses it up. What the handlers take from the
  process and from the connection is one record: the file of the public key, the public URL, whether the
  connection is TLS and which host it names, \<open>net.ParseIP\<close>. The constant pieces of the script are an
  argument; what is filled in between them is not.
\<close>

record enroll_env =
  V_pubkey :: "string option"
  V_public :: string
  V_tls :: "request \<Rightarrow> bool"
  V_host :: "request \<Rightarrow> string"
  V_ip :: "string \<Rightarrow> bool option"

definition enrollTTL :: int where "enrollTTL = 15 * 60"

definition deployPubkey :: "(string \<Rightarrow> string) \<Rightarrow> enroll_env \<Rightarrow> string res" where
  "deployPubkey u V = (case V_pubkey V of None \<Rightarrow> Inl (EInvalid ''file'')
     | Some b \<Rightarrow> (let k = trim_space u b in if \<not> prefix ''ssh-'' k \<and> \<not> prefix ''ecdsa-'' k then Inl (EInvalid ''pubkey'') else Inr k))"

definition enrollBase :: "enroll_env \<Rightarrow> request \<Rightarrow> string" where
  "enrollBase V rq = (let u = trim_right_slash (V_public V) in
     if u \<noteq> [] then u else (if V_tls V rq then ''https'' else ''http'') @ ''://'' @ V_host V rq)"

section \<open>Tokens\<close>

text \<open>A slice that is nil is sent as NULL, which the column \<open>roles\<close> refuses: that is \<open>None\<close> here.\<close>

definition not_null_violation :: err where "not_null_violation = EInvalid ''23502''"

definition insert_token :: "bool \<Rightarrow> nat \<Rightarrow> int \<Rightarrow> string \<Rightarrow> string list option \<Rightarrow> string \<Rightarrow> ctl \<Rightarrow> enroll_row res \<times> ctl" where
  "insert_token ok fresh now h roles by s =
    (if \<not> ok then (Inl EDb, s)
     else case roles of None \<Rightarrow> (Inl not_null_violation, s)
      | Some rs \<Rightarrow>
         (if h \<in> w_hash ` set (enroll_tokens s) \<or> fresh \<in> w_id ` set (enroll_tokens s) then (Inl unique_violation, s)
          else let w = \<lparr>w_id = fresh, w_hash = h, w_roles = rs, w_by = by, w_created = now, w_expires = now + enrollTTL, w_used = None,
                 w_host = [], w_ip = [], w_ip6 = []\<rparr>
               in (Inr w, s\<lparr>enroll_tokens := enroll_tokens s @ [w]\<rparr>)))"

definition enroll_token :: "'k sys \<Rightarrow> string" where
  "enroll_token E = hex (S_rand E 0)"

text \<open>\<open>i\<close> is the body: none at all, one that does not decode, or the list of the roles.\<close>

definition createEnrollToken :: "enroll_env \<Rightarrow> string list option option option \<Rightarrow> 'k handler" where
  "createEnrollToken V i E rq p = decode (case i of None \<Rightarrow> Some None | Some b \<Rightarrow> b) (\<lambda>roles s.
    (case deployPubkey (S_uni E) V of Inl e \<Rightarrow> (HErr 503 ''no_deploy_key'', s)
     | Inr _ \<Rightarrow>
        (let token = enroll_token E in
         case insert_token (S_ok E 0) (S_id E 0) (S_now E) (hashToken (S_sha E) token) roles (actor E p) s of
           (Inl e, s1) \<Rightarrow> (dbErr e, s1)
         | (Inr w, s1) \<Rightarrow>
            (let u = enrollBase V rq @ ''/enroll/'' @ token in
             (JSON 201 (JObj [(''id'', JStr (S_utext E (w_id w))), (''expires_at'', JInt (w_expires w)), (''url'', JStr u),
                (''command'', JStr (''curl -fsSL '' @ u @ '' | sudo sh''))]),
              audit (S_ok E 1) p ''enroll.token'' (JObj [(''id'', JStr (S_utext E (w_id w))), (''roles'', JArr (map JStr (w_roles w)))]) s1)))))"

definition listEnrollTokens :: "'k handler" where
  "listEnrollTokens E rq p s = (if \<not> S_ok E 0 then (dbErr EDb, s)
     else (JSON 200 (JArr (map (\<lambda>w. JObj [(''id'', JStr (S_utext E (w_id w))), (''roles'', JArr (map JStr (w_roles w))), (''created_by'', JStr (w_by w)),
          (''created_at'', JInt (w_created w)), (''expires_at'', JInt (w_expires w)), (''used_at'', jopt JInt (w_used w)),
          (''hostname'', JStr (w_host w)), (''mgmt_ip'', JStr (w_ip w)), (''mgmt_ip6'', JStr (w_ip6 w))])
        (take 50 (sort_key (\<lambda>w. - w_created w) (filter (\<lambda>w. w_used w \<noteq> None \<or> S_now E < w_expires w) (enroll_tokens s)))))), s))"

definition deleteEnrollToken :: "'k handler" where
  "deleteEnrollToken E rq p s =
    (if \<not> S_ok E 0 then (dbErr EDb, s)
     else case S_uuid E (Rpath rq ''id'') of None \<Rightarrow> (dbErr invalid_text, s)
      | Some i \<Rightarrow> (if i \<notin> w_id ` set (enroll_tokens s) then (HErr 404 ''not_found'', s)
          else (NoContent, audit (S_ok E 1) p ''enroll.token.delete'' (JObj [(''id'', JStr (Rpath rq ''id''))])
            (s\<lparr>enroll_tokens := filter (\<lambda>w. w_id w \<noteq> i) (enroll_tokens s)\<rparr>))))"

section \<open>The machine\<close>

definition lookupToken :: "'k sys \<Rightarrow> request \<Rightarrow> ctl \<Rightarrow> nat res" where
  "lookupToken E rq s =
    (if \<not> S_ok E 0 then Inl EDb
     else case find (\<lambda>w. w_hash w = hashToken (S_sha E) (Rpath rq ''token'') \<and> w_used w = None \<and> S_now E < w_expires w) (enroll_tokens s) of
       None \<Rightarrow> Inl no_rows | Some w \<Rightarrow> Inr (w_id w))"

text \<open>\<open>http.Error\<close> with the text left out.\<close>

definition sh_error :: "int \<Rightarrow> resp" where
  "sh_error c = \<lparr>code = c, cookies = [], headers = [(''Content-Type'', ''text/plain; charset=utf-8'')], body = Raw []\<rparr>"

definition key_options :: "string \<Rightarrow> string" where
  "key_options src = (let o' = ''no-agent-forwarding,no-port-forwarding,no-X11-forwarding,no-user-rc '' in
     if src \<noteq> [] then ''from='' @ [quote] @ src @ [quote] @ '','' @ o' else o')"

definition probe_of :: "string \<Rightarrow> string" where
  "probe_of src = (if src = [] \<or> CHR '','' \<in> set src then ''1.1.1.1'' else src)"

definition script_of :: "(nat \<Rightarrow> string) \<Rightarrow> string \<Rightarrow> string \<Rightarrow> string \<Rightarrow> string \<Rightarrow> string \<Rightarrow> string \<Rightarrow> string" where
  "script_of T usr base token opts key probe =
     T 0 @ usr @ T 1 @ ''USER='' @ usr @ T 2 @ ''CONTROL='' @ [CHR 0x27] @ base @ [CHR 0x27] @ T 3 @ ''TOKEN='' @ [CHR 0x27] @ token @ [CHR 0x27] @ T 4 @
     ''CLE='' @ [CHR 0x27] @ opts @ key @ [CHR 0x27] @ T 5 @ ''CIBLE='' @ [CHR 0x27] @ probe @ [CHR 0x27] @ T 6"

definition enrollScript :: "(nat \<Rightarrow> string) \<Rightarrow> enroll_env \<Rightarrow> 'k sys \<Rightarrow> request \<Rightarrow> ctl \<Rightarrow> resp" where
  "enrollScript T V E rq s = (case lookupToken E rq s of Inl _ \<Rightarrow> sh_error 404
     | Inr _ \<Rightarrow> (case deployPubkey (S_uni E) V of Inl _ \<Rightarrow> sh_error 503
        | Inr key \<Rightarrow> (case LoadSettings (S_ok E 1) (cinv s) of Inl _ \<Rightarrow> sh_error 500
           | Inr st \<Rightarrow> \<lparr>code = 200, cookies = [], headers = [(''Content-Type'', ''text/x-shellscript; charset=utf-8'')],
               body = Raw (script_of T (AnsibleUser st) (enrollBase V rq) (Rpath rq ''token'') (key_options (DeployFrom st)) key (probe_of (DeployFrom st)))\<rparr>)))"

record doneIn =
  DHost :: string
  DIP :: string
  DIP6 :: string

text \<open>The announcement in its two halves: the token that is read, with what the machine says, then the row that
  is written, by its identifier alone.\<close>

definition clean_ip6 :: "enroll_env \<Rightarrow> doneIn \<Rightarrow> doneIn" where
  "clean_ip6 V i = (if DIP6 i \<noteq> [] \<and> V_ip V (DIP6 i) \<noteq> Some False then i\<lparr>DIP6 := []\<rparr> else i)"

definition done_check :: "enroll_env \<Rightarrow> doneIn option \<Rightarrow> 'k sys \<Rightarrow> request \<Rightarrow> ctl \<Rightarrow> resp + nat \<times> doneIn" where
  "done_check V i E rq s = (case lookupToken E rq s of
     Inl e \<Rightarrow> Inl (if e = no_rows then HErr 404 ''not_found'' else dbErr e)
   | Inr w \<Rightarrow> (case i of None \<Rightarrow> Inl (HErr 400 ''bad_json'')
      | Some x \<Rightarrow> (if V_ip V (DIP x) = None then Inl (HErr 400 ''invalid'') else Inr (w, clean_ip6 V x))))"

definition done_write :: "bool \<Rightarrow> int \<Rightarrow> nat \<Rightarrow> doneIn \<Rightarrow> ctl \<Rightarrow> resp \<times> ctl" where
  "done_write ok now w x s = (if \<not> ok then (dbErr EDb, s)
     else (JSON 200 (JObj [(''status'', JStr ''enrolled''), (''hostname'', JStr (DHost x))]),
       s\<lparr>enroll_tokens := update_where (\<lambda>r. w_id r = w) (\<lambda>r. r\<lparr>w_used := Some now, w_host := DHost x, w_ip := DIP x, w_ip6 := DIP6 x\<rparr>) (enroll_tokens s)\<rparr>))"

definition enrollDone :: "enroll_env \<Rightarrow> doneIn option \<Rightarrow> 'k sys \<Rightarrow> request \<Rightarrow> ctl \<Rightarrow> resp \<times> ctl" where
  "enrollDone V i E rq s = (case done_check V i E rq s of Inl r \<Rightarrow> (r, s) | Inr (w, x) \<Rightarrow> done_write (S_ok E 1) (S_now E) w x s)"

end
