(* ===== verification/Enroll_Laws.thy ===== *)
theory Enroll_Laws
  imports Enroll_Api Auth_Laws
begin

text \<open>
  The laws of the enrolment: the table of the tokens as a transition system in which the announcements of the
  machines interleave, a token that lets nobody in again once it is used up, and the interleaving in which two
  machines share one.
\<close>

section \<open>The routes as steps\<close>

text \<open>
  \<open>h\<close> is a hash that no token created meanwhile has: the tokens are 32 random bytes. The handler of an announcement
  reads the token and writes the row in two statements, with those of other requests in between: next to the state
  stands the list of the announcements that have read their token and not yet written. A request of any other route
  may do anything but change the table of the tokens, which only enroll.go names.
\<close>

type_synonym enrolling = "ctl \<times> (nat \<times> doneIn) list"

inductive enroll_step :: "string \<Rightarrow> enrolling \<Rightarrow> enrolling \<Rightarrow> bool" for h where
  create: "hashToken (S_sha (E :: string sys)) (enroll_token E) \<noteq> h \<Longrightarrow> createEnrollToken V i E rq p s = (r, s') \<Longrightarrow> enroll_step h (s, ps) (s', ps)"
| list_tokens: "listEnrollTokens (E :: string sys) rq p s = (r, s') \<Longrightarrow> enroll_step h (s, ps) (s', ps)"
| delete: "deleteEnrollToken (E :: string sys) rq p s = (r, s') \<Longrightarrow> enroll_step h (s, ps) (s', ps)"
| read_token: "done_check V i (E :: string sys) rq s = Inr (w, x) \<Longrightarrow> enroll_step h (s, ps) (s, ps @ [(w, x)])"
| write_row: "(w, x) \<in> set ps \<Longrightarrow> done_write ok now w x s = (r, s') \<Longrightarrow> enroll_step h (s, ps) (s', remove1 (w, x) ps)"
| other: "enroll_tokens s' = enroll_tokens s \<Longrightarrow> enroll_step h (s, ps) (s', ps)"

definition tokens_ok :: "ctl \<Rightarrow> bool" where
  "tokens_ok s \<longleftrightarrow> distinct (map w_id (enroll_tokens s)) \<and> distinct (map w_hash (enroll_tokens s))"

text \<open>No token of that hash is left to use.\<close>

definition spent :: "string \<Rightarrow> ctl \<Rightarrow> bool" where
  "spent h s \<longleftrightarrow> (\<forall>w \<in> set (enroll_tokens s). w_hash w = h \<longrightarrow> w_used w \<noteq> None)"

lemma insert_token_cases:
  "insert_token ok fresh now h roles by s = (r, s') \<Longrightarrow> s' = s \<or>
     (\<exists>w. enroll_tokens s' = enroll_tokens s @ [w] \<and> w_hash w = h \<and> h \<notin> w_hash ` set (enroll_tokens s) \<and> w_id w \<notin> w_id ` set (enroll_tokens s))"
  by (auto simp: insert_token_def Let_def split: if_splits option.splits)

lemma create_cases:
  assumes "createEnrollToken V i E rq p s = (r, s')"
  shows "enroll_tokens s' = enroll_tokens s \<or> (\<exists>w. enroll_tokens s' = enroll_tokens s @ [w] \<and> w_hash w = hashToken (S_sha E) (enroll_token E) \<and>
    w_hash w \<notin> w_hash ` set (enroll_tokens s) \<and> w_id w \<notin> w_id ` set (enroll_tokens s))"
proof -
  have "s' = s \<or> (\<exists>roles r1 s1. insert_token (S_ok E 0) (S_id E 0) (S_now E) (hashToken (S_sha E) (enroll_token E)) roles (actor E p) s = (r1, s1) \<and>
      enroll_tokens s' = enroll_tokens s1)"
  proof (cases "case i of None \<Rightarrow> Some None | Some b \<Rightarrow> b")
    case None
    then show ?thesis using assms by (simp add: createEnrollToken_def decode_def)
  next
    case (Some roles)
    obtain r1 s1 where i: "insert_token (S_ok E 0) (S_id E 0) (S_now E) (hashToken (S_sha E) (enroll_token E)) roles (actor E p) s = (r1, s1)" by (metis surj_pair)
    have "s' = s \<or> enroll_tokens s' = enroll_tokens s1"
      using assms by (cases "deployPubkey (S_uni E) V"; cases r1) (auto simp: createEnrollToken_def decode_def Some i Let_def)
    then show ?thesis using i by blast
  qed
  then show ?thesis by (metis insert_token_cases)
qed

lemma delete_cases:
  "deleteEnrollToken E rq p s = (r, s') \<Longrightarrow> \<exists>P. enroll_tokens s' = filter P (enroll_tokens s)"
  by (auto simp: deleteEnrollToken_def intro: exI [of _ "\<lambda>_. True"] split: option.splits if_splits)

lemma list_same: "listEnrollTokens E rq p s = (r, s') \<Longrightarrow> s' = s"
  by (auto simp: listEnrollTokens_def split: if_splits)

lemma distinct_map_filtered: "distinct (map f xs) \<Longrightarrow> distinct (map f (filter P xs))"
  by (induction xs) auto

lemma distinct_key_eq: "distinct (map f xs) \<Longrightarrow> x \<in> set xs \<Longrightarrow> y \<in> set xs \<Longrightarrow> f x = f y \<Longrightarrow> x = y"
  by (induction xs) (auto simp: image_iff)

definition used_row :: "int \<Rightarrow> doneIn \<Rightarrow> enroll_row \<Rightarrow> enroll_row" where
  "used_row now x r = r\<lparr>w_used := Some now, w_host := DHost x, w_ip := DIP x, w_ip6 := DIP6 x\<rparr>"

lemma used_row_sel [simp]: "w_id (used_row now x r) = w_id r" "w_hash (used_row now x r) = w_hash r" "w_used (used_row now x r) = Some now"
  "w_host (used_row now x r) = DHost x" "w_ip (used_row now x r) = DIP x" "w_ip6 (used_row now x r) = DIP6 x"
  by (simp_all add: used_row_def)

lemma done_write_tokens:
  "done_write ok now w x s = (r, s') \<Longrightarrow>
   enroll_tokens s' = (if ok then update_where (\<lambda>r. w_id r = w) (used_row now x) (enroll_tokens s) else enroll_tokens s)"
  by (auto simp: done_write_def used_row_def [abs_def])

section \<open>One use\<close>

lemma lookupToken_Inr:
  "lookupToken E rq s = Inr i \<Longrightarrow> \<exists>w \<in> set (enroll_tokens s). w_id w = i \<and> w_hash w = hashToken (S_sha E) (Rpath rq ''token'') \<and> w_used w = None \<and>
     S_now E < w_expires w"
  by (auto simp: lookupToken_def split: if_splits option.splits dest!: find_mem)

lemma lookupToken_spent: "spent (hashToken (S_sha E) (Rpath rq ''token'')) s \<Longrightarrow> lookupToken E rq s = Inl (if S_ok E 0 then no_rows else EDb)"
  by (auto simp: lookupToken_def spent_def split: option.splits dest!: find_mem)

lemma done_check_Inr: "done_check V i E rq s = Inr (w, x) \<Longrightarrow> lookupToken E rq s = Inr w"
  by (auto simp: done_check_def split: sum.splits option.splits if_splits)

lemma done_check_refused: "done_check V i E rq s = Inl r \<Longrightarrow> 400 \<le> code r"
  by (auto simp: done_check_def dbErr_code split: sum.splits option.splits if_splits)

text \<open>The token of the hash \<open>h\<close> is used up: its row, while it is not deleted, is \<open>v\<close>, and nobody else is about to write it.\<close>

definition used_up :: "string \<Rightarrow> enroll_row \<Rightarrow> enrolling \<Rightarrow> bool" where
  "used_up h v = (\<lambda>(s, ps). tokens_ok s \<and> w_used v \<noteq> None \<and> (\<forall>y \<in> set (enroll_tokens s). w_hash y = h \<longrightarrow> y = v \<and> (\<forall>p \<in> set ps. fst p \<noteq> w_id v)))"

lemma used_upI:
  assumes "tokens_ok s" and "w_used v \<noteq> None"
    and "\<And>y. y \<in> set (enroll_tokens s) \<Longrightarrow> w_hash y = h \<Longrightarrow> y = v \<and> (\<forall>p \<in> set ps. fst p \<noteq> w_id v)"
  shows "used_up h v (s, ps)"
  unfolding used_up_def prod.case using assms by blast

lemma used_upD:
  assumes "used_up h v (s, ps)"
  shows "tokens_ok s" and "w_used v \<noteq> None" and "\<And>y. y \<in> set (enroll_tokens s) \<Longrightarrow> w_hash y = h \<Longrightarrow> y = v"
    and "\<And>y p. y \<in> set (enroll_tokens s) \<Longrightarrow> w_hash y = h \<Longrightarrow> p \<in> set ps \<Longrightarrow> fst p \<noteq> w_id v"
  using assms by (auto simp: used_up_def)

lemma used_up_spent: "used_up h v (s, ps) \<Longrightarrow> spent h s"
  by (auto simp: used_up_def spent_def)

lemma tokens_ok_write: "tokens_ok s \<Longrightarrow> done_write ok now w x s = (r, s') \<Longrightarrow> tokens_ok s'"
  by (simp add: tokens_ok_def done_write_tokens update_where_keys)

lemma step_used_up:
  assumes "enroll_step h x y" and "used_up h v x"
  shows "used_up h v y"
  using assms(1)
proof cases
  case (create E V i rq p s r s' ps)
  note U = used_upD [OF assms(2) [unfolded create(1)]]
  show ?thesis unfolding create(2)
  proof (rule used_upI)
    show "tokens_ok s'" using create_cases [OF create(4)] U(1) by (auto simp: tokens_ok_def)
    fix y assume "y \<in> set (enroll_tokens s')" "w_hash y = h"
    then have y: "y \<in> set (enroll_tokens s)" "w_hash y = h" using create_cases [OF create(4)] create(3) by auto
    show "y = v \<and> (\<forall>p \<in> set ps. fst p \<noteq> w_id v)" using U(3) [OF y] U(4) [OF y] by blast
  qed (rule U(2))
next
  case (list_tokens E rq p s r s' ps)
  then show ?thesis using assms(2) list_same by blast
next
  case (delete E rq p s r s' ps)
  note U = used_upD [OF assms(2) [unfolded delete(1)]]
  show ?thesis unfolding delete(2)
  proof (rule used_upI)
    show "tokens_ok s'" using delete_cases [OF delete(3)] U(1) by (auto simp: tokens_ok_def distinct_map_filtered)
    fix y assume "y \<in> set (enroll_tokens s')" "w_hash y = h"
    then have y: "y \<in> set (enroll_tokens s)" "w_hash y = h" using delete_cases [OF delete(3)] by auto
    show "y = v \<and> (\<forall>p \<in> set ps. fst p \<noteq> w_id v)" using U(3) [OF y] U(4) [OF y] by blast
  qed (rule U(2))
next
  case (read_token V i E rq s w z ps)
  note U = used_upD [OF assms(2) [unfolded read_token(1)]]
  obtain t where t: "t \<in> set (enroll_tokens s)" "w_id t = w" "w_used t = None" using lookupToken_Inr [OF done_check_Inr [OF read_token(3)]] by blast
  have "w \<noteq> w_id v" if "u \<in> set (enroll_tokens s)" "w_hash u = h" for u
    using U(3) [OF that] that(1) U(1,2) t distinct_key_eq [of w_id "enroll_tokens s" t v] by (auto simp: tokens_ok_def)
  then show ?thesis unfolding read_token(2) by (intro used_upI) (use U in auto)
next
  case (write_row w z ps ok now s r s')
  note U = used_upD [OF assms(2) [unfolded write_row(1)]]
  show ?thesis unfolding write_row(2)
  proof (rule used_upI)
    fix y assume y: "y \<in> set (enroll_tokens s')" "w_hash y = h"
    then obtain u where u: "u \<in> set (enroll_tokens s)" "w_hash u = h" "y = u \<or> (w_id u = w \<and> y = used_row now z u)"
      by (auto simp: done_write_tokens [OF write_row(4)] set_update_where split: if_splits)
    then have "u = v" "w \<noteq> w_id v" using U(3) U(4) [OF u(1,2) write_row(3)] by auto
    then show "y = v \<and> (\<forall>p \<in> set (remove1 (w, z) ps). fst p \<noteq> w_id v)" using u U(4) [OF u(1,2)] set_remove1_subset [of "(w, z)" ps] by auto
  qed (use U tokens_ok_write [OF U(1) write_row(4)] in auto)
next
  case (other s' s ps)
  note U = used_upD [OF assms(2) [unfolded other(1)]]
  show ?thesis unfolding other(2)
  proof (rule used_upI)
    show "tokens_ok s'" using U(1) other(3) by (simp add: tokens_ok_def)
    fix y assume "y \<in> set (enroll_tokens s')" "w_hash y = h"
    then have y: "y \<in> set (enroll_tokens s)" "w_hash y = h" using other(3) by simp_all
    show "y = v \<and> (\<forall>p \<in> set ps. fst p \<noteq> w_id v)" using U(3) [OF y] U(4) [OF y] by blast
  qed (rule U(2))
qed

lemma steps_used_up: "(enroll_step h)\<^sup>*\<^sup>* x y \<Longrightarrow> used_up h v x \<Longrightarrow> used_up h v y"
  by (induction rule: rtranclp_induct) (use step_used_up in blast)+

text \<open>C16: An enrolment token lets one machine in. After an announcement was accepted for it (its row was written), while
  no other announcement that had already read this token was under way, then in whatever order the statements of all
  later requests come (short of drawing the same token again): the script is not served for it, every further
  announcement with it is refused and changes nothing, and the row, unless it is deleted, keeps the machine that was
  let in. (An announcement that had read the token before is not stopped: the lemma \<open>token_used_twice\<close>.)\<close>

theorem enroll_once:
  assumes "tokens_ok s" and "v \<in> set (enroll_tokens s)" and "w_hash v = h"
    and "done_write ok now (w_id v) x s = (r, s1)" and "code r = 200" and "\<forall>p \<in> set ps. fst p \<noteq> w_id v"
    and "(enroll_step h)\<^sup>*\<^sup>* (s1, ps) (s2, ps2)" and "hashToken (S_sha E) (Rpath rq ''token'') = h"
  shows "code (enrollScript T V E rq s2) = 404 \<and> 400 \<le> code (fst (enrollDone V i E rq s2)) \<and> snd (enrollDone V i E rq s2) = s2 \<and>
    (\<forall>y \<in> set (enroll_tokens s2). w_hash y = h \<longrightarrow> w_used y = Some now \<and> w_host y = DHost x \<and> w_ip y = DIP x \<and> w_ip6 y = DIP6 x)"
proof -
  have ok: "ok" using assms(4,5) dbErr_code [of EDb] by (cases ok) (simp_all add: done_write_def)
  have "used_up h (used_row now x v) (s1, ps)"
  proof (rule used_upI)
    fix y assume y: "y \<in> set (enroll_tokens s1)" "w_hash y = h"
    then obtain u where u: "u \<in> set (enroll_tokens s)" "y = (if w_id u = w_id v then used_row now x u else u)"
      using ok by (auto simp: done_write_tokens [OF assms(4)] set_update_where)
    then have "w_hash u = w_hash v" using y(2) assms(3) by (simp split: if_splits)
    then have "u = v" using distinct_key_eq [of w_hash, OF _ u(1) assms(2)] assms(1) by (simp add: tokens_ok_def)
    then show "y = used_row now x v \<and> (\<forall>p \<in> set ps. fst p \<noteq> w_id (used_row now x v))" using u assms(6) by simp
  qed (simp_all add: tokens_ok_write [OF assms(1,4)])
  from steps_used_up [OF assms(7) this] have U: "used_up h (used_row now x v) (s2, ps2)" .
  have L: "lookupToken E rq s2 = Inl (if S_ok E 0 then no_rows else EDb)"
    using lookupToken_spent used_up_spent [OF U] assms(8) by blast
  obtain q where q: "done_check V i E rq s2 = Inl q" unfolding done_check_def L by auto
  have "\<forall>y \<in> set (enroll_tokens s2). w_hash y = h \<longrightarrow> w_used y = Some now \<and> w_host y = DHost x \<and> w_ip y = DIP x \<and> w_ip6 y = DIP6 x"
    using used_upD(3) [OF U] used_row_sel by metis
  then show ?thesis using done_check_refused [OF q] by (simp add: enrollScript_def L sh_error_def enrollDone_def q)
qed

definition enroll_request :: request where
  "enroll_request = (demo_request ''POST'')\<lparr>Rpath := \<lambda>k. if k = ''token'' then ''aa'' else []\<rparr>"

definition enroll_ctl :: ctl where
  "enroll_ctl = demo_ctl\<lparr>enroll_tokens := [\<lparr>w_id = 1, w_hash = hex ''aa'', w_roles = [], w_by = [], w_created = 500, w_expires = 1400, w_used = None,
     w_host = [], w_ip = [], w_ip6 = []\<rparr>]\<rparr>"

definition demo_env :: enroll_env where
  "demo_env = \<lparr>V_pubkey = Some ''ssh-ed25519 AAAA'', V_public = ''https://flyc/'', V_tls = (\<lambda>_. True), V_host = (\<lambda>_. []), V_ip = (\<lambda>_. Some True)\<rparr>"

definition demo_done :: doneIn where
  "demo_done = \<lparr>DHost = ''n1'', DIP = ''10.0.0.9'', DIP6 = []\<rparr>"

lemmas enroll_eval = enrollDone_def done_check_def done_write_def lookupToken_def enroll_request_def enroll_ctl_def demo_env_def demo_done_def demo_request_def
  demo_sys_def demo_ctl_def hashToken_def clean_ip6_def update_where_def

text \<open>Another machine that reads the token after the first was let in.\<close>

theorem enroll_once_witness:
  "code (enrollScript (\<lambda>_. []) demo_env demo_sys enroll_request (snd (done_write True 1000 1 demo_done enroll_ctl))) = 404 \<and>
   400 \<le> code (fst (enrollDone demo_env (Some demo_done) demo_sys enroll_request (snd (done_write True 1000 1 demo_done enroll_ctl))))"
proof -
  let ?v = "hd (enroll_tokens enroll_ctl)"
  have t: "tokens_ok enroll_ctl" "?v \<in> set (enroll_tokens enroll_ctl)" "w_hash ?v = hex ''aa''" "w_id ?v = 1"
    by (simp_all add: tokens_ok_def enroll_ctl_def)
  obtain r s1 where w: "done_write True 1000 (w_id ?v) demo_done enroll_ctl = (r, s1)" by (metis surj_pair)
  then have c: "code r = 200" by (auto simp: done_write_def)
  have h: "hashToken (S_sha demo_sys) (Rpath enroll_request ''token'') = hex ''aa''"
    by (simp add: enroll_eval)
  have p: "\<forall>p \<in> set []. fst p \<noteq> w_id ?v" by simp
  have s1: "snd (done_write True 1000 1 demo_done enroll_ctl) = s1" using w t(4) by simp
  show ?thesis unfolding s1 using enroll_once [OF t(1,2,3) w c p rtranclp.rtrancl_refl h] by blast
qed

section \<open>Two machines at once\<close>

text \<open>The statement that uses a token up does not ask again whether it is unused: two announcements whose
  lookups both come first are both accepted, and the second machine overwrites the first.\<close>

lemma token_used_twice:
  "\<exists>w x s1 r1 r2 s2. done_check demo_env (Some demo_done) demo_sys enroll_request enroll_ctl = Inr (w, x) \<and>
     done_write True 1000 w x enroll_ctl = (r1, s1) \<and> code r1 = 200 \<and>
     done_write True 1001 w (x\<lparr>DHost := ''n2''\<rparr>) s1 = (r2, s2) \<and> code r2 = 200 \<and> map w_host (enroll_tokens s2) = [''n2'']"
  by (simp add: enroll_eval)

text \<open>A token without roles is never created: the slice is nil, and the column refuses NULL.\<close>

lemma create_without_roles: "code (fst (createEnrollToken V None E rq p s)) \<ge> 500"
  by (auto simp: createEnrollToken_def decode_def insert_token_def dbErr_def pg_errors not_null_violation_def HErr_def Error_def JSON_def Let_def
      split: sum.split)

end
