(* ===== verification/Acme_Model.thy ===== *)
theory Acme_Model
  imports Room_Api Bootstrap_Model
begin

text \<open>
  The certificates of the domains (control/internal/acme/acme.go): the account at the certificate
  authority, the challenges that are served while it checks a domain, the issue of one certificate and
  the pass over the domains that need one. The protocol client (the library lego) is an argument: what it
  says to a registration, and for a domain the challenges it presents and removes and the certificate it
  returns. A key is its DER text; the row of a certificate is found by its domain.
\<close>

section \<open>The outside\<close>

datatype chal = Present_c string string string | CleanUp_c string string string

record lego =
  G_parse :: "string \<Rightarrow> bool"
  G_generate :: "string option"
  G_reg :: "string \<Rightarrow> string option"
  G_client :: "string \<Rightarrow> bool"
  G_register :: "string \<Rightarrow> string option"
  G_obtain :: "string \<Rightarrow> chal list \<times> (string \<times> string) option"
  G_cert :: "string \<Rightarrow> (int \<times> int \<times> string) option"
  G_text :: "err \<Rightarrow> string"
  G_utf8 :: "string \<Rightarrow> bool"

record acme =
  M_key :: string
  M_directory :: string
  M_email :: string

text \<open>\<open>production\<close> is the directory of Let's Encrypt, a constant of the library.\<close>

definition New_acme :: "string \<Rightarrow> string \<Rightarrow> string \<Rightarrow> string \<Rightarrow> acme" where
  "New_acme production key directory email = \<lparr>M_key = key, M_directory = (if directory = [] then production else directory), M_email = email\<rparr>"

definition Enabled :: "acme \<Rightarrow> bool" where
  "Enabled M \<longleftrightarrow> M_email M \<noteq> []"

section \<open>The account\<close>

record acme_account =
  AKey :: string
  AReg :: "string option"

definition loadAccount :: "keylib \<Rightarrow> lego \<Rightarrow> acme \<Rightarrow> bool \<Rightarrow> ctl \<Rightarrow> acme_account res" where
  "loadAccount L G M ok s =
    (if \<not> ok then Inl EDb
     else case find (\<lambda>x. x_directory x = M_directory M) (acme_accounts s) of
        Some x \<Rightarrow> (case Unseal L (M_key M) (x_key_enc x) of Inl e \<Rightarrow> Inl e
          | Inr der \<Rightarrow> (if \<not> G_parse G der then Inl (EInvalid ''der'')
              else Inr \<lparr>AKey = der, AReg = (if x_reg x = [] then None else G_reg G (x_reg x))\<rparr>))
      | None \<Rightarrow> (case G_generate G of None \<Rightarrow> Inl (EInvalid ''key'') | Some k \<Rightarrow> Inr \<lparr>AKey = k, AReg = None\<rparr>))"

definition saveAccount :: "keylib \<Rightarrow> acme \<Rightarrow> string \<Rightarrow> bool \<Rightarrow> string \<Rightarrow> string \<Rightarrow> ctl \<Rightarrow> unit res \<times> ctl" where
  "saveAccount L M nonce ok der reg s = (case Seal L (M_key M) nonce der of Inl e \<Rightarrow> (Inl e, s)
     | Inr enc \<Rightarrow> (if \<not> ok then (Inl EDb, s)
         else (Inr (), s\<lparr>acme_accounts := upsert x_directory (M_directory M) (\<lambda>x. x\<lparr>x_email := M_email M, x_key_enc := enc, x_reg := reg\<rparr>)
                \<lparr>x_directory = M_directory M, x_email = M_email M, x_key_enc = enc, x_reg = reg\<rparr> (acme_accounts s)\<rparr>)))"

text \<open>\<open>client\<close>: the account is registered and saved when it is new. Statement 1 reads it, statement 2 saves it.\<close>

definition acme_client :: "keylib \<Rightarrow> lego \<Rightarrow> acme \<Rightarrow> 'k sys \<Rightarrow> ctl \<Rightarrow> unit res \<times> ctl" where
  "acme_client L G M E s = (case loadAccount L G M (S_ok E 1) s of Inl e \<Rightarrow> (Inl e, s)
     | Inr a \<Rightarrow>
        (if \<not> G_client G (AKey a) then (Inl (EInvalid ''client''), s)
         else if AReg a \<noteq> None then (Inr (), s)
         else case G_register G (AKey a) of None \<Rightarrow> (Inl (EInvalid ''register''), s)
          | Some reg \<Rightarrow> saveAccount L M (take 12 (S_rand E 0)) (S_ok E 2) (AKey a) reg s))"

section \<open>Challenges\<close>

definition Present :: "bool \<Rightarrow> string \<Rightarrow> string \<Rightarrow> string \<Rightarrow> ctl \<Rightarrow> ctl" where
  "Present ok f token auth s = (if ok then s\<lparr>challenges := upsert y_token token (\<lambda>y. y\<lparr>y_auth := auth\<rparr>)
     \<lparr>y_token = token, y_auth = auth, y_fqdn = f\<rparr> (challenges s)\<rparr> else s)"

definition CleanUp :: "bool \<Rightarrow> string \<Rightarrow> ctl \<Rightarrow> ctl" where
  "CleanUp ok token s = (if ok then s\<lparr>challenges := filter (\<lambda>y. y_token y \<noteq> token) (challenges s)\<rparr> else s)"

fun run_challenges :: "(nat \<Rightarrow> bool) \<Rightarrow> nat \<Rightarrow> chal list \<Rightarrow> ctl \<Rightarrow> ctl" where
  "run_challenges ok k [] s = s"
| "run_challenges ok k (Present_c f t a # cs) s = run_challenges ok (Suc k) cs (Present (ok k) f t a s)"
| "run_challenges ok k (CleanUp_c f t a # cs) s = run_challenges ok (Suc k) cs (CleanUp (ok k) t s)"

text \<open>The route that the authority calls through HAProxy; every error is a 404.\<close>

definition challenge_h :: "bool \<Rightarrow> string \<Rightarrow> ctl \<Rightarrow> resp" where
  "challenge_h ok token s = (case (if ok then find (\<lambda>y. y_token y = token) (challenges s) else None) of
     None \<Rightarrow> \<lparr>code = 404, cookies = [], headers = [], body = Raw []\<rparr>
   | Some y \<Rightarrow> \<lparr>code = 200, cookies = [], headers = [(''Content-Type'', ''text/plain'')], body = Raw (y_auth y)\<rparr>)"

section \<open>Issue\<close>

definition owned :: "nat \<Rightarrow> string \<Rightarrow> tables \<Rightarrow> bool" where
  "owned i f d \<longleftrightarrow> list_ex (\<lambda>x. d_id x = i \<and> d_fqdn x = f) (domains d)"

definition set_certs :: "(cert_row list \<Rightarrow> cert_row list) \<Rightarrow> ctl \<Rightarrow> ctl" where
  "set_certs f s = set_db (\<lambda>d. d\<lparr>certificates := f (certificates d)\<rparr>) s"

text \<open>The first statement: its error, a domain that is gone included, is dropped.\<close>

definition mark_attempt :: "bool \<Rightarrow> int \<Rightarrow> nat \<Rightarrow> string \<Rightarrow> ctl \<Rightarrow> ctl" where
  "mark_attempt ok now i f s = (if ok \<and> owned i f (db s)
     then set_certs (upsert c_fqdn f (\<lambda>c. c\<lparr>c_last_attempt := Some now\<rparr>)
       \<lparr>c_fqdn = f, c_status = ''pending'', c_pem_enc = None, c_issuer = None, c_not_before = None, c_not_after = None, c_last_error = None,
        c_last_attempt = Some now\<rparr>) s
     else s)"

definition update_cert :: "nat \<Rightarrow> string \<Rightarrow> (cert_row \<Rightarrow> cert_row) \<Rightarrow> ctl \<Rightarrow> ctl" where
  "update_cert i f g s = (if owned i f (db s) then set_certs (update_where (\<lambda>c. c_fqdn c = f) g) s else s)"

text \<open>\<open>fail\<close>: the message is cut at 900 bytes, wherever that is in a character; Postgres refuses the text
  when it is not UTF-8 any more, and the row stays as it was.\<close>

definition fail :: "lego \<Rightarrow> bool \<Rightarrow> nat \<Rightarrow> string \<Rightarrow> err \<Rightarrow> ctl \<Rightarrow> unit res \<times> ctl" where
  "fail G ok i f e s = (let msg = take 900 (G_text G e) in
     (Inl e, if ok \<and> G_utf8 G msg then update_cert i f (\<lambda>c. c\<lparr>c_status := ''error'', c_last_error := Some msg\<rparr>) s else s))"

text \<open>The zero time of Go, which a certificate that cannot be read is given.\<close>

definition zero_time :: int where "zero_time = -62135596800"

definition set_issued :: "string \<Rightarrow> int \<times> int \<times> string \<Rightarrow> cert_row \<Rightarrow> cert_row" where
  "set_issued enc t c = c\<lparr>c_pem_enc := Some enc, c_status := ''issued'', c_last_error := None, c_issuer := Some (snd (snd t)),
     c_not_before := Some (fst t), c_not_after := Some (fst (snd t))\<rparr>"

definition Issue :: "keylib \<Rightarrow> lego \<Rightarrow> acme \<Rightarrow> 'k sys \<Rightarrow> nat \<Rightarrow> string \<Rightarrow> ctl \<Rightarrow> unit res \<times> ctl" where
  "Issue L G M E i f s =
    (let s1 = mark_attempt (S_ok E 0) (S_now E) i f s in
     case acme_client L G M E s1 of (Inl e, s2) \<Rightarrow> fail G (S_ok E 3) i f e s2
     | (Inr _, s2) \<Rightarrow>
        (let (cs, out) = G_obtain G f; s3 = run_challenges (S_ok E) 3 cs s2; k = 3 + length cs in
         case out of None \<Rightarrow> fail G (S_ok E k) i f (EInvalid ''obtain'') s3
         | Some (crt, key) \<Rightarrow>
            (case Seal L (M_key M) (take 12 (S_rand E 1)) (crt @ key) of Inl e \<Rightarrow> fail G (S_ok E k) i f e s3
             | Inr enc \<Rightarrow>
                (if \<not> S_ok E k then (Inl EDb, s3)
                 else (Inr (), kicked (update_cert i f (set_issued enc (case G_cert G crt of None \<Rightarrow> (zero_time, zero_time, []) | Some t \<Rightarrow> t)) s3))))))"

section \<open>The pass\<close>

definition needs_cert :: "int \<Rightarrow> cert_row option \<Rightarrow> bool" where
  "needs_cert now c = (case c of None \<Rightarrow> True
     | Some c \<Rightarrow> (c_status c \<noteq> ''issued'' \<or> (case c_not_after c of None \<Rightarrow> False | Some t \<Rightarrow> t < now + 30 * 86400)) \<and>
         (case c_last_attempt c of None \<Rightarrow> True | Some t \<Rightarrow> t < now - 15 * 60))"

definition acme_todo :: "int \<Rightarrow> tables \<Rightarrow> domain_row list" where
  "acme_todo now d = filter (\<lambda>x. d_tls x = ''auto'' \<and> d_mode x = ''dns'' \<and> needs_cert now (cert_of x d)) (domains d)"

text \<open>\<open>perm\<close> is the order in which Postgres returns the rows; every domain has its own time, answers and library.\<close>

definition acme_pass :: "(domain_row list \<Rightarrow> domain_row list) \<Rightarrow> keylib \<Rightarrow> acme \<Rightarrow> (nat \<Rightarrow> 'k sys) \<Rightarrow> (nat \<Rightarrow> lego) \<Rightarrow> ctl \<Rightarrow> ctl" where
  "acme_pass perm L M Es Gs s = (if \<not> S_ok (Es 0) 0 then s
     else fold (\<lambda>(k, x) s. snd (Issue L (Gs k) M (Es k) (d_id x) (d_fqdn x) s)) (enumerate 1 (perm (acme_todo (S_now (Es 0)) (db s)))) s)"

text \<open>The loop every ten minutes only runs when an address is configured; the triggered pass does not ask.\<close>

definition acme_run :: "(domain_row list \<Rightarrow> domain_row list) \<Rightarrow> keylib \<Rightarrow> acme \<Rightarrow> (nat \<Rightarrow> 'k sys) \<Rightarrow> (nat \<Rightarrow> lego) \<Rightarrow> ctl \<Rightarrow> ctl" where
  "acme_run perm L M Es Gs s = (if \<not> Enabled M then s else acme_pass perm L M Es Gs s)"

definition Trigger :: "(domain_row list \<Rightarrow> domain_row list) \<Rightarrow> keylib \<Rightarrow> acme \<Rightarrow> (nat \<Rightarrow> 'k sys) \<Rightarrow> (nat \<Rightarrow> lego) \<Rightarrow> ctl \<Rightarrow> ctl" where
  "Trigger perm L M Es Gs s = acme_pass perm L M Es Gs s"

end
