(* ===== verification/Acme_Laws.thy ===== *)
theory Acme_Laws
  imports Acme_Model Control_Laws
begin

text \<open>
  The laws of the certificates: what one issue changes, that a domain is left alone for a quarter of an
  hour after an attempt, that a certificate obtained reaches the desired state of the load balancers; and
  the execution in which a renewal that fails takes a certificate in force away.
\<close>

section \<open>What one issue changes\<close>

lemma acme_client_db [simp]: "db (snd (acme_client L G M E s)) = db s"
  by (simp add: acme_client_def saveAccount_def split: sum.split option.split)

lemma run_challenges_db [simp]: "db (run_challenges ok k cs s) = db s"
  by (induction ok k cs s rule: run_challenges.induct) (simp_all add: Present_def CleanUp_def)

definition upd_cert :: "nat \<Rightarrow> string \<Rightarrow> (cert_row \<Rightarrow> cert_row) \<Rightarrow> tables \<Rightarrow> tables" where
  "upd_cert i f g d = (if owned i f d then d\<lparr>certificates := update_where (\<lambda>c. c_fqdn c = f) g (certificates d)\<rparr> else d)"

lemma update_cert_db [simp]: "db (update_cert i f g s) = upd_cert i f g (db s)"
  by (simp add: update_cert_def upd_cert_def set_certs_def)

definition keeps_row :: "(cert_row \<Rightarrow> cert_row) \<Rightarrow> bool" where
  "keeps_row g \<longleftrightarrow> (\<forall>c. c_fqdn (g c) = c_fqdn c \<and> c_last_attempt (g c) = c_last_attempt c)"

lemma keeps_row_fail: "keeps_row (\<lambda>c. c\<lparr>c_status := st, c_last_error := m\<rparr>)"
  by (simp add: keeps_row_def)

lemma keeps_row_issued: "keeps_row (set_issued enc t)"
  by (simp add: keeps_row_def set_issued_def)

lemma fail_db: "db (snd (fail G ok i f e s)) = db s \<or> (\<exists>g. keeps_row g \<and> db (snd (fail G ok i f e s)) = upd_cert i f g (db s))"
  using keeps_row_fail by (auto simp: fail_def Let_def)

lemma Issue_db:
  fixes E :: "'k sys" and s i f
  defines "s1 \<equiv> mark_attempt (S_ok E 0) (S_now E) i f s"
  shows "db (snd (Issue L G M E i f s)) = db s1 \<or> (\<exists>g. keeps_row g \<and> db (snd (Issue L G M E i f s)) = upd_cert i f g (db s1))"
proof -
  let ?P = "\<lambda>r. db (snd (r :: unit res \<times> ctl)) = db s1 \<or> (\<exists>g. keeps_row g \<and> db (snd r) = upd_cert i f g (db s1))"
  obtain r s2 where c: "acme_client L G M E s1 = (r, s2)" by (metis surj_pair)
  have d2: "db s2 = db s1" using acme_client_db [of L G M E s1] c by simp
  have F: "?P (fail G ok i f e s')" if "db s' = db s1" for ok e s' using fail_db [of G ok i f e s'] that by simp
  obtain cs out where o: "G_obtain G f = (cs, out)" by (metis surj_pair)
  have d3: "db (run_challenges (S_ok E) 3 cs s2) = db s1" using d2 by simp
  have I: "?P (Issue L G M E i f s)"
  proof (cases r)
    case (Inl e)
    then have "Issue L G M E i f s = fail G (S_ok E 3) i f e s2" using c by (simp add: Issue_def s1_def)
    then show ?thesis using F [OF d2] by simp
  next
    case (Inr u)
    show ?thesis
    proof (cases out)
      case None
      then show ?thesis using c o Inr F [OF d3] by (simp add: Issue_def s1_def Let_def)
    next
      case (Some ck)
      obtain crt key where ck: "ck = (crt, key)" by (metis surj_pair)
      show ?thesis
      proof (cases "Seal L (M_key M) (take 12 (S_rand E 1)) (crt @ key)")
        case (Inl e)
        then show ?thesis using c o Inr Some ck F [OF d3] by (simp add: Issue_def s1_def Let_def)
      next
        case (Inr enc)
        then show ?thesis using c o \<open>r = Inr u\<close> Some ck d2 keeps_row_issued [of enc "case G_cert G crt of None \<Rightarrow> (zero_time, zero_time, []) | Some t \<Rightarrow> t"]
          by (auto simp: Issue_def s1_def Let_def kicked_def)
      qed
    qed
  qed
  then show ?thesis .
qed

text \<open>A domain that was tried since \<open>t\<close>: its certificate has a row, and the row says so.\<close>

definition since :: "int \<Rightarrow> cert_row \<Rightarrow> bool" where
  "since t c \<longleftrightarrow> (case c_last_attempt c of None \<Rightarrow> False | Some a \<Rightarrow> t \<le> a)"

definition tried_in :: "int \<Rightarrow> string \<Rightarrow> cert_row list \<Rightarrow> bool" where
  "tried_in t f cs \<longleftrightarrow> f \<in> c_fqdn ` set cs \<and> (\<forall>c \<in> set cs. c_fqdn c = f \<longrightarrow> since t c)"

abbreviation tried :: "int \<Rightarrow> string \<Rightarrow> tables \<Rightarrow> bool" where
  "tried t f d \<equiv> tried_in t f (certificates d)"

lemma tried_map:
  assumes "tried_in t f cs" and "\<And>c. c_fqdn (h c) = c_fqdn c" and "\<And>c. since t c \<Longrightarrow> since t (h c)"
  shows "tried_in t f (map h cs)"
  using assms by (auto simp: tried_in_def image_iff)

lemma tried_map_all:
  assumes "f \<in> c_fqdn ` set cs" and "\<And>c. c_fqdn (h c) = c_fqdn c" and "\<And>c. c_fqdn c = f \<Longrightarrow> since t (h c)"
  shows "tried_in t f (map h cs)"
  using assms by (auto simp: tried_in_def image_iff)

definition same_but :: "string set \<Rightarrow> tables \<Rightarrow> tables \<Rightarrow> bool" where
  "same_but F d d' \<longleftrightarrow> d' = d\<lparr>certificates := certificates d'\<rparr> \<and>
     filter (\<lambda>c. c_fqdn c \<notin> F) (certificates d') = filter (\<lambda>c. c_fqdn c \<notin> F) (certificates d)"

lemma same_but_refl [simp]: "same_but F d d"
  by (simp add: same_but_def)

lemma same_but_trans: "same_but F d d' \<Longrightarrow> same_but F d' d'' \<Longrightarrow> same_but F d d''"
  unfolding same_but_def by (metis tables.surjective tables.update_convs(6))

lemma filter_mono_eq: "filter P xs = filter P ys \<Longrightarrow> (\<And>x. Q x \<Longrightarrow> P x) \<Longrightarrow> filter Q xs = filter Q ys"
  by (metis (mono_tags, lifting) filter_cong filter_filter)

lemma same_but_mono: "same_but F d d' \<Longrightarrow> F \<subseteq> F' \<Longrightarrow> same_but F' d d'"
  unfolding same_but_def by (blast intro: filter_mono_eq)

lemma same_but_domains: "same_but F d d' \<Longrightarrow> domains d' = domains d"
  unfolding same_but_def by (metis tables.select_convs(4) tables.surjective tables.update_convs(6))

lemma filter_update_other: "(\<And>c. P c \<Longrightarrow> \<not> Q c \<and> \<not> Q (g c)) \<Longrightarrow> filter Q (update_where P g xs) = filter Q xs"
  by (induction xs) (auto simp: update_where_def)

lemma upd_cert_same: "keeps_row g \<Longrightarrow> same_but {f} d (upd_cert i f g d)"
  by (auto simp: upd_cert_def same_but_def keeps_row_def intro!: filter_update_other)

lemma mark_attempt_same: "same_but {f} (db s) (db (mark_attempt ok now i f s))"
  by (auto simp: mark_attempt_def same_but_def set_certs_def upsert_def intro!: filter_update_other)

lemma Issue_same: "same_but {f} (db s) (db (snd (Issue L G M E i f s)))"
  using Issue_db [of L G M E i f s] mark_attempt_same upd_cert_same same_but_trans by metis

lemma upd_cert_tried: "keeps_row g \<Longrightarrow> tried t h d \<Longrightarrow> tried t h (upd_cert i f g d)"
  by (auto simp: upd_cert_def update_where_def keeps_row_def since_def intro!: tried_map)

lemma mark_attempt_tried:
  assumes "owned i f (db s)" and "t \<le> now"
  shows "tried t f (db (mark_attempt True now i f s))"
proof (cases "f \<in> c_fqdn ` set (certificates (db s))")
  case True
  then show ?thesis using assms by (auto simp: mark_attempt_def set_certs_def upsert_def update_where_def since_def intro!: tried_map_all)
next
  case False
  then show ?thesis using assms by (auto simp: mark_attempt_def set_certs_def upsert_def tried_in_def since_def)
qed

lemma mark_attempt_keeps:
  assumes "tried t h (db s)" and "t \<le> now"
  shows "tried t h (db (mark_attempt ok now i f s))"
proof (cases "f \<in> c_fqdn ` set (certificates (db s))")
  case True
  then show ?thesis using assms by (auto simp: mark_attempt_def set_certs_def upsert_def update_where_def since_def intro!: tried_map)
next
  case False
  then show ?thesis using assms by (auto simp: mark_attempt_def set_certs_def upsert_def tried_in_def since_def)
qed

lemma Issue_tried:
  assumes "owned i f (db s)" "t \<le> S_now E" "S_ok E 0"
  shows "tried t f (db (snd (Issue L G M E i f s)))"
  using Issue_db [of L G M E i f s] mark_attempt_tried [OF assms(1,2)] upd_cert_tried assms(3) by metis

lemma Issue_keeps_tried:
  assumes "tried t h (db s)" "t \<le> S_now E"
  shows "tried t h (db (snd (Issue L G M E i f s)))"
  using Issue_db [of L G M E i f s] mark_attempt_keeps [OF assms] upd_cert_tried by metis

section \<open>A pass\<close>

definition issue_step :: "keylib \<Rightarrow> acme \<Rightarrow> (nat \<Rightarrow> 'k sys) \<Rightarrow> (nat \<Rightarrow> lego) \<Rightarrow> nat \<times> domain_row \<Rightarrow> ctl \<Rightarrow> ctl" where
  "issue_step L M Es Gs kx s = snd (Issue L (Gs (fst kx)) M (Es (fst kx)) (d_id (snd kx)) (d_fqdn (snd kx)) s)"

lemma acme_pass_steps:
  "S_ok (Es 0) 0 \<Longrightarrow> acme_pass perm L M Es Gs s = fold (issue_step L M Es Gs) (enumerate 1 (perm (acme_todo (S_now (Es 0)) (db s)))) s"
  by (simp add: acme_pass_def issue_step_def [abs_def] case_prod_beta')

lemma owned_domain: "x \<in> set (domains d) \<Longrightarrow> owned (d_id x) (d_fqdn x) d"
  by (auto simp: owned_def list_ex_iff)

lemma pass_fold:
  assumes "set xs \<subseteq> set (domains (db s))" and "\<forall>k. S_ok (Es k) 0 \<and> t \<le> S_now (Es k)"
  shows "same_but (d_fqdn ` set xs) (db s) (db (fold (issue_step L M Es Gs) (enumerate n xs) s)) \<and>
    (\<forall>h. tried t h (db s) \<or> h \<in> d_fqdn ` set xs \<longrightarrow> tried t h (db (fold (issue_step L M Es Gs) (enumerate n xs) s)))"
  using assms(1)
proof (induction xs arbitrary: n s)
  case Nil
  then show ?case by simp
next
  case (Cons x xs)
  let ?s = "issue_step L M Es Gs (n, x) s"
  have b: "same_but {d_fqdn x} (db s) (db ?s)" by (simp add: issue_step_def Issue_same)
  have d: "set xs \<subseteq> set (domains (db ?s))" using Cons.prems same_but_domains [OF b] by simp
  have tx: "tried t (d_fqdn x) (db ?s)"
    using Issue_tried [of "d_id x" "d_fqdn x" s t "Es n"] owned_domain Cons.prems assms(2) by (simp add: issue_step_def)
  have k: "tried t h (db s) \<Longrightarrow> tried t h (db ?s)" for h
    using Issue_keeps_tried [of t h s "Es n"] assms(2) by (simp add: issue_step_def)
  show ?case
    using Cons.IH [OF d, of "Suc n"] tx k same_but_trans [OF same_but_mono [OF b] same_but_mono] by (auto simp: subset_insertI)
qed

lemma todo_domains: "set (acme_todo t d) \<subseteq> set (domains d)"
  by (auto simp: acme_todo_def)

lemma tried_rests:
  assumes "tried t (d_fqdn x) d" and "t' \<le> t + 15 * 60"
  shows "\<not> needs_cert t' (cert_of x d)"
proof -
  obtain c where c: "cert_of x d = Some c"
    using assms(1) by (fastforce simp: tried_in_def cert_of_def find_None_iff)
  then have "since t c" using assms(1) by (auto simp: tried_in_def cert_of_def dest: find_mem)
  then show ?thesis using c assms(2) by (auto simp: needs_cert_def since_def split: option.splits)
qed

text \<open>C17: A pass only touches the certificates of the domains that needed one, and whatever the authority, the
  library and Postgres answered (once the attempt was noted), none of these domains is tried again during
  the fifteen minutes that follow.\<close>

theorem acme_backs_off:
  assumes perm: "\<forall>xs. set (perm xs) = set xs" and ok: "\<forall>k. S_ok (Es k) 0 \<and> S_now (Es 0) \<le> S_now (Es k)"
    and soon: "t' \<le> S_now (Es 0) + 15 * 60"
  shows "let todo = acme_todo (S_now (Es 0)) (db s); s' = acme_pass perm L M Es Gs s in
    same_but (d_fqdn ` set todo) (db s) (db s') \<and> set todo \<inter> set (acme_todo t' (db s')) = {}"
proof -
  let ?todo = "acme_todo (S_now (Es 0)) (db s)" and ?s = "acme_pass perm L M Es Gs s"
  have P: "set (perm ?todo) = set ?todo" using perm by simp
  have s: "?s = fold (issue_step L M Es Gs) (enumerate 1 (perm ?todo)) s" using acme_pass_steps ok by blast
  have F: "same_but (d_fqdn ` set ?todo) (db s) (db ?s)" "\<forall>h \<in> d_fqdn ` set ?todo. tried (S_now (Es 0)) h (db ?s)"
    using pass_fold [of "perm ?todo" s Es "S_now (Es 0)" L M Gs 1] P todo_domains ok unfolding s by auto
  have "x \<notin> set (acme_todo t' (db ?s))" if "x \<in> set ?todo" for x
    using tried_rests [OF _ soon, of x "db ?s"] F(2) that by (auto simp: acme_todo_def)
  then show ?thesis using F(1) by (auto simp: Let_def)
qed

definition demo_lego :: lego where
  "demo_lego = \<lparr>G_parse = (\<lambda>_. True), G_generate = Some ''der'', G_reg = Some, G_client = (\<lambda>_. True), G_register = (\<lambda>_. Some ''reg''),
     G_obtain = (\<lambda>f. ([Present_c f ''t'' ''a'', CleanUp_c f ''t'' ''a''], Some (''crt'', ''key''))), G_cert = (\<lambda>_. Some (0, 90 * 86400, ''CA'')),
     G_text = (\<lambda>_. ''down''), G_utf8 = (\<lambda>_. True)\<rparr>"

definition demo_acme_mgr :: acme where
  "demo_acme_mgr = New_acme ''https://acme'' demo_master [] ''ops@acme.fr''"

lemma demo_todo: "acme_todo 1000 demo_db = domains demo_db"
  by (simp add: acme_todo_def demo_db_def cert_of_def needs_cert_def)

theorem acme_backs_off_witness:
  "set (domains demo_db) \<inter> set (acme_todo 1800 (db (acme_pass rev demo_keylib demo_acme_mgr (\<lambda>_. demo_sys) (\<lambda>_. demo_lego) demo_ctl))) = {} \<and>
    domains demo_db \<noteq> []"
proof -
  have n: "S_now demo_sys = 1000" "S_ok demo_sys 0" "db demo_ctl = demo_db" by (simp_all add: demo_sys_def demo_ctl_def)
  have "let todo = acme_todo (S_now demo_sys) (db demo_ctl); s' = acme_pass rev demo_keylib demo_acme_mgr (\<lambda>_. demo_sys) (\<lambda>_. demo_lego) demo_ctl in
    same_but (d_fqdn ` set todo) (db demo_ctl) (db s') \<and> set todo \<inter> set (acme_todo 1800 (db s')) = {}"
    by (rule acme_backs_off) (simp_all add: n)
  then show ?thesis by (simp add: n demo_todo Let_def) (simp add: demo_db_def)
qed

section \<open>From the authority to the load balancers\<close>

definition opens_with :: "keylib \<Rightarrow> string \<Rightarrow> string \<Rightarrow> string option" where
  "opens_with L key enc = (case Unseal L key enc of Inl _ \<Rightarrow> None | Inr t \<Rightarrow> Some t)"

lemma Unseal_Seal: "gcm_ok L key \<Longrightarrow> length n = 12 \<Longrightarrow> Seal L key n t = Inr e \<Longrightarrow> Unseal L key e = Inr t"
  by (auto simp: Seal_def Unseal_def gcm_ok_def split: if_splits)

lemma Seal_works: "length key = 32 \<Longrightarrow> \<exists>e. Seal L key n t = Inr e"
  by (simp add: Seal_def)

text \<open>The account of the directory, when there is one, opens with the master key.\<close>

definition account_ok :: "keylib \<Rightarrow> acme \<Rightarrow> ctl \<Rightarrow> bool" where
  "account_ok L M s \<longleftrightarrow> (\<forall>x \<in> set (acme_accounts s). x_directory x = M_directory M \<longrightarrow> (\<exists>der. Unseal L (M_key M) (x_key_enc x) = Inr der))"

definition serves :: "lego \<Rightarrow> bool" where
  "serves G \<longleftrightarrow> (\<forall>k. G_parse G k \<and> G_client G k \<and> G_register G k \<noteq> None) \<and> G_generate G \<noteq> None"

lemma mark_attempt_accounts [simp]: "acme_accounts (mark_attempt ok now i f s) = acme_accounts s"
  by (simp add: mark_attempt_def set_certs_def)

lemma update_cert_accounts [simp]: "acme_accounts (update_cert i f g s) = acme_accounts s"
  by (simp add: update_cert_def set_certs_def)

lemma fail_accounts [simp]: "acme_accounts (snd (fail G ok i f e s)) = acme_accounts s"
  by (simp add: fail_def Let_def)

lemma run_challenges_accounts [simp]: "acme_accounts (run_challenges ok k cs s) = acme_accounts s"
  by (induction ok k cs s rule: run_challenges.induct) (simp_all add: Present_def CleanUp_def)

definition master_ok :: "keylib \<Rightarrow> acme \<Rightarrow> 'k sys \<Rightarrow> bool" where
  "master_ok L M E \<longleftrightarrow> gcm_ok L (M_key M) \<and> length (M_key M) = 32 \<and> (\<forall>k. 12 \<le> length (S_rand E k))"

lemma saveAccount_ok:
  assumes "length n = 12" "gcm_ok L (M_key M)" "length (M_key M) = 32" "account_ok L M s"
  shows "\<exists>s'. saveAccount L M n True der reg s = (Inr (), s') \<and> account_ok L M s'"
proof -
  obtain e where e: "Seal L (M_key M) n der = Inr e" using Seal_works assms(3) by blast
  then have "Unseal L (M_key M) e = Inr der" using Unseal_Seal assms by blast
  then show ?thesis using assms(4) e by (auto simp: saveAccount_def account_ok_def upsert_def set_update_where)
qed

lemma acme_client_ok:
  assumes "serves G" "master_ok L M E" "\<forall>k. S_ok E k" "account_ok L M s"
  shows "\<exists>s'. acme_client L G M E s = (Inr (), s') \<and> account_ok L M s'"
proof -
  have "\<exists>a. loadAccount L G M True s = Inr a"
  proof (cases "find (\<lambda>x. x_directory x = M_directory M) (acme_accounts s)")
    case None
    then show ?thesis using assms(1) by (auto simp: loadAccount_def serves_def)
  next
    case (Some x)
    then obtain der where "Unseal L (M_key M) (x_key_enc x) = Inr der" using assms(4) find_mem [OF Some] by (auto simp: account_ok_def)
    then show ?thesis using assms(1) Some by (simp add: loadAccount_def serves_def)
  qed
  then obtain a where a: "loadAccount L G M True s = Inr a" by blast
  show ?thesis
  proof (cases "AReg a")
    case None
    obtain reg where r: "G_register G (AKey a) = Some reg" using assms(1) by (auto simp: serves_def)
    have "length (take 12 (S_rand E 0)) = 12" using assms(2) by (simp add: master_ok_def)
    then show ?thesis using saveAccount_ok [of _ L M s "AKey a" reg] assms a None r
      by (simp add: acme_client_def serves_def master_ok_def)
  next
    case (Some r)
    then show ?thesis using a assms by (simp add: acme_client_def serves_def)
  qed
qed

definition delivered :: "keylib \<Rightarrow> acme \<Rightarrow> string \<Rightarrow> string \<Rightarrow> tables \<Rightarrow> bool" where
  "delivered L M f pem d \<longleftrightarrow> (\<exists>c \<in> set (certificates d). c_fqdn c = f \<and> c_status c = ''issued'' \<and>
     (\<exists>enc. c_pem_enc c = Some enc \<and> Unseal L (M_key M) enc = Inr pem))"

lemma delivered_other: "same_but {g} d d' \<Longrightarrow> g \<noteq> f \<Longrightarrow> delivered L M f pem d \<Longrightarrow> delivered L M f pem d'"
proof -
  assume b: "same_but {g} d d'" and ne: "g \<noteq> f" and "delivered L M f pem d"
  then obtain c where c: "c \<in> set (certificates d)" "c_fqdn c = f" "c_status c = ''issued''" "\<exists>enc. c_pem_enc c = Some enc \<and> Unseal L (M_key M) enc = Inr pem"
    unfolding delivered_def by blast
  have "c \<in> set (filter (\<lambda>c. c_fqdn c \<notin> {g}) (certificates d'))" using b c ne by (simp add: same_but_def)
  then show ?thesis using c unfolding delivered_def by auto
qed

lemma Issue_account:
  assumes "serves G" "master_ok L M E" "\<forall>k. S_ok E k" "account_ok L M s"
  shows "account_ok L M (snd (Issue L G M E i f s))"
proof -
  let ?s1 = "mark_attempt (S_ok E 0) (S_now E) i f s"
  have "account_ok L M ?s1" using assms(4) by (simp add: account_ok_def)
  then obtain s2 where c: "acme_client L G M E ?s1 = (Inr (), s2)" "account_ok L M s2" using acme_client_ok assms by blast
  show ?thesis using c
    by (simp add: Issue_def Let_def account_ok_def kicked_def split: prod.split option.split sum.split)
qed

lemma upd_cert_hit:
  assumes "owned i f d" "f \<in> c_fqdn ` set (certificates d)"
  shows "\<exists>c. c_fqdn c = f \<and> g c \<in> set (certificates (upd_cert i f g d))"
  using assms by (auto simp: upd_cert_def set_update_where image_iff)

lemma Issue_delivers:
  assumes A: "serves G" "master_ok L M E" "\<forall>k. S_ok E k" "account_ok L M s" and o: "owned i f (db s)" and G: "snd (G_obtain G f) = Some (crt, key)"
  shows "delivered L M f (crt @ key) (db (snd (Issue L G M E i f s)))"
proof -
  let ?s1 = "mark_attempt True (S_now E) i f s"
  have "account_ok L M ?s1" using A(4) by (simp add: account_ok_def)
  then obtain s2 where c: "acme_client L G M E ?s1 = (Inr (), s2)" using acme_client_ok A by blast
  obtain cs where cs: "G_obtain G f = (cs, Some (crt, key))" using G by (metis prod.collapse)
  obtain enc where e: "Seal L (M_key M) (take 12 (S_rand E 1)) (crt @ key) = Inr enc" using Seal_works A(2) by (metis master_ok_def)
  have u: "Unseal L (M_key M) enc = Inr (crt @ key)" by (rule Unseal_Seal [OF _ _ e]) (use A(2) in \<open>auto simp: master_ok_def\<close>)
  let ?t = "case G_cert G crt of None \<Rightarrow> (zero_time, zero_time, []) | Some t \<Rightarrow> t"
  have d2: "db s2 = db ?s1" using acme_client_db [of L G M E ?s1] c by simp
  have I: "db (snd (Issue L G M E i f s)) = upd_cert i f (set_issued enc ?t) (db ?s1)"
    using c cs e A(3) d2 by (simp add: Issue_def kicked_def Let_def)
  have "owned i f (db ?s1)" "f \<in> c_fqdn ` set (certificates (db ?s1))"
    using o mark_attempt_same [of f s True "S_now E" i] same_but_domains [of "{f}" "db s" "db ?s1"] mark_attempt_tried [OF o, of "S_now E" "S_now E"]
    by (auto simp: owned_def tried_in_def)
  then obtain x where "c_fqdn x = f" "set_issued enc ?t x \<in> set (certificates (db (snd (Issue L G M E i f s))))"
    unfolding I using upd_cert_hit by blast
  then show ?thesis using u unfolding delivered_def
    by (intro bexI [where x = "set_issued enc ?t x"]) (simp_all add: set_issued_def)
qed

lemma pass_delivers:
  assumes "set xs \<subseteq> set (domains (db s))" and "account_ok L M s"
    and lib: "\<forall>k. serves (Gs k) \<and> master_ok L M (Es k) \<and> snd (G_obtain (Gs k) (d_fqdn x)) = Some (crt, key)"
    and ok: "\<forall>k n. S_ok (Es k) n"
    and "x \<in> set xs \<or> delivered L M (d_fqdn x) (crt @ key) (db s)"
  shows "delivered L M (d_fqdn x) (crt @ key) (db (fold (issue_step L M Es Gs) (enumerate n xs) s))"
  using assms(1,2,5)
proof (induction xs arbitrary: n s)
  case Nil
  then show ?case by simp
next
  case (Cons y ys)
  let ?s = "issue_step L M Es Gs (n, y) s"
  have b: "same_but {d_fqdn y} (db s) (db ?s)" by (simp add: issue_step_def Issue_same)
  have d: "set ys \<subseteq> set (domains (db ?s))" using Cons.prems(1) same_but_domains [OF b] by simp
  have a: "account_ok L M ?s" using Issue_account [of "Gs n" L M "Es n" s] lib ok Cons.prems(2) by (simp add: issue_step_def)
  have "x \<in> set ys \<or> delivered L M (d_fqdn x) (crt @ key) (db ?s)"
  proof (cases "d_fqdn y = d_fqdn x")
    case True
    have "owned (d_id y) (d_fqdn y) (db s)" using Cons.prems(1) by (simp add: owned_domain)
    then have "delivered L M (d_fqdn y) (crt @ key) (db ?s)"
      using Issue_delivers [of "Gs n" L M "Es n" s "d_id y" "d_fqdn y" crt key] Cons.prems lib ok True by (simp add: issue_step_def)
    then show ?thesis using True by simp
  next
    case False
    then show ?thesis using Cons.prems(3) delivered_other [OF b] by auto
  qed
  then show ?case using Cons.IH [OF d a] by simp
qed

lemma Build_certs:
  assumes B: "Build coll sha json dec now cn d = Inr r" and "cn QCerts = Full" and c: "c \<in> set (certificates d)"
    "c_status c = ''issued''" "c_pem_enc c = Some enc" "dec enc = Some pem"
  shows "\<exists>y \<in> set (Certs_d r). FQDN y = c_fqdn c \<and> PEM y = pem"
proof -
  have "Certs_d r = build_certs sha dec (cert_query coll d)"
    using B assms(2) by (auto simp: Build_def finish_fields read_rows_def split: sum.splits)
  moreover have "c \<in> set (cert_query coll d)" using c by (simp add: cert_query_def)
  ultimately show ?thesis using c by (force simp: build_certs_def set_map_filter)
qed

text \<open>C18: A domain that needs a certificate gets one in one pass, whatever the order of the domains and the trouble
  of the others, once the authority serves it and Postgres answers; and the desired state that is compiled
  then holds it, the chain and its key in one PEM, for every load balancer.\<close>

theorem acme_delivers:
  assumes "\<forall>xs. set (perm xs) = set xs" and x: "x \<in> set (acme_todo (S_now (Es 0)) (db s))" and "account_ok L M s"
    and "\<forall>k. serves (Gs k) \<and> master_ok L M (Es k) \<and> snd (G_obtain (Gs k) (d_fqdn x)) = Some (crt, key)"
    and ok: "\<forall>k n. S_ok (Es k) n"
    and B: "Build coll sha json (opens_with L (M_key M)) now cn (db (acme_pass perm L M Es Gs s)) = Inr d" and "cn QCerts = Full"
  shows "\<exists>y \<in> set (Certs_d d). FQDN y = d_fqdn x \<and> PEM y = crt @ key"
proof -
  let ?todo = "acme_todo (S_now (Es 0)) (db s)"
  have P: "set (perm ?todo) = set ?todo" using assms(1) by simp
  have "delivered L M (d_fqdn x) (crt @ key) (db (acme_pass perm L M Es Gs s))"
    unfolding acme_pass_steps [of Es, OF ok [rule_format]]
    by (rule pass_delivers) (use P x todo_domains assms in auto)
  then show ?thesis using Build_certs [OF B \<open>cn QCerts = Full\<close>] by (fastforce simp: delivered_def opens_with_def)
qed

lemma demo_certs_build: "\<exists>d. Build id id (\<lambda>_. ''h'') dec 0 (\<lambda>_. Full) (demo_db\<lparr>certificates := cs\<rparr>) = Inr d"
  by (simp add: build_eval)

theorem acme_delivers_witness:
  "\<exists>d. Build id id (\<lambda>_. ''h'') (opens_with demo_keylib demo_master) 0 (\<lambda>_. Full)
      (db (acme_pass rev demo_keylib demo_acme_mgr (\<lambda>_. boot_sys) (\<lambda>_. demo_lego) demo_ctl)) = Inr d \<and>
     (\<exists>y \<in> set (Certs_d d). FQDN y = ''shop.fr'' \<and> PEM y = ''crtkey'')"
proof -
  let ?s = "acme_pass rev demo_keylib demo_acme_mgr (\<lambda>_. boot_sys) (\<lambda>_. demo_lego) demo_ctl"
  have n: "S_now boot_sys = 1000" "\<And>k. S_ok boot_sys k" "db demo_ctl = demo_db" "M_key demo_acme_mgr = demo_master"
    by (simp_all add: boot_sys_def demo_sys_def demo_ctl_def demo_acme_mgr_def New_acme_def)
  have m: "serves demo_lego" "master_ok demo_keylib demo_acme_mgr boot_sys" "account_ok demo_keylib demo_acme_mgr demo_ctl"
    by (simp_all add: serves_def demo_lego_def master_ok_def n gcm_ok_def demo_keylib_def demo_master_def boot_sys_def account_ok_def demo_ctl_def)
  obtain x where x: "x \<in> set (domains demo_db)" "d_fqdn x = ''shop.fr''" by (simp add: demo_db_def)
  have "same_but (d_fqdn ` set (domains demo_db)) demo_db (db ?s)"
    using pass_fold [of "rev (domains demo_db)" demo_ctl "\<lambda>_. boot_sys" 1000 demo_keylib demo_acme_mgr "\<lambda>_. demo_lego" 1]
      acme_pass_steps [of "\<lambda>_. boot_sys" rev demo_keylib demo_acme_mgr "\<lambda>_. demo_lego" demo_ctl] by (simp add: n demo_todo)
  then obtain cs where "db ?s = demo_db\<lparr>certificates := cs\<rparr>" unfolding same_but_def by blast
  then obtain d where d: "Build id id (\<lambda>_. ''h'') (opens_with demo_keylib demo_master) 0 (\<lambda>_. Full) (db ?s) = Inr d" using demo_certs_build by metis
  have "\<exists>y \<in> set (Certs_d d). FQDN y = d_fqdn x \<and> PEM y = ''crt'' @ ''key''"
    by (rule acme_delivers [of rev x "\<lambda>_. boot_sys" demo_ctl demo_keylib demo_acme_mgr "\<lambda>_. demo_lego" "''crt''" "''key''"])
      (use x m d in \<open>simp_all add: n demo_todo demo_lego_def\<close>)
  then show ?thesis using d x by auto
qed

section \<open>Executions that the code does not expect\<close>

text \<open>A renewal that fails takes the certificate in force away: \<open>fail\<close> writes the status \<open>error\<close> over \<open>issued\<close>, and
  the desired state only holds the certificates of that status, although this one has ten days left.\<close>

definition renewing :: ctl where
  "renewing = demo_ctl\<lparr>db := demo_db\<lparr>certificates := [\<lparr>c_fqdn = ''shop.fr'', c_status = ''issued'', c_pem_enc = Some (replicate 12 (CHR ''n'') @ ''pem''),
     c_issuer = Some ''CA'', c_not_before = Some 0, c_not_after = Some (1000 + 10 * 86400), c_last_error = None, c_last_attempt = Some 0\<rparr>]\<rparr>\<rparr>"

definition refusing :: lego where
  "refusing = demo_lego\<lparr>G_obtain := \<lambda>_. ([], None)\<rparr>"

lemma renewal_failure_drops_the_certificate:
  "map c_fqdn (cert_query id (db renewing)) = [''shop.fr''] \<and>
   cert_query id (db (acme_pass id demo_keylib demo_acme_mgr (\<lambda>_. boot_sys) (\<lambda>_. refusing) renewing)) = []"
  by (simp add: cert_query_def renewing_def acme_pass_def acme_todo_def demo_db_def cert_of_def needs_cert_def boot_sys_def demo_sys_def
      Issue_def mark_attempt_def owned_def set_certs_def upsert_def update_where_def refusing_def demo_lego_def acme_client_def loadAccount_def
      saveAccount_def Seal_def demo_acme_mgr_def New_acme_def demo_master_def demo_ctl_def fail_def update_cert_def Let_def demo_keylib_def)

text \<open>Without an address of contact the loop does nothing, as the log says, but a pass that is triggered does.\<close>

lemma Trigger_ignores_disabled:
  "acme_run perm L (M\<lparr>M_email := []\<rparr>) Es Gs s = s \<and> Trigger perm L M Es Gs s = acme_pass perm L M Es Gs s"
  by (simp add: acme_run_def Enabled_def Trigger_def)

end
