(* ===== verification/Control_Routes.thy ===== *)
theory Control_Routes
  imports Room_Api Account_Api Enroll_Api Acme_Model
begin

text \<open>
  The server of flyc-control as one function from a request to an answer: the table of the routes that
  \<open>Register\<close>, \<open>registerAuth\<close>, \<open>registerInventory\<close>, \<open>registerJobs\<close> and \<open>registerEnroll\<close>
  (control/internal/api) and \<open>main\<close> (control/cmd/flyc-control) build, the multiplexer that finds the route and
  binds the segments of the path, the gate each route has, and the handlers that no other theory holds.
  What the process holds is one record, what comes with a request another. What a handler starts with \<open>go\<close>
  (the passes of the certificates) runs after the answer and is not part of it.
\<close>

section \<open>The process and the request\<close>

record bodies =
  Bd_login :: "string \<Rightarrow> (string \<times> string \<times> string) option"
  Bd_tenant :: "string \<Rightarrow> (string \<times> string) option"
  Bd_name :: "string \<Rightarrow> string"
  Bd_password :: "string \<Rightarrow> string"
  Bd_change :: "string \<Rightarrow> (string \<times> string) option"
  Bd_code :: "string \<Rightarrow> string option"
  Bd_secret :: "string \<Rightarrow> string option"
  Bd_user :: "string \<Rightarrow> userIn option"
  Bd_member :: "string \<Rightarrow> (string \<times> string) option"
  Bd_domain :: "string \<Rightarrow> (string \<times> string \<times> string) option"
  Bd_backend :: "string \<Rightarrow> backendIn option"
  Bd_room :: "string \<Rightarrow> roomIn option"
  Bd_state :: "string \<Rightarrow> string option"
  Bd_pass :: "string \<Rightarrow> (string \<times> string) option"
  Bd_node :: "string \<Rightarrow> Node option"
  Bd_patch :: "string \<Rightarrow> nodePatch option"
  Bd_settings :: "string \<Rightarrow> Settings \<Rightarrow> Settings option"
  Bd_job :: "string \<Rightarrow> (string \<times> Request) option"
  Bd_roles :: "string \<Rightarrow> string list option option option"
  Bd_done :: "string \<Rightarrow> doneIn option"

record 'w process =
  Sv_body :: bodies
  Sv_auth :: authlib
  Sv_keys :: keylib
  Sv_lib :: lib
  Sv_crypto :: crypto
  Sv_master :: string
  Sv_issuer :: string
  Sv_oidc :: OIDC
  Sv_oidc_issuer :: string
  Sv_wait :: string
  Sv_internal :: string
  Sv_enroll :: enroll_env
  Sv_script :: "nat \<Rightarrow> string"
  Sv_net :: "'w network"
  Sv_err :: "err \<Rightarrow> string"
  Sv_once :: "tables \<Rightarrow> Reconciler \<times> pg \<Rightarrow> Reconciler \<times> pg"
  Sv_acme :: acme
  Sv_ip :: "string \<Rightarrow> bool option"
  Sv_time :: "string \<Rightarrow> int option"
  Sv_rat :: "rat \<Rightarrow> string"
  Sv_head :: string
  Sv_jobs :: bool
  Sv_jreq :: "Request \<Rightarrow> string"
  Sv_io :: io
  Sv_jjob :: "Job \<Rightarrow> jv"
  Sv_jroom :: "roomIn \<Rightarrow> jv"
  Sv_jbackend :: "backendIn \<Rightarrow> jv"
  Sv_jsettings :: "Settings \<Rightarrow> jv"
  Sv_metrics :: resp
  Sv_version :: string
  Sv_static :: "string \<Rightarrow> string option"

text \<open>The path is the list of its unescaped segments; that of \<open>/\<close> is the empty segment alone.
  \<open>Rw_seen\<close> is what the turns of a followed log see, \<open>Rw_job\<close> the identifier drawn for a job,
  \<open>Rw_limit\<close> the number that \<open>limit\<close> spells, 0 when it spells none.\<close>

record raw =
  Rw_method :: string
  Rw_path :: "string list"
  Rw_hdr :: "string \<Rightarrow> string"
  Rw_cookie :: "string option"
  Rw_remote :: string
  Rw_query :: "string \<Rightarrow> string"
  Rw_limit :: int
  Rw_body :: string
  Rw_seen :: "seen list"
  Rw_job :: string

section \<open>Patterns\<close>

datatype seg = Lit string | Wild string

text \<open>A wildcard stands for one segment that is not empty.\<close>

fun match_path :: "seg list \<Rightarrow> string list \<Rightarrow> (string \<times> string) list option" where
  "match_path [] [] = Some []"
| "match_path (Lit a # ps) (x # xs) = (if a = x then match_path ps xs else None)"
| "match_path (Wild n # ps) (x # xs) = (if x = [] then None else map_option ((#) (n, x)) (match_path ps xs))"
| "match_path _ _ = None"

text \<open>A pattern for GET also takes HEAD.\<close>

definition method_ok :: "string \<Rightarrow> string \<Rightarrow> bool" where
  "method_ok pm m \<longleftrightarrow> pm = m \<or> (pm = ''GET'' \<and> m = ''HEAD'')"

definition path_value :: "(string \<times> string) list \<Rightarrow> string \<Rightarrow> string" where
  "path_value b k = (case map_of b k of None \<Rightarrow> [] | Some v \<Rightarrow> v)"

definition request_of :: "raw \<Rightarrow> (string \<times> string) list \<Rightarrow> request" where
  "request_of x b = \<lparr>Rmethod = Rw_method x, Rpath = path_value b, Rhdr = Rw_hdr x, Rcookie = Rw_cookie x, Rremote = Rw_remote x\<rparr>"

section \<open>Gates\<close>

datatype gate = Open | Plat | Ten string | Ses

text \<open>The part of the three wrappers that comes before the handler.\<close>

definition enter :: "gate \<Rightarrow> 'k::linorder sys \<Rightarrow> request \<Rightarrow> ctl \<Rightarrow> (resp + principal) \<times> ctl" where
  "enter g E rq s = (case g of
     Open \<Rightarrow> (Inr nobody, s)
   | Plat \<Rightarrow> (case authenticate E rq s of (Inl e, s1) \<Rightarrow> (Inl (HErr 401 ''unauthorized''), s1)
       | (Inr p, s1) \<Rightarrow> ((if \<not> platform_p p then Inl (HErr 403 ''forbidden'') else Inr p), s1))
   | Ten minRole \<Rightarrow> (case authenticate E rq s of (Inl e, s1) \<Rightarrow> (Inl (HErr 401 ''unauthorized''), s1)
       | (Inr p, s1) \<Rightarrow> ((if tenantID p = None then Inl (HErr 400 ''no_tenant'') else if \<not> allows p minRole then Inl (HErr 403 ''forbidden'') else Inr p), s1))
   | Ses \<Rightarrow> (case authenticateSession E rq s of (Inl e, s1) \<Rightarrow> (Inl (HErr 401 ''unauthorized''), s1) | (Inr p, s1) \<Rightarrow> (Inr p, s1)))"

text \<open>A handler that may also use the network.\<close>

type_synonym ('k, 'w) nhandler = "'k sys \<Rightarrow> request \<Rightarrow> principal \<Rightarrow> ctl \<Rightarrow> 'w \<Rightarrow> resp \<times> ctl \<times> 'w"

definition plain :: "'k handler \<Rightarrow> ('k, 'w) nhandler" where
  "plain h E rq p s w = (case h E rq p s of (r, s1) \<Rightarrow> (r, s1, w))"

text \<open>Behind a gate the statements are counted after the three of the authentication.\<close>

definition gated :: "gate \<Rightarrow> ('k::linorder, 'w) nhandler \<Rightarrow> 'k sys \<Rightarrow> request \<Rightarrow> ctl \<Rightarrow> 'w \<Rightarrow> resp \<times> ctl \<times> 'w" where
  "gated g h E rq s w = (case enter g E rq s of (Inl r, s1) \<Rightarrow> (r, s1, w)
   | (Inr p, s1) \<Rightarrow> h (if g = Open then E else skip 3 E) rq p s1 w)"

section \<open>Handlers\<close>

text \<open>The hosts with what their \<open>/healthz\<close> says; like the other times, \<open>last_seen_at\<close> is left out, with the
  \<open>last_error\<close> beside it.\<close>

fun health_of :: "'w process \<Rightarrow> host_row list \<Rightarrow> 'w \<Rightarrow> jv list \<times> 'w" where
  "health_of V [] w = ([], w)"
| "health_of V (h # hs) w =
    (case Healthy (Sv_net V) (''http://'' @ h_address h @ '':'' @ show_int (h_port h)) w of (r, w1) \<Rightarrow>
     (case health_of V hs w1 of (js, w2) \<Rightarrow>
      (JObj [(''name'', JStr (h_name h)), (''address'', JStr (h_address h)), (''port'', JInt (h_port h)),
             (''health'', JStr (case r of Inl e \<Rightarrow> Sv_err V e | Inr _ \<Rightarrow> ''ok''))] # js, w2)))"

definition listQueueHosts :: "'w process \<Rightarrow> ('k::linorder, 'w) nhandler" where
  "listQueueHosts V E rq p s w = (if \<not> S_ok E 0 then (dbErr EDb, s, w)
     else (case health_of V (sort_key (\<lambda>h. S_coll E (h_name h)) (queue_hosts (cinv s))) w of (js, w1) \<Rightarrow> (JSON 200 (JArr js), s, w1)))"

definition stats_h :: "'w process \<Rightarrow> ('k, 'w) nhandler" where
  "stats_h V E rq p s w = (case roomStats (Sv_net V) rq p s w of (r, w1) \<Rightarrow> (r, s, w1))"

definition syncNow :: "'w process \<Rightarrow> 'k handler" where
  "syncNow V E rq p s = (JSON 200 (JObj [(''status'', JStr ''synced'')]), run_once (Sv_once V) s)"

definition authConfig :: "'w process \<Rightarrow> resp" where
  "authConfig V = JSON 200 (JObj [(''oidc'', JBool (O_enabled (Sv_oidc V))), (''oidc_issuer'', JStr (Sv_oidc_issuer V)), (''wait_host'', JStr (Sv_wait V))])"

definition totpQR :: "'w process \<Rightarrow> 'k handler" where
  "totpQR V E rq p s = (case secret_of (S_ok E 0) (UID (me_user p)) s of None \<Rightarrow> (HErr 404 ''no_totp'', s)
     | Some enc \<Rightarrow> (case Unseal (Sv_keys V) (Sv_master V) enc of Inl _ \<Rightarrow> (HErr 500 ''crypt'', s)
       | Inr secret \<Rightarrow>
          (case TOTPQRPNG (A_otp (Sv_auth V)) (''otpauth://totp/'' @ PathEscape (Sv_issuer V @ '':'' @ Email (me_user p)) @ ''?secret='' @ secret @
                        ''&issuer='' @ QueryEscape (Sv_issuer V)) of
             None \<Rightarrow> (HErr 500 ''qr'', s)
           | Some png \<Rightarrow> (\<lparr>code = 200, cookies = [], headers = [(''Content-Type'', ''image/png''), (''Cache-Control'', ''no-store'')], body = Raw png\<rparr>, s))))"

definition health_check :: "(err \<Rightarrow> string) \<Rightarrow> (string \<times> err option) list \<Rightarrow> resp" where
  "health_check txt_of cs =
    (let ok = list_all (\<lambda>(n, e). e = None) cs in
     JSON (if ok then 200 else 503)
       (JObj [(''status'', JStr (if ok then ''ok'' else ''degraded'')),
              (''checks'', JObj (map (\<lambda>(n, e). (n, JStr (case e of None \<Rightarrow> ''ok'' | Some x \<Rightarrow> txt_of x))) cs))]))"

definition not_found_page :: resp where
  "not_found_page = \<lparr>code = 404, cookies = [], headers = [(''Content-Type'', ''text/plain; charset=utf-8'')], body = Raw []\<rparr>"

text \<open>The embedded interface: three files, the root being \<open>index.html\<close>.\<close>

definition file_types :: "(string \<times> string) list" where
  "file_types = [(''index.html'', ''text/html; charset=utf-8''), (''app.js'', ''text/javascript; charset=utf-8''), (''app.css'', ''text/css; charset=utf-8'')]"

definition ui_handler :: "(string \<Rightarrow> string option) \<Rightarrow> string \<Rightarrow> resp" where
  "ui_handler static path =
    (let name = (if path = [] then ''index.html'' else path) in
     case map_of file_types name of None \<Rightarrow> not_found_page
     | Some ct \<Rightarrow> (case static (''static/'' @ name) of None \<Rightarrow> not_found_page
       | Some b \<Rightarrow> \<lparr>code = 200, cookies = [],
            headers = [(''Content-Type'', ct), (''Cache-Control'', if name = ''index.html'' then ''no-store'' else ''no-cache''),
              (''X-Frame-Options'', ''DENY''), (''Referrer-Policy'', ''same-origin'')], body = Raw b\<rparr>))"

section \<open>The table\<close>

record ('k, 'w) route =
  t_method :: string
  t_path :: "seg list"
  t_gate :: gate
  t_handler :: "('k, 'w) nhandler"

definition api_route :: "string \<Rightarrow> seg list \<Rightarrow> gate \<Rightarrow> 'k handler \<Rightarrow> ('k, 'w) route" where
  "api_route m ps g h = \<lparr>t_method = m, t_path = ps, t_gate = g, t_handler = plain h\<rparr>"

definition net_route :: "string \<Rightarrow> seg list \<Rightarrow> gate \<Rightarrow> ('k, 'w) nhandler \<Rightarrow> ('k, 'w) route" where
  "net_route m ps g h = \<lparr>t_method = m, t_path = ps, t_gate = g, t_handler = h\<rparr>"

definition answer_with :: "('k sys \<Rightarrow> request \<Rightarrow> ctl \<Rightarrow> resp) \<Rightarrow> 'k handler" where
  "answer_with f E rq p s = (f E rq s, s)"

abbreviation v1 :: "string \<Rightarrow> seg list" where "v1 a \<equiv> [Lit ''v1'', Lit a]"

definition registerJobs :: "'w process \<Rightarrow> raw \<Rightarrow> ('k::linorder, 'w) route list" where
  "registerJobs V x = (let B = Sv_body V in
    [api_route ''POST'' (v1 ''jobs'') Plat (createJob (Sv_jobs V) (Sv_rat V) (Sv_head V) (Sv_jreq V) (Sv_io V) (Rw_job x) (Sv_jjob V) (Bd_job B (Rw_body x))),
     api_route ''GET'' (v1 ''jobs'') Plat (listJobs (Sv_jobs V) (Rw_limit x) (Sv_jjob V)),
     api_route ''GET'' (v1 ''jobs'' @ [Wild ''id'']) Plat (getJob (Sv_jobs V) (Sv_jjob V)),
     api_route ''GET'' (v1 ''jobs'' @ [Wild ''id'', Lit ''log'']) Plat (jobLog (Sv_jobs V) (Rw_seen x))])"

definition registerInventory :: "'w process \<Rightarrow> raw \<Rightarrow> ('k::linorder, 'w) route list" where
  "registerInventory V x = (let B = Sv_body V in
    [api_route ''GET'' (v1 ''nodes'') Plat listNodes,
     api_route ''POST'' (v1 ''nodes'') Plat (createNode (Sv_ip V) (Bd_node B (Rw_body x))),
     api_route ''PATCH'' (v1 ''nodes'' @ [Wild ''name'']) Plat (patchNode (Sv_ip V) (Bd_patch B (Rw_body x))),
     api_route ''DELETE'' (v1 ''nodes'' @ [Wild ''name'']) Plat deleteNode,
     api_route ''GET'' (v1 ''settings'') Plat (getSettings (Sv_jsettings V)),
     api_route ''PUT'' (v1 ''settings'') Plat (putSettings (Bd_settings B (Rw_body x)) (Sv_jsettings V)),
     api_route ''GET'' (v1 ''inventory'') Plat (getInventory (Sv_rat V) (Sv_head V))])"

definition registerEnroll :: "'w process \<Rightarrow> raw \<Rightarrow> ('k::linorder, 'w) route list" where
  "registerEnroll V x = (let B = Sv_body V; V' = Sv_enroll V in
    [api_route ''POST'' (v1 ''enroll'' @ [Lit ''tokens'']) Plat (createEnrollToken V' (Bd_roles B (Rw_body x))),
     api_route ''GET'' (v1 ''enroll'' @ [Lit ''tokens'']) Plat listEnrollTokens,
     api_route ''DELETE'' (v1 ''enroll'' @ [Lit ''tokens'', Wild ''id'']) Plat deleteEnrollToken,
     api_route ''GET'' [Lit ''enroll'', Wild ''token''] Open (answer_with (enrollScript (Sv_script V) V')),
     api_route ''POST'' [Lit ''enroll'', Wild ''token'', Lit ''done''] Open (\<lambda>E rq p. enrollDone V' (Bd_done B (Rw_body x)) E rq)])"

definition registerAuth :: "'w process \<Rightarrow> raw \<Rightarrow> ('k::linorder, 'w) route list" where
  "registerAuth V x = (let B = Sv_body V; b = Rw_body x; A = Sv_auth V; L = Sv_keys V; mk = Sv_master V; O' = Sv_oidc V;
       acc = v1 ''account''; usr = v1 ''users''; mem = v1 ''tenants'' @ [Wild ''slug'', Lit ''members''] in
    [api_route ''GET'' [Lit ''auth'', Lit ''config''] Open (answer_with (\<lambda>E rq s. authConfig V)),
     api_route ''POST'' [Lit ''auth'', Lit ''login''] Open (\<lambda>E rq p. login A L mk (Bd_login B b) E rq),
     api_route ''POST'' [Lit ''auth'', Lit ''logout''] Open (\<lambda>E rq p. logout E rq),
     api_route ''GET'' [Lit ''auth'', Lit ''oidc'', Lit ''start''] Open (\<lambda>E rq p. oidcStart O' (Rw_query x ''redirect'') E),
     api_route ''GET'' [Lit ''auth'', Lit ''oidc'', Lit ''callback''] Open (\<lambda>E rq p. oidcCallback O' (Rw_query x ''state'') (Rw_query x ''code'') E rq),
     api_route ''GET'' acc Ses account,
     api_route ''POST'' (acc @ [Lit ''password'']) Ses (changePassword A (Bd_change B b)),
     api_route ''POST'' (acc @ [Lit ''totp'', Lit ''setup'']) Ses (totpSetup A L mk (Sv_issuer V)),
     api_route ''GET'' (acc @ [Lit ''totp'', Lit ''qr.png'']) Ses (totpQR V),
     api_route ''POST'' (acc @ [Lit ''totp'', Lit ''enable'']) Ses (totpEnable A L mk (Bd_code B b)),
     api_route ''POST'' (acc @ [Lit ''totp'', Lit ''disable'']) Ses (totpDisable A (Bd_secret B b)),
     api_route ''GET'' usr Plat listUsers,
     api_route ''POST'' usr Plat (createUser A (Bd_user B b)),
     api_route ''DELETE'' (usr @ [Wild ''id'']) Plat deleteUser,
     api_route ''POST'' (usr @ [Wild ''id'', Lit ''password'']) Plat (resetUserPassword A (Bd_password B b)),
     api_route ''GET'' mem Plat listMembers,
     api_route ''PUT'' mem Plat (putMember (Bd_member B b)),
     api_route ''DELETE'' (mem @ [Wild ''email'']) Plat deleteMember,
     api_route ''GET'' (v1 ''tenants'' @ [Wild ''slug'', Lit ''api-keys'']) Plat listTenantKeysPlatform,
     api_route ''GET'' (v1 ''keys'') Plat listSigningKeys,
     api_route ''POST'' (v1 ''keys'' @ [Lit ''rotate'']) Plat (rotateSigningKey L mk)])"

definition tenant_routes :: "'w process \<Rightarrow> raw \<Rightarrow> ('k::linorder, 'w) route list" where
  "tenant_routes V x = (let B = Sv_body V; b = Rw_body x; dom = v1 ''domains'' @ [Wild ''fqdn'']; bk = v1 ''backends''; rm = v1 ''rooms'';
       one = rm @ [Wild ''slug'']; ks = v1 ''api-keys'' in
    [api_route ''GET'' (v1 ''domains'') (Ten ''viewer'') listDomains,
     api_route ''POST'' (v1 ''domains'') (Ten ''admin'') (createDomain (Bd_domain B b)),
     api_route ''DELETE'' dom (Ten ''admin'') deleteDomain,
     api_route ''GET'' (dom @ [Lit ''certificate'']) (Ten ''viewer'') domainCert,
     api_route ''POST'' (dom @ [Lit ''certificate'', Lit ''renew'']) (Ten ''admin'') (renewCert (Enabled (Sv_acme V))),
     api_route ''GET'' bk (Ten ''viewer'') listBackends,
     api_route ''POST'' bk (Ten ''admin'') (upsertBackend (Sv_jbackend V) (Bd_backend B b)),
     api_route ''PUT'' (bk @ [Wild ''name'']) (Ten ''admin'') (upsertBackend (Sv_jbackend V) (Bd_backend B b)),
     api_route ''DELETE'' (bk @ [Wild ''name'']) (Ten ''admin'') deleteBackend,
     api_route ''GET'' rm (Ten ''viewer'') listRooms,
     api_route ''POST'' rm (Ten ''admin'') (upsertRoom (Sv_time V) (Sv_jroom V) (Bd_room B b)),
     api_route ''PUT'' one (Ten ''admin'') (upsertRoom (Sv_time V) (Sv_jroom V) (Bd_room B b)),
     api_route ''DELETE'' one (Ten ''admin'') deleteRoom,
     api_route ''POST'' (one @ [Lit ''state'']) (Ten ''operator'') (roomState (Sv_once V) (Bd_state B b)),
     net_route ''GET'' (one @ [Lit ''stats'']) (Ten ''viewer'') (stats_h V),
     net_route ''POST'' (one @ [Lit ''flush'']) (Ten ''operator'') (roomFlush (Sv_net V)),
     api_route ''POST'' (v1 ''pass'' @ [Lit ''verify'']) (Ten ''viewer'') (verifyPass (Sv_lib V) (Sv_crypto V) (Bd_pass B b)),
     api_route ''GET'' ks (Ten ''admin'') listTenantKeys,
     api_route ''POST'' ks (Ten ''admin'') (createOwnTenantKey (Bd_name B b)),
     api_route ''DELETE'' (ks @ [Wild ''id'']) (Ten ''admin'') deleteTenantKey])"

definition Register :: "'w process \<Rightarrow> raw \<Rightarrow> ('k::linorder, 'w) route list" where
  "Register V x = (let B = Sv_body V; b = Rw_body x; ten = v1 ''tenants'' in
    [api_route ''GET'' (v1 ''me'') Open (\<lambda>E rq p. me E rq),
     api_route ''POST'' ten Plat (createTenant (Bd_tenant B b)),
     api_route ''GET'' ten Plat listTenants,
     api_route ''POST'' (ten @ [Wild ''slug'', Lit ''api-keys'']) Plat (createTenantKey (Bd_name B b)),
     api_route ''GET'' (v1 ''edges'') Plat listEdges,
     api_route ''DELETE'' (v1 ''edges'' @ [Wild ''name'']) Plat deleteEdge,
     net_route ''GET'' (v1 ''queue-hosts'') Plat (listQueueHosts V),
     api_route ''DELETE'' (v1 ''queue-hosts'' @ [Wild ''name'']) Plat deleteQueueHost]
    @ registerJobs V x @ registerInventory V x @ registerEnroll V x @
    [api_route ''POST'' (v1 ''sync'') Plat (syncNow V)]
    @ tenant_routes V x @ registerAuth V x @
    [api_route ''GET'' [Lit ''.well-known'', Lit ''jwks.json''] Open (answer_with (\<lambda>E rq s. JSON 200 (jwks (Sv_keys V) E s))),
     api_route ''GET'' [Lit ''.well-known'', Lit ''flyc-pass.pem''] Open (answer_with (\<lambda>E rq. pass_pem)),
     api_route ''GET'' [Lit ''internal'', Lit ''signing-key''] Open (answer_with (\<lambda>E rq. signing_key_route (Sv_internal V) rq))])"

text \<open>What \<open>main\<close> puts beside the routes of the API.\<close>

definition main_routes :: "'w process \<Rightarrow> raw \<Rightarrow> ('k::linorder, 'w) route list" where
  "main_routes V x =
    [api_route ''GET'' [Lit ''healthz''] Open (answer_with (\<lambda>E rq s. health_check (Sv_err V) [(''postgres'', if S_ok E 0 then None else Some EDb)])),
     api_route ''GET'' [Lit ''version''] Open (answer_with (\<lambda>E rq s. JSON 200 (JObj [(''service'', JStr ''flyc-control''), (''version'', JStr (Sv_version V))]))),
     api_route ''GET'' [Lit ''metrics''] Open (answer_with (\<lambda>E rq s. Sv_metrics V))]
    @ Register V x"

section \<open>The multiplexer\<close>

definition route_of :: "raw \<Rightarrow> ('k, 'w) route list \<Rightarrow> (('k, 'w) route \<times> (string \<times> string) list) option" where
  "route_of x rs = (case List.map_filter (\<lambda>r. if method_ok (t_method r) (Rw_method x)
        then map_option (Pair r) (match_path (t_path r) (Rw_path x)) else None) rs of [] \<Rightarrow> None | y # _ \<Rightarrow> Some y)"

text \<open>A path that no route has: under the prefix of the challenges for that handler, else for the interface; both
  only take GET, and the interface makes the path known, so that another method is refused with a 405.\<close>

definition fallback :: "'w process \<Rightarrow> raw \<Rightarrow> 'k sys \<Rightarrow> ctl \<Rightarrow> resp" where
  "fallback V x E s =
    (if \<not> method_ok ''GET'' (Rw_method x) then not_found_page\<lparr>code := 405\<rparr>
     else case Rw_path x of
       ''.well-known'' # ''acme-challenge'' # y # ys \<Rightarrow> challenge_h (S_ok E 0) (join ''/'' (y # ys)) s
     | _ \<Rightarrow> (if Rw_path x = [''.well-known'', ''acme-challenge''] then Redirect ''/.well-known/acme-challenge/'' 301
             else ui_handler (Sv_static V) (join ''/'' (Rw_path x))))"

definition serve_control :: "'w process \<Rightarrow> raw \<Rightarrow> 'k::linorder sys \<Rightarrow> ctl \<Rightarrow> 'w \<Rightarrow> resp \<times> ctl \<times> 'w" where
  "serve_control V x E s w = (case route_of x (main_routes V x) of
     None \<Rightarrow> (fallback V x E s, s, w)
   | Some (r, b) \<Rightarrow> gated (t_gate r) (t_handler r) E (request_of x b) s w)"

end
