(* ===== verification/Route_Laws.thy ===== *)
theory Route_Laws
  imports Control_Routes Control_Laws
begin

text \<open>
  The laws of the whole server of flyc-control: the gates of the table are the wrappers of the code, no two
  routes match one request, and what a request can change given who sends it, whatever its path.
\<close>

section \<open>The gates\<close>

lemma gated_platform: "gated Plat (plain h) E rq s w = (case platform h E rq s of (r, s1) \<Rightarrow> (r, s1, w))"
  by (auto simp: gated_def enter_def platform_def plain_def split: prod.split sum.split)

lemma gated_tenant: "gated (Ten m) (plain h) E rq s w = (case tenant_route m h E rq s of (r, s1) \<Rightarrow> (r, s1, w))"
  by (auto simp: gated_def enter_def tenant_route_def plain_def split: prod.split sum.split)

lemma gated_session: "gated Ses (plain h) E rq s w = (case session_route h E rq s of (r, s1) \<Rightarrow> (r, s1, w))"
  by (auto simp: gated_def enter_def session_route_def plain_def split: prod.split sum.split)

text \<open>Who sends a request does not depend on the segments of its path.\<close>

lemma session_principal_path: "session_principal E (request_of x b) = session_principal E (request_of x [])"
  by (intro ext) (simp only: session_principal_def request_of_def request.simps)

lemma Current_path: "Sess_Current E (request_of x b) = Sess_Current E (request_of x [])"
  by (intro ext) (simp only: Sess_Current_def request_of_def request.simps)

lemma authenticateSession_path: "authenticateSession E (request_of x b) = authenticateSession E (request_of x [])"
  by (intro ext) (simp only: authenticateSession_def session_principal_path [of E x b] Current_path [of E x b])

lemma key_principal_path: "key_principal E (request_of x b) = key_principal E (request_of x [])"
  by (intro ext) (simp only: key_principal_def request_of_def request.simps)

lemma bearer_key_path: "bearer_key E (request_of x b) = bearer_key E (request_of x [])"
  by (simp only: bearer_key_def request_of_def request.simps)

lemma authenticate_path: "authenticate E (request_of x b) = authenticate E (request_of x [])"
  by (intro ext) (simp only: authenticate_def authenticateSession_path [of E x b] key_principal_path [of E x b] bearer_key_path [of E x b],
    simp only: request_of_def request.simps)

section \<open>Handlers that only read\<close>

definition quiet :: "('k, 'w) nhandler \<Rightarrow> bool" where
  "quiet h \<longleftrightarrow> (\<forall>E rq p s w. fst (snd (h E rq p s w)) = s)"

named_theorems quiet_rules

lemma quietI: "(\<And>E rq p s. snd (h E rq p s) = s) \<Longrightarrow> quiet (plain h)"
  by (simp add: quiet_def plain_def split: prod.split) (metis snd_conv)

lemma quiet_platform [quiet_rules]:
  "quiet (plain (listTenants :: ('k::linorder) handler))" "quiet (plain (listEdges :: 'k handler))" "quiet (plain (listNodes :: 'k handler))"
  "quiet (plain (listSigningKeys :: 'k handler))" "quiet (plain (getSettings js :: 'k handler))" "quiet (plain (getInventory ff hd' :: 'k handler))"
  "quiet (plain (listJobs jm n jj :: 'k handler))" "quiet (plain (getJob jm jj :: 'k handler))" "quiet (plain (jobLog jm xs :: 'k handler))"
  "quiet (plain (listEnrollTokens :: 'k handler))"
  by (rule quietI, simp add: listTenants_def listEdges_def listNodes_def listSigningKeys_def getSettings_def getInventory_def listJobs_def getJob_def
      jobLog_def listEnrollTokens_def split: sum.split)+

lemma quiet_accounts [quiet_rules]:
  "quiet (plain (account :: ('k::linorder) handler))" "quiet (plain (listUsers :: 'k handler))" "quiet (plain (listMembers :: 'k handler))"
  "quiet (plain (listTenantKeys :: 'k handler))" "quiet (plain (listTenantKeysPlatform :: 'k handler))" "quiet (plain (totpQR V :: 'k handler))"
  by (rule quietI, simp add: account_def listUsers_def listMembers_def listTenantKeys_def listTenantKeysPlatform_def totpQR_def split: option.split sum.split)+

lemma quiet_tenants [quiet_rules]:
  "quiet (plain (listDomains :: ('k::linorder) handler))" "quiet (plain (domainCert :: 'k handler))" "quiet (plain (renewCert on :: 'k handler))"
  "quiet (plain (listBackends :: 'k handler))" "quiet (plain (listRooms :: 'k handler))" "quiet (plain (verifyPass L C i :: 'k handler))"
  by (rule quietI, simp add: listDomains_def domainCert_def renewCert_def listBackends_def listRooms_def verifyPass_def decode_def Let_def
      split: option.split sum.split prod.split)+

lemma quiet_net [quiet_rules]: "quiet (listQueueHosts V)" "quiet (stats_h V)" "quiet (plain (answer_with f))"
  by (simp_all add: quiet_def listQueueHosts_def stats_h_def plain_def answer_with_def split: prod.split)

section \<open>The table\<close>

lemma route_ofD:
  assumes "route_of x rs = Some (r, b)"
  shows "r \<in> set rs \<and> method_ok (t_method r) (Rw_method x) \<and> match_path (t_path r) (Rw_path x) = Some b"
proof -
  have "(r, b) \<in> set (List.map_filter (\<lambda>r. if method_ok (t_method r) (Rw_method x)
        then map_option (Pair r) (match_path (t_path r) (Rw_path x)) else None) rs)"
    using assms by (auto simp: route_of_def split: list.splits)
  then show ?thesis by (auto simp: map_filter_mem split: if_splits)
qed

definition me_route :: "('k::linorder, 'w) route" where
  "me_route = api_route ''GET'' (v1 ''me'') Open (\<lambda>E rq p. me E rq)"

text \<open>Under \<open>v1\<close> a route of GET reads, apart from \<open>me\<close>, and every other one is behind a gate.\<close>

definition guarded :: "('k::linorder, 'w) route \<Rightarrow> bool" where
  "guarded r \<longleftrightarrow> (\<exists>a ps. t_path r = Lit a # ps \<and> (a = ''v1'' \<longrightarrow>
     r = me_route \<or> (t_gate r \<noteq> Open \<and> (t_method r = ''GET'' \<longrightarrow> quiet (t_handler r)))))"

lemma guarded_other: "a \<noteq> ''v1'' \<Longrightarrow> guarded (api_route m (Lit a # ps) g h)"
  by (simp add: guarded_def api_route_def)

lemma guarded_gate:
  "g \<noteq> Open \<Longrightarrow> m \<noteq> ''GET'' \<or> quiet (plain h :: ('k, 'w) nhandler) \<Longrightarrow> guarded (api_route m (Lit a # ps) g h :: ('k::linorder, 'w) route)"
  "g \<noteq> Open \<Longrightarrow> m \<noteq> ''GET'' \<or> quiet h' \<Longrightarrow> guarded (net_route m (Lit a # ps) g h')"
  by (auto simp: guarded_def api_route_def net_route_def)

lemma guarded_me: "guarded (api_route ''GET'' (v1 ''me'') Open (\<lambda>E rq p. me E rq) :: ('k::linorder, 'w) route)"
  by (simp only: me_route_def [symmetric]) (simp add: guarded_def, simp add: me_route_def api_route_def)

lemmas table_defs = main_routes_def Register_def registerJobs_def registerInventory_def registerEnroll_def registerAuth_def tenant_routes_def

lemma table_guarded: "list_all guarded (main_routes V x)"
  by (simp add: table_defs Let_def guarded_other guarded_gate guarded_me quiet_rules)

lemma guardedD:
  assumes "route_of x (main_routes V x) = Some (r, b)" and "Rw_path x = ''v1'' # ps"
  shows "r = me_route \<or> (t_gate r \<noteq> Open \<and> (t_method r = ''GET'' \<longrightarrow> quiet (t_handler r)))"
proof -
  from route_ofD [OF assms(1)] have r: "r \<in> set (main_routes V x)" "match_path (t_path r) (''v1'' # ps) = Some b" using assms(2) by auto
  then have "guarded r" using table_guarded [of V x] by (auto simp: list_all_iff)
  then show ?thesis using r(2) by (auto simp: guarded_def split: if_splits)
qed

lemma enter_same: "same_rights s (snd (enter g E rq s))"
  using authenticate_same [of s E rq] authenticateSession_same [of s E rq]
  by (auto simp: enter_def split: gate.splits prod.split sum.split)

lemma gated_refused: "fst (enter g E rq s) = Inl r \<Longrightarrow> gated g h E rq s w = (r, snd (enter g E rq s), w)"
  by (auto simp: gated_def split: prod.split)

lemma gated_quiet: "quiet h \<Longrightarrow> same_rights s (fst (snd (gated g h E rq s w)))"
  using enter_same [of s g E rq] by (auto simp: gated_def quiet_def split: prod.split sum.split)

lemma me_same: "same_rights s (snd (me E rq s))"
  using authenticate_same [of s E rq] by (auto simp: me_def split: prod.split sum.split)

lemma me_route_same: "same_rights s (fst (snd (gated (t_gate me_route) (t_handler me_route) E rq s w)))"
  using me_same [of s E rq] by (auto simp: me_route_def api_route_def gated_def enter_def plain_def split: prod.split)

text \<open>A request under \<open>v1\<close> that no gate lets in, or whose route only reads, changes no right and no table.\<close>

lemma serve_same:
  fixes E :: "'k::linorder sys" and V :: "'w process"
  assumes "Rw_path x = ''v1'' # ps"
    and "\<And>r b. route_of x (main_routes V x :: ('k, 'w) route list) = Some (r, b) \<Longrightarrow> t_gate r \<noteq> Open \<Longrightarrow>
      quiet (t_handler r) \<or> (\<exists>e. fst (enter (t_gate r) E (request_of x b) s) = Inl e)"
  shows "same_rights s (fst (snd (serve_control V x E s w)))"
proof (cases "route_of x (main_routes V x :: ('k, 'w) route list)")
  case None
  then show ?thesis by (simp add: serve_control_def)
next
  case (Some y)
  obtain r b where y: "y = (r, b)" by (metis surj_pair)
  show ?thesis
  proof (cases "r = me_route")
    case True
    then show ?thesis using Some y me_route_same by (simp add: serve_control_def)
  next
    case False
    then have "t_gate r \<noteq> Open" using guardedD [OF Some [unfolded y] assms(1)] by blast
    then consider "quiet (t_handler r)" | e where "fst (enter (t_gate r) E (request_of x b) s) = Inl e"
      using assms(2) [OF Some [unfolded y]] by blast
    then show ?thesis
      by cases (simp_all add: serve_control_def Some y gated_quiet gated_refused enter_same)
  qed
qed

lemma session_needs_header: "Rmethod rq \<noteq> ''GET'' \<Longrightarrow> Rhdr rq ''X-Requested-With'' \<noteq> ''flyc'' \<Longrightarrow> \<exists>e. fst (authenticateSession E rq s) = Inl e"
  by (auto simp: authenticateSession_def session_principal_def split: prod.split sum.split option.split)

lemma enter_refused:
  assumes "g \<noteq> Open" and "\<exists>e. fst (authenticate E rq s) = Inl e" and "\<exists>e. fst (authenticateSession E rq s) = Inl e"
  shows "fst (enter g E rq s) = Inl (HErr 401 ''unauthorized'')"
  using assms by (cases g) (auto simp: enter_def split: prod.split sum.split)

section \<open>Requests from another site\<close>

text \<open>C13: A page of another site can make the browser of a user send requests with the cookie of the session, but not
  add a header: whatever the method, the path under \<open>/v1\<close> and the body, such a request changes nothing but the expiry
  of the session. Every route that writes asks for another method than GET, and those ask for the header.\<close>

theorem cross_site_changes_nothing:
  fixes E :: "'k::linorder sys" and V :: "'w process"
  assumes "Rw_path x = ''v1'' # ps" and "\<not> prefix ''Bearer '' (Rw_hdr x ''Authorization'')" and "Rw_hdr x ''X-Requested-With'' \<noteq> ''flyc''"
  shows "same_rights s (fst (snd (serve_control V x E s w)))"
proof (rule serve_same [OF assms(1)])
  fix r b assume r: "route_of x (main_routes V x :: ('k, 'w) route list) = Some (r, b)" and g: "t_gate r \<noteq> Open"
  let ?rq = "request_of x b"
  have h: "Rhdr ?rq ''X-Requested-With'' \<noteq> ''flyc''" "authenticate E ?rq s = authenticateSession E ?rq s"
    using assms(2,3) by (simp_all add: request_of_def authenticate_def)
  show "quiet (t_handler r) \<or> (\<exists>e. fst (enter (t_gate r) E ?rq s) = Inl e)"
  proof (cases "t_method r = ''GET''")
    case True
    then show ?thesis using guardedD [OF r assms(1)] g by (auto simp: me_route_def api_route_def)
  next
    case False
    then have "Rmethod ?rq \<noteq> ''GET''" using route_ofD [OF r] by (auto simp: method_ok_def request_of_def)
    then show ?thesis using enter_refused [OF g, of E ?rq s] session_needs_header [OF _ h(1), of E s] h(2) by simp
  qed
qed

section \<open>Requests from nobody\<close>

text \<open>C19: A request under \<open>/v1\<close> that carries neither a valid key nor a valid session, on any route of the table: the
  answer is a 401, no row of rights changes and nothing is sent to the network.\<close>

theorem anonymous_gets_401:
  fixes E :: "'k::linorder sys" and V :: "'w process"
  assumes "Rw_path x = ''v1'' # ps" and "route_of x (main_routes V x :: ('k, 'w) route list) \<noteq> None"
    and "fst (authenticate E (request_of x []) s) = Inl e" and "fst (authenticateSession E (request_of x []) s) = Inl e'"
  shows "code (fst (serve_control V x E s w)) = 401 \<and> same_rights s (fst (snd (serve_control V x E s w))) \<and> snd (snd (serve_control V x E s w)) = w"
proof -
  obtain r b where r: "route_of x (main_routes V x :: ('k, 'w) route list) = Some (r, b)" using assms(2) by auto
  let ?rq = "request_of x b"
  have a: "fst (authenticate E ?rq s) = Inl e" "fst (authenticateSession E ?rq s) = Inl e'"
    using assms(3,4) by (simp_all only: authenticate_path [of E x b] authenticateSession_path [of E x b])
  show ?thesis
  proof (cases "r = me_route")
    case True
    obtain s1 where "authenticate E ?rq s = (Inl e, s1)" using a(1) by (metis fst_conv surj_pair)
    then show ?thesis using True r authenticate_same [of s E ?rq]
      by (simp add: serve_control_def me_route_def api_route_def gated_def enter_def plain_def me_def)
  next
    case False
    then have g: "t_gate r \<noteq> Open" using guardedD [OF r assms(1)] by blast
    have "fst (enter (t_gate r) E ?rq s) = Inl (HErr 401 ''unauthorized'')" using enter_refused [OF g] a by blast
    then show ?thesis using r enter_same by (simp add: serve_control_def gated_refused)
  qed
qed

section \<open>Viewers\<close>

definition for_readers :: "('k::linorder, 'w) route \<Rightarrow> bool" where
  "for_readers r \<longleftrightarrow> (\<exists>a ps. t_path r = Lit a # ps \<and> (a = ''v1'' \<longrightarrow>
     (\<exists>c qs. ps = Lit c # qs \<and> (c \<noteq> ''account'' \<longrightarrow> t_gate r = Open \<or> t_gate r = Plat \<or> (\<exists>m. t_gate r = Ten m \<and> (roleRank m \<le> 1 \<longrightarrow> quiet (t_handler r)))))))"

lemma readers_other: "a \<noteq> ''v1'' \<Longrightarrow> for_readers (api_route m (Lit a # ps) g h)"
  by (simp add: for_readers_def api_route_def)

lemma readers_gate:
  "g = Open \<or> g = Plat \<or> c = ''account'' \<Longrightarrow> for_readers (api_route m (Lit a # Lit c # ps) g h)"
  "for_readers (net_route m (Lit a # Lit c # ps) Plat h')"
  "roleRank k > 1 \<or> quiet (plain h :: ('k, 'w) nhandler) \<Longrightarrow> for_readers (api_route m (Lit a # Lit c # ps) (Ten k) h :: ('k::linorder, 'w) route)"
  "roleRank k > 1 \<or> quiet h' \<Longrightarrow> for_readers (net_route m (Lit a # Lit c # ps) (Ten k) h')"
  by (auto simp: for_readers_def api_route_def net_route_def)

lemma ranks [simp]: "roleRank ''viewer'' = 1" "roleRank ''operator'' = 2" "roleRank ''admin'' = 3"
  by (simp_all add: roleRank_def)

lemma table_readers: "list_all for_readers (main_routes V x)"
  by (simp add: table_defs Let_def readers_other readers_gate quiet_rules)

text \<open>C14: The session of a user who is only a viewer of its tenant changes nothing of the platform: on every route under
  \<open>/v1\<close> but those of its own account, with any method and body, the tables, the inventory, the jobs, the users, the
  memberships and the keys stay what they were.\<close>

theorem viewer_changes_nothing:
  fixes E :: "'k::linorder sys" and V :: "'w process"
  assumes "Rw_path x = ''v1'' # c # ps" and "c \<noteq> ''account''"
    and "authenticate E (request_of x []) s = (Inr p, s1)" and "session_p p" and "\<not> platform_p p" and "roleRank (role p) \<le> 1"
  shows "same_rights s (fst (snd (serve_control V x E s w)))"
proof (rule serve_same [OF assms(1)])
  fix r b assume r: "route_of x (main_routes V x :: ('k, 'w) route list) = Some (r, b)" and g: "t_gate r \<noteq> Open"
  have p: "authenticate E (request_of x b) s = (Inr p, s1)" using assms(3) by (simp only: authenticate_path [of E x b])
  from route_ofD [OF r] have m: "r \<in> set (main_routes V x)" "match_path (t_path r) (''v1'' # c # ps) = Some b" using assms(1) by auto
  then have "for_readers r" using table_readers [of V x] by (auto simp: list_all_iff)
  then consider "t_gate r = Plat" | k where "t_gate r = Ten k" "roleRank k \<le> 1 \<longrightarrow> quiet (t_handler r)"
    using m(2) assms(2) g by (auto simp: for_readers_def split: if_splits)
  then show "quiet (t_handler r) \<or> (\<exists>e. fst (enter (t_gate r) E (request_of x b) s) = Inl e)"
  proof cases
    case 1
    then show ?thesis using p assms(5) by (simp add: enter_def)
  next
    case 2
    then show ?thesis using p assms(4-6) by (cases "roleRank k \<le> 1") (auto simp: enter_def allows_def)
  qed
qed

section \<open>One route for a request\<close>

text \<open>Two patterns that some path satisfies.\<close>

fun overlap :: "seg list \<Rightarrow> seg list \<Rightarrow> bool" where
  "overlap [] [] \<longleftrightarrow> True"
| "overlap (Lit a # ps) (Lit b # qs) \<longleftrightarrow> a = b \<and> overlap ps qs"
| "overlap (Lit a # ps) (Wild n # qs) \<longleftrightarrow> overlap ps qs"
| "overlap (Wild n # ps) (q # qs) \<longleftrightarrow> overlap ps qs"
| "overlap _ _ \<longleftrightarrow> False"

lemma match_path_nil [simp]: "match_path [] xs = Some b \<longleftrightarrow> xs = [] \<and> b = []" "match_path ps [] = Some b \<longleftrightarrow> ps = [] \<and> b = []"
  by (cases xs; auto) (cases "(ps, [] :: string list)" rule: match_path.cases; auto)

lemma overlap_match: "match_path ps xs = Some b \<Longrightarrow> match_path qs xs = Some c \<Longrightarrow> overlap ps qs"
proof (induction ps qs arbitrary: xs b c rule: overlap.induct)
  case (2 a ps b' qs)
  then show ?case by (cases xs) (auto split: if_splits)
next
  case (3 a ps n qs)
  then show ?case by (cases xs) (auto split: if_splits)
next
  case (4 n ps q qs)
  then show ?case by (cases xs; cases q) (auto split: if_splits)
qed auto

text \<open>The methods and the patterns of the table, without what is behind them.\<close>

definition heads_of :: "('k, 'w) route list \<Rightarrow> (string \<times> seg list) list" where
  "heads_of rs = map (\<lambda>r. (t_method r, t_path r)) rs"

definition control_heads :: "(string \<times> seg list) list" where
  "control_heads =
    [(''GET'', [Lit ''healthz'']), (''GET'', [Lit ''version'']), (''GET'', [Lit ''metrics'']), (''GET'', v1 ''me''), (''POST'', v1 ''tenants''),
     (''GET'', v1 ''tenants''), (''POST'', v1 ''tenants'' @ [Wild ''slug'', Lit ''api-keys'']), (''GET'', v1 ''edges''),
     (''DELETE'', v1 ''edges'' @ [Wild ''name'']), (''GET'', v1 ''queue-hosts''), (''DELETE'', v1 ''queue-hosts'' @ [Wild ''name'']),
     (''POST'', v1 ''jobs''), (''GET'', v1 ''jobs''), (''GET'', v1 ''jobs'' @ [Wild ''id'']), (''GET'', v1 ''jobs'' @ [Wild ''id'', Lit ''log'']),
     (''GET'', v1 ''nodes''), (''POST'', v1 ''nodes''), (''PATCH'', v1 ''nodes'' @ [Wild ''name'']), (''DELETE'', v1 ''nodes'' @ [Wild ''name'']),
     (''GET'', v1 ''settings''), (''PUT'', v1 ''settings''), (''GET'', v1 ''inventory''),
     (''POST'', v1 ''enroll'' @ [Lit ''tokens'']), (''GET'', v1 ''enroll'' @ [Lit ''tokens'']), (''DELETE'', v1 ''enroll'' @ [Lit ''tokens'', Wild ''id'']),
     (''GET'', [Lit ''enroll'', Wild ''token'']), (''POST'', [Lit ''enroll'', Wild ''token'', Lit ''done'']), (''POST'', v1 ''sync''),
     (''GET'', v1 ''domains''), (''POST'', v1 ''domains''), (''DELETE'', v1 ''domains'' @ [Wild ''fqdn'']),
     (''GET'', v1 ''domains'' @ [Wild ''fqdn'', Lit ''certificate'']), (''POST'', v1 ''domains'' @ [Wild ''fqdn'', Lit ''certificate'', Lit ''renew'']),
     (''GET'', v1 ''backends''), (''POST'', v1 ''backends''), (''PUT'', v1 ''backends'' @ [Wild ''name'']), (''DELETE'', v1 ''backends'' @ [Wild ''name'']),
     (''GET'', v1 ''rooms''), (''POST'', v1 ''rooms''), (''PUT'', v1 ''rooms'' @ [Wild ''slug'']), (''DELETE'', v1 ''rooms'' @ [Wild ''slug'']),
     (''POST'', v1 ''rooms'' @ [Wild ''slug'', Lit ''state'']), (''GET'', v1 ''rooms'' @ [Wild ''slug'', Lit ''stats'']),
     (''POST'', v1 ''rooms'' @ [Wild ''slug'', Lit ''flush'']), (''POST'', v1 ''pass'' @ [Lit ''verify'']),
     (''GET'', v1 ''api-keys''), (''POST'', v1 ''api-keys''), (''DELETE'', v1 ''api-keys'' @ [Wild ''id'']),
     (''GET'', [Lit ''auth'', Lit ''config'']), (''POST'', [Lit ''auth'', Lit ''login'']), (''POST'', [Lit ''auth'', Lit ''logout'']),
     (''GET'', [Lit ''auth'', Lit ''oidc'', Lit ''start'']), (''GET'', [Lit ''auth'', Lit ''oidc'', Lit ''callback'']),
     (''GET'', v1 ''account''), (''POST'', v1 ''account'' @ [Lit ''password'']), (''POST'', v1 ''account'' @ [Lit ''totp'', Lit ''setup'']),
     (''GET'', v1 ''account'' @ [Lit ''totp'', Lit ''qr.png'']), (''POST'', v1 ''account'' @ [Lit ''totp'', Lit ''enable'']),
     (''POST'', v1 ''account'' @ [Lit ''totp'', Lit ''disable'']), (''GET'', v1 ''users''), (''POST'', v1 ''users''), (''DELETE'', v1 ''users'' @ [Wild ''id'']),
     (''POST'', v1 ''users'' @ [Wild ''id'', Lit ''password'']), (''GET'', v1 ''tenants'' @ [Wild ''slug'', Lit ''members'']),
     (''PUT'', v1 ''tenants'' @ [Wild ''slug'', Lit ''members'']), (''DELETE'', v1 ''tenants'' @ [Wild ''slug'', Lit ''members'', Wild ''email'']),
     (''GET'', v1 ''tenants'' @ [Wild ''slug'', Lit ''api-keys'']), (''GET'', v1 ''keys''), (''POST'', v1 ''keys'' @ [Lit ''rotate'']),
     (''GET'', [Lit ''.well-known'', Lit ''jwks.json'']), (''GET'', [Lit ''.well-known'', Lit ''flyc-pass.pem'']), (''GET'', [Lit ''internal'', Lit ''signing-key''])]"

lemma table_heads: "heads_of (main_routes V x) = control_heads"
  by (simp add: heads_of_def table_defs Let_def api_route_def net_route_def control_heads_def)

definition paths_of :: "string \<Rightarrow> seg list list" where
  "paths_of m = map snd (filter (\<lambda>h. method_ok (fst h) m) control_heads)"

lemma paths_apart: "m \<in> {''GET'', ''HEAD'', ''POST'', ''PUT'', ''PATCH'', ''DELETE''} \<Longrightarrow> sorted_wrt (\<lambda>p q. \<not> overlap p q) (paths_of m)"
proof -
  have "list_all (\<lambda>m. sorted_wrt (\<lambda>p q. \<not> overlap p q) (paths_of m)) [''GET'', ''HEAD'', ''POST'', ''PUT'', ''PATCH'', ''DELETE'']"
    by code_simp
  then show "m \<in> {''GET'', ''HEAD'', ''POST'', ''PUT'', ''PATCH'', ''DELETE''} \<Longrightarrow> ?thesis" by auto
qed

lemma paths_other: "m \<notin> {''GET'', ''HEAD'', ''POST'', ''PUT'', ''PATCH'', ''DELETE''} \<Longrightarrow> paths_of m = []"
proof -
  assume m: "m \<notin> {''GET'', ''HEAD'', ''POST'', ''PUT'', ''PATCH'', ''DELETE''}"
  have "list_all (\<lambda>h. fst h \<in> set [''GET'', ''POST'', ''PUT'', ''PATCH'', ''DELETE'']) control_heads" by code_simp
  then have "\<not> method_ok (fst h) m" if "h \<in> set control_heads" for h
    using that m by (simp only: list_all_iff method_ok_def) fastforce
  then show ?thesis by (simp add: paths_of_def)
qed

lemma paths_sorted: "sorted_wrt (\<lambda>p q. \<not> overlap p q) (paths_of m)"
  using paths_apart [of m] paths_other [of m] by (cases "m \<in> {''GET'', ''HEAD'', ''POST'', ''PUT'', ''PATCH'', ''DELETE''}") simp_all

lemma sorted_wrt_none:
  assumes "sorted_wrt P xs" and "\<And>a b. a \<in> set xs \<Longrightarrow> b \<in> set xs \<Longrightarrow> \<not> P a b"
  shows "length xs \<le> 1"
  using assms by (cases xs rule: remdups_adj.cases) auto

lemma heads_paths:
  "filter Q (map snd (filter (\<lambda>h. method_ok (fst h) m) (heads_of rs))) = map t_path (filter (\<lambda>r. method_ok (t_method r) m \<and> Q (t_path r)) rs)"
  by (induction rs) (auto simp: heads_of_def)

lemma table_paths:
  "map t_path (filter (\<lambda>r. method_ok (t_method r) m \<and> Q (t_path r)) (main_routes V x)) = filter Q (paths_of m)"
  unfolding heads_paths [symmetric] paths_of_def table_heads by (rule refl)

lemma map_filter_if: "(\<And>r. f r = (if P r then Some (g r) else None)) \<Longrightarrow> List.map_filter f xs = map g (filter P xs)"
  by (induction xs) (simp_all add: List.map_filter_simps)

definition takes :: "raw \<Rightarrow> ('k, 'w) route \<Rightarrow> bool" where
  "takes x r \<longleftrightarrow> method_ok (t_method r) (Rw_method x) \<and> match_path (t_path r) (Rw_path x) \<noteq> None"

lemma route_of_takes:
  "route_of x rs = (case filter (takes x) rs of [] \<Rightarrow> None | r # _ \<Rightarrow> Some (r, the (match_path (t_path r) (Rw_path x))))"
proof -
  have "List.map_filter (\<lambda>r. if method_ok (t_method r) (Rw_method x) then map_option (Pair r) (match_path (t_path r) (Rw_path x)) else None) rs
      = map (\<lambda>r. (r, the (match_path (t_path r) (Rw_path x)))) (filter (takes x) rs)"
  proof (rule map_filter_if)
    fix r
    show "(if method_ok (t_method r) (Rw_method x) then map_option (Pair r) (match_path (t_path r) (Rw_path x)) else None)
        = (if takes x r then Some (r, the (match_path (t_path r) (Rw_path x))) else None)"
      by (cases "match_path (t_path r) (Rw_path x)") (simp_all add: takes_def)
  qed
  then show ?thesis by (simp add: route_of_def split: list.split)
qed

text \<open>For every request, either no route of the whole server has its method and its path, or exactly one has them,
  and the multiplexer finds that one: what answers does not depend on the order of the registrations.\<close>

theorem one_route_at_most:
  fixes V :: "'w process"
  shows "(filter (takes x) (main_routes V x :: ('k::linorder, 'w) route list) = [] \<and> route_of x (main_routes V x :: ('k, 'w) route list) = None) \<or>
    (\<exists>r b. filter (takes x) (main_routes V x :: ('k, 'w) route list) = [r] \<and> match_path (t_path r) (Rw_path x) = Some b \<and>
      route_of x (main_routes V x) = Some (r, b))"
proof -
  let ?Q = "\<lambda>p. match_path p (Rw_path x) \<noteq> None" and ?rs = "main_routes V x :: ('k, 'w) route list"
  have "sorted_wrt (\<lambda>p q. \<not> overlap p q) (filter ?Q (paths_of (Rw_method x)))"
    by (rule sorted_wrt_filter [OF paths_sorted])
  then have "length (filter ?Q (paths_of (Rw_method x))) \<le> 1"
    by (rule sorted_wrt_none) (auto dest: overlap_match)
  moreover have "map t_path (filter (takes x) ?rs) = filter ?Q (paths_of (Rw_method x))"
    unfolding takes_def by (rule table_paths)
  ultimately have "length (map t_path (filter (takes x) ?rs)) \<le> 1" by (simp only:)
  then have one: "length (filter (takes x) ?rs) \<le> 1" by simp
  show ?thesis
  proof (cases "filter (takes x) ?rs")
    case Nil
    then show ?thesis by (simp add: route_of_takes)
  next
    case (Cons r rs')
    then have "takes x r" by (metis filter_eq_ConsD)
    then show ?thesis using Cons one by (auto simp: route_of_takes takes_def)
  qed
qed

section \<open>The tenants\<close>

definition keeps_db :: "('k, 'w) nhandler \<Rightarrow> bool" where
  "keeps_db h \<longleftrightarrow> (\<forall>E rq p s w. db (fst (snd (h E rq p s w))) = db s)"

definition owner_only :: "('k, 'w) nhandler \<Rightarrow> bool" where
  "owner_only h \<longleftrightarrow> (\<forall>E rq p s w t. tinv (db s) \<longrightarrow> fresh_id (S_id E 0) (db s) \<longrightarrow> tenantID p = Some t \<longrightarrow> apart t (db s) (db (fst (snd (h E rq p s w)))))"

lemma owner_onlyD:
  "owner_only h \<Longrightarrow> tinv (db s) \<Longrightarrow> fresh_id (S_id E 0) (db s) \<Longrightarrow> tenantID p = Some t \<Longrightarrow> apart t (db s) (db (fst (snd (h E rq p s w))))"
  by (simp add: owner_only_def)

named_theorems keep_rules

lemma keeps_dbI: "(\<And>E rq p s. db (snd (h E rq p s)) = db s) \<Longrightarrow> keeps_db (plain h)"
  by (simp add: keeps_db_def plain_def split: prod.split) (metis snd_conv)

lemma quiet_keeps [keep_rules]: "quiet h \<Longrightarrow> keeps_db h"
  by (simp add: quiet_def keeps_db_def)

lemma keeps_owner [keep_rules]: "keeps_db h \<Longrightarrow> owner_only h"
  by (simp add: keeps_db_def owner_only_def apart_refl)

context tenant_handler
begin

lemma plain_own: "owner_only (plain h)"
  using own by (simp add: owner_only_def plain_def split: prod.split) (metis snd_conv)

end

lemma Create_db [simp]: "db (snd (Sess_Create E rq i s)) = db s"
  by (simp add: Sess_Create_def Let_def)

lemma DestroyAll_db [simp]: "db (Sess_DestroyAll ok i s) = db s" "db (Sess_Destroy E rq s) = db s"
  by (auto simp: Sess_DestroyAll_def Sess_Destroy_def split: option.split)

lemma update_user_db [simp]: "db (update_user i f s) = db s"
  by (simp add: update_user_def)

lemma insert_key_db: "insert_key ok E fr t n h s = (r, s') \<Longrightarrow> db s' = db s"
  by (auto simp: insert_key_def split: if_splits)

lemma Create_db': "Sess_Create E rq i s = (r, s') \<Longrightarrow> db s' = db s"
  using Create_db [of E rq i s] by simp

lemma keeps_session [keep_rules]:
  "keeps_db (plain (changePassword A i))" "keeps_db (plain (totpSetup A L mk iss))" "keeps_db (plain (totpEnable A L mk j))" "keeps_db (plain (totpDisable A j))"
  by (rule keeps_dbI, auto simp: changePassword_def totpSetup_def totpEnable_def totpDisable_def decode_def Let_def
      split: option.split sum.split prod.split dest!: Create_db')+

lemma keeps_keys [keep_rules]: "keeps_db (plain (createOwnTenantKey n))" "keeps_db (plain deleteTenantKey)" "keeps_db (roomFlush http)"
  by (rule keeps_dbI, auto simp: createOwnTenantKey_def deleteTenantKey_def Let_def split: option.split sum.split prod.split dest!: insert_key_db)
    (rule keeps_dbI, auto simp: createOwnTenantKey_def deleteTenantKey_def Let_def split: option.split sum.split prod.split,
     auto simp: keeps_db_def roomFlush_def split: sum.split prod.split)

lemma keeps_open [keep_rules]:
  "keeps_db (plain (\<lambda>E rq p. logout E rq))" "keeps_db (plain (\<lambda>E rq p. oidcStart O' t E))" "keeps_db (plain (\<lambda>E rq p. enrollDone V' i E rq))"
  by (rule keeps_dbI, auto simp: logout_def oidcStart_def enrollDone_def done_write_def Let_def split: option.split sum.split prod.split)+

lemma keeps_me [keep_rules]: "keeps_db (plain (\<lambda>E rq p. me E rq))"
  by (rule keeps_dbI) (simp add: me_same [unfolded same_rights_def])

lemma keeps_login [keep_rules]: "keeps_db (plain (\<lambda>E rq p. login A L mk i E rq))"
  by (rule keeps_dbI) (auto simp: login_def decode_def Let_def split: option.split sum.split prod.split dest!: Create_db')

lemma oidc_user_db: "oidc_user O' E c s = (r, s') \<Longrightarrow> db s' = db s"
  by (auto simp: oidc_user_def Let_def split: option.splits if_splits)

lemma keeps_callback [keep_rules]: "keeps_db (plain (\<lambda>E rq p. oidcCallback O' st cd E rq))"
  by (rule keeps_dbI) (auto simp: oidcCallback_def Let_def split: option.split sum.split prod.split dest!: Create_db' oidc_user_db)

definition tenanted :: "('k::linorder, 'w) route \<Rightarrow> bool" where
  "tenanted r \<longleftrightarrow> (case t_gate r of Plat \<Rightarrow> True | Ten m \<Rightarrow> owner_only (t_handler r) | _ \<Rightarrow> keeps_db (t_handler r))"

lemma tenanted_api [simp]:
  "tenanted (api_route m ps Plat h)" "tenanted (net_route m ps Plat h')"
  "tenanted (api_route m ps (Ten k) h :: ('k::linorder, 'w) route) = owner_only (plain h :: ('k, 'w) nhandler)" "tenanted (net_route m ps (Ten k) h') = owner_only h'"
  "tenanted (api_route m ps Open h :: ('k::linorder, 'w) route) = keeps_db (plain h :: ('k, 'w) nhandler)"
  "tenanted (api_route m ps Ses h :: ('k::linorder, 'w) route) = keeps_db (plain h :: ('k, 'w) nhandler)"
  by (simp_all add: tenanted_def api_route_def net_route_def)

lemmas owner_rules = create_domain.plain_own delete_domain.plain_own upsert_backend.plain_own delete_backend.plain_own upsert_room.plain_own
  delete_room.plain_own room_state.plain_own

lemma table_tenanted: "list_all tenanted (main_routes V x)"
  by (simp add: table_defs Let_def owner_rules keep_rules quiet_rules)

text \<open>One request, whatever it is, that does not come from the platform nor from the tenant \<open>u\<close>.\<close>

lemma serve_apart:
  fixes E :: "'k::linorder sys" and V :: "'w process"
  assumes "tinv (db s)" and "fresh_id (S_id E 0) (db s)"
    and out: "case fst (authenticate E (request_of x []) s) of Inl e \<Rightarrow> True | Inr p \<Rightarrow> \<not> platform_p p \<and> tenantID p \<noteq> Some u"
    and res: "serve_control V x E s w = (a, s', w')"
  shows "tinv (db s') \<and> view u (db s') = view u (db s)"
proof (cases "route_of x (main_routes V x :: ('k, 'w) route list)")
  case None
  then show ?thesis using res assms(1) by (simp add: serve_control_def)
next
  case (Some y)
  obtain r b where y: "y = (r, b)" by (metis surj_pair)
  let ?rq = "request_of x b"
  have s': "s' = fst (snd (gated (t_gate r) (t_handler r) E ?rq s w))" using res Some y by (simp add: serve_control_def)
  have "tenanted r" using route_ofD [OF Some [unfolded y]] table_tenanted [of V x] by (auto simp: list_all_iff)
  then consider (free) "keeps_db (t_handler r)" | (plat) "t_gate r = Plat" | (ten) m where "t_gate r = Ten m" "owner_only (t_handler r)"
    by (cases "t_gate r") (auto simp: tenanted_def)
  then show ?thesis
  proof cases
    case free
    have "db s' = db s" using enter_same [of s "t_gate r" E ?rq] free unfolding s'
      by (auto simp: gated_def keeps_db_def same_rights_def split: prod.split sum.split)
    then show ?thesis using assms(1) by simp
  next
    case plat
    have "db s' = db s" using out enter_same [of s Plat E ?rq] plat unfolding s' authenticate_path [of E x b, symmetric]
      by (auto simp: gated_def enter_def same_rights_def split: prod.splits sum.splits if_splits)
    then show ?thesis using assms(1) by simp
  next
    case ten
    show ?thesis
    proof (cases "enter (Ten m) E ?rq s")
      case (Pair z s1)
      have s1: "db s1 = db s" using enter_same [of s "Ten m" E ?rq] Pair by (simp add: same_rights_def)
      show ?thesis
      proof (cases z)
        case (Inl e)
        then show ?thesis using Pair s1 assms(1) ten unfolding s' by (simp add: gated_def)
      next
        case (Inr p)
        then have p: "fst (authenticate E ?rq s) = Inr p" "tenantID p \<noteq> None"
          using Pair by (auto simp: enter_def split: prod.splits sum.splits if_splits)
        then obtain t where t: "tenantID p = Some t" by auto
        then have "t \<noteq> u" using out p(1) by (simp add: authenticate_path [of E x b])
        moreover have "apart t (db s1) (db s')"
          using owner_onlyD [OF ten(2), of s1 "skip 3 E" p t ?rq w] Pair Inr t s1 assms(1,2) ten(1) unfolding s' by (simp add: gated_def)
        ultimately show ?thesis using s1 by (simp add: apart_def)
      qed
    qed
  qed
qed

text \<open>A sequence of requests served one after the other, each with the answers of Postgres and the draws it meets;
  and that none of them comes from the platform or from the tenant \<open>u\<close> when it is served.\<close>

fun serve_all :: "'w process \<Rightarrow> (raw \<times> 'k::linorder sys) list \<Rightarrow> ctl \<Rightarrow> 'w \<Rightarrow> ctl \<times> 'w" where
  "serve_all V [] s w = (s, w)"
| "serve_all V ((x, E) # xs) s w = (case serve_control V x E s w of (a, s1, w1) \<Rightarrow> serve_all V xs s1 w1)"

fun outsiders :: "nat \<Rightarrow> 'w process \<Rightarrow> (raw \<times> 'k::linorder sys) list \<Rightarrow> ctl \<Rightarrow> 'w \<Rightarrow> bool" where
  "outsiders u V [] s w \<longleftrightarrow> True"
| "outsiders u V ((x, E) # xs) s w \<longleftrightarrow> fresh_id (S_id E 0) (db s) \<and>
     (case fst (authenticate E (request_of x []) s) of Inl e \<Rightarrow> True | Inr p \<Rightarrow> \<not> platform_p p \<and> tenantID p \<noteq> Some u) \<and>
     (case serve_control V x E s w of (a, s1, w1) \<Rightarrow> outsiders u V xs s1 w1)"

text \<open>C1: Whatever requests reach the server, on any route and in any order, as long as none comes from the platform or
  from the tenant itself, the tenant keeps its domains, its backends with their servers, and its rooms, unchanged and
  in the same order, and the tables stay consistent: a room only points to a domain and a backend of its own tenant.\<close>

theorem server_keeps_tenants_apart:
  assumes "tinv (db s)" and "outsiders u V xs s w"
  shows "view u (db (fst (serve_all V xs s w))) = view u (db s) \<and> tinv (db (fst (serve_all V xs s w)))"
  using assms
proof (induction u V xs s w rule: outsiders.induct)
  case (2 u V x E xs s w)
  obtain a s1 w1 where r: "serve_control V x E s w = (a, s1, w1)" by (metis surj_pair)
  have "tinv (db s1) \<and> view u (db s1) = view u (db s)"
    using serve_apart [OF "2.prems"(1) _ _ r] "2.prems"(2) by auto
  then show ?case using "2.IH" [OF r [symmetric]] "2.prems"(2) r by simp
qed simp

section \<open>Examples\<close>

definition demo_bodies :: bodies where
  "demo_bodies = \<lparr>Bd_login = (\<lambda>_. None), Bd_tenant = (\<lambda>_. None), Bd_name = id, Bd_password = id, Bd_change = (\<lambda>_. None), Bd_code = (\<lambda>_. None),
     Bd_secret = (\<lambda>_. None), Bd_user = (\<lambda>_. None), Bd_member = (\<lambda>_. None), Bd_domain = (\<lambda>_. None), Bd_backend = (\<lambda>_. None), Bd_room = (\<lambda>_. None),
     Bd_state = Some, Bd_pass = (\<lambda>_. None), Bd_node = (\<lambda>_. None), Bd_patch = (\<lambda>_. None), Bd_settings = (\<lambda>_ _. None), Bd_job = (\<lambda>_. None),
     Bd_roles = (\<lambda>_. None), Bd_done = (\<lambda>_. None)\<rparr>"

definition demo_server :: "unit process" where
  "demo_server = \<lparr>Sv_body = demo_bodies, Sv_auth = demo_authlib, Sv_keys = demo_keylib, Sv_lib = demo_lib, Sv_crypto = demo_crypto, Sv_master = demo_master,
     Sv_issuer = ''Flyc'', Sv_oidc = \<lparr>O_enabled = False, O_admins = [], O_auth = (\<lambda>_ _. []), O_token = (\<lambda>_. None)\<rparr>, Sv_oidc_issuer = [], Sv_wait = [],
     Sv_internal = ''internal'',
     Sv_enroll = \<lparr>V_pubkey = None, V_public = [], V_tls = (\<lambda>_. True), V_host = (\<lambda>_. ''control''), V_ip = (\<lambda>_. None)\<rparr>, Sv_script = (\<lambda>_. []),
     Sv_net = (\<lambda>w _. (HLost, w)), Sv_err = (\<lambda>_. ''error''), Sv_once = (\<lambda>_. id), Sv_acme = \<lparr>M_key = [], M_directory = [], M_email = []\<rparr>,
     Sv_ip = (\<lambda>_. None), Sv_time = (\<lambda>_. None), Sv_rat = (\<lambda>_. []), Sv_head = [], Sv_jobs = False, Sv_jreq = (\<lambda>_. []), Sv_io = (\<lambda>_. True),
     Sv_jjob = (\<lambda>_. JNull), Sv_jroom = (\<lambda>_. JNull), Sv_jbackend = (\<lambda>_. JNull), Sv_jsettings = (\<lambda>_. JNull), Sv_metrics = NoContent,
     Sv_version = ''dev'', Sv_static = (\<lambda>_. None)\<rparr>"

text \<open>The removal of the room of \<open>acme\<close>: with the cookie of its viewer, with the header of the interface or without, with
  nothing, and with the key of another tenant.\<close>

definition removal :: "string option \<Rightarrow> (string \<Rightarrow> string) \<Rightarrow> raw" where
  "removal c h = \<lparr>Rw_method = ''DELETE'', Rw_path = [''v1'', ''rooms'', ''sale''], Rw_hdr = h, Rw_cookie = c, Rw_remote = ''10.0.0.1'',
     Rw_query = (\<lambda>_. []), Rw_limit = 0, Rw_body = [], Rw_seen = [], Rw_job = []\<rparr>"

definition interface :: "string \<Rightarrow> string" where
  "interface k = (if k = ''X-Requested-With'' then ''flyc'' else [])"

definition demo_served :: "raw \<Rightarrow> resp \<times> ctl \<times> unit" where
  "demo_served x = serve_control demo_server x demo_sys demo_ctl ()"

theorem cross_site_changes_nothing_witness: "same_rights demo_ctl (fst (snd (demo_served (removal (Some ''tok'') (\<lambda>_. [])))))"
  unfolding demo_served_def by (rule cross_site_changes_nothing) (simp_all add: removal_def)

lemma route_exists:
  fixes V :: "'w process"
  assumes "(m, p) \<in> set control_heads" "method_ok m (Rw_method x)" "match_path p (Rw_path x) \<noteq> None"
  shows "route_of x (main_routes V x :: ('k::linorder, 'w) route list) \<noteq> None"
proof -
  have "(m, p) \<in> set (heads_of (main_routes V x :: ('k, 'w) route list))" using assms(1) by (simp only: table_heads)
  then obtain r where r: "r \<in> set (main_routes V x :: ('k, 'w) route list)" "takes x r"
    using assms(2,3) by (auto simp: heads_of_def takes_def)
  then have "filter (takes x) (main_routes V x :: ('k, 'w) route list) \<noteq> []" by (auto simp: filter_empty_conv)
  then show ?thesis by (simp add: route_of_takes split: list.split)
qed

theorem anonymous_gets_401_witness: "code (fst (demo_served (removal None (\<lambda>_. [])))) = 401"
proof -
  have "authenticate demo_sys (request_of (removal None (\<lambda>_. [])) []) demo_ctl = (Inl (auth_err ''session''), demo_ctl)"
    and "authenticateSession demo_sys (request_of (removal None (\<lambda>_. [])) []) demo_ctl = (Inl (auth_err ''session''), demo_ctl)"
    by (simp_all add: authenticate_def authenticateSession_def Sess_Current_def request_of_def removal_def)
  moreover have "route_of (removal None (\<lambda>_. [])) (main_routes demo_server (removal None (\<lambda>_. [])) :: (string, unit) route list) \<noteq> None"
    by (rule route_exists [where m = "''DELETE''" and p = "v1 ''rooms'' @ [Wild ''slug'']"]) (simp_all add: control_heads_def method_ok_def removal_def)
  ultimately show ?thesis unfolding demo_served_def
    using anonymous_gets_401 [of "removal None (\<lambda>_. [])" "[''rooms'', ''sale'']" demo_server demo_sys demo_ctl] by (simp add: removal_def)
qed

theorem viewer_changes_nothing_witness: "same_rights demo_ctl (fst (snd (demo_served (removal (Some ''tok'') interface))))"
proof -
  have "fst (authenticate demo_sys (request_of (removal (Some ''tok'') interface) []) demo_ctl) = Inr demo_principal"
    by (simp add: authenticate_def authenticateSession_def Sess_Current_def live_session_def demo_sys_def demo_ctl_def demo_user_def
      hashToken_def session_principal_def on_membership_def memberships_def tenant_by_id_def find_by_def demo_db_def user_of_def demo_principal_def nobody_def
      List.map_filter_simps request_of_def removal_def interface_def)
  then obtain s1 where "authenticate demo_sys (request_of (removal (Some ''tok'') interface) []) demo_ctl = (Inr demo_principal, s1)"
    by (metis fst_conv surj_pair)
  then show ?thesis unfolding demo_served_def
    by (rule viewer_changes_nothing [where c = "''rooms''" and ps = "[''sale'']", rotated 2]) (simp_all add: removal_def demo_principal_def nobody_def)
qed

definition other_key :: ctl where
  "other_key = demo_ctl\<lparr>api_keys := [\<lparr>a_id = 4, a_tenant = Some 2, a_name = ''evil'', a_hash = hex ''e'', a_created = 0, a_used = None\<rparr>]\<rparr>"

definition evil :: "string \<Rightarrow> string" where
  "evil k = (if k = ''Authorization'' then ''Bearer e'' else [])"

theorem server_keeps_tenants_apart_witness:
  "view 1 (db (fst (serve_all demo_server [(removal None evil, demo_sys)] other_key ()))) = view 1 demo_db"
proof -
  have "fst (authenticate demo_sys (request_of (removal None evil) []) other_key) = Inr (nobody\<lparr>keyID := Some 4, tenantID := Some 2\<rparr>)"
    by (simp add: authenticate_def request_of_def removal_def evil_def demo_sys_def find_key_def bearer_key_def HashKey_def other_key_def trim_space_def is_space_def ascii_def
      key_principal_def tenant_by_id_def find_by_def touch_key_def demo_ctl_def demo_db_def nobody_def)
  moreover have "fresh_id (S_id demo_sys 0) (db other_key)" by (simp add: fresh_id_def demo_sys_def other_key_def demo_ctl_def demo_db_def)
  ultimately have "outsiders 1 demo_server [(removal None evil, demo_sys)] other_key ()" by (simp add: nobody_def split: prod.split)
  moreover have "db other_key = demo_db" by (simp add: other_key_def demo_ctl_def)
  ultimately show ?thesis using server_keeps_tenants_apart [of other_key 1 demo_server "[(removal None evil, demo_sys)]" "()"] demo_tinv by simp
qed

end
