(* ===== verification/Startup.thy ===== *)
theory Startup
  imports Control_Routes Queue_Api
begin

text \<open>
  How the two services start: control/cmd/flyc-control/main.go, queue/cmd/flyc-queue/main.go, the
  migrations of control/internal/db/migrate.go and the reading of the environment of internal/httpx.
  The environment is a function (the empty string when a variable is not set); what a migration does to the
  schema is an argument. The goroutines that are started are the components of the other theories.
\<close>

section \<open>The environment\<close>

definition Env :: "(string \<Rightarrow> string) \<Rightarrow> string \<Rightarrow> string \<Rightarrow> string" where
  "Env getenv key dflt = (if getenv key \<noteq> [] then getenv key else dflt)"

text \<open>\<open>None\<close> is the end of the process, with status 2.\<close>

definition MustEnv :: "(string \<Rightarrow> string) \<Rightarrow> string \<Rightarrow> string option" where
  "MustEnv getenv key = (if getenv key = [] then None else Some (getenv key))"

text \<open>The probe of the container: \<open>get\<close> is the status of the answer, if there is one. An empty address is a panic.\<close>

definition Healthcheck :: "(string \<Rightarrow> int option) \<Rightarrow> string \<Rightarrow> int res" where
  "Healthcheck get addr = (if addr = [] then Inl (EPanic ''index out of range'')
     else let a = (if hd addr = CHR '':'' then ''127.0.0.1'' @ addr else addr) in
       Inr (case get (''http://'' @ a @ ''/healthz'') of None \<Rightarrow> 1 | Some c \<Rightarrow> (if c \<noteq> 200 then 1 else 0)))"

section \<open>Migrations\<close>

record 'd base =
  applied :: "string list option"
  schema :: 'd

text \<open>The migrations in the order of their names, from the statement \<open>k\<close> on. A migration is one transaction; when the
  answer to its commit is lost, \<open>landed\<close> tells whether it took place. A refused script is rolled back.\<close>

fun migrate_from :: "(string \<Rightarrow> 'd \<Rightarrow> 'd option) \<Rightarrow> (nat \<Rightarrow> bool) \<Rightarrow> (nat \<Rightarrow> bool) \<Rightarrow> nat \<Rightarrow> (string \<times> string) list \<Rightarrow> 'd base \<Rightarrow> unit res \<times> 'd base" where
  "migrate_from exec ok landed k [] m = (Inr (), m)"
| "migrate_from exec ok landed k ((n, sql) # fs) m =
    (if \<not> ok k then (Inl EDb, m)
     else if n \<in> set (the (applied m)) then migrate_from exec ok landed (k + 5) fs m
     else if \<not> ok (k + 1) \<or> \<not> ok (k + 2) then (Inl EDb, m)
     else case exec sql (schema m) of None \<Rightarrow> (Inl (EInvalid ''migration''), m)
      | Some d \<Rightarrow>
         (let m1 = m\<lparr>applied := Some (the (applied m) @ [n]), schema := d\<rparr> in
          if \<not> ok (k + 3) then (Inl EDb, m)
          else if \<not> ok (k + 4) then (Inl EDb, if landed k then m1 else m)
          else migrate_from exec ok landed (k + 5) fs m1))"

definition Migrate :: "(string \<Rightarrow> 'd \<Rightarrow> 'd option) \<Rightarrow> (nat \<Rightarrow> bool) \<Rightarrow> (nat \<Rightarrow> bool) \<Rightarrow> (string \<times> string) list \<Rightarrow> 'd base \<Rightarrow> unit res \<times> 'd base" where
  "Migrate exec ok landed fs m =
    (if \<not> ok 0 then (Inl EDb, m)
     else migrate_from exec ok landed 1 (sort_key fst fs) (m\<lparr>applied := Some (case applied m of None \<Rightarrow> [] | Some ns \<Rightarrow> ns)\<rparr>))"

section \<open>flyc-queue\<close>

fun contains_str :: "string \<Rightarrow> string \<Rightarrow> bool" where
  "contains_str p [] \<longleftrightarrow> p = []"
| "contains_str p (c # cs) \<longleftrightarrow> prefix p (c # cs) \<or> contains_str p cs"

definition redisHealthy :: "bool \<Rightarrow> string option \<Rightarrow> unit res" where
  "redisHealthy ping info = (if \<not> ping then Inl ENet
     else case info of None \<Rightarrow> Inl ENet
      | Some t \<Rightarrow> (if \<not> contains_str ''cluster_state:ok'' t then Inl (EInvalid ''cluster_state'') else Inr ()))"

definition err_of :: "unit res \<Rightarrow> err option" where
  "err_of r = (case r of Inl e \<Rightarrow> Some e | Inr _ \<Rightarrow> None)"

definition queue_health :: "(err \<Rightarrow> string) \<Rightarrow> bool \<Rightarrow> string option \<Rightarrow> Client \<Rightarrow> resp" where
  "queue_health txt_of ping info c = health_check txt_of [(''redis'', err_of (redisHealthy ping info)),
     (''signing_key'', if \<not> Ready c then Some (EInvalid ''key'') else None)]"

text \<open>The options of the API: the cookies are signed with a key derived from the internal token. \<open>A\<close> holds the
  functions of the libraries. \<open>None\<close> when a variable is missing, with the addresses of Redis otherwise.\<close>

definition queue_options :: "(string \<Rightarrow> string) \<Rightarrow> (string \<Rightarrow> string) \<Rightarrow> string \<Rightarrow> api \<Rightarrow> api" where
  "queue_options sha getenv tok A = A\<lparr>InternalToken := tok, CookieSecret := sha (''flyc-ticket|'' @ tok),
     TurnstileSecret := getenv ''FLYC_TURNSTILE_SECRET'', TurnstileSiteKey := getenv ''FLYC_TURNSTILE_SITEKEY''\<rparr>"

definition start_queue :: "(string \<Rightarrow> string) \<Rightarrow> (string \<Rightarrow> string) \<Rightarrow> api \<Rightarrow> (string list \<times> string \<times> api) option" where
  "start_queue sha getenv A = (case MustEnv getenv ''FLYC_REDIS_ADDRS'' of None \<Rightarrow> None
     | Some addrs \<Rightarrow> (case MustEnv getenv ''FLYC_INTERNAL_TOKEN'' of None \<Rightarrow> None
       | Some tok \<Rightarrow> (case MustEnv getenv ''FLYC_CONTROL_URL'' of None \<Rightarrow> None
         | Some u \<Rightarrow> Some (split_on (CHR '','') addrs, u, queue_options sha getenv tok A))))"

section \<open>flyc-control\<close>

text \<open>Sixty attempts, the first being number 1.\<close>

function connect_from :: "(nat \<Rightarrow> bool) \<Rightarrow> nat \<Rightarrow> nat option" where
  "connect_from up i = (if up i then Some i else if 60 \<le> i then None else connect_from up (Suc i))"
  by pat_completeness auto
termination by (relation "measure (\<lambda>(up, i). 61 - i)") auto

declare connect_from.simps [simp del]

definition connectWithRetry :: "(nat \<Rightarrow> bool) \<Rightarrow> nat option" where
  "connectWithRetry up = connect_from up 1"

text \<open>The command that mints a pass: its status and what it prints. The flags are read by the library.\<close>

definition mintPass :: "lib \<Rightarrow> crypto \<Rightarrow> (string list \<Rightarrow> Claims option) \<Rightarrow> 'k sys \<Rightarrow> string list \<Rightarrow> signing_key \<Rightarrow> int \<times> string" where
  "mintPass L C flags E args boot = (case flags args of None \<Rightarrow> (2, [])
     | Some c \<Rightarrow> (if CDom c = [] \<or> CRoom c = [] then (2, [])
         else case Mint L C (Y_private boot) (Y_kid boot) c (S_now E) (S_rand E 6) (S_rand E 7) of
           Inl e \<Rightarrow> (1, [])
         | Inr tok \<Rightarrow> (0, tok)))"

record ('k, 'd) boot =
  G_env :: "string \<Rightarrow> string"
  G_args :: "string list"
  G_up :: "nat \<Rightarrow> bool"
  G_exec :: "string \<Rightarrow> 'd \<Rightarrow> 'd option"
  G_files :: "(string \<times> string) list"
  G_landed :: "nat \<Rightarrow> bool"
  G_mig_ok :: "nat \<Rightarrow> bool"
  G_lib :: lib
  G_crypto :: crypto
  G_keys :: keylib
  G_flags :: "string list \<Rightarrow> Claims option"
  G_file :: "string option"
  G_seed :: "string \<Rightarrow> Seed option"
  G_sys :: "'k sys"

datatype started = Exit int string | Serving

text \<open>What \<open>main\<close> does with the state before it serves: the reconciler starts from nothing in memory, with the
  signing key of the bootstrap, and a pass is asked for.\<close>

definition fresh_process :: "(string \<Rightarrow> string) \<Rightarrow> string \<Rightarrow> string \<Rightarrow> signing_key \<Rightarrow> ctl \<Rightarrow> ctl" where
  "fresh_process u tok wait y s = SetSigning y (s\<lparr>rec := Kick (SetWaitHost u wait (New_reconciler (New_queue_client [] tok)))\<rparr>)"

text \<open>What the process ends with, or that it serves; and what it leaves: the tables, the files, the schema.\<close>

definition start_control :: "('k::linorder, 'd) boot \<Rightarrow> ctl \<Rightarrow> disk \<Rightarrow> 'd base \<Rightarrow> started \<times> ctl \<times> disk \<times> 'd base" where
  "start_control G s d m = (let E = G_sys G; g = G_env G in
     case MustEnv g ''FLYC_DATABASE_URL'' of None \<Rightarrow> (Exit 2 [], s, d, m)
     | Some _ \<Rightarrow> (case MustEnv g ''FLYC_MASTER_KEY'' of None \<Rightarrow> (Exit 2 [], s, d, m)
     | Some mk \<Rightarrow> (case connectWithRetry (G_up G) of None \<Rightarrow> (Exit 1 [], s, d, m)
     | Some _ \<Rightarrow> (case Migrate (G_exec G) (G_mig_ok G) (G_landed G) (G_files G) m of (Inl _, m1) \<Rightarrow> (Exit 1 [], s, d, m1)
     | (Inr _, m1) \<Rightarrow> (case Run_bootstrap (G_keys G) E mk s d of (Inl _, s1, d1) \<Rightarrow> (Exit 1 [], s1, d1, m1)
     | (Inr y, s1, d1) \<Rightarrow>
         (if G_args G \<noteq> [] \<and> hd (G_args G) = ''mint-pass''
          then (case mintPass (G_lib G) (G_crypto G) (G_flags G) E (tl (G_args G)) y of (c, out) \<Rightarrow> (Exit c out, s1, d1, m1))
          else case Parse_key (G_keys G) mk of Inl _ \<Rightarrow> (Exit 1 [], s1, d1, m1)
          | Inr _ \<Rightarrow> (case MustEnv g ''FLYC_INTERNAL_TOKEN'' of None \<Rightarrow> (Exit 2 [], s1, d1, m1)
          | Some tok \<Rightarrow> (case Apply (G_seed G) (S_coll E) (\<lambda>k. S_ok E (6 + k)) (Lire (G_file G) (g ''FLYC_INVENTORY_SEED'')) (cinv s1) of
              (Inl _, v) \<Rightarrow> (Exit 1 [], s1\<lparr>cinv := v\<rparr>, d1, m1)
            | (Inr _, v) \<Rightarrow> (Serving, fresh_process (S_uni E) tok (g ''FLYC_WAIT_HOST'') y (s1\<lparr>cinv := v\<rparr>), d1, m1)))))))))"

end
