(* ===== verification/Startup_Laws.thy ===== *)
theory Startup_Laws
  imports Startup Control_Laws Inventory_Laws
begin

text \<open>
  The laws of the start: migrations that are interrupted and resumed amount to one run of them all in order, a
  second start of flyc-control changes nothing, and what the probes say.
\<close>

section \<open>Migrations\<close>

fun run_all :: "(string \<Rightarrow> 'd \<Rightarrow> 'd option) \<Rightarrow> string list \<Rightarrow> 'd \<Rightarrow> 'd option" where
  "run_all exec [] d = Some d"
| "run_all exec (q # qs) d = (case exec q d of None \<Rightarrow> None | Some d1 \<Rightarrow> run_all exec qs d1)"

lemma run_all_append: "run_all exec (ps @ qs) d = (case run_all exec ps d of None \<Rightarrow> None | Some d1 \<Rightarrow> run_all exec qs d1)"
  by (induction ps arbitrary: d) (auto split: option.split)

text \<open>The first \<open>k\<close> migrations were run, each once and in order, from the schema \<open>d0\<close>.\<close>

definition at_step :: "(string \<Rightarrow> 'd \<Rightarrow> 'd option) \<Rightarrow> (string \<times> string) list \<Rightarrow> 'd \<Rightarrow> nat \<Rightarrow> 'd base \<Rightarrow> bool" where
  "at_step exec F d0 k m \<longleftrightarrow> k \<le> length F \<and> the (applied m) = map fst (take k F) \<and> run_all exec (map snd (take k F)) d0 = Some (schema m)"

lemma at_step_next:
  assumes "at_step exec F d0 (length pre) m" and "F = pre @ (n, q) # fs" and "exec q (schema m) = Some d"
  shows "at_step exec F d0 (Suc (length pre)) (m\<lparr>applied := Some (the (applied m) @ [n]), schema := d\<rparr>)"
  using assms by (simp add: at_step_def run_all_append)

lemma at_step_mem:
  assumes "at_step exec F d0 k m" and "F = pre @ (n, q) # fs" and "distinct (map fst F)" and "length pre \<le> k"
  shows "n \<in> set (the (applied m)) \<longleftrightarrow> length pre < k"
proof (cases "length pre < k")
  case True
  then obtain j where "k = Suc (length pre + j)" using less_iff_Suc_add by auto
  then have "take k F = pre @ (n, q) # take j fs" using assms(2) by simp
  then show ?thesis using True assms(1) by (simp add: at_step_def)
next
  case False
  then have "take k F = pre" using assms(2,4) by simp
  then show ?thesis using False assms by (auto simp: at_step_def)
qed

lemma migrate_from_step:
  assumes "at_step exec F d0 k m" and "F = pre @ fs" and "distinct (map fst F)" and "length pre \<le> k" and "applied m \<noteq> None"
    and "migrate_from exec ok landed i fs m = (r, m')"
  shows "\<exists>k'. k \<le> k' \<and> at_step exec F d0 k' m' \<and> applied m' \<noteq> None \<and> (r = Inr () \<longrightarrow> k' = length F)"
  using assms
proof (induction exec ok landed i fs m arbitrary: pre k rule: migrate_from.induct)
  case (1 exec ok landed i m)
  then have "k = length F" by (simp add: at_step_def)
  then show ?case using 1 by auto
next
  case (2 exec ok landed i n q fs m)
  note mem = at_step_mem [OF "2.prems"(1) "2.prems"(2) "2.prems"(3,4)]
  have F: "F = (pre @ [(n, q)]) @ fs" using "2.prems"(2) by simp
  show ?case
  proof (cases "ok i \<and> n \<in> set (the (applied m))")
    case True
    then have "length (pre @ [(n, q)]) \<le> k" using mem by simp
    from "2.IH"(1) [OF _ _ "2.prems"(1) F "2.prems"(3) this "2.prems"(5)] True "2.prems"(6) show ?thesis by simp
  next
    case False
    show ?thesis
    proof (cases "ok i \<and> ok (i + 1) \<and> ok (i + 2) \<and> exec q (schema m) \<noteq> None \<and> ok (i + 3)")
      case stay: False
      then have "m' = m" "r \<noteq> Inr ()" using "2.prems"(6) False by (auto simp: Let_def split: if_splits option.splits)
      then show ?thesis using "2.prems"(1,5) by auto
    next
      case go: True
      then obtain d where d: "exec q (schema m) = Some d" by auto
      let ?m = "m\<lparr>applied := Some (the (applied m) @ [n]), schema := d\<rparr>"
      have "k = length pre" using go False mem "2.prems"(4) by simp
      then have s: "at_step exec F d0 (Suc k) ?m" using at_step_next [of exec F d0 pre m n q fs d] "2.prems"(1,2) d by simp
      show ?thesis
      proof (cases "ok (i + 4)")
        case True
        have "length (pre @ [(n, q)]) \<le> Suc k" using \<open>k = length pre\<close> by simp
        from "2.IH"(2) [OF _ _ _ d refl _ _ s F "2.prems"(3) this] go False True d "2.prems"(6)
        obtain k' where "Suc k \<le> k'" "at_step exec F d0 k' m'" "applied m' \<noteq> None" "r = Inr () \<longrightarrow> k' = length F" by auto
        then show ?thesis by (auto intro: exI [of _ k'])
      next
        case lost: False
        then have "r \<noteq> Inr () \<and> (m' = ?m \<or> m' = m)" using go False d "2.prems"(6) by (auto split: if_splits)
        then show ?thesis using s "2.prems"(1,5) by (auto intro: exI [of _ "Suc k"] exI [of _ k])
      qed
    qed
  qed
qed

text \<open>The history of a base: nothing yet, or some first migrations of the list.\<close>

definition migrated :: "(string \<Rightarrow> 'd \<Rightarrow> 'd option) \<Rightarrow> (string \<times> string) list \<Rightarrow> 'd \<Rightarrow> 'd base \<Rightarrow> bool" where
  "migrated exec fs d0 m \<longleftrightarrow> distinct (map fst fs) \<and> (m = \<lparr>applied = None, schema = d0\<rparr> \<or> (applied m \<noteq> None \<and> (\<exists>k. at_step exec (sort_key fst fs) d0 k m)))"

definition attempt :: "(string \<Rightarrow> 'd \<Rightarrow> 'd option) \<Rightarrow> (string \<times> string) list \<Rightarrow> 'd base \<Rightarrow> (nat \<Rightarrow> bool) \<times> (nat \<Rightarrow> bool) \<Rightarrow> 'd base" where
  "attempt exec fs m a = snd (Migrate exec (fst a) (snd a) fs m)"

lemma Migrate_step:
  assumes "migrated exec fs d0 m" and "Migrate exec ok landed fs m = (r, m')"
  shows "migrated exec fs d0 m' \<and> (r = Inr () \<longrightarrow> applied m' \<noteq> None \<and> at_step exec (sort_key fst fs) d0 (length fs) m')"
proof (cases "ok 0")
  case False
  then show ?thesis using assms by (auto simp: Migrate_def)
next
  case True
  let ?F = "sort_key fst fs" and ?m = "m\<lparr>applied := Some (case applied m of None \<Rightarrow> [] | Some ns \<Rightarrow> ns)\<rparr>"
  have "distinct (map fst fs)" using assms(1) by (simp add: migrated_def)
  then have d: "distinct (map fst ?F)" by (simp add: distinct_map)
  have "\<exists>k. at_step exec ?F d0 k ?m"
  proof (cases "applied m")
    case None
    then have "at_step exec ?F d0 0 ?m" using assms(1) by (auto simp: migrated_def at_step_def)
    then show ?thesis by blast
  next
    case (Some ns)
    then show ?thesis using assms(1) by (auto simp: migrated_def at_step_def)
  qed
  then obtain k where k: "at_step exec ?F d0 k ?m" by blast
  have "migrate_from exec ok landed 1 ?F ?m = (r, m')" using assms(2) True by (simp add: Migrate_def)
  from migrate_from_step [OF k, of "[]", OF _ d _ _ this] obtain k' where "at_step exec ?F d0 k' m'" "applied m' \<noteq> None" "r = Inr () \<longrightarrow> k' = length ?F"
    by auto
  then show ?thesis using \<open>distinct (map fst fs)\<close> by (auto simp: migrated_def)
qed

interpretation migrations: step_system "attempt exec fs" "migrated exec fs d0" for exec fs d0
  by unfold_locales (metis attempt_def Migrate_step surj_pair snd_conv)

text \<open>C20: However many starts were cut short, at whatever statement and whether a commit whose answer was lost took
  place or not, the base is always the result of the first migrations of the list, each run once and in the order of
  their names; and a start that gets through leaves the result of all of them.\<close>

theorem migrations_resume:
  assumes "distinct (map fst fs)" and "m = foldl (attempt exec fs) \<lparr>applied = None, schema = d0\<rparr> attempts"
  shows "(\<exists>k. run_all exec (take k (map snd (sort_key fst fs))) d0 = Some (schema m)) \<and>
    (\<forall>ok landed m'. Migrate exec ok landed fs m = (Inr (), m') \<longrightarrow>
       applied m' = Some (map fst (sort_key fst fs)) \<and> run_all exec (map snd (sort_key fst fs)) d0 = Some (schema m'))"
proof (intro conjI allI impI)
  have i: "migrated exec fs d0 m"
    unfolding assms(2) by (rule migrations.run_inv) (simp add: migrated_def assms(1))
  then consider "m = \<lparr>applied = None, schema = d0\<rparr>" | k where "at_step exec (sort_key fst fs) d0 k m" by (auto simp: migrated_def)
  then show "\<exists>k. run_all exec (take k (map snd (sort_key fst fs))) d0 = Some (schema m)"
  proof cases
    case 1
    then show ?thesis by (intro exI [of _ 0]) simp
  next
    case 2
    then show ?thesis by (intro exI [of _ k]) (simp add: at_step_def take_map)
  qed
  fix ok landed m' assume r: "Migrate exec ok landed fs m = (Inr (), m')"
  have a: "at_step exec (sort_key fst fs) d0 (length fs) m'" "applied m' \<noteq> None"
    using Migrate_step [OF i r] by simp_all
  then show "applied m' = Some (map fst (sort_key fst fs))" "run_all exec (map snd (sort_key fst fs)) d0 = Some (schema m')"
    by (auto simp: at_step_def)
qed

lemma migrate_from_done:
  "migrate_from exec ok landed i fs m = (Inr (), m') \<Longrightarrow> applied m \<noteq> None \<Longrightarrow>
   applied m' \<noteq> None \<and> set (the (applied m)) \<subseteq> set (the (applied m')) \<and> fst ` set fs \<subseteq> set (the (applied m'))"
proof (induction exec ok landed i fs m rule: migrate_from.induct)
  case (2 exec ok landed i n q fs m)
  show ?case
  proof (cases "n \<in> set (the (applied m))")
    case True
    then show ?thesis using "2.IH"(1) "2.prems" by (auto split: if_splits)
  next
    case False
    then obtain d where d: "ok i" "ok (i + 1)" "ok (i + 2)" "ok (i + 3)" "ok (i + 4)" "exec q (schema m) = Some d"
      using "2.prems"(1) by (auto simp: Let_def split: if_splits option.splits)
    let ?m = "m\<lparr>applied := Some (the (applied m) @ [n]), schema := d\<rparr>"
    have "migrate_from exec ok landed (i + 5) fs ?m = (Inr (), m')" using "2.prems"(1) False d by (simp add: Let_def)
    from "2.IH"(2) [OF _ False _ d(6) refl _ _ this] d show ?thesis by simp
  qed
qed simp

lemma migrate_from_skips:
  "fst ` set fs \<subseteq> set (the (applied m)) \<Longrightarrow> (\<And>k. ok k) \<Longrightarrow> migrate_from exec ok landed i fs m = (Inr (), m)"
  by (induction fs arbitrary: i) auto

lemma Migrate_again:
  assumes "Migrate exec ok landed fs m = (Inr (), m')" and "\<And>k. ok' k"
  shows "Migrate exec' ok' landed' fs m' = (Inr (), m')"
proof -
  have "ok 0" using assms(1) by (simp add: Migrate_def split: if_splits)
  then have "migrate_from exec ok landed 1 (sort_key fst fs) (m\<lparr>applied := Some (case applied m of None \<Rightarrow> [] | Some ns \<Rightarrow> ns)\<rparr>) = (Inr (), m')"
    using assms(1) by (simp add: Migrate_def)
  from migrate_from_done [OF this] have "applied m' \<noteq> None \<and> fst ` set (sort_key fst fs) \<subseteq> set (the (applied m'))" by simp
  moreover from this have "m'\<lparr>applied := Some (case applied m' of None \<Rightarrow> [] | Some ns \<Rightarrow> ns)\<rparr> = m'" by (cases m') auto
  ultimately show ?thesis using assms(2) by (simp add: Migrate_def migrate_from_skips)
qed

section \<open>Starting again\<close>

lemma Apply_again:
  assumes "Apply parse coll ok raw s = (Inr (), s')" and "ok' 0"
  shows "Apply parse coll' ok' raw s' = (Inr (), s')"
proof (cases "raw = [] \<or> nodes s' \<noteq> []")
  case True
  then show ?thesis using assms by (auto simp: Apply_def split: option.splits if_splits)
next
  case False
  then obtain sd where sd: "raw \<noteq> []" "parse raw = Some sd" using assms(1) by (auto simp: Apply_def split: option.splits)
  have "SNodes sd = []"
  proof (rule ccontr)
    assume "SNodes sd \<noteq> []"
    then have "nodes s' \<noteq> []" by (rule Apply_nodes [OF assms(1) sd])
    then show False using False by simp
  qed
  then show ?thesis using assms False sd by (auto simp: Apply_def split: if_splits)
qed

text \<open>C21: A start of flyc-control that came to serve has left a base on which any later start, with the same environment
  and answers from Postgres, comes to serve in the very same state: no migration is run again, no account, key or file
  is created, the signing key is the same, and the file of the first installation is not applied a second time.\<close>

theorem restart_changes_nothing:
  assumes first: "start_control G s d m = (Serving, s', d', m')"
    and "\<And>master. gcm_ok (G_keys G) master" and "12 \<le> length (S_rand (G_sys G) 2)"
    and "\<And>k. S_ok E' k" and "S_uni E' = S_uni (G_sys G)" and "connectWithRetry up' \<noteq> None" and "\<And>k. ok' k"
  shows "start_control (G\<lparr>G_sys := E', G_up := up', G_mig_ok := ok'\<rparr>) s' d' m' = (Serving, s', d', m')"
proof -
  let ?g = "G_env G" and ?E = "G_sys G"
  obtain mk tok s1 y v where *: "MustEnv ?g ''FLYC_DATABASE_URL'' \<noteq> None" "MustEnv ?g ''FLYC_MASTER_KEY'' = Some mk" "MustEnv ?g ''FLYC_INTERNAL_TOKEN'' = Some tok"
    "Migrate (G_exec G) (G_mig_ok G) (G_landed G) (G_files G) m = (Inr (), m')" "Run_bootstrap (G_keys G) ?E mk s d = (Inr y, s1, d')"
    "\<not> (G_args G \<noteq> [] \<and> hd (G_args G) = ''mint-pass'')" "\<exists>k. Parse_key (G_keys G) mk = Inr k"
    "Apply (G_seed G) (S_coll ?E) (\<lambda>k. S_ok ?E (6 + k)) (Lire (G_file G) (?g ''FLYC_INVENTORY_SEED'')) (cinv s1) = (Inr (), v)"
    "s' = fresh_process (S_uni ?E) tok (?g ''FLYC_WAIT_HOST'') y (s1\<lparr>cinv := v\<rparr>)"
    using first by (auto simp: start_control_def Let_def split: option.splits sum.splits prod.splits if_splits)
  have frame: "db s' = db s1" "users s' = users s1" "api_keys s' = api_keys s1" "cinv s' = v"
    by (simp_all add: *(9) fresh_process_def SetSigning_def)
  have M: "Migrate (G_exec G) ok' (G_landed G) (G_files G) m' = (Inr (), m')" by (rule Migrate_again [OF *(4) assms(7)])
  have R: "Run_bootstrap (G_keys G) E' mk s' d' = (Inr y, s', d')"
    by (rule Run_bootstrap_again [OF *(5) assms(2,3,4) frame(1,2,3)])
  have A: "Apply (G_seed G) (S_coll E') (\<lambda>k. S_ok E' (6 + k)) (Lire (G_file G) (?g ''FLYC_INVENTORY_SEED'')) (cinv s') = (Inr (), v)"
    unfolding frame(4) by (rule Apply_again [OF *(8) assms(4)])
  have "fresh_process (S_uni E') tok (?g ''FLYC_WAIT_HOST'') y (s'\<lparr>cinv := v\<rparr>) = s'"
    by (simp add: *(9) fresh_process_def SetSigning_def assms(5))
  then show ?thesis using *(1,2,3,6,7) M R A assms(6) by (auto simp: start_control_def Let_def)
qed

definition demo_env :: "string \<Rightarrow> string" where
  "demo_env k = (if k = ''FLYC_DATABASE_URL'' then ''postgres://'' else if k = ''FLYC_MASTER_KEY'' then demo_master
     else if k = ''FLYC_INTERNAL_TOKEN'' then ''tok'' else [])"

definition demo_append :: "string \<Rightarrow> string \<Rightarrow> string option" where
  "demo_append q d = Some (d @ q)"

definition demo_boot :: "(string, string) boot" where
  "demo_boot = \<lparr>G_env = demo_env, G_args = [], G_up = (\<lambda>i. 3 \<le> i), G_exec = demo_append, G_files = [(''0002'', ''b''), (''0001'', ''a'')],
     G_landed = (\<lambda>_. False), G_mig_ok = (\<lambda>_. True), G_lib = demo_lib, G_crypto = demo_crypto, G_keys = demo_keylib, G_flags = (\<lambda>_. None),
     G_file = None, G_seed = (\<lambda>_. None), G_sys = boot_sys\<rparr>"

definition empty_base :: "string base" where
  "empty_base = \<lparr>applied = None, schema = []\<rparr>"

text \<open>A first attempt whose second commit takes place unseen, a second one that stops at once.\<close>

theorem migrations_resume_witness:
  "snd (Migrate demo_append (\<lambda>_. True) (\<lambda>_. False) (G_files demo_boot)
     (foldl (attempt demo_append (G_files demo_boot)) empty_base [(\<lambda>k. k \<noteq> 10, \<lambda>_. True), (\<lambda>k. k < 2, \<lambda>_. True)]))
   = \<lparr>applied = Some [''0001'', ''0002''], schema = ''ab''\<rparr>"
proof -
  let ?m = "foldl (attempt demo_append (G_files demo_boot)) empty_base [(\<lambda>k. k \<noteq> 10, \<lambda>_. True), (\<lambda>k. k < 2, \<lambda>_. True)]"
  let ?r = "Migrate demo_append (\<lambda>_. True) (\<lambda>_. False) (G_files demo_boot) ?m"
  have d: "distinct (map fst (G_files demo_boot))" by (simp add: demo_boot_def)
  have m: "?m = \<lparr>applied = Some [''0001'', ''0002''], schema = ''ab''\<rparr>" by code_simp
  have s: "sort_key fst (G_files demo_boot) = [(''0001'', ''a''), (''0002'', ''b'')]" by code_simp
  have "fst ?r = Inr ()" by code_simp
  then have r: "?r = (Inr (), snd ?r)" by (metis prod.collapse)
  have "applied (snd ?r) = Some (map fst (sort_key fst (G_files demo_boot))) \<and> run_all demo_append (map snd (sort_key fst (G_files demo_boot))) [] = Some (schema (snd ?r))"
    using migrations_resume [OF d, of ?m demo_append "[]" "[(\<lambda>k. k \<noteq> 10, \<lambda>_. True), (\<lambda>k. k < 2, \<lambda>_. True)]"] r
    by (simp only: empty_base_def)
  then show ?thesis unfolding s by (cases "snd ?r") (simp add: demo_append_def)
qed

lemma demo_connects: "connectWithRetry (\<lambda>i. 3 \<le> i) = Some 3"
  by (simp add: connectWithRetry_def connect_from.simps)

lemma demo_starts: "\<exists>s' d' m'. start_control demo_boot demo_ctl0 [] empty_base = (Serving, s', d', m') \<and> length d' = 2"
proof -
  obtain y s1 d1 where R: "Run_bootstrap demo_keylib boot_sys demo_master demo_ctl0 [] = (Inr y, s1, d1)"
    and d: "map fst d1 = [''initial-admin-password.txt'', ''initial-platform-api-key.txt'']" by (metis boot_runs)
  have "fst (Migrate demo_append (\<lambda>_. True) (\<lambda>_. False) [(''0002'', ''b''), (''0001'', ''a'')] empty_base) = Inr ()" by code_simp
  then obtain m1 where M: "Migrate demo_append (\<lambda>_. True) (\<lambda>_. False) [(''0002'', ''b''), (''0001'', ''a'')] empty_base = (Inr (), m1)"
    by (metis prod.collapse)
  have "length d1 = 2" using arg_cong [OF d, of length] by simp
  moreover have "Parse_key demo_keylib demo_master = Inr demo_master" by (simp add: Parse_key_def demo_keylib_def demo_master_def)
  ultimately show ?thesis using R M demo_connects
    by (simp add: start_control_def demo_boot_def demo_env_def MustEnv_def demo_master_def Let_def Apply_def Lire_def)
qed

theorem restart_changes_nothing_witness:
  "\<exists>s' d' m'. start_control demo_boot demo_ctl0 [] empty_base = (Serving, s', d', m') \<and>
     start_control (demo_boot\<lparr>G_sys := boot_sys\<lparr>S_now := 5000\<rparr>, G_up := (\<lambda>i. 3 \<le> i), G_mig_ok := (\<lambda>_. True)\<rparr>) s' d' m' = (Serving, s', d', m')"
proof -
  obtain s' d' m' where s: "start_control demo_boot demo_ctl0 [] empty_base = (Serving, s', d', m')" using demo_starts by blast
  have "start_control (demo_boot\<lparr>G_sys := boot_sys\<lparr>S_now := 5000\<rparr>, G_up := (\<lambda>i. 3 \<le> i), G_mig_ok := (\<lambda>_. True)\<rparr>) s' d' m' = (Serving, s', d', m')"
    by (rule restart_changes_nothing [OF s]) (simp_all add: demo_boot_def gcm_ok_def demo_keylib_def boot_sys_def demo_sys_def demo_connects)
  then show ?thesis using s by blast
qed

section \<open>Probes and attempts\<close>

lemma connect_from_iff: "connect_from up i \<noteq> None \<longleftrightarrow> (up i \<or> (\<exists>j. i < j \<and> j \<le> 60 \<and> up j))"
proof (induction up i rule: connect_from.induct)
  case (1 up i)
  show ?case
  proof (cases "up i \<or> 60 \<le> i")
    case True
    then show ?thesis by (subst connect_from.simps) auto
  next
    case False
    then have "connect_from up i = connect_from up (Suc i)" by (subst connect_from.simps) simp
    moreover have "(\<exists>j>i. j \<le> 60 \<and> up j) \<longleftrightarrow> up (Suc i) \<or> (\<exists>j>Suc i. j \<le> 60 \<and> up j)"
      using False by (metis Suc_lessI Suc_leI lessI less_SucI not_less_eq_eq Suc_lessD)
    ultimately show ?thesis using 1 False by simp
  qed
qed

text \<open>The service starts exactly when Postgres answers one of its sixty attempts.\<close>

lemma connectWithRetry_iff: "connectWithRetry up \<noteq> None \<longleftrightarrow> (\<exists>i \<in> {1..60}. up i)"
  unfolding connectWithRetry_def connect_from_iff by (metis atLeastAtMost_iff less_imp_le nat_less_le numeral_le_iff one_le_numeral order_refl)

lemma contains_str_iff: "contains_str p t \<longleftrightarrow> (\<exists>a b. t = a @ p @ b)"
proof (induction t)
  case (Cons c cs) note ih = Cons
  show ?case
  proof
    assume "contains_str p (c # cs)"
    then consider "prefix p (c # cs)" | a b where "cs = a @ p @ b" using Cons by auto
    then show "\<exists>a b. c # cs = a @ p @ b"
    proof cases
      case 1
      then show ?thesis by (auto simp: prefix_def intro: exI [of _ "[]"])
    next
      case 2
      then show ?thesis by (intro exI [of _ "c # a"] exI [of _ b]) simp
    qed
  next
    assume "\<exists>a b. c # cs = a @ p @ b"
    then obtain a b where ab: "c # cs = a @ p @ b" by blast
    show "contains_str p (c # cs)"
    proof (cases a)
      case Nil
      then have "prefix p (c # cs)" using ab by (simp add: prefix_def)
      then show ?thesis by simp
    next
      case (Cons x xs)
      then have "contains_str p cs" using ab ih by auto
      then show ?thesis by simp
    qed
  qed
qed auto

text \<open>The queue says that it is ready exactly when Redis answers with a cluster in order and a signing key is loaded.\<close>

lemma queue_health_iff:
  "code (queue_health t ping info c) = 200 \<longleftrightarrow> ping \<and> Ready c \<and> (\<exists>a b. info = Some (a @ ''cluster_state:ok'' @ b))"
  by (auto simp: queue_health_def health_check_def redisHealthy_def err_of_def contains_str_iff Let_def split: option.splits)

end
