(* ===== verification/Services.thy ===== *)
theory Services
  imports Startup
begin

text \<open>
  What the two main programs make of their environment and what they leave running: the OIDC provider
  (control/internal/auth/oidc.go), the parts of flyc-control that a variable switches on, the loops that wait for Redis,
  watch it and purge the sessions (control/cmd/flyc-control/main.go, queue/cmd/flyc-queue/main.go), and the server with
  its shutdown (internal/httpx). A loop runs over the list of what it meets, one element a turn; \<open>over\<close> is the end of
  the context.
\<close>

section \<open>OIDC\<close>

record oauth_cfg =
  F_id :: string
  F_secret :: string
  F_redirect :: string
  F_scopes :: "string list"

text \<open>A provider that was discovered: the URL of an authorisation, and the verified token of a code.\<close>

record provider =
  F_url :: "oauth_cfg \<Rightarrow> string \<Rightarrow> string \<Rightarrow> string"
  F_verified :: "oauth_cfg \<Rightarrow> string \<Rightarrow> id_token option"

definition NewOIDC :: "(string \<Rightarrow> string) \<Rightarrow> (string \<Rightarrow> provider option) \<Rightarrow> string \<Rightarrow> string \<Rightarrow> string \<Rightarrow> string \<Rightarrow> string \<Rightarrow> OIDC" where
  "NewOIDC u discover iss cid sec redirect admins =
    (let off = \<lparr>O_enabled = False, O_admins = admin_emails u admins, O_auth = (\<lambda>_ _. []), O_token = (\<lambda>_. None)\<rparr>;
         cfg = \<lparr>F_id = cid, F_secret = sec, F_redirect = redirect, F_scopes = [''openid'', ''email'', ''profile'']\<rparr>
     in if iss = [] \<or> cid = [] then off
        else case discover iss of None \<Rightarrow> off
         | Some p \<Rightarrow> off\<lparr>O_enabled := True, O_auth := F_url p cfg, O_token := F_verified p cfg\<rparr>)"

section \<open>The parts of flyc-control\<close>

definition public_url :: "(string \<Rightarrow> string) \<Rightarrow> string" where
  "public_url g = trim_right_slash (Env g ''FLYC_PUBLIC_URL'' (''https://'' @ g ''FLYC_CONTROL_HOST''))"

text \<open>Whether the cookies are only sent over TLS.\<close>

definition secure_cookies :: "(string \<Rightarrow> string) \<Rightarrow> bool" where
  "secure_cookies g \<longleftrightarrow> Env g ''FLYC_COOKIE_SECURE'' ''true'' \<noteq> ''false''"

text \<open>\<open>V\<close> has what does not come from the environment.\<close>

definition configure :: "(string \<Rightarrow> string) \<Rightarrow> (string \<Rightarrow> provider option) \<Rightarrow> string \<Rightarrow> string \<Rightarrow> (string \<Rightarrow> string) \<Rightarrow> 'w process \<Rightarrow> 'w process" where
  "configure u discover production mk g V = V\<lparr>
     Sv_master := mk,
     Sv_issuer := ''Flyc'',
     Sv_oidc := NewOIDC u discover (g ''FLYC_OIDC_ISSUER'') (g ''FLYC_OIDC_CLIENT_ID'') (g ''FLYC_OIDC_CLIENT_SECRET'')
        (public_url g @ ''/auth/oidc/callback'') (g ''FLYC_OIDC_ADMIN_EMAILS''),
     Sv_oidc_issuer := g ''FLYC_OIDC_ISSUER'',
     Sv_wait := g ''FLYC_WAIT_HOST'',
     Sv_internal := g ''FLYC_INTERNAL_TOKEN'',
     Sv_acme := New_acme production mk (g ''FLYC_ACME_DIRECTORY'') (g ''FLYC_ACME_EMAIL''),
     Sv_jobs := (g ''FLYC_JOBS_DIR'' \<noteq> [])\<rparr>"

section \<open>Loops\<close>

text \<open>flyc-queue: a look at Redis every three seconds until it is healthy; the number of the attempt that was.\<close>

fun wait_redis :: "nat \<Rightarrow> (bool \<times> string option \<times> bool) list \<Rightarrow> nat option" where
  "wait_redis i [] = None"
| "wait_redis i ((ping, info, over) # xs) = (case redisHealthy ping info of
     Inr _ \<Rightarrow> Some i
   | Inl _ \<Rightarrow> (if over then None else wait_redis (Suc i) xs))"

text \<open>Another loop looks every ten seconds for as long as the process lives and sets the gauge.\<close>

fun redis_gauge :: "(bool \<times> string option \<times> bool) list \<Rightarrow> nat option \<Rightarrow> nat option" where
  "redis_gauge [] m = m"
| "redis_gauge ((ping, info, over) # xs) m =
    (let m1 = Some (case redisHealthy ping info of Inr _ \<Rightarrow> 1 | Inl _ \<Rightarrow> 0)
     in if over then m1 else redis_gauge xs m1)"

text \<open>flyc-control: the sessions are purged at the start and every hour; between two turns the requests \<open>env\<close> are served.\<close>

fun purge_loop :: "('k sys \<times> (ctl \<Rightarrow> ctl) \<times> bool) list \<Rightarrow> ctl \<Rightarrow> ctl" where
  "purge_loop [] s = s"
| "purge_loop ((E, env, over) # xs) s =
    (let s1 = Sess_Purge E s in if over then s1 else purge_loop xs (env s1))"

section \<open>The server\<close>

text \<open>The server ends by itself, closed or with an error, or a signal makes it shut down, with what that gives.\<close>

datatype server_end = Server_closed | Server_failed err | Signalled "unit res"

definition Serve :: "bool \<Rightarrow> server_end \<Rightarrow> unit res" where
  "Serve listening ev = (if \<not> listening then Inl ENet
     else case ev of Server_closed \<Rightarrow> Inr () | Server_failed e \<Rightarrow> Inl e | Signalled r \<Rightarrow> r)"

text \<open>The status of the process after its last call.\<close>

definition main_status :: "bool \<Rightarrow> server_end \<Rightarrow> int" where
  "main_status listening ev = (case Serve listening ev of Inl _ \<Rightarrow> 1 | Inr _ \<Rightarrow> 0)"

section \<open>What holds of them\<close>

definition healthy :: "bool \<times> string option \<times> bool \<Rightarrow> bool" where
  "healthy x \<longleftrightarrow> redisHealthy (fst x) (fst (snd x)) = Inr ()"

text \<open>The wait ends at the first look that is fine, unless the process ended before.\<close>

lemma wait_redis_first:
  "(\<forall>y \<in> set ys. \<not> healthy y \<and> \<not> snd (snd y)) \<Longrightarrow> healthy x \<Longrightarrow> wait_redis i (ys @ x # zs) = Some (i + length ys)"
proof (induction ys arbitrary: i)
  case Nil
  then show ?case by (cases x) (simp add: healthy_def)
next
  case (Cons y ys)
  obtain ping info over where y: "y = (ping, info, over)" by (metis surj_pair)
  then obtain e where "redisHealthy ping info = Inl e" "\<not> over" using Cons.prems by (cases "redisHealthy ping info") (auto simp: healthy_def)
  then show ?case using Cons y by simp
qed

text \<open>Without its variable a part is off: no job is accepted, shown or followed, and nobody is sent to a provider or let in
  by one, whatever the state and the request.\<close>

lemma unset_parts_are_off:
  fixes E :: "'k::linorder sys"
  assumes "V' = configure u discover production mk g V"
  shows "g ''FLYC_JOBS_DIR'' = [] \<Longrightarrow> code (fst (createJob (Sv_jobs V') ff head json io jid jj i E rq p s)) = 503 \<and>
      snd (createJob (Sv_jobs V') ff head json io jid jj i E rq p s) = s \<and> jobLog (Sv_jobs V') xs E rq p s = (HErr 404 ''not_found'', s)"
    and "g ''FLYC_OIDC_ISSUER'' = [] \<or> g ''FLYC_OIDC_CLIENT_ID'' = [] \<or> discover (g ''FLYC_OIDC_ISSUER'') = None \<Longrightarrow>
      oidcStart (Sv_oidc V') red E s = (HErr 404 ''oidc_disabled'', s) \<and> oidcCallback (Sv_oidc V') st cd E rq s = (HErr 404 ''oidc_disabled'', s)"
proof -
  show "code (fst (createJob (Sv_jobs V') ff head json io jid jj i E rq p s)) = 503 \<and>
      snd (createJob (Sv_jobs V') ff head json io jid jj i E rq p s) = s \<and> jobLog (Sv_jobs V') xs E rq p s = (HErr 404 ''not_found'', s)"
    if "g ''FLYC_JOBS_DIR'' = []" using that by (simp add: assms configure_def createJob_def jobLog_def HErr_def)
  have "\<not> O_enabled (Sv_oidc V')" if "g ''FLYC_OIDC_ISSUER'' = [] \<or> g ''FLYC_OIDC_CLIENT_ID'' = [] \<or> discover (g ''FLYC_OIDC_ISSUER'') = None"
    using that by (auto simp: assms configure_def NewOIDC_def Let_def)
  then show "oidcStart (Sv_oidc V') red E s = (HErr 404 ''oidc_disabled'', s) \<and> oidcCallback (Sv_oidc V') st cd E rq s = (HErr 404 ''oidc_disabled'', s)"
    if "g ''FLYC_OIDC_ISSUER'' = [] \<or> g ''FLYC_OIDC_CLIENT_ID'' = [] \<or> discover (g ''FLYC_OIDC_ISSUER'') = None"
    using that by (simp add: oidcStart_def oidcCallback_def)
qed

text \<open>The purges of the loop never remove a session that is still valid, when the requests in between do not.\<close>

lemma purge_keeps_live:
  assumes "\<forall>(E, env, over) \<in> set xs. \<not> n_expires x < S_now E \<and> (\<forall>s. x \<in> set (sessions s) \<longrightarrow> x \<in> set (sessions (env s)))"
    and "x \<in> set (sessions s)"
  shows "x \<in> set (sessions (purge_loop xs s))"
  using assms by (induction xs s rule: purge_loop.induct) (auto simp: Sess_Purge_def Let_def split: if_splits)

lemma main_status_zero: "main_status listening ev = 0 \<longleftrightarrow> listening \<and> (ev = Server_closed \<or> (\<exists>u. ev = Signalled (Inr u)))"
  by (cases ev) (auto simp: main_status_def Serve_def split: sum.split)

end
