(* ===== verification/Load_Visitor.thy ===== *)
theory Load_Visitor
  imports Queue_Api
begin

text \<open>
  The load generator (loadtest/cmd/flyc-load/main.go): the journey of one visitor, from the ticket to the page
  behind the pass, the reader of the stream of flyc-queue with its fallback to polling, and the counters that the
  visitors share. What the network answers, what ends the patience of a visitor and when, and the times are
  arguments; the counters of the visitors are only ever added to, so the visitors are taken one after the other.
  A journey that has not come to its end with the answers given is \<open>None\<close>.
\<close>

section \<open>Counters\<close>

record load_stats =
  started :: int
  ticketOK :: int
  ticketErr :: int
  sseOpen :: int
  sseErr :: int
  admitted :: int
  goOK :: int
  goErr :: int
  finalOK :: int
  finalErr :: int
  degraded_n :: int
  ticketLat :: "rat list"
  admitLat :: "rat list"
  e2eLat :: "rat list"
  errs :: "(string \<times> int) list"
  lastPending :: int

definition no_stats :: load_stats where
  "no_stats = \<lparr>started = 0, ticketOK = 0, ticketErr = 0, sseOpen = 0, sseErr = 0, admitted = 0, goOK = 0, goErr = 0, finalOK = 0, finalErr = 0,
     degraded_n = 0, ticketLat = [], admitLat = [], e2eLat = [], errs = [], lastPending = 0\<rparr>"

text \<open>The text of an error from its first mention of the connection on, in the order of the three searches, cut at 90.\<close>

fun from_first :: "string \<Rightarrow> string \<Rightarrow> string option" where
  "from_first p [] = (if p = [] then Some [] else None)"
| "from_first p (c # cs) = (if prefix p (c # cs) then Some (c # cs) else from_first p cs)"

definition cut_at :: "string \<Rightarrow> string \<Rightarrow> string" where
  "cut_at p m = (case from_first p m of None \<Rightarrow> m | Some r \<Rightarrow> r)"

definition short :: "string \<Rightarrow> string" where
  "short m = take 90 (cut_at ''write tcp'' (cut_at ''read tcp'' (cut_at ''dial tcp'' m)))"

definition stat_err :: "string \<Rightarrow> string \<Rightarrow> load_stats \<Rightarrow> load_stats" where
  "stat_err kind m st = (let k = kind @ '': '' @ short m; n = (case map_of (errs st) k of None \<Rightarrow> 0 | Some n \<Rightarrow> n)
     in st\<lparr>errs := AList.update k (n + 1) (errs st)\<rparr>)"

text \<open>The percentile: \<open>fl\<close> rounds the product of the doubles. The conversion to \<open>int\<close> truncates.\<close>

definition pct_at :: "(rat \<Rightarrow> rat) \<Rightarrow> nat \<Rightarrow> rat \<Rightarrow> nat" where
  "pct_at fl n p = nat (floor (fl (of_nat n * p)))"

definition pct :: "(rat \<Rightarrow> rat) \<Rightarrow> rat list \<Rightarrow> rat \<Rightarrow> rat" where
  "pct fl v p = (if v = [] then 0 else sort v ! pct_at fl (length v - 1) p)"

definition max64 :: "int \<Rightarrow> int \<Rightarrow> int" where
  "max64 a b = (if a > b then a else b)"

definition completed_share :: "load_stats \<Rightarrow> rat" where
  "completed_share st = 100 * of_int (finalOK st) / of_int (max64 (started st) 1)"

section \<open>The stream\<close>

text \<open>What the client reads of JSON: the fields \<open>go\<close> and \<open>state\<close>, \<open>pending\<close>, \<open>ticket\<close>; empty or 0 when they are missing.\<close>

record client_json =
  J_go :: "string \<Rightarrow> string"
  J_state :: "string \<Rightarrow> string"
  J_ticket :: "string \<Rightarrow> string"
  J_pending :: "string \<Rightarrow> int"

text \<open>The lines until the connection is cut; \<open>over\<close> tells whether the patience of the visitor has ended by then.\<close>

fun readSSE :: "client_json \<Rightarrow> bool \<Rightarrow> string \<Rightarrow> string list \<Rightarrow> load_stats \<Rightarrow> (string \<times> bool) \<times> load_stats" where
  "readSSE J over ev [] st = (if over then (([], False), stat_err ''sse'' ''timeout'' st) else (([], True), st))"
| "readSSE J over ev (l # ls) st =
    (if prefix ''event: '' l then readSSE J over (drop 7 l) ls st
     else if prefix ''data: '' l then
       (if ev = ''admitted'' then ((J_go J (drop 6 l), False), st)
        else if ev = ''status'' then readSSE J over ev ls (st\<lparr>lastPending := J_pending J (drop 6 l)\<rparr>)
        else if ev = ''closed'' then (([], False), stat_err ''sse'' ''closed'' st)
        else readSSE J over ev ls st)
     else readSSE J over ev ls st)"

datatype reply = Lost_r string | Ans_r int string string

record sse_try =
  Y_reply :: reply
  Y_lines :: "string list"
  Y_over :: bool
  Y_done :: bool

text \<open>One turn of the polling: the patience ends in the pause, or a request is answered.\<close>

datatype poll_try = Poll_over | Poll_r reply

fun pollAdmission :: "client_json \<Rightarrow> poll_try list \<Rightarrow> load_stats \<Rightarrow> (string \<times> load_stats) option" where
  "pollAdmission J [] st = None"
| "pollAdmission J (Poll_over # xs) st = Some ([], stat_err ''poll'' ''timeout'' st)"
| "pollAdmission J (Poll_r (Lost_r e) # xs) st = pollAdmission J xs st"
| "pollAdmission J (Poll_r (Ans_r c b loc) # xs) st =
    (if J_state J b = ''admitted'' then Some (J_go J b, st) else pollAdmission J xs st)"

fun waitAdmission :: "client_json \<Rightarrow> poll_try list \<Rightarrow> sse_try list \<Rightarrow> load_stats \<Rightarrow> (string \<times> load_stats) option" where
  "waitAdmission J ps [] st = None"
| "waitAdmission J ps (y # ys) st =
    (case Y_reply y of
       Lost_r e \<Rightarrow> Some ([], stat_err ''sse'' e (st\<lparr>sseErr := sseErr st + 1\<rparr>))
     | Ans_r c b loc \<Rightarrow>
        (if c = 503 then pollAdmission J ps (st\<lparr>degraded_n := degraded_n st + 1\<rparr>)
         else if c \<noteq> 200 then Some ([], stat_err ''sse'' (''HTTP '' @ show_int c) (st\<lparr>sseErr := sseErr st + 1\<rparr>))
         else (case readSSE J (Y_over y) [] (Y_lines y) (st\<lparr>sseOpen := sseOpen st + 1\<rparr>) of ((g, retry), st1) \<Rightarrow>
           (let st2 = st1\<lparr>sseOpen := sseOpen st1 - 1\<rparr> in
            if g \<noteq> [] then Some (g, st2)
            else if \<not> retry then Some ([], st2)
            else if Y_done y then Some ([], st2)
            else waitAdmission J ps ys st2))))"

section \<open>The journey\<close>

record journey =
  Q_ticket :: reply
  Q_waits :: "sse_try list"
  Q_polls :: "poll_try list"
  Q_go :: reply
  Q_cookie :: reply
  Q_final :: reply
  Q_t1 :: rat
  Q_t2 :: rat
  Q_t3 :: rat

definition go_refused :: "reply \<Rightarrow> string option" where
  "go_refused r = (case r of Lost_r e \<Rightarrow> Some e | Ans_r c b loc \<Rightarrow> (if c \<noteq> 302 \<or> loc = [] then Some (''HTTP '' @ show_int c) else None))"

definition cookie_refused :: "reply \<Rightarrow> string option" where
  "cookie_refused r = (case r of Lost_r e \<Rightarrow> Some e | Ans_r c b loc \<Rightarrow> (if c \<noteq> 302 then Some (''HTTP '' @ show_int c) else None))"

definition page_refused :: "reply \<Rightarrow> string option" where
  "page_refused r = (case r of Lost_r e \<Rightarrow> Some e | Ans_r c b loc \<Rightarrow> (if c \<noteq> 200 then Some (''HTTP '' @ show_int c @ '' -> '' @ loc) else None))"

text \<open>From the admission on: the redirection of the queue, the cookie of the protected domain, the page.\<close>

definition after_admission :: "journey \<Rightarrow> load_stats \<Rightarrow> load_stats" where
  "after_admission q st =
    (let st1 = st\<lparr>admitLat := admitLat st @ [Q_t2 q], admitted := admitted st + 1\<rparr> in
     case go_refused (Q_go q) of Some e \<Rightarrow> stat_err ''go'' e (st1\<lparr>goErr := goErr st1 + 1\<rparr>)
     | None \<Rightarrow> (case cookie_refused (Q_cookie q) of Some e \<Rightarrow> stat_err ''__flyc/go'' e (st1\<lparr>goErr := goErr st1 + 1\<rparr>)
       | None \<Rightarrow> (let st2 = st1\<lparr>goOK := goOK st1 + 1\<rparr> in
          case page_refused (Q_final q) of Some e \<Rightarrow> stat_err ''final'' e (st2\<lparr>finalErr := finalErr st2 + 1\<rparr>)
          | None \<Rightarrow> st2\<lparr>finalOK := finalOK st2 + 1, e2eLat := e2eLat st2 @ [Q_t3 q]\<rparr>)))"

definition visitor :: "client_json \<Rightarrow> (string \<Rightarrow> string) \<Rightarrow> journey \<Rightarrow> load_stats \<Rightarrow> load_stats option" where
  "visitor J trim q st0 =
    (let st = st0\<lparr>started := started st0 + 1\<rparr> in
     case Q_ticket q of Lost_r e \<Rightarrow> Some (stat_err ''ticket'' e (st\<lparr>ticketErr := ticketErr st + 1\<rparr>))
     | Ans_r c b loc \<Rightarrow>
        (if c \<noteq> 200 then Some (stat_err ''ticket'' (''HTTP '' @ show_int c @ '' '' @ trim b) (st\<lparr>ticketErr := ticketErr st + 1\<rparr>))
         else let st1 = st\<lparr>ticketLat := ticketLat st @ [Q_t1 q], ticketOK := ticketOK st + 1\<rparr> in
           (if J_state J b = ''admitted'' then Some (after_admission q st1)
            else case waitAdmission J (Q_polls q) (Q_waits q) st1 of None \<Rightarrow> None
             | Some (g, st2) \<Rightarrow> Some (if g = [] then st2 else after_admission q st2))))"

text \<open>The visitors one after the other.\<close>

fun visitors :: "client_json \<Rightarrow> (string \<Rightarrow> string) \<Rightarrow> journey list \<Rightarrow> load_stats \<Rightarrow> load_stats option" where
  "visitors J trim [] st = Some st"
| "visitors J trim (q # qs) st = (case visitor J trim q st of None \<Rightarrow> None | Some st1 \<Rightarrow> visitors J trim qs st1)"

section \<open>What flyc-queue writes\<close>

text \<open>An event of the stream as \<open>events_h\<close> writes it, a heartbeat, and the lines that a scanner sees of a text.\<close>

definition sse_event :: "(jv \<Rightarrow> string) \<Rightarrow> string \<times> jv \<Rightarrow> string" where
  "sse_event js e = ''event: '' @ fst e @ [CHR 0x0A] @ ''data: '' @ js (snd e) @ [CHR 0x0A] @ [CHR 0x0A]"

definition heartbeat :: string where
  "heartbeat = '': hb'' @ [CHR 0x0A, CHR 0x0A]"

fun scan_lines :: "string \<Rightarrow> string \<Rightarrow> string list" where
  "scan_lines cur [] = (if cur = [] then [] else [cur])"
| "scan_lines cur (c # cs) = (if c = CHR 0x0A then cur # scan_lines [] cs else scan_lines (cur @ [c]) cs)"

end
