(* ===== verification/Load_Laws.thy ===== *)
theory Load_Laws
  imports Load_Visitor
begin

text \<open>
  The laws of the load generator: the counters of the visitors balance, the percentiles are values of the sample,
  and the reader of the stream gets from what flyc-queue writes the path of the admission.
\<close>

section \<open>The books\<close>

text \<open>What the waiting does not touch.\<close>

definition same_counts :: "load_stats \<Rightarrow> load_stats \<Rightarrow> bool" where
  "same_counts a b \<longleftrightarrow> started b = started a \<and> ticketOK b = ticketOK a \<and> ticketErr b = ticketErr a \<and> sseOpen b = sseOpen a \<and>
     admitted b = admitted a \<and> goOK b = goOK a \<and> goErr b = goErr a \<and> finalOK b = finalOK a \<and> finalErr b = finalErr a \<and>
     ticketLat b = ticketLat a \<and> admitLat b = admitLat a \<and> e2eLat b = e2eLat a"

lemma same_counts_refl [simp]: "same_counts a a"
  by (simp add: same_counts_def)

lemma same_counts_trans: "same_counts a b \<Longrightarrow> same_counts b c \<Longrightarrow> same_counts a c"
  by (simp add: same_counts_def)

lemma stat_err_same [simp]: "same_counts st (stat_err k m st)"
  by (simp add: stat_err_def same_counts_def Let_def)

lemma readSSE_same: "readSSE J over ev ls st = (r, st') \<Longrightarrow> same_counts st st'"
proof (induction J over ev ls st arbitrary: r st' rule: readSSE.induct)
  case (2 J over ev l ls st)
  have "same_counts (st\<lparr>lastPending := J_pending J (drop 6 l)\<rparr>) st' \<Longrightarrow> same_counts st st'" by (simp add: same_counts_def)
  then show ?case using 2 by (auto split: if_splits)
qed (auto split: if_splits)

lemma pollAdmission_same: "pollAdmission J ps st = Some (g, st') \<Longrightarrow> same_counts st st'"
  by (induction J ps st rule: pollAdmission.induct) (auto split: if_splits)

lemma same_counts_other: "same_counts (st\<lparr>sseErr := n\<rparr>) st' \<longleftrightarrow> same_counts st st'" "same_counts (st\<lparr>degraded_n := n\<rparr>) st' \<longleftrightarrow> same_counts st st'"
  "same_counts st (st\<lparr>sseErr := n\<rparr>)"
  by (simp_all add: same_counts_def)

lemma waitAdmission_same: "waitAdmission J ps ys st = Some (g, st') \<Longrightarrow> same_counts st st'"
proof (induction J ps ys st rule: waitAdmission.induct)
  case (2 J ps y ys st)
  show ?case
  proof (cases "Y_reply y")
    case (Lost_r e)
    then have "st' = stat_err ''sse'' e (st\<lparr>sseErr := sseErr st + 1\<rparr>)" using "2.prems" by simp
    then show ?thesis by (simp add: same_counts_trans [OF _ stat_err_same] same_counts_other)
  next
    case (Ans_r c b loc)
    obtain g1 retry st1 where r: "readSSE J (Y_over y) [] (Y_lines y) (st\<lparr>sseOpen := sseOpen st + 1\<rparr>) = ((g1, retry), st1)" by (metis surj_pair)
    then have s: "same_counts st (st1\<lparr>sseOpen := sseOpen st1 - 1\<rparr>)" using readSSE_same [OF r] by (simp add: same_counts_def)
    consider "c = 503" | "c \<noteq> 503" "c \<noteq> 200" | "c = 200" by blast
    then show ?thesis
    proof cases
      case 1
      then show ?thesis using "2.prems" Ans_r pollAdmission_same by (fastforce simp: same_counts_other)
    next
      case 2
      then have "st' = stat_err ''sse'' (''HTTP '' @ show_int c) (st\<lparr>sseErr := sseErr st + 1\<rparr>)" using "2.prems" Ans_r by simp
      then show ?thesis by (simp add: same_counts_trans [OF _ stat_err_same] same_counts_other)
    next
      case 3
      show ?thesis
      proof (cases "g1 = [] \<and> retry \<and> \<not> Y_done y")
        case True
        then have "waitAdmission J ps ys (st1\<lparr>sseOpen := sseOpen st1 - 1\<rparr>) = Some (g, st')" using "2.prems" Ans_r 3 r by (simp add: Let_def)
        then have "same_counts (st1\<lparr>sseOpen := sseOpen st1 - 1\<rparr>) st'" using "2.IH" [OF Ans_r _ _ r [symmetric] refl refl] True 3 by simp
        then show ?thesis using s same_counts_trans by blast
      next
        case False
        then show ?thesis using "2.prems" Ans_r 3 r s by (auto simp: Let_def split: if_splits)
      qed
    qed
  qed
qed simp

definition ledger :: "load_stats \<Rightarrow> bool" where
  "ledger st \<longleftrightarrow> started st = ticketOK st + ticketErr st \<and> admitted st = goOK st + goErr st \<and> goOK st = finalOK st + finalErr st \<and>
     admitted st \<le> ticketOK st \<and> sseOpen st = 0 \<and> ticketOK st = int (length (ticketLat st)) \<and> admitted st = int (length (admitLat st)) \<and>
     finalOK st = int (length (e2eLat st)) \<and> 0 \<le> ticketErr st \<and> 0 \<le> goErr st \<and> 0 \<le> finalErr st"

lemma started_stays: "same_counts a b \<Longrightarrow> ledger a \<Longrightarrow> ledger b"
  by (simp add: same_counts_def ledger_def)

lemma ledger_err [simp]: "ledger (stat_err k m st) \<longleftrightarrow> ledger st"
  using stat_err_same [of st k m] by (auto simp: same_counts_def ledger_def)

text \<open>The books while a visitor has its ticket and has not been admitted.\<close>

lemma after_admission_ledger:
  assumes "ledger st" and "admitted st < ticketOK st"
  shows "ledger (after_admission q st) \<and> started (after_admission q st) = started st"
  using assms by (auto simp: after_admission_def Let_def ledger_def stat_err_def split: option.split)

lemma visitor_ledger:
  assumes "visitor J trim q st = Some st'" and "ledger st"
  shows "ledger st' \<and> started st' = started st + 1"
proof (cases "Q_ticket q")
  case (Lost_r e)
  then show ?thesis using assms by (auto simp: visitor_def Let_def ledger_def stat_err_def)
next
  case (Ans_r c b loc)
  let ?st1 = "st\<lparr>started := started st + 1, ticketLat := ticketLat st @ [Q_t1 q], ticketOK := ticketOK st + 1\<rparr>"
  have l: "ledger ?st1" "admitted ?st1 < ticketOK ?st1" using assms(2) by (auto simp: ledger_def)
  show ?thesis
  proof (cases "c = 200")
    case False
    then show ?thesis using assms Ans_r by (auto simp: visitor_def Let_def ledger_def stat_err_def)
  next
    case True
    show ?thesis
    proof (cases "J_state J b = ''admitted''")
      case True
      then have "st' = after_admission q ?st1" using assms(1) Ans_r \<open>c = 200\<close> by (simp add: visitor_def Let_def)
      then show ?thesis using after_admission_ledger [OF l] by simp
    next
      case False
      then obtain g st2 where w: "waitAdmission J (Q_polls q) (Q_waits q) ?st1 = Some (g, st2)"
        and e: "st' = (if g = [] then st2 else after_admission q st2)"
        using assms(1) Ans_r \<open>c = 200\<close> by (auto simp: visitor_def Let_def split: option.splits)
      have s: "same_counts ?st1 st2" by (rule waitAdmission_same [OF w])
      have "ledger st2" "admitted st2 < ticketOK st2" "started st2 = started st + 1"
        using started_stays [OF s l(1)] l(2) s by (auto simp: same_counts_def)
      then show ?thesis using after_admission_ledger [of st2 q] e by simp
    qed
  qed
qed

text \<open>When all the visitors have come to an end, the counters balance: every visitor has a ticket or an error of
  ticket, every admitted one has passed the redirection or failed there, every one that passed has the page or failed
  there, no stream is open, there is one time for each, and the share of the complete journeys lies between 0 and 100.\<close>

theorem visitors_balance:
  assumes "visitors J trim qs no_stats = Some st"
  shows "ledger st \<and> started st = int (length qs) \<and> 0 \<le> completed_share st \<and> completed_share st \<le> 100"
proof -
  have step: "visitors J trim qs s0 = Some st \<Longrightarrow> ledger s0 \<Longrightarrow> ledger st \<and> started st = started s0 + int (length qs)" for s0
  proof (induction qs arbitrary: s0)
    case (Cons q qs)
    then obtain s1 where v: "visitor J trim q s0 = Some s1" "visitors J trim qs s1 = Some st" by (auto split: option.splits)
    then show ?case using visitor_ledger [OF v(1) Cons.prems(2)] Cons.IH [of s1] by simp
  qed simp
  have l: "ledger st" "started st = int (length qs)" using step [OF assms] by (simp_all add: ledger_def no_stats_def)
  then have "0 \<le> finalOK st" "finalOK st \<le> started st" by (auto simp: ledger_def)
  then have f: "0 \<le> (of_int (finalOK st) :: rat)" "(of_int (finalOK st) :: rat) \<le> of_int (max64 (started st) 1)" "0 < (of_int (max64 (started st) 1) :: rat)"
    by (auto simp: max64_def)
  then show ?thesis using l by (simp add: completed_share_def divide_le_eq)
qed

section \<open>Percentiles\<close>

text \<open>A rounding that keeps the order and the integers that the doubles represent exactly.\<close>

definition rounds :: "(rat \<Rightarrow> rat) \<Rightarrow> nat \<Rightarrow> bool" where
  "rounds fl n \<longleftrightarrow> mono fl \<and> (\<forall>k \<le> n. fl (of_nat k) = of_nat k)"

lemma pct_at_le:
  assumes "rounds fl n" and "0 \<le> p" and "p \<le> 1"
  shows "pct_at fl n p \<le> n"
proof -
  have "of_nat n * p \<le> of_nat n" using assms(2,3) by (simp add: mult_left_le)
  then have "fl (of_nat n * p) \<le> fl (of_nat n)" using assms(1) unfolding rounds_def mono_def by blast
  also have "\<dots> = of_nat n" using assms(1) by (simp add: rounds_def)
  finally show ?thesis unfolding pct_at_def by linarith
qed

lemma pct_at_mono: "rounds fl n \<Longrightarrow> p \<le> q \<Longrightarrow> pct_at fl n p \<le> pct_at fl n q"
  unfolding pct_at_def rounds_def mono_def by (intro nat_mono floor_mono) (simp add: mult_left_mono)

lemma pct_at_lt:
  assumes "v \<noteq> []" and "rounds fl (length v - 1)" and "0 \<le> p" and "p \<le> 1"
  shows "pct_at fl (length v - 1) p < length (sort v)"
  using pct_at_le [OF assms(2-4)] assms(1) by (cases v) auto

lemma pct_in_sample: "v \<noteq> [] \<Longrightarrow> rounds fl (length v - 1) \<Longrightarrow> 0 \<le> p \<Longrightarrow> p \<le> 1 \<Longrightarrow> pct fl v p \<in> set v"
  using nth_mem [OF pct_at_lt] by (auto simp: pct_def)

lemma pct_mono:
  assumes "rounds fl (length v - 1)" and "0 \<le> p" and "p \<le> q" and "q \<le> 1"
  shows "pct fl v p \<le> pct fl v q"
proof (cases "v = []")
  case False
  have "pct_at fl (length v - 1) q < length (sort v)"
    by (rule pct_at_lt [OF False assms(1) _ assms(4)]) (use assms in simp)
  then show ?thesis using False pct_at_mono [OF assms(1,3)] sorted_nth_mono [of "sort v"] by (simp add: pct_def)
qed (simp add: pct_def)

section \<open>The stream, from the queue to the visitor\<close>

text \<open>What the queue has written: events, and heartbeats (\<open>None\<close>) between them.\<close>

definition stream_text :: "(jv \<Rightarrow> string) \<Rightarrow> (string \<times> jv) option list \<Rightarrow> string" where
  "stream_text js its = concat (map (\<lambda>x. case x of None \<Rightarrow> heartbeat | Some e \<Rightarrow> sse_event js e) its)"

abbreviation one_line :: "string \<Rightarrow> bool" where "one_line l \<equiv> CHR 0x0A \<notin> set l"

lemma scan_lines_line: "one_line l \<Longrightarrow> scan_lines cur (l @ CHR 0x0A # rest) = (cur @ l) # scan_lines [] rest"
  by (induction l arbitrary: cur) auto

lemma scan_event:
  assumes "one_line (fst e)" and "one_line (js (snd e))"
  shows "scan_lines [] (sse_event js e @ rest) = (''event: '' @ fst e) # (''data: '' @ js (snd e)) # [] # scan_lines [] rest"
  using scan_lines_line [of "''event: '' @ fst e" "[]" "''data: '' @ js (snd e) @ CHR 0x0A # CHR 0x0A # rest"]
    scan_lines_line [of "''data: '' @ js (snd e)" "[]" "CHR 0x0A # rest"] assms
  by (simp add: sse_event_def)

lemma scan_heartbeat: "scan_lines [] (heartbeat @ rest) = '': hb'' # [] # scan_lines [] rest"
  by (simp add: heartbeat_def)

lemma read_event:
  "readSSE J over ev ((''event: '' @ n) # (''data: '' @ d) # [] # ls) st =
    (if n = ''admitted'' then ((J_go J d, False), st)
     else if n = ''status'' then readSSE J over n ls (st\<lparr>lastPending := J_pending J d\<rparr>)
     else if n = ''closed'' then (([], False), stat_err ''sse'' ''closed'' st)
     else readSSE J over n ls st)"
  by simp

lemma read_heartbeat: "readSSE J over ev ('': hb'' # [] # ls) st = readSSE J over ev ls st"
  by simp

lemma read_stream:
  assumes nl: "\<And>v. one_line (js v)" and go: "\<And>t g. J_go J (js (JObj [(''ticket'', JStr t), (''go'', JStr g)])) = g"
  shows "List.map_filter (\<lambda>x. x) its = stream_messages i tid ms \<Longrightarrow> (\<And>m. m \<in> set ms \<Longrightarrow> Event m \<in> {''admitted'', ''refresh'', ''status''}) \<Longrightarrow>
    fst (readSSE J over ev (scan_lines [] (stream_text js its)) st) = (if \<exists>m \<in> set ms. Event m = ''admitted'' then (goPath i tid, False) else ([], \<not> over))"
proof (induction its arbitrary: ms ev st)
  case Nil
  then have "ms = []" by (cases ms) (auto simp: List.map_filter_simps split: if_splits)
  then show ?case by (simp add: stream_text_def)
next
  case (Cons x its)
  show ?case
  proof (cases x)
    case None
    then show ?thesis using Cons by (simp add: stream_text_def scan_heartbeat read_heartbeat List.map_filter_simps)
  next
    case (Some e)
    then obtain m ms' where ms: "ms = m # ms'" using Cons.prems(1) by (cases ms) (auto simp: List.map_filter_simps)
    have name: "Event m = ''admitted'' \<or> Event m = ''refresh'' \<or> Event m = ''status''" using Cons.prems(2) [of m] ms by simp
    have t: "stream_text js (x # its) = sse_event js e @ stream_text js its" by (simp add: stream_text_def Some)
    show ?thesis
    proof (cases "Event m = ''admitted''")
      case True
      then have e: "e = go_event i tid" using Cons.prems(1) Some ms by (simp add: List.map_filter_simps)
      have "one_line (fst e)" "fst e = ''admitted''" by (simp_all add: e go_event_def)
      then show ?thesis unfolding t scan_event [of e js, OF \<open>one_line (fst e)\<close> nl] read_event
        using True ms go by (simp add: e go_event_def)
    next
      case False
      then have e: "e = (Event m, data_json (Data m))" "List.map_filter (\<lambda>x. x) its = stream_messages i tid ms'"
        using Cons.prems(1) Some ms by (simp_all add: List.map_filter_simps)
      have ih: "fst (readSSE J over ev' (scan_lines [] (stream_text js its)) st') =
          (if \<exists>m \<in> set ms'. Event m = ''admitted'' then (goPath i tid, False) else ([], \<not> over))" for ev' st'
        by (rule Cons.IH [OF e(2)]) (use Cons.prems(2) ms in simp)
      have "one_line (fst e)" using name e(1) by auto
      then show ?thesis unfolding t scan_event [of e js, OF \<open>one_line (fst e)\<close> nl] read_event
        using name False ms by (auto simp: e(1) ih simp del: readSSE.simps)
    qed
  qed
qed

text \<open>C22: A waiting visitor that opens the stream of its ticket reads from it, through the status, the refreshes and the
  heartbeats in between, exactly the path of the admission, as soon as the hub has delivered one, and leaves the
  stream with it; without an admission it learns nothing and opens the stream again while its patience lasts.\<close>

theorem stream_leads_to_go:
  assumes "\<And>v. one_line (js v)" and "\<And>t g. J_go J (js (JObj [(''ticket'', JStr t), (''go'', JStr g)])) = g"
    and "\<And>m. m \<in> set ms \<Longrightarrow> Event m \<in> {''admitted'', ''refresh'', ''status''}"
    and "List.map_filter (\<lambda>x. x) its = stream_messages i tid ms"
    and "ls = scan_lines [] (stream_text js (Some (''status'', v) # its))"
  shows "fst (readSSE J over [] ls st) = (if \<exists>m \<in> set ms. Event m = ''admitted'' then (goPath i tid, False) else ([], \<not> over)) \<and>
    ((\<exists>m \<in> set ms. Event m = ''admitted'') \<longrightarrow>
       map_option fst (waitAdmission J ps (\<lparr>Y_reply = Ans_r 200 b loc, Y_lines = ls, Y_over = over, Y_done = stop\<rparr> # ys) st) = Some (goPath i tid))"
proof -
  have r: "fst (readSSE J over [] ls st) = (if \<exists>m \<in> set ms. Event m = ''admitted'' then (goPath i tid, False) else ([], \<not> over))" for st
  proof -
    have "ls = (''event: '' @ ''status'') # (''data: '' @ js v) # [] # scan_lines [] (stream_text js its)"
      using scan_event [of "(''status'', v)" js "stream_text js its"] assms(1) by (simp add: assms(5) stream_text_def)
    then have "readSSE J over [] ls st = readSSE J over ''status'' (scan_lines [] (stream_text js its)) (st\<lparr>lastPending := J_pending J (js v)\<rparr>)"
      by (simp only: read_event) simp
    then show ?thesis using read_stream [OF assms(1,2,4,3)] by simp
  qed
  have ne: "goPath i tid \<noteq> []" by (simp add: goPath_def)
  show ?thesis
  proof (intro conjI impI)
    assume a: "\<exists>m \<in> set ms. Event m = ''admitted''"
    obtain st1 where "readSSE J over [] ls (st\<lparr>sseOpen := sseOpen st + 1\<rparr>) = ((goPath i tid, False), st1)"
      using r [of "st\<lparr>sseOpen := sseOpen st + 1\<rparr>"] a by (metis prod.collapse)
    then show "map_option fst (waitAdmission J ps (\<lparr>Y_reply = Ans_r 200 b loc, Y_lines = ls, Y_over = over, Y_done = stop\<rparr> # ys) st) = Some (goPath i tid)"
      using ne by (simp add: Let_def)
  qed (rule r)
qed

section \<open>Examples\<close>

text \<open>A JSON that only carries the last string of an object.\<close>

definition demo_js :: "jv \<Rightarrow> string" where
  "demo_js v = (case v of JObj [(a, t), (b, JStr g)] \<Rightarrow> b64 g | _ \<Rightarrow> [])"

lemma demo_js_line: "one_line (demo_js v)"
  by (auto simp: demo_js_def b64_no_newline split: jv.splits list.splits)

definition demo_json :: client_json where
  "demo_json = \<lparr>J_go = (\<lambda>t. the (DecodeString t)), J_state = id, J_ticket = id, J_pending = (\<lambda>_. 0)\<rparr>"

definition demo_msgs :: "Msg list" where
  "demo_msgs = [\<lparr>Event = ''refresh'', Data = DReason ''config''\<rparr>, \<lparr>Event = ''admitted'', Data = DTicket ''t1''\<rparr>, \<lparr>Event = ''refresh'', Data = DReason []\<rparr>]"

definition demo_id :: ID where
  "demo_id = \<lparr>Tenant = ''acme'', Room = ''sale''\<rparr>"

definition demo_items :: "(string \<times> jv) option list" where
  "demo_items = [None, Some (''refresh'', JObj [(''reason'', JStr ''config'')]), None, Some (go_event demo_id ''t1'')]"

theorem stream_leads_to_go_witness:
  "fst (readSSE demo_json False [] (scan_lines [] (stream_text demo_js (Some (''status'', JNull) # demo_items))) no_stats) = (''/q/acme.sale/go?t=t1'', False)"
proof -
  have "\<exists>m \<in> set demo_msgs. Event m = ''admitted''" by (simp add: demo_msgs_def)
  moreover have "goPath demo_id ''t1'' = ''/q/acme.sale/go?t=t1''" by (simp add: goPath_def demo_id_def String_def)
  moreover have "J_go demo_json (demo_js (JObj [(''ticket'', JStr t), (''go'', JStr g)])) = g" for t g
    by (simp add: demo_json_def demo_js_def DecodeString_b64)
  moreover have "List.map_filter (\<lambda>x. x) demo_items = stream_messages demo_id ''t1'' demo_msgs"
    by (simp add: demo_items_def demo_msgs_def List.map_filter_simps go_event_def)
  moreover have "\<And>m. m \<in> set demo_msgs \<Longrightarrow> Event m \<in> {''admitted'', ''refresh'', ''status''}" by (auto simp: demo_msgs_def)
  ultimately show ?thesis
    using stream_leads_to_go [of demo_js demo_json demo_msgs demo_items demo_id "''t1''"
        "scan_lines [] (stream_text demo_js (Some (''status'', JNull) # demo_items))" JNull False no_stats] demo_js_line by simp
qed

text \<open>A visitor that is let in at once and sees the page, one that waits, falls back to polling and is refused at the door.\<close>

definition demo_journeys :: "journey list" where
  "demo_journeys =
    [\<lparr>Q_ticket = Ans_r 200 ''admitted'' [], Q_waits = [], Q_polls = [], Q_go = Ans_r 302 [] ''https://shop.fr/__flyc/go'', Q_cookie = Ans_r 302 [] ''/'',
       Q_final = Ans_r 200 [] [], Q_t1 = 12, Q_t2 = 1, Q_t3 = 2\<rparr>,
     \<lparr>Q_ticket = Ans_r 200 ''waiting'' [], Q_waits = [\<lparr>Y_reply = Ans_r 200 [] [], Y_lines = ['': hb''], Y_over = False, Y_done = False\<rparr>,
         \<lparr>Y_reply = Ans_r 503 [] [], Y_lines = [], Y_over = False, Y_done = False\<rparr>],
       Q_polls = [Poll_r (Lost_r ''eof''), Poll_r (Ans_r 200 ''admitted'' [])], Q_go = Ans_r 403 [] [], Q_cookie = Lost_r [], Q_final = Lost_r [], Q_t1 = 15, Q_t2 = 40, Q_t3 = 0\<rparr>]"

theorem visitors_balance_witness:
  "\<exists>st. visitors (demo_json\<lparr>J_go := id\<rparr>) id demo_journeys no_stats = Some st \<and> started st = 2 \<and> finalOK st = 1 \<and> goErr st = 1 \<and> ledger st"
proof -
  have "map_option (\<lambda>st. (finalOK st, goErr st)) (visitors (demo_json\<lparr>J_go := id\<rparr>) id demo_journeys no_stats) = Some (1, 1)" by code_simp
  then obtain st where st: "visitors (demo_json\<lparr>J_go := id\<rparr>) id demo_journeys no_stats = Some st" "finalOK st = 1" "goErr st = 1" by auto
  then show ?thesis using visitors_balance [OF st(1)] by (simp add: demo_journeys_def)
qed

section \<open>Visitors that nobody sees\<close>

text \<open>A visitor whose patience ends in the pause before the stream is opened again, or that is told of its admission
  without a path, is in no counter but that of the tickets, and leaves no error.\<close>

lemma visitor_unseen:
  assumes "Y_reply y = Ans_r 200 b loc" and "Y_lines y = []" and "\<not> Y_over y" and "Y_done y"
  shows "waitAdmission J ps (y # ys) st = Some ([], st)"
  using assms by (simp add: Let_def)

end
