(* ===== verification/Load_Report.thy ===== *)
theory Load_Report
  imports Load_Laws
begin

text \<open>
  The frame of loadtest/cmd/flyc-load/main.go around the visitors: the flags and their defaults, the addresses forced
  for the two hosts, the pace of the arrivals, and the numbers of the report. The numbers are as computed, before they
  are rounded for the page; \<open>split\<close> is \<open>net.SplitHostPort\<close>.
\<close>

section \<open>Flags and addresses\<close>

record flags =
  Fl_wait :: string
  Fl_host :: string
  Fl_room :: string
  Fl_users :: int
  Fl_ramp :: int
  Fl_timeout :: int
  Fl_resolve :: string
  Fl_report :: int
  Fl_path :: string
  Fl_out :: string
  Fl_name :: string

definition default_flags :: flags where
  "default_flags = \<lparr>Fl_wait = ''https://wait.example.com'', Fl_host = ''demo.example.com'', Fl_room = ''demo.concert'', Fl_users = 1000,
     Fl_ramp = 30 * Second, Fl_timeout = 600 * Second, Fl_resolve = [], Fl_report = 5 * Second, Fl_path = ''/billets/?src=load'', Fl_out = [], Fl_name = []\<rparr>"

text \<open>\<open>ip=name\<close> pairs, the last of a name counting; what has no equal sign is passed over.\<close>

definition resolve_map :: "string \<Rightarrow> (string \<times> string) list" where
  "resolve_map s = List.map_filter (\<lambda>kv. map_option (\<lambda>(ip, name). (name, ip)) (cut (CHR ''='') kv)) (split_on (CHR '','') s)"

definition wait_host :: "flags \<Rightarrow> string" where
  "wait_host f = TrimPrefix (TrimPrefix (Fl_wait f) ''https://'') ''http://''"

text \<open>An address with a colon is put in brackets. An address that cannot be split gives an empty host and port.\<close>

definition JoinHostPort :: "string \<Rightarrow> string \<Rightarrow> string" where
  "JoinHostPort h p = (if CHR '':'' \<in> set h then ''['' @ h @ '']:'' @ p else h @ '':'' @ p)"

definition dial_addr :: "(string \<Rightarrow> (string \<times> string) option) \<Rightarrow> flags \<Rightarrow> string \<Rightarrow> string" where
  "dial_addr split f addr =
    (let (h, p) = (case split addr of None \<Rightarrow> ([], []) | Some hp \<Rightarrow> hp); m = map_of (rev (resolve_map (Fl_resolve f)))
     in case m ''wait'' of
          Some ip \<Rightarrow> (if h = wait_host f then JoinHostPort ip p
             else case m ''app'' of Some ip' \<Rightarrow> (if h = Fl_host f then JoinHostPort ip' p else addr) | None \<Rightarrow> addr)
        | None \<Rightarrow> (case m ''app'' of Some ip' \<Rightarrow> (if h = Fl_host f then JoinHostPort ip' p else addr) | None \<Rightarrow> addr))"

section \<open>The arrivals\<close>

text \<open>The pause between two visitors, in nanoseconds: the quotient of two 64-bit integers.\<close>

definition arrival_gap :: "flags \<Rightarrow> int" where
  "arrival_gap f = (if 1 < Fl_users f then Fl_ramp f sdiv Fl_users f else 0)"

definition arrivals :: "flags \<Rightarrow> int list" where
  "arrivals f = map (\<lambda>i. int i * (if 0 < arrival_gap f then arrival_gap f else 0)) [0..<nat (Fl_users f)]"

section \<open>The reports\<close>

definition quantiles :: "(rat \<Rightarrow> rat) \<Rightarrow> rat list \<Rightarrow> (string \<times> rat) list \<Rightarrow> jv" where
  "quantiles fl v ps = JObj (map (\<lambda>(k, p). (k, JNum (pct fl v p))) ps)"

text \<open>The constants are doubles.\<close>

definition p50 :: "(rat \<Rightarrow> rat) \<Rightarrow> string \<times> rat" where "p50 fl = (''p50'', fl (1 / 2))"
definition p95 :: "(rat \<Rightarrow> rat) \<Rightarrow> string \<times> rat" where "p95 fl = (''p95'', fl (95 / 100))"
definition p99 :: "(rat \<Rightarrow> rat) \<Rightarrow> string \<times> rat" where "p99 fl = (''p99'', fl (99 / 100))"
definition p_max :: "(rat \<Rightarrow> rat) \<Rightarrow> string \<times> rat" where "p_max fl = (''max'', fl (1))"

definition writeJSON :: "(rat \<Rightarrow> rat) \<Rightarrow> string \<Rightarrow> rat \<Rightarrow> load_stats \<Rightarrow> jv" where
  "writeJSON fl src secs st = JObj
    [(''source'', JStr src), (''users'', JInt (started st)), (''tickets_ok'', JInt (ticketOK st)), (''tickets_err'', JInt (ticketErr st)),
     (''admitted'', JInt (admitted st)), (''final_ok'', JInt (finalOK st)), (''final_err'', JInt (finalErr st)), (''go_err'', JInt (goErr st)),
     (''degraded'', JInt (degraded_n st)), (''duration_s'', JNum secs),
     (''ticket_ms'', quantiles fl (ticketLat st) [p50 fl, p95 fl, p99 fl, p_max fl]),
     (''admission_s'', quantiles fl (admitLat st) [p50 fl, p95 fl, p_max fl]),
     (''e2e_s'', quantiles fl (e2eLat st) [p50 fl, p95 fl, p_max fl]),
     (''errors'', JObj (map (\<lambda>(k, n). (k, JInt n)) (errs st)))]"

text \<open>The values of the line that is printed at every period, and those of the balance at the end: the visitors, the
  complete journeys and their share, the percentiles, and the errors from the most frequent on, \<open>perm\<close> being the order
  of those that are as frequent.\<close>

definition report_line :: "(rat \<Rightarrow> rat) \<Rightarrow> rat \<Rightarrow> load_stats \<Rightarrow> rat list" where
  "report_line fl secs st = [secs] @ map of_int [started st, ticketOK st, ticketErr st, sseOpen st, admitted st, goOK st, goErr st,
     finalOK st, finalErr st, degraded_n st, lastPending st] @
     [pct fl (ticketLat st) (snd (p50 fl)), pct fl (ticketLat st) (snd (p95 fl)), pct fl (admitLat st) (snd (p50 fl)), pct fl (admitLat st) (snd (p95 fl))]"

definition final_report :: "((string \<times> int) list \<Rightarrow> (string \<times> int) list) \<Rightarrow> (rat \<Rightarrow> rat) \<Rightarrow> rat \<Rightarrow> load_stats \<Rightarrow> rat list \<times> (string \<times> int) list" where
  "final_report perm fl secs st =
    ([of_int (started st), of_int (finalOK st), completed_share st] @
     map (pct fl (ticketLat st) \<circ> snd) [p50 fl, p95 fl, p_max fl] @ map (pct fl (admitLat st) \<circ> snd) [p50 fl, p95 fl, p_max fl] @
     [pct fl (e2eLat st) (snd (p95 fl)), secs],
     sort_key (\<lambda>kn. - snd kn) (perm (errs st)))"

section \<open>What holds of them\<close>

lemma arrivals_in_the_ramp:
  assumes "0 \<le> Fl_ramp f" and "t \<in> set (arrivals f)"
  shows "0 \<le> t \<and> t \<le> Fl_ramp f"
proof -
  obtain i where i: "i < nat (Fl_users f)" and t: "t = int i * (if 0 < arrival_gap f then arrival_gap f else 0)"
    using assms(2) by (auto simp: arrivals_def)
  show ?thesis
  proof (cases "0 < arrival_gap f \<and> 1 < Fl_users f")
    case True
    then have g: "arrival_gap f = Fl_ramp f div Fl_users f" using assms(1) by (cases "Fl_ramp f = 0") (auto simp: arrival_gap_def signed_divide_int_def sgn_if split: if_splits)
    have "int i * (Fl_ramp f div Fl_users f) \<le> Fl_users f * (Fl_ramp f div Fl_users f)"
      using i True g by (intro mult_right_mono) auto
    also have "\<dots> \<le> Fl_ramp f" using True pos_mod_sign [of "Fl_users f" "Fl_ramp f"] by (simp add: minus_mod_eq_mult_div [symmetric])
    finally show ?thesis using t True g by simp
  next
    case False
    then show ?thesis using t assms(1) by (auto simp: arrival_gap_def)
  qed
qed

lemma dial_unresolved: "Fl_resolve f = [] \<Longrightarrow> dial_addr split f addr = addr"
  by (auto simp: dial_addr_def resolve_map_def cut_def map_filter_simps Let_def split: option.splits prod.splits)

text \<open>The JSON of a run adds up: every visitor has a ticket or an error, every admission ended at a page or at an error, and
  the percentiles of a sample are in order.\<close>

lemma quantiles_in_order:
  assumes "rounds fl (length v)" and "v \<noteq> []"
  shows "pct fl v (snd (p50 fl)) \<le> pct fl v (snd (p95 fl))" "pct fl v (snd (p95 fl)) \<le> pct fl v (snd (p99 fl))"
    "pct fl v (snd (p99 fl)) \<le> pct fl v (snd (p_max fl))"
proof -
  have r: "rounds fl (length v - 1)" using assms(1) by (auto simp: rounds_def)
  have "1 \<le> length v" using assms(2) by (cases v) auto
  then have "fl (of_nat 0) = of_nat 0" "fl (of_nat 1) = of_nat 1" using assms(1) unfolding rounds_def by blast+
  moreover have "mono fl" using assms(1) by (simp add: rounds_def)
  ultimately have "0 \<le> fl (1 / 2)" "fl (1 / 2) \<le> fl (95 / 100)" "fl (95 / 100) \<le> fl (99 / 100)" "fl (99 / 100) \<le> fl 1" "fl 1 \<le> 1"
    using monoD [of fl 0 "1 / 2"] monoD [of fl "1 / 2" "95 / 100"] monoD [of fl "95 / 100" "99 / 100"] monoD [of fl "99 / 100" 1] by auto
  then show "pct fl v (snd (p50 fl)) \<le> pct fl v (snd (p95 fl))" "pct fl v (snd (p95 fl)) \<le> pct fl v (snd (p99 fl))"
    "pct fl v (snd (p99 fl)) \<le> pct fl v (snd (p_max fl))"
    using pct_mono [OF r] by (simp_all add: p50_def p95_def p99_def p_max_def)
qed

lemma report_adds_up:
  assumes "visitors J trim qs no_stats = Some st" and "writeJSON fl src secs st = JObj fs"
  shows "map_of fs ''users'' = Some (JInt (int (length qs)))"
    and "map_of fs ''tickets_ok'' = Some (JInt ok) \<Longrightarrow> map_of fs ''tickets_err'' = Some (JInt er) \<Longrightarrow> ok + er = int (length qs)"
    and "map_of fs ''admitted'' = Some (JInt a) \<Longrightarrow> map_of fs ''go_err'' = Some (JInt g) \<Longrightarrow> map_of fs ''final_ok'' = Some (JInt x) \<Longrightarrow>
      map_of fs ''final_err'' = Some (JInt y) \<Longrightarrow> a = g + x + y"
  using visitors_balance [OF assms(1)] assms(2) by (auto simp: writeJSON_def ledger_def)

end
