(* ===== verification/Dataplane_Wire.thy ===== *)
theory Dataplane_Wire
  imports Compile_State "HOL-Library.Monad_Syntax"
begin

text \<open>
  The requests of control/internal/dataplane/client.go on the wire: what \<open>do\<close> and \<open>upload\<close> make of the operations
  that the theory Dataplane has as constructors (the URL with its escaped parts and its query, the credentials, the
  content), and how the text of an answer becomes the payload of the operation. The parser of JSON is an argument, and
  so is the network. The laws: two operations are never one request, as long as the names that the code leaves
  unescaped in a path have no slash and no question mark, and a server or a backend is read back as it was written.
\<close>

section \<open>Requests\<close>

record dclient =
  C_base :: string
  C_user :: string
  C_pass :: string

definition New_dclient :: "string \<Rightarrow> string \<Rightarrow> string \<Rightarrow> dclient" where
  "New_dclient b u p = \<lparr>C_base = trim_right_slash b, C_user = u, C_pass = p\<rparr>"

text \<open>A backend as JSON. The reconciler always sets the three pointers, so the record has their fields.\<close>

definition int_field :: "string \<Rightarrow> int \<Rightarrow> (string \<times> jv) list" where
  "int_field k i = (if i = 0 then [] else [(k, JInt i)])"

definition backend_json :: "Backend \<Rightarrow> jv" where
  "backend_json b = JObj ([(''name'', JStr (BName b))] @ str_field ''mode'' (Mode b) @
     [(''balance'', JObj [(''algorithm'', JStr (Balance b))])] @ str_field ''adv_check'' (AdvCheck b) @
     [(''httpchk_params'', JObj (str_field ''method'' (ChkMethod b) @ str_field ''uri'' (ChkURI b))),
      (''default_server'', JObj (str_field ''check'' (DSCheck b) @ int_field ''inter'' (DSInter b) @
         int_field ''rise'' (DSRise b) @ int_field ''fall'' (DSFall b)))])"

text \<open>Nothing, a text, a JSON document, or the form of an upload: the name of the file and its content.\<close>

datatype content = No_content | Text_content string | Json_content jv | File_content string string

record wire =
  L_method :: string
  L_url :: string
  L_auth :: "string \<times> string"
  L_content :: content

definition txq :: "string \<Rightarrow> (string \<times> string) list" where
  "txq t = [(''transaction_id'', t)]"

abbreviation conf :: "string list \<Rightarrow> string list" where "conf ps \<equiv> ''services'' # ''haproxy'' # ''configuration'' # ps"
abbreviation maps_at :: "string list \<Rightarrow> string list" where "maps_at ps \<equiv> ''services'' # ''haproxy'' # ''runtime'' # ''maps'' # ps"
abbreviation stored_at :: "string list \<Rightarrow> string list" where "stored_at ps \<equiv> ''services'' # ''haproxy'' # ''storage'' # ps"

text \<open>Method, segments of the path after \<open>/v3\<close>, query in the order of its keys, content.\<close>

fun endpoint :: "dreq \<Rightarrow> string \<times> string list \<times> (string \<times> string) list \<times> content" where
  "endpoint InfoQ = (''GET'', [''info''], [], No_content)"
| "endpoint VersionQ = (''GET'', conf [''version''], [], No_content)"
| "endpoint (TxPost v) = (''POST'', [''services'', ''haproxy'', ''transactions''], [(''version'', show_int v)], No_content)"
| "endpoint (TxPut t) = (''PUT'', [''services'', ''haproxy'', ''transactions'', t], [], No_content)"
| "endpoint (TxDelete t) = (''DELETE'', [''services'', ''haproxy'', ''transactions'', t], [], No_content)"
| "endpoint BackendsQ = (''GET'', conf [''backends''], [], No_content)"
| "endpoint (BackendPost t b) = (''POST'', conf [''backends''], txq t, Json_content (backend_json b))"
| "endpoint (BackendPut t b) = (''PUT'', conf [''backends'', BName b], txq t, Json_content (backend_json b))"
| "endpoint (BackendDelete t n) = (''DELETE'', conf [''backends'', n], txq t, No_content)"
| "endpoint (ServersQ b) = (''GET'', conf [''backends'', b, ''servers''], [], No_content)"
| "endpoint (ServerPost t b s) = (''POST'', conf [''backends'', b, ''servers''], txq t, Json_content (server_json s))"
| "endpoint (ServerPut t b s) = (''PUT'', conf [''backends'', b, ''servers'', SName s], txq t, Json_content (server_json s))"
| "endpoint (ServerDelete t b n) = (''DELETE'', conf [''backends'', b, ''servers'', n], txq t, No_content)"
| "endpoint (EntriesQ m) = (''GET'', maps_at [m, ''entries''], [], No_content)"
| "endpoint (EntryPost m k v) = (''POST'', maps_at [m, ''entries''], [(''force_sync'', ''true'')], Json_content (entry_json (k, v)))"
| "endpoint (EntryPut m k v) = (''PUT'', maps_at [m, ''entries'', PathEscape k], [(''force_sync'', ''true'')], Json_content (JObj [(''value'', JStr v)]))"
| "endpoint (EntryDelete m k) = (''DELETE'', maps_at [m, ''entries'', PathEscape k], [(''force_sync'', ''true'')], No_content)"
| "endpoint (MapDelete m) = (''DELETE'', maps_at [m], [(''force_delete'', ''true''), (''force_sync'', ''true'')], No_content)"
| "endpoint CertsQ = (''GET'', stored_at [''ssl_certificates''], [], No_content)"
| "endpoint (CertPut n pem) = (''PUT'', stored_at [''ssl_certificates'', n], [], Text_content pem)"
| "endpoint (CertPost n pem) = (''POST'', stored_at [''ssl_certificates''], [], File_content n pem)"
| "endpoint (CrtListQ n) = (''GET'', stored_at [''ssl_crt_lists'', PathEscape n], [], No_content)"
| "endpoint (CrtListPut n t) = (''PUT'', stored_at [''ssl_crt_lists'', PathEscape n], [], Text_content t)"
| "endpoint (GeneralQ n) = (''GET'', stored_at [''general'', PathEscape n], [], No_content)"
| "endpoint (GeneralPost n t) = (''POST'', stored_at [''general''], [], File_content n t)"
| "endpoint (GeneralPut n t) = (''PUT'', stored_at [''general'', PathEscape n], [(''skip_reload'', ''true'')], File_content n t)"
| "endpoint (StatsQ b) = (''GET'', [''services'', ''haproxy'', ''stats'', ''native''], [(''name'', b), (''type'', ''backend'')], No_content)"

definition pair_text :: "string \<times> string \<Rightarrow> string" where
  "pair_text kv = QueryEscape (fst kv) @ ''='' @ QueryEscape (snd kv)"

definition wire_url :: "dclient \<Rightarrow> string list \<Rightarrow> (string \<times> string) list \<Rightarrow> string" where
  "wire_url c ps q = C_base c @ ''/v3/'' @ join ''/'' ps @
     (if q = [] then [] else ''?'' @ join ''&'' (map pair_text q))"

definition wire_of :: "dclient \<Rightarrow> dreq \<Rightarrow> wire" where
  "wire_of c rq = (case endpoint rq of (meth, ps, q, x) \<Rightarrow>
     \<lparr>L_method = meth, L_url = wire_url c ps q, L_auth = (C_user c, C_pass c), L_content = x\<rparr>)"

text \<open>\<open>crtListBase\<close>: what follows the last slash.\<close>

definition crtListBase :: "string \<Rightarrow> string" where
  "crtListBase t = rev (takeWhile (\<lambda>c. c \<noteq> CHR ''/'') (rev t))"

section \<open>Answers\<close>

text \<open>\<open>json.Unmarshal\<close> into the types of the client: an absent field and null leave the zero value, another type is an
  error, the last of two fields of one name counts. The names are compared as they are: Go also accepts another case.\<close>

definition jlookup :: "string \<Rightarrow> (string \<times> jv) list \<Rightarrow> jv" where
  "jlookup k fs = (case map_of (rev fs) k of None \<Rightarrow> JNull | Some v \<Rightarrow> v)"

definition int64 :: "int \<Rightarrow> bool" where
  "int64 i \<longleftrightarrow> - (2 ^ 63) \<le> i \<and> i < 2 ^ 63"

fun jstr :: "jv \<Rightarrow> string option" where
  "jstr (JStr t) = Some t"
| "jstr JNull = Some []"
| "jstr _ = None"

fun jint :: "jv \<Rightarrow> int option" where
  "jint (JInt i) = (if int64 i then Some i else None)"
| "jint JNull = Some 0"
| "jint _ = None"

fun jint_ptr :: "jv \<Rightarrow> int option option" where
  "jint_ptr JNull = Some None"
| "jint_ptr v = map_option Some (jint v)"

fun jfields :: "jv \<Rightarrow> (string \<times> jv) list option" where
  "jfields (JObj fs) = Some fs"
| "jfields JNull = Some []"
| "jfields _ = None"

fun jelems :: "(jv \<Rightarrow> 'x option) \<Rightarrow> jv \<Rightarrow> 'x list option" where
  "jelems f (JArr vs) = those (map f vs)"
| "jelems f JNull = Some []"
| "jelems f _ = None"

definition read_server :: "jv \<Rightarrow> Server option" where
  "read_server v = do {
     fs \<leftarrow> jfields v; n \<leftarrow> jstr (jlookup ''name'' fs); a \<leftarrow> jstr (jlookup ''address'' fs); p \<leftarrow> jint (jlookup ''port'' fs);
     w \<leftarrow> jint_ptr (jlookup ''weight'' fs); m \<leftarrow> jint_ptr (jlookup ''maxconn'' fs); c \<leftarrow> jstr (jlookup ''check'' fs);
     Some \<lparr>SName = n, Address = a, Port = p, Weight = w, Maxconn = m, SCheck = c\<rparr> }"

definition read_backend :: "jv \<Rightarrow> Backend option" where
  "read_backend v = do {
     fs \<leftarrow> jfields v; n \<leftarrow> jstr (jlookup ''name'' fs); m \<leftarrow> jstr (jlookup ''mode'' fs);
     bf \<leftarrow> jfields (jlookup ''balance'' fs); b \<leftarrow> jstr (jlookup ''algorithm'' bf); a \<leftarrow> jstr (jlookup ''adv_check'' fs);
     hf \<leftarrow> jfields (jlookup ''httpchk_params'' fs); cm \<leftarrow> jstr (jlookup ''method'' hf); cu \<leftarrow> jstr (jlookup ''uri'' hf);
     df \<leftarrow> jfields (jlookup ''default_server'' fs); c \<leftarrow> jstr (jlookup ''check'' df);
     i \<leftarrow> jint (jlookup ''inter'' df); r \<leftarrow> jint (jlookup ''rise'' df); f \<leftarrow> jint (jlookup ''fall'' df);
     Some \<lparr>BName = n, Mode = m, Balance = b, AdvCheck = a, ChkMethod = cm, ChkURI = cu, DSCheck = c, DSInter = i, DSRise = r, DSFall = f\<rparr> }"

definition read_pair :: "string \<Rightarrow> string \<Rightarrow> jv \<Rightarrow> (string \<times> string) option" where
  "read_pair k1 k2 v = do { fs \<leftarrow> jfields v; a \<leftarrow> jstr (jlookup k1 fs); b \<leftarrow> jstr (jlookup k2 fs); Some (a, b) }"

text \<open>A stored certificate: the name and the expiry are kept.\<close>

definition read_cert :: "jv \<Rightarrow> (string \<times> string) option" where
  "read_cert v = do { fs \<leftarrow> jfields v; n \<leftarrow> jstr (jlookup ''storage_name'' fs); x \<leftarrow> jstr (jlookup ''file'' fs);
     a \<leftarrow> jstr (jlookup ''not_after'' fs); y \<leftarrow> jstr (jlookup ''subject'' fs); Some (n, a) }"

text \<open>The statistics: one object or a list of them, each with a list of lines.\<close>

definition read_stat :: "jv \<Rightarrow> (string \<times> string \<times> int) option" where
  "read_stat v = do { fs \<leftarrow> jfields v; n \<leftarrow> jstr (jlookup ''name'' fs); t \<leftarrow> jstr (jlookup ''type'' fs);
     sf \<leftarrow> jfields (jlookup ''stats'' fs); i \<leftarrow> jint (jlookup ''scur'' sf); Some (n, t, i) }"

definition read_stats :: "jv \<Rightarrow> (string \<times> string \<times> int) list option" where
  "read_stats v = do { fs \<leftarrow> jfields v; jelems read_stat (jlookup ''stats'' fs) }"

fun read_payload :: "dreq \<Rightarrow> jv \<Rightarrow> payload option" where
  "read_payload InfoQ v = do { fs \<leftarrow> jfields v; af \<leftarrow> jfields (jlookup ''api'' fs); x \<leftarrow> jstr (jlookup ''version'' af); Some PNone }"
| "read_payload VersionQ v = map_option PInt (jint v)"
| "read_payload (TxPost n) v = do { fs \<leftarrow> jfields v; i \<leftarrow> jstr (jlookup ''id'' fs); x \<leftarrow> jstr (jlookup ''status'' fs);
     y \<leftarrow> jint (jlookup ''_version'' fs); Some (PTx i) }"
| "read_payload BackendsQ v = map_option PBackends (jelems read_backend v)"
| "read_payload (ServersQ b) v = map_option PServers (jelems read_server v)"
| "read_payload (EntriesQ m) v = map_option PEntries (jelems (read_pair ''key'' ''value'') v)"
| "read_payload CertsQ v = map_option PCerts (jelems read_cert v)"
| "read_payload (StatsQ b) v = map_option PStats (case v of JArr vs \<Rightarrow> those (map read_stats vs) | _ \<Rightarrow> map_option (\<lambda>x. [x]) (read_stats v))"
| "read_payload _ v = Some PNone"

text \<open>The operations that take the text of the answer as it is.\<close>

fun raw_answer :: "dreq \<Rightarrow> bool" where
  "raw_answer (CrtListQ n) = True"
| "raw_answer (GeneralQ n) = True"
| "raw_answer _ = False"

text \<open>No body is not read. What is not the JSON expected is the text, which no operation that expects JSON accepts; the
  operations without a result read no body at all.\<close>

definition answer_of :: "(string \<Rightarrow> jv option) \<Rightarrow> dreq \<Rightarrow> (int \<times> string) option \<Rightarrow> answer" where
  "answer_of parse rq r = (case r of None \<Rightarrow> Lost
     | Some (st, b) \<Rightarrow> Ans st
        (if raw_answer rq then PText b else if b = [] then PNone
         else case Option.bind (parse b) (read_payload rq) of None \<Rightarrow> PText b | Some p \<Rightarrow> p))"

text \<open>The device of the other theories, made of a network that carries such requests.\<close>

definition http_device :: "(string \<Rightarrow> jv option) \<Rightarrow> dclient \<Rightarrow> ('w \<Rightarrow> wire \<Rightarrow> (int \<times> string) option \<times> 'w) \<Rightarrow> 'w device" where
  "http_device parse c net w rq = (case net w (wire_of c rq) of (r, w1) \<Rightarrow> (answer_of parse rq r, w1))"

section \<open>What is sent is read back\<close>

lemma jlookup_simps [simp]:
  "jlookup k [] = JNull"
  "jlookup k (str_field q t) = (if k = q \<and> t \<noteq> [] then JStr t else JNull)"
  "jlookup k (fs @ [(q, v)]) = (if k = q then v else jlookup k fs)"
  "jlookup k (fs @ str_field q t) = (if k = q \<and> t \<noteq> [] then JStr t else jlookup k fs)"
  "jlookup k (fs @ int_field q i) = (if k = q \<and> i \<noteq> 0 then JInt i else jlookup k fs)"
  "jlookup k (fs @ opt_field q z) = (if k = q \<and> z \<noteq> None then JInt (the z) else jlookup k fs)"
  by (auto simp: jlookup_def str_field_def int_field_def opt_field_def split: option.splits)

lemma jlookup_one [simp]: "jlookup k [(q, v)] = (if k = q then v else JNull)"
  by (simp add: jlookup_def)

lemma jread_zero [simp]:
  "jstr (if t \<noteq> [] then JStr t else JNull) = Some t" "jstr (if t = [] then JNull else JStr t) = Some t"
  "int64 i \<Longrightarrow> jint (if i \<noteq> 0 then JInt i else JNull) = Some i" "int64 i \<Longrightarrow> jint (if i = 0 then JNull else JInt i) = Some i"
  by simp_all

lemma read_server_back:
  assumes "int64 (Port s)" and "\<forall>w. Weight s = Some w \<or> Maxconn s = Some w \<longrightarrow> int64 w"
  shows "read_server (server_json s) = Some s"
proof -
  let ?h = "[(''name'', JStr (SName s)), (''address'', JStr (Address s)), (''port'', JInt (Port s))]"
  let ?fs = "?h @ opt_field ''weight'' (Weight s) @ opt_field ''maxconn'' (Maxconn s) @ str_field ''check'' (SCheck s)"
  have "jlookup k ?fs = (if k = ''check'' \<and> SCheck s \<noteq> [] then JStr (SCheck s) else
      if k = ''maxconn'' \<and> Maxconn s \<noteq> None then JInt (the (Maxconn s)) else
      if k = ''weight'' \<and> Weight s \<noteq> None then JInt (the (Weight s)) else jlookup k ?h)" for k
    by (simp only: append_assoc [symmetric] jlookup_simps)
  then show ?thesis using assms
    by (cases "Weight s"; cases "Maxconn s") (simp_all add: read_server_def server_json_def jlookup_def)
qed

lemma read_backend_back:
  assumes "int64 (DSInter b)" and "int64 (DSRise b)" and "int64 (DSFall b)"
  shows "read_backend (backend_json b) = Some b"
proof -
  let ?bal = "JObj [(''algorithm'', JStr (Balance b))]"
  let ?hf = "str_field ''method'' (ChkMethod b) @ str_field ''uri'' (ChkURI b)"
  let ?df = "str_field ''check'' (DSCheck b) @ int_field ''inter'' (DSInter b) @ int_field ''rise'' (DSRise b) @ int_field ''fall'' (DSFall b)"
  let ?fs = "[(''name'', JStr (BName b))] @ str_field ''mode'' (Mode b) @ [(''balance'', ?bal)] @ str_field ''adv_check'' (AdvCheck b) @
     [(''httpchk_params'', JObj ?hf), (''default_server'', JObj ?df)]"
  have h: "jlookup k ?hf = (if k = ''uri'' \<and> ChkURI b \<noteq> [] then JStr (ChkURI b) else
      if k = ''method'' \<and> ChkMethod b \<noteq> [] then JStr (ChkMethod b) else JNull)" for k by simp
  have d: "jlookup k ?df = (if k = ''fall'' \<and> DSFall b \<noteq> 0 then JInt (DSFall b) else
      if k = ''rise'' \<and> DSRise b \<noteq> 0 then JInt (DSRise b) else
      if k = ''inter'' \<and> DSInter b \<noteq> 0 then JInt (DSInter b) else
      if k = ''check'' \<and> DSCheck b \<noteq> [] then JStr (DSCheck b) else JNull)" for k
    by (simp only: append_assoc [symmetric] jlookup_simps)
  have "?fs = ([(''name'', JStr (BName b))] @ str_field ''mode'' (Mode b) @ [(''balance'', ?bal)] @ str_field ''adv_check'' (AdvCheck b) @
     [(''httpchk_params'', JObj ?hf)]) @ [(''default_server'', JObj ?df)]" by simp
  then have f: "jlookup k ?fs = (if k = ''default_server'' then JObj ?df else if k = ''httpchk_params'' then JObj ?hf else
      if k = ''adv_check'' \<and> AdvCheck b \<noteq> [] then JStr (AdvCheck b) else if k = ''balance'' then ?bal else
      if k = ''mode'' \<and> Mode b \<noteq> [] then JStr (Mode b) else jlookup k [(''name'', JStr (BName b))])" for k
    by (simp only: append_assoc [symmetric] jlookup_simps)
  show ?thesis using assms unfolding read_backend_def backend_json_def
    by (simp add: f h d cong: if_cong split del: if_split del: append.simps)
qed

section \<open>No two operations are one request\<close>

definition free_of :: "string \<Rightarrow> string \<Rightarrow> bool" where
  "free_of cs s \<longleftrightarrow> set s \<inter> set cs = {}"

text \<open>What the code puts in a path as it is, and the integers it sends.\<close>

fun raw_names :: "dreq \<Rightarrow> string list" where
  "raw_names (TxPut t) = [t]"
| "raw_names (TxDelete t) = [t]"
| "raw_names (BackendPut t b) = [BName b]"
| "raw_names (BackendDelete t n) = [n]"
| "raw_names (ServersQ b) = [b]"
| "raw_names (ServerPost t b s) = [b]"
| "raw_names (ServerPut t b s) = [b, SName s]"
| "raw_names (ServerDelete t b n) = [b, n]"
| "raw_names (EntriesQ m) = [m]"
| "raw_names (EntryPost m k v) = [m]"
| "raw_names (EntryPut m k v) = [m]"
| "raw_names (EntryDelete m k) = [m]"
| "raw_names (MapDelete m) = [m]"
| "raw_names (CertPut n pem) = [n]"
| "raw_names _ = []"

fun raw_ints :: "dreq \<Rightarrow> int list" where
  "raw_ints (TxPost v) = [v]"
| "raw_ints (BackendPost t b) = [DSInter b, DSRise b, DSFall b]"
| "raw_ints (BackendPut t b) = [DSInter b, DSRise b, DSFall b]"
| "raw_ints (ServerPost t b s) = Port s # concat (map (\<lambda>x. case x of None \<Rightarrow> [] | Some i \<Rightarrow> [i]) [Weight s, Maxconn s])"
| "raw_ints (ServerPut t b s) = Port s # concat (map (\<lambda>x. case x of None \<Rightarrow> [] | Some i \<Rightarrow> [i]) [Weight s, Maxconn s])"
| "raw_ints _ = []"

definition sendable :: "dreq \<Rightarrow> bool" where
  "sendable rq \<longleftrightarrow> list_all (free_of ''/?'') (raw_names rq) \<and> list_all int64 (raw_ints rq)"

lemma backend_json_same:
  assumes "list_all int64 [DSInter b, DSRise b, DSFall b]" and "list_all int64 [DSInter b', DSRise b', DSFall b']"
    and "backend_json b = backend_json b'"
  shows "b = b'"
proof -
  have "Some b = read_backend (backend_json b')" using read_backend_back [of b] assms by simp
  also have "\<dots> = Some b'" using read_backend_back assms(2) by simp
  finally show ?thesis by simp
qed

text \<open>Method, number of segments and the fixed segments of a path tell which operation it is.\<close>

fun op_index :: "dreq \<Rightarrow> nat" where
  "op_index InfoQ = 0"
| "op_index VersionQ = 1"
| "op_index (TxPost v) = 2"
| "op_index (TxPut t) = 3"
| "op_index (TxDelete t) = 4"
| "op_index BackendsQ = 5"
| "op_index (BackendPost t b) = 6"
| "op_index (BackendPut t b) = 7"
| "op_index (BackendDelete t n) = 8"
| "op_index (ServersQ b) = 9"
| "op_index (ServerPost t b s) = 10"
| "op_index (ServerPut t b s) = 11"
| "op_index (ServerDelete t b n) = 12"
| "op_index (EntriesQ m) = 13"
| "op_index (EntryPost m k v) = 14"
| "op_index (EntryPut m k v) = 15"
| "op_index (EntryDelete m k) = 16"
| "op_index (MapDelete m) = 17"
| "op_index CertsQ = 18"
| "op_index (CertPut n pem) = 19"
| "op_index (CertPost n pem) = 20"
| "op_index (CrtListQ n) = 21"
| "op_index (CrtListPut n t) = 22"
| "op_index (GeneralQ n) = 23"
| "op_index (GeneralPost n t) = 24"
| "op_index (GeneralPut n t) = 25"
| "op_index (StatsQ b) = 26"

definition op_mark :: "string \<times> string list \<times> (string \<times> string) list \<times> content \<Rightarrow> string \<times> nat \<times> string \<times> string" where
  "op_mark e = (case e of (meth, ps, q, x) \<Rightarrow> (meth, length ps, if 2 < length ps then ps ! 2 else [],
     if 3 < length ps \<and> ps ! 2 \<in> {''configuration'', ''storage''} then ps ! 3 else []))"

lemma op_index_mark:
  "map_of [((''GET'', 1, [], []), 0), ((''GET'', 4, ''configuration'', ''version''), 1), ((''POST'', 3, ''transactions'', []), 2),
     ((''PUT'', 4, ''transactions'', []), 3), ((''DELETE'', 4, ''transactions'', []), 4), ((''GET'', 4, ''configuration'', ''backends''), 5),
     ((''POST'', 4, ''configuration'', ''backends''), 6), ((''PUT'', 5, ''configuration'', ''backends''), 7), ((''DELETE'', 5, ''configuration'', ''backends''), 8),
     ((''GET'', 6, ''configuration'', ''backends''), 9), ((''POST'', 6, ''configuration'', ''backends''), 10), ((''PUT'', 7, ''configuration'', ''backends''), 11),
     ((''DELETE'', 7, ''configuration'', ''backends''), 12), ((''GET'', 6, ''runtime'', []), 13), ((''POST'', 6, ''runtime'', []), 14),
     ((''PUT'', 7, ''runtime'', []), 15), ((''DELETE'', 7, ''runtime'', []), 16), ((''DELETE'', 5, ''runtime'', []), 17),
     ((''GET'', 4, ''storage'', ''ssl_certificates''), 18), ((''PUT'', 5, ''storage'', ''ssl_certificates''), 19), ((''POST'', 4, ''storage'', ''ssl_certificates''), 20),
     ((''GET'', 5, ''storage'', ''ssl_crt_lists''), 21), ((''PUT'', 5, ''storage'', ''ssl_crt_lists''), 22), ((''GET'', 5, ''storage'', ''general''), 23),
     ((''POST'', 4, ''storage'', ''general''), 24), ((''PUT'', 5, ''storage'', ''general''), 25), ((''GET'', 4, ''stats'', []), 26)] (op_mark (endpoint rq)) = Some (op_index rq)"
  by (cases rq) (simp_all add: op_mark_def)

lemma endpoint_inj:
  assumes "sendable a" and "sendable b" and "endpoint a = endpoint b"
  shows "a = b"
proof -
  have ix: "op_index a = op_index b" using op_index_mark [of a] op_index_mark [of b] assms(3) by (metis option.inject)
  show ?thesis
  proof (cases a)
    case (TxPost v)
    with ix obtain w where "b = TxPost w" and "show_int v = show_int w" using assms(3) by (cases b) simp_all
    then show ?thesis using TxPost assms(1, 2) show_int_inj [of v w] by (simp add: sendable_def int64_def)
  next
    case (BackendPost t k)
    with ix obtain k' where "b = BackendPost t k'" and "backend_json k = backend_json k'" using assms(3) by (cases b) (simp_all add: txq_def)
    then show ?thesis using BackendPost assms(1, 2) backend_json_same by (simp add: sendable_def)
  next
    case (BackendPut t k)
    with ix obtain k' where "b = BackendPut t k'" and "backend_json k = backend_json k'" using assms(3) by (cases b) (simp_all add: txq_def)
    then show ?thesis using BackendPut assms(1, 2) backend_json_same by (simp add: sendable_def)
  next
    case (ServerPost t n s)
    with ix obtain s' where "b = ServerPost t n s'" and "server_json s = server_json s'" using assms(3) by (cases b) (simp_all add: txq_def)
    then show ?thesis using ServerPost server_json_inj by blast
  next
    case (ServerPut t n s)
    with ix obtain s' where "b = ServerPut t n s'" and "server_json s = server_json s'" using assms(3) by (cases b) (simp_all add: txq_def)
    then show ?thesis using ServerPut server_json_inj by blast
  qed (cases b; (use ix in \<open>simp; fail\<close>)?; (use assms(3) in \<open>simp add: txq_def entry_json_def\<close>)?)+
qed

text \<open>A path is read back at its slashes, a query at its ampersands and equal signs.\<close>

lemma endpoint_path:
  assumes "sendable rq" and "endpoint rq = (meth, ps, q, x)"
  shows "ps \<noteq> []" "\<forall>n \<in> set ps. CHR ''/'' \<notin> set n \<and> CHR ''?'' \<notin> set n"
proof -
  have "\<forall>n \<in> set (raw_names rq). CHR ''/'' \<notin> set n \<and> CHR ''?'' \<notin> set n"
    using assms(1) by (simp add: sendable_def list_all_iff free_of_def)
  then show "ps \<noteq> []" "\<forall>n \<in> set ps. CHR ''/'' \<notin> set n \<and> CHR ''?'' \<notin> set n"
    using assms(2) PathEscape_free by (cases rq; auto)+
qed

lemma join_inj:
  assumes "\<forall>x \<in> set xs. c \<notin> set x" and "\<forall>y \<in> set ys. c \<notin> set y" and "xs \<noteq> []" and "ys \<noteq> []" and "join [c] xs = join [c] ys"
  shows "xs = ys"
  by (metis assms split_on_join)

lemma join_free: "\<forall>x \<in> set xs. c \<notin> set x \<Longrightarrow> c \<notin> set sep \<Longrightarrow> c \<notin> set (join sep xs)"
  by (induction sep xs rule: join.induct) auto

lemma pair_text_inj: "pair_text a = pair_text b \<Longrightarrow> a = b"
proof -
  have "cut (CHR ''='') (pair_text kv) = Some (QueryEscape (fst kv), QueryEscape (snd kv))" for kv
    by (simp add: cut_Some pair_text_def QueryEscape_free)
  then show "pair_text a = pair_text b \<Longrightarrow> a = b" by (metis QueryEscape_eq option.inject prod.expand prod.inject)
qed

lemma query_inj:
  assumes "q \<noteq> []" and "r \<noteq> []" and "join ''&'' (map pair_text q) = join ''&'' (map pair_text r)"
  shows "q = r"
proof -
  have "CHR ''&'' \<notin> set (pair_text kv)" for kv by (simp add: pair_text_def QueryEscape_free)
  then have "map pair_text q = map pair_text r"
    using join_inj [of "map pair_text q" "CHR ''&''" "map pair_text r"] assms by simp
  then show ?thesis using pair_text_inj by (simp add: inj_map_eq_map injI)
qed

lemma url_inj:
  assumes p: "ps \<noteq> []" "\<forall>n \<in> set ps. CHR ''/'' \<notin> set n \<and> CHR ''?'' \<notin> set n"
    and r: "rs \<noteq> []" "\<forall>n \<in> set rs. CHR ''/'' \<notin> set n \<and> CHR ''?'' \<notin> set n"
    and eq: "wire_url c ps q = wire_url c rs w"
  shows "ps = rs \<and> q = w"
proof -
  let ?text = "\<lambda>q. if q = [] then [] else CHR ''?'' # join ''&'' (map pair_text q)"
  have nq: "CHR ''?'' \<notin> set (join ''/'' ps)" "CHR ''?'' \<notin> set (join ''/'' rs)" using p(2) r(2) by (simp_all add: join_free)
  have e: "join ''/'' ps @ ?text q = join ''/'' rs @ ?text w" using eq by (auto simp: wire_url_def)
  have "takeWhile (\<lambda>x. x \<noteq> CHR ''?'') (join ''/'' ps @ ?text q) = join ''/'' ps"
    "takeWhile (\<lambda>x. x \<noteq> CHR ''?'') (join ''/'' rs @ ?text w) = join ''/'' rs"
    using nq by (subst takeWhile_append2; auto)+
  then have paths: "join ''/'' ps = join ''/'' rs" using e by simp
  then have "ps = rs" using join_inj [of ps "CHR ''/''" rs] p r by simp
  moreover have "?text q = ?text w" using e paths by simp
  then have "q = w" using query_inj [of q w] by (auto split: if_splits)
  ultimately show ?thesis ..
qed

text \<open>The client leaves the names in a path as they are: a backend with a slash in its name is the path of a server.\<close>

lemma unescaped_names_collide:
  "wire_of c (BackendDelete t ''a/servers/b'') = wire_of c (ServerDelete t ''a'' ''b'')"
  by (simp add: wire_of_def wire_url_def)

text \<open>C23: Two different operations of the client are different HTTP requests, as long as the names that the code leaves
  unescaped in a path (transactions, backends, servers, maps, certificates) have no slash and no question mark and the
  integers fit in 64 bits: the method, the URL with its escaped keys and its query, and the content then determine the
  operation and every one of its arguments. The keys of the maps, which come from the tenants, are free: they can name
  no other resource. (Without the condition it fails: the lemma \<open>unescaped_names_collide\<close>.)\<close>

theorem wire_injective:
  assumes "sendable a" and "sendable b" and "wire_of c a = wire_of c b"
  shows "a = b"
proof -
  obtain m ps q x n rs w y where a: "endpoint a = (m, ps, q, x)" and b: "endpoint b = (n, rs, w, y)"
    by (metis surj_pair)
  have "m = n" "wire_url c ps q = wire_url c rs w" "x = y" using assms(3) a b by (simp_all add: wire_of_def)
  moreover have "ps = rs \<and> q = w"
    using url_inj [OF endpoint_path [OF assms(1) a] endpoint_path [OF assms(2) b]] calculation(2) by blast
  ultimately show ?thesis using endpoint_inj [OF assms(1, 2)] a b by simp
qed

definition demo_dp :: dclient where
  "demo_dp = New_dclient ''http://10.0.0.2:5555//'' ''admin'' ''secret''"

theorem wire_injective_witness:
  "wire_of demo_dp (EntryDelete ''rooms.map'' ''shop.example/a b'') \<noteq> wire_of demo_dp (EntryDelete ''rooms.map'' ''shop.example'') \<and>
   L_url (wire_of demo_dp (EntryDelete ''rooms.map'' ''shop.example/a b'')) =
     ''http://10.0.0.2:5555/v3/services/haproxy/runtime/maps/rooms.map/entries/shop.example%2Fa%20b?force_sync=true''"
proof
  have "sendable (EntryDelete ''rooms.map'' k)" for k by (simp add: sendable_def free_of_def)
  then show "wire_of demo_dp (EntryDelete ''rooms.map'' ''shop.example/a b'') \<noteq> wire_of demo_dp (EntryDelete ''rooms.map'' ''shop.example'')"
    using wire_injective [of "EntryDelete ''rooms.map'' ''shop.example/a b''" "EntryDelete ''rooms.map'' ''shop.example''" demo_dp] by auto
qed code_simp

end
