(* ===== verification/Edge_Isolation.thy ===== *)
theory Edge_Isolation
  imports Reconcile_Laws
begin

text \<open>
  The load balancers of a pass are devices of their own: a push that talks to one of them acts on its state alone, and
  does there exactly what it would do if the others did not exist. The lifting is a locale over a device inside a
  larger state, interpreted on the load balancer at a URL.
\<close>

section \<open>A device inside a larger state\<close>

lemma case_apsnd [simp]: "(case apsnd f p of (a, b) \<Rightarrow> g a b) = (case p of (a, b) \<Rightarrow> g a (f b))"
  by (cases p) simp


section \<open>The load balancer at a URL\<close>















end
