(* ===== verification/Spec2Isabelle.thy ===== *)
theory Spec2Isabelle
  imports Admitter_Laws Queue_Api_Laws Reconcile_Metrics Seed_Gaps Jobs_Follow Login_Laws Node_Laws Enroll_Laws Acme_Laws Route_Laws
    Startup_Laws Services Load_Report Dataplane_Wire Edge_Isolation
begin

text \<open>
  A verification development of flyc, a virtual waiting room in front of web sites: its Go code under control/, queue/,
  loadtest/ and internal/ as executable definitions, and the theorems that make it correct.

  \<^bold>\<open>The program.\<close> Visitors of a protected domain who find its room full are sent by the load balancers (HAProxy) to
  flyc-queue. There they get a ticket in Redis; arrivals of a few seconds form a wave, a wave is shuffled when it
  closes, and the admitter of the room (one replica at a time, by a lease) lets tickets in at the rate of the room by
  minting a pass, a signed token that the load balancers accept for the domain. flyc-control keeps the configuration in
  Postgres: tenants, domains, backends, rooms, nodes, users and keys behind an HTTP interface. Its reconciler compiles
  the tables into a desired state and pushes that to every load balancer (the HAProxy Dataplane API) and to flyc-queue;
  beside it run the issue of certificates (ACME), the jobs that a runner executes, the enrolment of bare machines and the
  rotation of the key that signs the passes, which flyc-queue fetches. A load generator plays the visitors.

  \<^bold>\<open>How the code is modelled.\<close> A struct is a record, an enumeration a datatype, a method a definition of the same name
  (with a suffix where the name is taken) that takes the state it changes and returns it with its result; an error is the
  left side of a sum, and every early return is a branch. A string is its list of bytes. Integers that can overflow are
  kept within 64 bits where that matters (the parsing of numbers, the draws as 64-bit words, the bounds of a
  configuration); doubles are rationals rounded by an argument. What the repository does not hold is an argument of the
  definitions that use it: Redis and the load balancers are functions from their state and a request to an answer and
  the next state, so that every operation may fail and may have taken effect although it failed; for Postgres the tables
  are lists of records and \<open>ok k\<close> says whether the statement number \<open>k\<close> of an operation reaches them; cryptography,
  the Unicode tables and the parsers of JSON, URLs and PEM are fields of records. What a theorem needs of them is a
  hypothesis of it or the assumption of a locale that a concrete server or device interprets, and a witness runs the
  theorem there. Concurrency is explicit: the goroutines of the hub and the protocol with the runner are the steps of
  transition systems, the requests to flyc-control a sequence, with the interleavings that break a promise as lemmas.

  \<^bold>\<open>The theories, and the code they stand for.\<close>

  The prelude. Flyc_Prelude: results, the functions of Go on strings, decimal numbers, escaping, JSON values and
  responses (internal/httpx), and the locale \<open>step_system\<close> of a state with an invariant.

  flyc-queue.
  \<^item> Room_Config (queue/internal/room): the identifiers, the configuration with its bounds and its form in Redis, the waves.
  \<^item> Redis_Model, Ticket_Store, Store_Frame, Store_Laws (queue/internal/store): the locale \<open>redis_server\<close> of what Redis
    documents, each operation as the pipelines it sends, what no operation can touch on any path, what each one does.
  \<^item> Pass_Token (internal/pass) and Signing_Keys (queue/internal/keys): the passes, and the client that keeps the key.
  \<^item> Admitter, Admitter_Laws (queue/internal/admitter): the tick with its phases and the loop with its lease.
  \<^item> Hub (queue/internal/hub): the streams of a room as a transition system.
  \<^item> Queue_Api, Queue_Api_Laws (queue/internal/api): every route from the request and the store to the response and the store.

  flyc-control, towards the data path.
  \<^item> Dataplane, Dataplane_Wire (control/internal/dataplane): the calls of the client over requests that are constructors,
    then these requests as methods, URLs and contents, and the answers as they are read.
  \<^item> Queue_Client (control/internal/queueclient): the calls to flyc-queue.
  \<^item> Compile_State (control/internal/compile): the desired state from the tables, its hash.
  \<^item> Reconcile, Push_Log, Push_Converges, Reconcile_Laws, Edge_Isolation, Reconcile_Metrics (control/internal/reconcile):
    the push to one load balancer, with the requests it makes and the configuration it leaves; the pass over all, which
    is a push of each alone (the locale \<open>inner_device\<close> of a device inside a larger state); the automatic mode, the gauges.

  flyc-control, behind its interface.
  \<^item> Postgres_Model, Control_Db: errors, tables, the state that the handlers share.
  \<^item> Control_Auth, Totp, Account_Api, Auth_Laws, Login_Laws (control/internal/auth, api.go, session.go): sessions, keys,
    the three wrappers, passwords, second factor, OIDC, accounts and users.
  \<^item> Tenant_Api, Room_Api, Tenant_Laws (api/tenant.go): domains, backends, rooms, the verification of a pass.
  \<^item> Platform_Api, Node_Laws (api/api.go, api/inventory.go, api/jobs.go): tenants, load balancers, nodes, settings, jobs.
  \<^item> Bootstrap_Model, Control_Laws (control/internal/bootstrap, crypt): the first start, the rotation of the signing key.
  \<^item> Inventory_Model, Inventory_Laws, Seed_Gaps (control/internal/inventory): the rendered inventory, the registers, the
    first filling, the comparison with the environment.
  \<^item> Jobs_Queue, Jobs_Laws, Jobs_Follow (control/internal/jobs): the queue of the jobs with the runner as steps, the loops.
  \<^item> Enroll_Api, Enroll_Laws (api/enroll.go) and Acme_Model, Acme_Laws (control/internal/acme).
  \<^item> Control_Routes, Route_Laws (Register and its parts, main): the table of the routes, the multiplexer, the gates, and
    the whole server as one function \<open>serve_control\<close>.

  Both programs. Startup, Startup_Laws, Services (the two main.go, control/internal/db/migrate.go, internal/httpx): the
  environment, the migrations, the start with all its exits, the loops it leaves running, the shutdown. Load_Visitor,
  Load_Laws, Load_Report (loadtest): the visitors of the load generator and its reports.

  \<^bold>\<open>What the theorems show.\<close>
  \<^item> Who may do what: rights come from a row of a key or of a live session (\<open>authenticate_sound\<close>); a login takes every
    factor; over the whole table of routes, requests without a valid key change nothing and get 401, another site cannot
    use the cookie of a user, a viewer changes nothing, and no sequence of requests of others changes the data of a
    tenant (\<open>server_keeps_tenants_apart\<close>); a token of enrolment that let a
    machine in lets no other in, unless that one had read it before.
  \<^item> Passes: one is handed out for an admitted ticket in force only, never above \<open>max_active\<close>; it verifies for its domain
    until it expires, also for a day after a rotation, and nothing else verifies.
  \<^item> The waiting room: closing a wave moves all of it, ends, and tickets leave in the order of their scores; a request and
    a turn of the loop touch their own room only.
  \<^item> The data path: a map, the backends and the servers converge to what is wanted, every transaction gets one
    request that ends it, foreign backends are left alone, a second push changes nothing, the desired state is closed and
    its names are unique for tidy tenants, no two operations (with plain names) are one request on the wire, and each load
    balancer is pushed as if it were alone, whatever the others answer.
  \<^item> Operation: jobs run one at a time, and once as long as the files of a finished job are removed, following the log of
    a job ends when the job does, interrupted migrations resume, a second start changes
    nothing, the registers mirror the nodes, certificates are asked for with a pause and delivered.
  Each group of lemmas serves these: frames (what an operation leaves alone), functional lemmas per operation, and one
  invariant per transition system. The executions in which the code does less than a comment says are lemmas by name.

  \<^bold>\<open>Bounds and fuel.\<close> The loop on SPOP takes fuel; \<open>CloseWave_terminates\<close> shows that one round per thousand tickets and
  one more is enough on a server that answers. The wait for a log counts its hundred beats, the connection its sixty
  attempts. The other loops of the code run over the list of what they meet (answers, turns, lines, journeys), so they
  are structural; those that stop by themselves have a lemma that they do.

  \<^bold>\<open>What is not modelled.\<close> Logs, the texts of most messages and the collectors of metrics other than the gauges of the
  reconciler, which nothing reads back; sockets, TLS, timers and signals, which are what a loop meets; the wiring of the
  goroutines, since each is the component it runs; the algorithms of argon2, ECDSA, AES-GCM, HMAC, TOTP, ACME and the
  discovery of OIDC, which are libraries; the blocking subscription to Redis (the hub takes its events as steps) and the
  retries inside the Redis client. Code in other languages is outside: the runner (Python) is the protocol it follows,
  the SQL of the migrations is an argument, and the Ansible roles, the HAProxy templates, the pages and the monitoring
  are not part of the development.
\<close>

end
